(* ===== verification/Go_Base.thy ===== *)
theory Go_Base
  imports Main "HOL-Library.Sublist"
begin

text \<open>
  The prelude of the development: fallible computations as sums, the fold of a fallible step
  over a list (the shape of every loop that returns at the first error) with the locales its
  clients use, and the collections the component proofs share.

  A Go \<^verbatim>\<open>string\<close> is a sequence of bytes, and so is HOL's \<^typ>\<open>string\<close>: a \<^typ>\<open>char\<close> is one
  byte. A \<^verbatim>\<open>(T, error)\<close> result is a value of a sum type, \<^verbatim>\<open>Inl\<close> for the error.
\<close>

section \<open>Collections\<close>

named_theorems go_defs \<open>definitions of library routines, unfolded to evaluate them\<close>
named_theorems err_simps \<open>rewriting of fallible computations\<close>
named_theorems nimbus_defs \<open>the directive handlers of the manifest parser\<close>

section \<open>Fallible computations\<close>

definition bindE :: "'e + 'a \<Rightarrow> ('a \<Rightarrow> 'e + 'b) \<Rightarrow> 'e + 'b" where
  "bindE m f = (case m of Inl e \<Rightarrow> Inl e | Inr x \<Rightarrow> f x)"

definition guardE :: "bool \<Rightarrow> 'e \<Rightarrow> 'e + unit" where
  "guardE b e = (if b then Inr () else Inl e)"

text \<open>\<^verbatim>\<open>fmt.Errorf("...: %w", err)\<close>: the error, wrapped.\<close>

definition wrapE :: "('e \<Rightarrow> 'f) \<Rightarrow> 'e + 'a \<Rightarrow> 'f + 'a" where
  "wrapE g m = (case m of Inl e \<Rightarrow> Inl (g e) | Inr x \<Rightarrow> Inr x)"

lemma bindE_simps [simp, err_simps]:
  "bindE (Inl e) f = Inl e"
  "bindE (Inr x) f = f x"
  by (simp_all add: bindE_def)

lemma bindE_Inr_iff [err_simps]: "bindE m f = Inr y \<longleftrightarrow> (\<exists>x. m = Inr x \<and> f x = Inr y)"
  by (cases m) auto

lemma bindE_Inl_iff [err_simps]:
  "bindE m f = Inl e \<longleftrightarrow> m = Inl e \<or> (\<exists>x. m = Inr x \<and> f x = Inl e)"
  by (cases m) auto

lemma guardE_Inr_iff [simp, err_simps]: "guardE b e = Inr u \<longleftrightarrow> b"
  by (simp add: guardE_def)

lemma guardE_Inl_iff [simp, err_simps]: "guardE b e = Inl e' \<longleftrightarrow> \<not> b \<and> e' = e"
  by (auto simp: guardE_def)

lemma wrapE_simps [simp, err_simps]:
  "wrapE g (Inl e) = Inl (g e)"
  "wrapE g (Inr x) = Inr x"
  by (simp_all add: wrapE_def)

lemma wrapE_Inr_iff [simp, err_simps]: "wrapE g m = Inr y \<longleftrightarrow> m = Inr y"
  by (cases m) auto

lemma wrapE_Inl_iff [err_simps]: "wrapE g m = Inl f \<longleftrightarrow> (\<exists>e. m = Inl e \<and> f = g e)"
  by (cases m) auto

section \<open>Loops that stop at the first error\<close>

fun foldE :: "('s \<Rightarrow> 'a \<Rightarrow> 'e + 's) \<Rightarrow> 's \<Rightarrow> 'a list \<Rightarrow> 'e + 's" where
  "foldE step s [] = Inr s"
| "foldE step s (x # xs) = bindE (step s x) (\<lambda>s'. foldE step s' xs)"

fun mapE :: "('a \<Rightarrow> 'e + 'b) \<Rightarrow> 'a list \<Rightarrow> 'e + 'b list" where
  "mapE f [] = Inr []"
| "mapE f (x # xs) = bindE (f x) (\<lambda>y. bindE (mapE f xs) (\<lambda>ys. Inr (y # ys)))"

lemma foldE_append:
  "foldE step s (xs @ ys) = bindE (foldE step s xs) (\<lambda>s'. foldE step s' ys)"
proof (induction xs arbitrary: s)
  case Nil
  then show ?case by simp
next
  case (Cons x xs)
  then show ?case by (cases "step s x") auto
qed

lemma mapE_Inr_list_all2: "mapE f xs = Inr ys \<Longrightarrow> list_all2 (\<lambda>x y. f x = Inr y) xs ys"
  by (induction xs arbitrary: ys) (auto simp: bindE_Inr_iff)

lemma mapE_length: "mapE f xs = Inr ys \<Longrightarrow> length ys = length xs"
  by (metis list_all2_lengthD mapE_Inr_list_all2)

lemma mapE_Inr_mem: "mapE f xs = Inr ys \<Longrightarrow> y \<in> set ys \<Longrightarrow> \<exists>x \<in> set xs. f x = Inr y"
  by (induction xs arbitrary: ys) (auto simp: bindE_Inr_iff)

text \<open>
  The contract between a loop and its body: the body keeps an invariant whenever it succeeds.
  The clients are the directive loop of the manifest parser and the archive extraction loop.
\<close>

locale preserving_step =
  fixes step :: "'s \<Rightarrow> 'a \<Rightarrow> 'e + 's"
    and inv :: "'s \<Rightarrow> bool"
  assumes step_preserves: "inv s \<Longrightarrow> step s x = Inr s' \<Longrightarrow> inv s'"
begin

lemma fold_preserves: "inv s \<Longrightarrow> foldE step s xs = Inr s' \<Longrightarrow> inv s'"
proof (induction xs arbitrary: s)
  case Nil
  then show ?case by simp
next
  case (Cons x xs)
  then obtain t where "step s x = Inr t" and "foldE step t xs = Inr s'"
    by (auto simp: bindE_Inr_iff)
  with Cons show ?case by (blast intro: step_preserves)
qed

end

text \<open>
  A body that only ever extends what is already there: a preorder every successful step
  follows, so every successful run follows it.
\<close>

locale extending_step =
  fixes step :: "'s \<Rightarrow> 'a \<Rightarrow> 'e + 's"
    and ext :: "'s \<Rightarrow> 's \<Rightarrow> bool"
  assumes ext_refl: "ext s s"
    and ext_trans: "ext s t \<Longrightarrow> ext t u \<Longrightarrow> ext s u"
    and step_extends: "step s x = Inr s' \<Longrightarrow> ext s s'"
begin

text \<open>To lie above a given state is kept by such a step.\<close>

sublocale above: preserving_step step "ext s0" for s0
  by unfold_locales (blast intro: step_extends ext_trans)

lemma fold_extends: "foldE step s xs = Inr s' \<Longrightarrow> ext s s'"
  by (rule above.fold_preserves [OF ext_refl])

end

section \<open>Two-way encodings\<close>

text \<open>
  A writer and a reference reader for what it writes: the reader gives back the value of every
  valid input, whatever follows it. The clients concatenate such encodings.
\<close>

locale prefix_codec =
  fixes enc :: "'a \<Rightarrow> 'c list"
    and dec :: "'c list \<Rightarrow> ('a \<times> 'c list) option"
    and ok :: "'a \<Rightarrow> bool"
  assumes dec_enc: "ok x \<Longrightarrow> dec (enc x @ rest) = Some (x, rest)"
begin

fun dec_n :: "nat \<Rightarrow> 'c list \<Rightarrow> ('a list \<times> 'c list) option" where
  "dec_n 0 bs = Some ([], bs)"
| "dec_n (Suc n) bs =
     (case dec bs of None \<Rightarrow> None
      | Some (x, bs') \<Rightarrow>
          (case dec_n n bs' of None \<Rightarrow> None | Some (xs, r) \<Rightarrow> Some (x # xs, r)))"

lemma dec_n_concat:
  "(\<And>x. x \<in> set xs \<Longrightarrow> ok x) \<Longrightarrow> dec_n (length xs) (concat (map enc xs) @ rest) = Some (xs, rest)"
  by (induction xs) (auto simp: dec_enc)

lemma enc_inj: "ok x \<Longrightarrow> ok y \<Longrightarrow> enc x = enc y \<Longrightarrow> x = y"
  using dec_enc [of x "[]"] dec_enc [of y "[]"] by simp

end

section \<open>Lists\<close>

lemma list_all_append_iff: "list_all P (xs @ ys) \<longleftrightarrow> list_all P xs \<and> list_all P ys"
  by auto

lemma takeWhile_dropWhile_Nil_iff: "takeWhile P xs = xs \<longleftrightarrow> (\<forall>x \<in> set xs. P x)"
  by (induction xs) auto

lemma concat_replicate_Nil [simp]: "concat (replicate n []) = []"
  by (induction n) auto

end
