(* ===== verification/Go_Strings.thy ===== *)
theory Go_Strings
  imports Go_Base
begin

text \<open>
  The routines of Go's \<^verbatim>\<open>strings\<close> package the program calls, on byte strings: prefixes,
  cutting, splitting, fields, trimming, case mapping. White space is Unicode white space in
  its UTF-8 encoding, as \<^verbatim>\<open>unicode.IsSpace\<close> has it: no lead byte of such a sequence can occur
  inside another encoding, so scanning bytes finds exactly the runes Go finds.
\<close>

abbreviation NL :: string where "NL \<equiv> [CHR 0x0A]"
abbreviation DQ :: string where "DQ \<equiv> [CHR 0x22]"
abbreviation SQ :: string where "SQ \<equiv> [CHR 0x27]"
abbreviation BSL :: string where "BSL \<equiv> [CHR 0x5C]"
abbreviation BQ :: string where "BQ \<equiv> [CHR 0x60]"
abbreviation TAB :: string where "TAB \<equiv> [CHR 0x09]"

section \<open>Prefixes, search and cutting\<close>

definition go_has_prefix :: "string \<Rightarrow> string \<Rightarrow> bool" where
  "go_has_prefix s p \<longleftrightarrow> take (length p) s = p"

definition go_has_suffix :: "string \<Rightarrow> string \<Rightarrow> bool" where
  "go_has_suffix s p \<longleftrightarrow> drop (length s - length p) s = p"

definition go_trim_prefix :: "string \<Rightarrow> string \<Rightarrow> string" where
  "go_trim_prefix s p = (if go_has_prefix s p then drop (length p) s else s)"

definition go_trim_suffix :: "string \<Rightarrow> string \<Rightarrow> string" where
  "go_trim_suffix s p = (if go_has_suffix s p then take (length s - length p) s else s)"

fun go_index :: "string \<Rightarrow> string \<Rightarrow> nat option" where
  "go_index [] sub = (if sub = [] then Some 0 else None)"
| "go_index (c # cs) sub =
     (if go_has_prefix (c # cs) sub then Some 0 else map_option Suc (go_index cs sub))"

definition go_contains :: "string \<Rightarrow> string \<Rightarrow> bool" where
  "go_contains s sub \<longleftrightarrow> go_index s sub \<noteq> None"

definition go_contains_any :: "string \<Rightarrow> string \<Rightarrow> bool" where
  "go_contains_any s chars \<longleftrightarrow> list_ex (\<lambda>c. c \<in> set chars) s"

definition go_cut :: "string \<Rightarrow> string \<Rightarrow> string \<times> string \<times> bool" where
  "go_cut s sep =
     (case go_index s sep of
        None \<Rightarrow> (s, [], False)
      | Some i \<Rightarrow> (take i s, drop (i + length sep) s, True))"

definition go_last_index_any :: "string \<Rightarrow> string \<Rightarrow> nat option" where
  "go_last_index_any s chars =
     (let r = dropWhile (\<lambda>c. c \<notin> set chars) (rev s)
      in if r = [] then None else Some (length r - 1))"

definition go_trim_right :: "string \<Rightarrow> string \<Rightarrow> string" where
  "go_trim_right s cutset = rev (dropWhile (\<lambda>c. c \<in> set cutset) (rev s))"

definition go_trim_left :: "string \<Rightarrow> string \<Rightarrow> string" where
  "go_trim_left s cutset = dropWhile (\<lambda>c. c \<in> set cutset) s"

section \<open>Splitting, joining and replacing\<close>

fun go_split :: "char \<Rightarrow> string \<Rightarrow> string list" where
  "go_split c [] = [[]]"
| "go_split c (x # xs) =
     (if x = c then [] # go_split c xs
      else (case go_split c xs of [] \<Rightarrow> [[x]] | w # ws \<Rightarrow> (x # w) # ws))"

fun go_join :: "string list \<Rightarrow> string \<Rightarrow> string" where
  "go_join [] sep = []"
| "go_join [w] sep = w"
| "go_join (w # v # ws) sep = w @ sep @ go_join (v # ws) sep"

text \<open>\<^verbatim>\<open>strings.ReplaceAll\<close> for a non-empty \<^verbatim>\<open>old\<close>.\<close>

function go_replace_all :: "string \<Rightarrow> string \<Rightarrow> string \<Rightarrow> string" where
  "go_replace_all s old new =
     (if s = [] then []
      else if old \<noteq> [] \<and> go_has_prefix s old then new @ go_replace_all (drop (length old) s) old new
      else hd s # go_replace_all (tl s) old new)"
  by pat_completeness auto
termination
  by (relation "measure (\<lambda>(s, _, _). length s)") auto

declare go_replace_all.simps [simp del]

section \<open>White space\<close>

definition ascii_space :: "char \<Rightarrow> bool" where
  "ascii_space c \<longleftrightarrow>
     c \<in> set [CHR 0x09, CHR 0x0A, CHR 0x0B, CHR 0x0C, CHR 0x0D, CHR 0x20]"

definition space3 :: "char \<Rightarrow> char \<Rightarrow> char \<Rightarrow> bool" where
  "space3 a b c \<longleftrightarrow>
     (a = CHR 0xE1 \<and> b = CHR 0x9A \<and> c = CHR 0x80) \<or>
     (a = CHR 0xE2 \<and> b = CHR 0x80 \<and>
        ((128 \<le> (of_char c :: nat) \<and> (of_char c :: nat) \<le> 138) \<or>
         c \<in> set [CHR 0xA8, CHR 0xA9, CHR 0xAF])) \<or>
     (a = CHR 0xE2 \<and> b = CHR 0x81 \<and> c = CHR 0x9F) \<or>
     (a = CHR 0xE3 \<and> b = CHR 0x80 \<and> c = CHR 0x80)"

text \<open>The number of bytes of the white-space rune a string starts with, 0 when none.\<close>

definition space_len :: "string \<Rightarrow> nat" where
  "space_len s =
     (case s of [] \<Rightarrow> 0
      | a # r \<Rightarrow> if ascii_space a then 1
        else (case r of [] \<Rightarrow> 0
              | b # r' \<Rightarrow> if a = CHR 0xC2 \<and> (b = CHR 0x85 \<or> b = CHR 0xA0) then 2
                else (case r' of [] \<Rightarrow> 0 | c # _ \<Rightarrow> if space3 a b c then 3 else 0)))"

text \<open>The same at the end of a string, which is given reversed.\<close>

definition space_len_rev :: "string \<Rightarrow> nat" where
  "space_len_rev s =
     (case s of [] \<Rightarrow> 0
      | a # r \<Rightarrow> if ascii_space a then 1
        else (case r of [] \<Rightarrow> 0
              | b # r' \<Rightarrow> if b = CHR 0xC2 \<and> (a = CHR 0x85 \<or> a = CHR 0xA0) then 2
                else (case r' of [] \<Rightarrow> 0 | c # _ \<Rightarrow> if space3 c b a then 3 else 0)))"

function trim_left_space :: "string \<Rightarrow> string" where
  "trim_left_space s =
     (if s = [] \<or> space_len s = 0 then s else trim_left_space (drop (space_len s) s))"
  by pat_completeness auto
termination
  by (relation "measure length") auto

function trim_left_space_rev :: "string \<Rightarrow> string" where
  "trim_left_space_rev s =
     (if s = [] \<or> space_len_rev s = 0 then s
      else trim_left_space_rev (drop (space_len_rev s) s))"
  by pat_completeness auto
termination
  by (relation "measure length") auto

declare trim_left_space.simps [simp del] trim_left_space_rev.simps [simp del]

definition go_trim_space :: "string \<Rightarrow> string" where
  "go_trim_space s = rev (trim_left_space_rev (rev (trim_left_space s)))"

text \<open>\<^verbatim>\<open>strings.Fields\<close>: the maximal runs of bytes that start no white space.\<close>

function fields_aux :: "string \<Rightarrow> string \<Rightarrow> string list" where
  "fields_aux s acc =
     (if s = [] then (if acc = [] then [] else [rev acc])
      else if space_len s = 0 then fields_aux (tl s) (hd s # acc)
      else (if acc = [] then [] else [rev acc]) @ fields_aux (drop (space_len s) s) [])"
  by pat_completeness auto
termination
  by (relation "measure (\<lambda>(s, _). length s)") auto

declare fields_aux.simps [simp del]

definition go_fields :: "string \<Rightarrow> string list" where
  "go_fields s = fields_aux s []"

section \<open>Case mapping\<close>

text \<open>
  \<^verbatim>\<open>strings.ToUpper\<close> and \<^verbatim>\<open>strings.ToLower\<close> as far as the program can observe them: it compares
  the result with ASCII names. The two runes beyond ASCII whose upper case is ASCII (dotless i,
  long s) and the two whose lower case is (dotted capital I, the Kelvin sign) are mapped; every
  other byte sequence beyond ASCII stays beyond ASCII in both, so it equals no such name.
\<close>

definition upper_char :: "char \<Rightarrow> char" where
  "upper_char c = (let n = of_char c :: nat in if 97 \<le> n \<and> n \<le> 122 then char_of (n - 32) else c)"

definition lower_char :: "char \<Rightarrow> char" where
  "lower_char c = (let n = of_char c :: nat in if 65 \<le> n \<and> n \<le> 90 then char_of (n + 32) else c)"

fun go_to_upper :: "string \<Rightarrow> string" where
  "go_to_upper [] = []"
| "go_to_upper [c] = [upper_char c]"
| "go_to_upper (c # d # cs) =
     (if c = CHR 0xC4 \<and> d = CHR 0xB1 then CHR ''I'' # go_to_upper cs
      else if c = CHR 0xC5 \<and> d = CHR 0xBF then CHR ''S'' # go_to_upper cs
      else upper_char c # go_to_upper (d # cs))"

fun go_to_lower :: "string \<Rightarrow> string" where
  "go_to_lower [] = []"
| "go_to_lower [c] = [lower_char c]"
| "go_to_lower [c, d] =
     (if c = CHR 0xC4 \<and> d = CHR 0xB0 then ''i'' else lower_char c # go_to_lower [d])"
| "go_to_lower (c # d # e # cs) =
     (if c = CHR 0xC4 \<and> d = CHR 0xB0 then CHR ''i'' # go_to_lower (e # cs)
      else if c = CHR 0xE2 \<and> d = CHR 0x84 \<and> e = CHR 0xAA then CHR ''k'' # go_to_lower cs
      else lower_char c # go_to_lower (d # e # cs))"

section \<open>Lemmas\<close>

lemma go_has_prefix_iff: "go_has_prefix s p \<longleftrightarrow> (\<exists>r. s = p @ r)"
  by (metis append_eq_conv_conj append_take_drop_id go_has_prefix_def)

lemma go_has_prefix_append [simp]: "go_has_prefix (p @ r) p"
  by (simp add: go_has_prefix_def)

lemma go_has_prefix_Nil [simp]: "go_has_prefix s []"
  by (simp add: go_has_prefix_def)

lemma go_has_prefix_Cons [simp]:
  "go_has_prefix [] (c # p) = False"
  "go_has_prefix (d # s) (c # p) \<longleftrightarrow> d = c \<and> go_has_prefix s p"
  by (auto simp: go_has_prefix_def)

lemma go_index_Some: "go_index s sub = Some i \<Longrightarrow> s = take i s @ sub @ drop (i + length sub) s"
proof (induction s sub arbitrary: i rule: go_index.induct)
  case (1 sub)
  then show ?case by (auto split: if_splits)
next
  case (2 c cs sub)
  show ?case
  proof (cases "go_has_prefix (c # cs) sub")
    case True
    with "2.prems" have "i = 0" by simp
    with True show ?thesis by (auto simp: go_has_prefix_iff)
  next
    case False
    with "2.prems" obtain j where j: "go_index cs sub = Some j" "i = Suc j" by auto
    from "2.IH" [OF False j(1)] j(2) show ?thesis by simp
  qed
qed

lemma go_cut_True: "go_cut s sep = (a, b, True) \<Longrightarrow> s = a @ sep @ b"
  by (auto simp: go_cut_def dest: go_index_Some split: option.splits)

lemma go_cut_False: "go_cut s sep = (a, b, False) \<Longrightarrow> a = s \<and> b = []"
  by (auto simp: go_cut_def split: option.splits)

lemma go_index_char: "go_index s [c] =
    (if c \<in> set s then Some (length (takeWhile (\<lambda>x. x \<noteq> c) s)) else None)"
  by (induction s) auto

lemma go_cut_char: "go_cut s [c] =
    (takeWhile (\<lambda>x. x \<noteq> c) s, tl (dropWhile (\<lambda>x. x \<noteq> c) s), c \<in> set s)"
proof (cases "c \<in> set s")
  case True
  have t: "take (length (takeWhile (\<lambda>x. x \<noteq> c) s)) s = takeWhile (\<lambda>x. x \<noteq> c) s"
    by (metis takeWhile_eq_take)
  have d: "drop (Suc (length (takeWhile (\<lambda>x. x \<noteq> c) s))) s = tl (dropWhile (\<lambda>x. x \<noteq> c) s)"
    by (metis drop_Suc dropWhile_eq_drop tl_drop)
  from True t d show ?thesis by (simp add: go_cut_def go_index_char)
next
  case False
  then have t: "takeWhile (\<lambda>x. x \<noteq> c) s = s" by (induction s) auto
  from False have d: "dropWhile (\<lambda>x. x \<noteq> c) s = []" by (induction s) auto
  from False have n: "(c \<in> set s) = False" by simp
  show ?thesis
    unfolding go_cut_def go_index_char t d n by simp
qed

lemma go_contains_char [simp]: "go_contains s [c] \<longleftrightarrow> c \<in> set s"
  by (simp add: go_contains_def go_index_char)

lemma go_contains_any_iff: "go_contains_any s chars \<longleftrightarrow> set s \<inter> set chars \<noteq> {}"
  by (auto simp: go_contains_any_def list_ex_iff)

lemma go_contains_any_append [simp]:
  "go_contains_any (s @ t) chars \<longleftrightarrow> go_contains_any s chars \<or> go_contains_any t chars"
  by (simp add: go_contains_any_def)

lemma go_split_nonempty [simp]: "go_split c s \<noteq> []"
  by (induction s) (auto split: list.splits)

lemma go_join_split: "go_join (go_split c s) [c] = s"
proof (induction s)
  case Nil
  then show ?case by simp
next
  case (Cons x xs)
  obtain w ws where g: "go_split c xs = w # ws" by (cases "go_split c xs") auto
  with Cons show ?case by (cases ws) auto
qed

lemma go_split_no_sep: "w \<in> set (go_split c s) \<Longrightarrow> c \<notin> set w"
  by (induction s arbitrary: w) (auto split: if_splits list.splits)

lemma go_split_id: "c \<notin> set s \<Longrightarrow> go_split c s = [s]"
  by (induction s) auto

lemma go_split_append: "c \<notin> set s \<Longrightarrow> go_split c (s @ c # t) = s # go_split c t"
  by (induction s) auto

lemma go_split_join: "ws \<noteq> [] \<Longrightarrow> (\<And>w. w \<in> set ws \<Longrightarrow> c \<notin> set w) \<Longrightarrow> go_split c (go_join ws [c]) = ws"
  by (induction ws "[c]" rule: go_join.induct) (auto simp: go_split_id go_split_append)

lemma go_join_map_Cons: "ws \<noteq> [] \<Longrightarrow> go_join (w # ws) sep = w @ sep @ go_join ws sep"
  by (cases ws) auto

lemma go_replace_all_Nil [simp]: "go_replace_all [] old new = []"
  by (simp add: go_replace_all.simps)

lemma go_replace_all_char:
  "go_replace_all s [c] new = concat (map (\<lambda>x. if x = c then new else [x]) s)"
proof (induction s)
  case (Cons x xs)
  then show ?case by (subst go_replace_all.simps) simp
qed simp

lemma space_len_le: "space_len s \<le> length s"
  by (auto simp: space_len_def split: list.splits)

lemma space_len_Nil [simp]: "space_len [] = 0"
  by (simp add: space_len_def)

lemma fields_aux_no_empty: "w \<in> set (fields_aux s acc) \<Longrightarrow> w \<noteq> []"
proof (induction s acc rule: fields_aux.induct)
  case (1 s acc)
  show ?case
    using "1.prems" "1.IH"
    by (subst (asm) fields_aux.simps [of s acc]) (auto split: if_splits)
qed

lemma go_fields_no_empty: "w \<in> set (go_fields s) \<Longrightarrow> w \<noteq> []"
  by (auto simp: go_fields_def dest: fields_aux_no_empty)

lemma set_fields_aux: "w \<in> set (fields_aux s acc) \<Longrightarrow> set w \<subseteq> set s \<union> set acc"
proof (induction s acc rule: fields_aux.induct)
  case (1 s acc)
  have tl_sub: "s \<noteq> [] \<Longrightarrow> set (tl s) \<subseteq> set s" by (cases s) auto
  have hd_in: "s \<noteq> [] \<Longrightarrow> hd s \<in> set s" by (cases s) auto
  have drop_sub: "set (drop (space_len s) s) \<subseteq> set s" by (rule set_drop_subset)
  show ?case
    using "1.prems" "1.IH" tl_sub hd_in drop_sub
    by (subst (asm) fields_aux.simps [of s acc]) (fastforce split: if_splits)
qed

lemma set_go_fields: "w \<in> set (go_fields s) \<Longrightarrow> set w \<subseteq> set s"
  using set_fields_aux [of w s "[]"] by (simp add: go_fields_def)

lemma fields_aux_no_space:
  "w \<in> set (fields_aux s acc) \<Longrightarrow> (\<forall>c \<in> set acc. \<not> ascii_space c) \<Longrightarrow> c \<in> set w \<Longrightarrow> \<not> ascii_space c"
proof (induction s acc arbitrary: w c rule: fields_aux.induct)
  case (1 s acc)
  have h: "s \<noteq> [] \<Longrightarrow> space_len s = 0 \<Longrightarrow> \<not> ascii_space (hd s)"
    by (cases s) (auto simp: space_len_def split: if_splits)
  show ?case
    using "1.prems" "1.IH" h
    by (subst (asm) fields_aux.simps [of s acc]) (auto split: if_splits)
qed

lemma go_fields_no_space: "w \<in> set (go_fields s) \<Longrightarrow> c \<in> set w \<Longrightarrow> \<not> ascii_space c"
  using fields_aux_no_space [of w s "[]"] by (simp add: go_fields_def)

lemma trim_left_space_suffix: "\<exists>p. s = p @ trim_left_space s"
proof (induction s rule: trim_left_space.induct)
  case (1 s)
  show ?case
  proof (cases "s = [] \<or> space_len s = 0")
    case True
    then show ?thesis by (subst trim_left_space.simps) auto
  next
    case False
    with "1.IH" obtain p where "drop (space_len s) s = p @ trim_left_space (drop (space_len s) s)"
      by blast
    then have "s = (take (space_len s) s @ p) @ trim_left_space (drop (space_len s) s)"
      by (metis append.assoc append_take_drop_id)
    moreover have "trim_left_space s = trim_left_space (drop (space_len s) s)"
      using False trim_left_space.simps [of s] by simp
    ultimately show ?thesis by metis
  qed
qed

lemma trim_left_space_rev_suffix: "\<exists>p. s = p @ trim_left_space_rev s"
proof (induction s rule: trim_left_space_rev.induct)
  case (1 s)
  show ?case
  proof (cases "s = [] \<or> space_len_rev s = 0")
    case True
    then show ?thesis by (subst trim_left_space_rev.simps) auto
  next
    case False
    with "1.IH" obtain p where
      "drop (space_len_rev s) s = p @ trim_left_space_rev (drop (space_len_rev s) s)"
      by blast
    then have "s = (take (space_len_rev s) s @ p) @ trim_left_space_rev (drop (space_len_rev s) s)"
      by (metis append.assoc append_take_drop_id)
    moreover have "trim_left_space_rev s = trim_left_space_rev (drop (space_len_rev s) s)"
      using False trim_left_space_rev.simps [of s] by simp
    ultimately show ?thesis by metis
  qed
qed

lemma set_go_trim_space: "set (go_trim_space s) \<subseteq> set s"
  using trim_left_space_suffix [of s] trim_left_space_rev_suffix [of "rev (trim_left_space s)"]
  unfolding go_trim_space_def
  by (metis (no_types, lifting) Un_upper2 set_append set_rev subset_trans)

lemma go_trim_space_Nil [simp]: "go_trim_space [] = []"
  by (simp add: go_trim_space_def trim_left_space.simps trim_left_space_rev.simps)

end
