(* ===== verification/Go_Strconv.thy ===== *)
theory Go_Strconv
  imports Go_Strings
begin

text \<open>
  Conversions of Go's standard library: \<^verbatim>\<open>strconv\<close> (64-bit \<^verbatim>\<open>int\<close>, as on every host the
  program supports), \<^verbatim>\<open>encoding/hex\<close>, UTF-8, the string arrays of \<^verbatim>\<open>encoding/json\<close>, and
  \<^verbatim>\<open>net.ParseIP\<close>.
\<close>

abbreviation code :: "char \<Rightarrow> nat" where "code c \<equiv> of_char c"

section \<open>Digits and integers\<close>

definition is_digit :: "char \<Rightarrow> bool" where
  "is_digit c \<longleftrightarrow> 48 \<le> code c \<and> code c \<le> 57"

definition is_hex :: "char \<Rightarrow> bool" where
  "is_hex c \<longleftrightarrow> is_digit c \<or> (97 \<le> code c \<and> code c \<le> 102) \<or> (65 \<le> code c \<and> code c \<le> 70)"

definition hex_val :: "char \<Rightarrow> nat" where
  "hex_val c = (if is_digit c then code c - 48
     else if 97 \<le> code c then code c - 87 else code c - 55)"

definition digits_val :: "nat \<Rightarrow> string \<Rightarrow> nat" where
  "digits_val base s = foldl (\<lambda>n c. base * n + hex_val c) 0 s"

text \<open>\<^verbatim>\<open>strconv.Atoi\<close>: an optional sign, decimal digits, the range of \<^verbatim>\<open>int\<close>.\<close>

definition go_atoi :: "string \<Rightarrow> int option" where
  "go_atoi s =
     (let (neg, ds) = (case s of [] \<Rightarrow> (False, [])
                       | c # r \<Rightarrow> if c = CHR ''-'' then (True, r)
                                  else if c = CHR ''+'' then (False, r) else (False, s))
      in if ds = [] \<or> \<not> list_all is_digit ds then None
         else let v = int (digits_val 10 ds)
              in if neg then (if v \<le> 2 ^ 63 then Some (- v) else None)
                 else (if v < 2 ^ 63 then Some v else None))"

text \<open>\<^verbatim>\<open>strconv.ParseInt(s, 10, 64)\<close> accepts the same strings as \<^verbatim>\<open>Atoi\<close> on a 64-bit host.\<close>

text \<open>\<^verbatim>\<open>strconv.ParseUint(s, 8, 32)\<close>: octal digits only, no sign, at most 32 bits.\<close>

definition go_parse_octal32 :: "string \<Rightarrow> nat option" where
  "go_parse_octal32 s =
     (if s = [] \<or> \<not> list_all (\<lambda>c. is_digit c \<and> code c \<le> 55) s then None
      else let v = digits_val 8 s in if v < 2 ^ 32 then Some v else None)"

definition go_parse_bool :: "string \<Rightarrow> bool option" where
  "go_parse_bool s =
     (if s \<in> set [''1'', ''t'', ''T'', ''TRUE'', ''true'', ''True''] then Some True
      else if s \<in> set [''0'', ''f'', ''F'', ''FALSE'', ''false'', ''False''] then Some False
      else None)"

fun nat_dec :: "nat \<Rightarrow> string" where
  "nat_dec n = (if n < 10 then [char_of (48 + n)] else nat_dec (n div 10) @ [char_of (48 + n mod 10)])"

declare nat_dec.simps [simp del]

definition int_dec :: "int \<Rightarrow> string" where
  "int_dec i = (if i < 0 then ''-'' @ nat_dec (nat (- i)) else nat_dec (nat i))"

text \<open>\<^verbatim>\<open>encoding/hex\<close>: two digits a byte, most significant first.\<close>

fun go_hex_decode :: "string \<Rightarrow> string option" where
  "go_hex_decode [] = Some []"
| "go_hex_decode [c] = None"
| "go_hex_decode (c # d # cs) =
     (if is_hex c \<and> is_hex d
      then map_option (\<lambda>bs. char_of (16 * hex_val c + hex_val d) # bs) (go_hex_decode cs)
      else None)"

definition hex_digit :: "nat \<Rightarrow> char" where
  "hex_digit n = (if n < 10 then char_of (48 + n) else char_of (87 + n))"

definition go_hex_encode :: "string \<Rightarrow> string" where
  "go_hex_encode s = concat (map (\<lambda>c. [hex_digit (code c div 16), hex_digit (code c mod 16)]) s)"

section \<open>UTF-8\<close>

definition is_cont :: "char \<Rightarrow> bool" where
  "is_cont c \<longleftrightarrow> 128 \<le> code c \<and> code c \<le> 191"

text \<open>\<^verbatim>\<open>utf8.DecodeRuneInString\<close>: the rune and its size; an invalid sequence is U+FFFD of size 1.\<close>

definition decode_rune :: "string \<Rightarrow> nat \<times> nat" where
  "decode_rune s =
     (case s of [] \<Rightarrow> (65533, 0)
      | a # r \<Rightarrow>
        let x = code a in
        if x < 128 then (x, 1)
        else if 194 \<le> x \<and> x \<le> 223 then
          (case r of b # _ \<Rightarrow> if is_cont b then (64 * (x - 192) + (code b - 128), 2) else (65533, 1)
           | [] \<Rightarrow> (65533, 1))
        else if 224 \<le> x \<and> x \<le> 239 then
          (case r of b # c # _ \<Rightarrow>
             if is_cont b \<and> is_cont c \<and> (x = 224 \<longrightarrow> 160 \<le> code b) \<and> (x = 237 \<longrightarrow> code b \<le> 159)
             then (4096 * (x - 224) + 64 * (code b - 128) + (code c - 128), 3) else (65533, 1)
           | _ \<Rightarrow> (65533, 1))
        else if 240 \<le> x \<and> x \<le> 244 then
          (case r of b # c # d # _ \<Rightarrow>
             if is_cont b \<and> is_cont c \<and> is_cont d \<and> (x = 240 \<longrightarrow> 144 \<le> code b) \<and> (x = 244 \<longrightarrow> code b \<le> 143)
             then (262144 * (x - 240) + 4096 * (code b - 128) + 64 * (code c - 128) + (code d - 128), 4)
             else (65533, 1)
           | _ \<Rightarrow> (65533, 1))
        else (65533, 1))"

definition encode_rune :: "nat \<Rightarrow> string" where
  "encode_rune n =
     (if n < 128 then [char_of n]
      else if n < 2048 then [char_of (192 + n div 64), char_of (128 + n mod 64)]
      else if (55296 \<le> n \<and> n \<le> 57343) \<or> 1114111 < n then [CHR 0xEF, CHR 0xBF, CHR 0xBD]
      else if n < 65536 then
        [char_of (224 + n div 4096), char_of (128 + n div 64 mod 64), char_of (128 + n mod 64)]
      else [char_of (240 + n div 262144), char_of (128 + n div 4096 mod 64),
            char_of (128 + n div 64 mod 64), char_of (128 + n mod 64)])"

lemma decode_rune_size: "s \<noteq> [] \<Longrightarrow> 0 < snd (decode_rune s)"
  by (auto simp: decode_rune_def Let_def split: list.splits)

text \<open>The runes a \<^verbatim>\<open>range\<close> loop over a string visits.\<close>

function go_runes :: "string \<Rightarrow> nat list" where
  "go_runes s =
     (if s = [] then [] else fst (decode_rune s) # go_runes (drop (snd (decode_rune s)) s))"
  by pat_completeness auto
termination
proof (relation "measure length", goal_cases)
  case (2 s)
  then have "0 < snd (decode_rune s)" by (rule decode_rune_size)
  with 2 show ?case by (cases s) auto
qed simp

declare go_runes.simps [simp del]

section \<open>JSON arrays of strings\<close>

definition json_ws :: "char \<Rightarrow> bool" where
  "json_ws c \<longleftrightarrow> c \<in> set [CHR 0x20, CHR 0x09, CHR 0x0D, CHR 0x0A]"

definition hex4 :: "string \<Rightarrow> nat option" where
  "hex4 s = (if length s < 4 \<or> \<not> list_all is_hex (take 4 s) then None
             else Some (digits_val 16 (take 4 s)))"

definition json_escape :: "char \<Rightarrow> char option" where
  "json_escape c = map_of
     [(CHR 0x22, CHR 0x22), (CHR 0x5C, CHR 0x5C), (CHR ''/'', CHR ''/''), (CHR ''b'', CHR 0x08),
      (CHR ''f'', CHR 0x0C), (CHR ''n'', CHR 0x0A), (CHR ''r'', CHR 0x0D), (CHR ''t'', CHR 0x09)] c"

abbreviation is_surrogate :: "nat \<Rightarrow> bool" where
  "is_surrogate n \<equiv> 55296 \<le> n \<and> n \<le> 57343"

text \<open>The second half of a surrogate pair, if one follows: the rune and what is left.\<close>

definition low_surrogate :: "nat \<Rightarrow> string \<Rightarrow> (nat \<times> string) option" where
  "low_surrogate hi s =
     (case s of
        b # u # r \<Rightarrow>
          (if b = CHR 0x5C \<and> u = CHR ''u'' then
             (case hex4 r of
                Some lo \<Rightarrow> if hi < 56320 \<and> 56320 \<le> lo \<and> lo \<le> 57343
                  then Some (65536 + 1024 * (hi - 55296) + (lo - 56320), drop 4 r) else None
              | None \<Rightarrow> None)
           else None)
      | _ \<Rightarrow> None)"

lemma low_surrogate_length: "low_surrogate hi s = Some (v, r) \<Longrightarrow> length r < length s"
  by (auto simp: low_surrogate_def split: list.splits if_splits option.splits)

text \<open>
  One unit of a JSON string: the closing quote (no bytes), or the bytes an escape or a character
  stands for; and what follows it.
\<close>

definition json_unicode :: "string \<Rightarrow> (string option \<times> string) option" where
  "json_unicode s =
     (case hex4 s of None \<Rightarrow> None
      | Some n \<Rightarrow>
        if is_surrogate n then
          (case low_surrogate n (drop 4 s) of
             Some (v, r) \<Rightarrow> Some (Some (encode_rune v), r)
           | None \<Rightarrow> Some (Some (encode_rune 65533), drop 4 s))
        else Some (Some (encode_rune n), drop 4 s))"

definition json_piece :: "string \<Rightarrow> (string option \<times> string) option" where
  "json_piece s =
     (case s of [] \<Rightarrow> None
      | c # r \<Rightarrow>
        if c = CHR 0x22 then Some (None, r)
        else if c = CHR 0x5C then
          (case r of [] \<Rightarrow> None
           | e # r' \<Rightarrow>
             if e = CHR ''u'' then json_unicode r'
             else (case json_escape e of None \<Rightarrow> None | Some x \<Rightarrow> Some (Some [x], r')))
        else if code c < 32 then None
        else Some (Some (encode_rune (fst (decode_rune s))), drop (snd (decode_rune s)) s))"

lemma json_unicode_length: "json_unicode s = Some (w, r) \<Longrightarrow> length r \<le> length s"
  by (auto simp: json_unicode_def dest!: low_surrogate_length split: option.splits if_splits)

lemma json_piece_length: "json_piece s = Some (w, r) \<Longrightarrow> length r < length s"
proof (cases s)
  case (Cons c t)
  have pos: "0 < snd (decode_rune (c # t))" by (rule decode_rune_size) simp
  assume "json_piece s = Some (w, r)"
  with Cons pos show ?thesis
    by (auto simp: json_piece_def dest!: json_unicode_length split: if_splits list.splits option.splits)
qed (simp add: json_piece_def)

text \<open>A JSON string after its opening quote: its value and the rest of the input.\<close>

function json_str :: "string \<Rightarrow> (string \<times> string) option" where
  "json_str s =
     (case json_piece s of
        None \<Rightarrow> None
      | Some (None, r) \<Rightarrow> Some ([], r)
      | Some (Some w, r) \<Rightarrow> map_option (apfst ((@) w)) (json_str r))"
  by pat_completeness auto
termination
  by (relation "measure length") (auto dest: json_piece_length)

declare json_str.simps [simp del]

lemma json_str_length: "json_str s = Some (v, r) \<Longrightarrow> length r < length s"
proof (induction s arbitrary: v r rule: json_str.induct)
  case (1 s)
  from "1.prems" obtain w r1 where p: "json_piece s = Some (w, r1)"
    by (subst (asm) json_str.simps) (auto split: option.splits)
  note l = json_piece_length [OF p]
  show ?case
  proof (cases w)
    case None
    with "1.prems" p l show ?thesis by (subst (asm) json_str.simps) simp
  next
    case (Some x)
    with "1.prems" p obtain v' where "json_str r1 = Some (v', r)"
      by (subst (asm) json_str.simps) auto
    from "1.IH" [OF p refl Some this] l show ?thesis by simp
  qed
qed

definition json_elem :: "string \<Rightarrow> (string \<times> string) option" where
  "json_elem s =
     (case s of [] \<Rightarrow> None
      | c # r \<Rightarrow> if c = CHR 0x22 then json_str r
                 else if go_has_prefix s ''null'' then Some ([], drop 4 s) else None)"

lemma json_elem_length: "json_elem s = Some (v, r) \<Longrightarrow> length r < length s"
  by (auto simp: json_elem_def split: list.splits if_splits dest!: json_str_length)

text \<open>The elements of an array, each after its white space, up to the closing bracket.\<close>

function json_elems :: "string \<Rightarrow> string list option" where
  "json_elems s =
     (case json_elem (dropWhile json_ws s) of None \<Rightarrow> None
      | Some (v, r) \<Rightarrow>
        (case dropWhile json_ws r of [] \<Rightarrow> None
         | c # r' \<Rightarrow>
           if c = CHR '','' then map_option ((#) v) (json_elems r')
           else if c = CHR '']'' \<and> list_all json_ws r' then Some [v] else None))"
  by pat_completeness auto
termination
proof (relation "measure length", goal_cases)
  case (2 s p v r c r')
  then have "length r < length (dropWhile json_ws s)" by (auto dest: json_elem_length)
  moreover have "length (dropWhile json_ws s) \<le> length s" by (rule length_dropWhile_le)
  moreover have "length (dropWhile json_ws r) \<le> length r" by (rule length_dropWhile_le)
  ultimately show ?case using 2 by simp
qed simp

declare json_elems.simps [simp del]

text \<open>\<^verbatim>\<open>json.Unmarshal\<close> into a \<^verbatim>\<open>[]string\<close> of a text that starts with a bracket.\<close>

definition go_json_strings :: "string \<Rightarrow> string list option" where
  "go_json_strings s =
     (case s of [] \<Rightarrow> None
      | b # r \<Rightarrow>
        if b \<noteq> CHR ''['' then None
        else (case dropWhile json_ws r of
                c # r' \<Rightarrow> if c = CHR '']'' then (if list_all json_ws r' then Some [] else None)
                           else json_elems r
              | [] \<Rightarrow> None))"

section \<open>IP addresses\<close>

definition ipv4_octet :: "string \<Rightarrow> bool" where
  "ipv4_octet s \<longleftrightarrow> s \<noteq> [] \<and> list_all is_digit s \<and> (length s = 1 \<or> hd s \<noteq> CHR ''0'') \<and>
     length s \<le> 3 \<and> digits_val 10 s \<le> 255"

definition ipv4_ok :: "string \<Rightarrow> bool" where
  "ipv4_ok s \<longleftrightarrow> (let ps = go_split CHR ''.'' s in length ps = 4 \<and> list_all ipv4_octet ps)"

definition ipv6_end :: "nat \<Rightarrow> bool \<Rightarrow> string \<Rightarrow> bool" where
  "ipv6_end i ell s \<longleftrightarrow> s = [] \<and> (if i < 16 then ell else \<not> ell)"

text \<open>
  The loop of \<^verbatim>\<open>netip.ParseAddr\<close> on an IPv6 text: bytes filled so far, whether an ellipsis was
  seen, the rest of the text.
\<close>

function ipv6_loop :: "nat \<Rightarrow> bool \<Rightarrow> string \<Rightarrow> bool" where
  "ipv6_loop i ell s =
     (if 16 \<le> i then ipv6_end i ell s
      else
        let off = length (takeWhile is_hex s); r = drop off s in
        if off = 0 \<or> 4 < off then False
        else if r \<noteq> [] \<and> hd r = CHR ''.'' then
          (ell \<or> i = 12) \<and> i + 4 \<le> 16 \<and> ipv4_ok s \<and> ipv6_end (i + 4) ell []
        else if r = [] then ipv6_end (i + 2) ell []
        else if hd r \<noteq> CHR '':'' \<or> length r = 1 then False
        else if hd (tl r) = CHR '':'' then
          \<not> ell \<and> (if tl (tl r) = [] then ipv6_end (i + 2) True []
                    else ipv6_loop (i + 2) True (tl (tl r)))
        else ipv6_loop (i + 2) ell (tl r))"
  by pat_completeness auto
termination
  by (relation "measure (\<lambda>(i, _, _). 16 - i)") auto

declare ipv6_loop.simps [simp del]

definition ipv6_ok :: "string \<Rightarrow> bool" where
  "ipv6_ok s \<longleftrightarrow> CHR ''%'' \<notin> set s \<and>
     (if go_has_prefix s ''::'' then drop 2 s = [] \<or> ipv6_loop 0 True (drop 2 s)
      else ipv6_loop 0 False s)"

text \<open>\<^verbatim>\<open>net.ParseIP(s) != nil\<close>: the first dot or colon decides the family.\<close>

definition go_parse_ip :: "string \<Rightarrow> bool" where
  "go_parse_ip s =
     (case dropWhile (\<lambda>c. c \<notin> set ''.:%'') s of
        [] \<Rightarrow> False
      | c # _ \<Rightarrow> if c = CHR ''.'' then ipv4_ok s else if c = CHR '':'' then ipv6_ok s else False)"

section \<open>Lemmas\<close>

lemma code_less_256 [simp]: "code c < 256"
  by (cases c) (simp add: horner_sum_simps of_bool_def)

lemma is_digit_not_space: "is_digit c \<Longrightarrow> \<not> ascii_space c"
  by (auto simp: is_digit_def ascii_space_def)

lemma go_parse_octal32_less: "go_parse_octal32 s = Some v \<Longrightarrow> v < 2 ^ 32"
  by (auto simp: go_parse_octal32_def Let_def split: if_splits)

lemma go_atoi_range: "go_atoi s = Some v \<Longrightarrow> - (2 ^ 63) \<le> v \<and> v < 2 ^ 63"
  by (auto simp: go_atoi_def Let_def split: if_splits list.splits prod.splits)

lemma go_hex_decode_length: "go_hex_decode s = Some bs \<Longrightarrow> length s = 2 * length bs"
  by (induction s arbitrary: bs rule: go_hex_decode.induct) (auto split: if_splits)

lemma go_hex_decode_hex: "go_hex_decode s = Some bs \<Longrightarrow> list_all is_hex s"
  by (induction s arbitrary: bs rule: go_hex_decode.induct) (auto split: if_splits)

lemma code_char_of [simp]: "n < 256 \<Longrightarrow> code (char_of n) = n"
  by (simp add: of_char_of)

lemma hex_digit_val: "n < 16 \<Longrightarrow> is_hex (hex_digit n) \<and> hex_val (hex_digit n) = n"
  by (auto simp: is_hex_def hex_val_def hex_digit_def is_digit_def)

lemma go_hex_decode_encode: "go_hex_decode (go_hex_encode s) = Some s"
proof (induction s)
  case (Cons c s)
  have "code c div 16 < 16" "code c mod 16 < 16"
    using code_less_256 [of c] by (auto simp: less_mult_imp_div_less)
  with Cons show ?case by (simp add: go_hex_encode_def hex_digit_val)
qed (simp add: go_hex_encode_def)

lemma nat_dec_nonempty [simp]: "nat_dec n \<noteq> []"
  by (subst nat_dec.simps) simp

lemma nat_dec_digits: "list_all is_digit (nat_dec n)"
proof (induction n rule: nat_dec.induct)
  case (1 n)
  show ?case
  proof (cases "n < 10")
    case True
    then show ?thesis by (simp add: nat_dec.simps [of n] is_digit_def)
  next
    case False
    then show ?thesis using "1.IH" by (simp add: nat_dec.simps [of n]) (simp add: is_digit_def)
  qed
qed

lemma digits_val_append: "digits_val b (s @ [c]) = b * digits_val b s + hex_val c"
  by (simp add: digits_val_def)

lemma digits_val_nat_dec: "digits_val 10 (nat_dec n) = n"
proof (induction n rule: nat_dec.induct)
  case (1 n)
  show ?case
  proof (cases "n < 10")
    case True
    then show ?thesis by (simp add: nat_dec.simps [of n] digits_val_def hex_val_def is_digit_def)
  next
    case False
    have "hex_val (char_of (48 + n mod 10)) = n mod 10"
      by (simp add: hex_val_def is_digit_def)
    with False "1.IH" show ?thesis
      by (simp add: nat_dec.simps [of n] digits_val_append)
  qed
qed

lemma go_atoi_nat_dec: "n < 2 ^ 63 \<Longrightarrow> go_atoi (nat_dec n) = Some (int n)"
proof -
  assume n: "n < 2 ^ 63"
  obtain c r where s: "nat_dec n = c # r" by (cases "nat_dec n") auto
  have "is_digit c" using nat_dec_digits [of n] s by simp
  then have "c \<noteq> CHR ''-''" "c \<noteq> CHR ''+''" by (auto simp: is_digit_def)
  then have "(case nat_dec n of [] \<Rightarrow> (False, []) | c # r \<Rightarrow> if c = CHR ''-'' then (True, r)
      else if c = CHR ''+'' then (False, r) else (False, nat_dec n)) = (False, nat_dec n)"
    using s by simp
  with n nat_dec_digits [of n] show ?thesis
    by (simp only: go_atoi_def) (simp add: digits_val_nat_dec)
qed

end
