(* ===== verification/Nimbus_Types.thy ===== *)
theory Nimbus_Types
  imports Go_Strconv
begin

text \<open>
  The data model of the Nimbusfile manifest (internal/nimbusfile/nimbusfile.go): one record per
  struct, fields in the source's order, and every error of the parser as a constructor carrying
  the values its message names.

  A nil slice and an empty one are the same list here: the code tests them with \<^verbatim>\<open>len\<close> only.
\<close>

record CopyOp =
  co_Src :: string
  co_Dest :: string
  co_IsURL :: bool
  co_IsAdd :: bool
  co_Chmod :: nat

record EnvVar =
  ev_Key :: string
  ev_Value :: string

record ExposedPort =
  ep_Port :: int
  ep_Proto :: string

record Healthcheck =
  hc_Argv :: "string list"
  hc_Interval :: string
  hc_Retries :: string

record StaticIP =
  sip_Address :: string
  sip_Netmask :: string
  sip_Gateway :: string

record Volume =
  vol_Device :: string
  vol_Mountpoint :: string
  vol_FSType :: string
  vol_Required :: bool

record Service =
  svc_Name :: string
  svc_Argv :: "string list"
  svc_Restart :: string

record AgentHeader =
  ah_Name :: string
  ah_Value :: string

record Agent =
  ag_Kind :: string
  ag_URL :: string
  ag_Interval :: string
  ag_Headers :: "AgentHeader list"

record Nimbusfile =
  nf_KernelVersion :: string
  nf_BusyboxVersion :: string
  nf_Arch :: string
  nf_VGA :: bool
  nf_BootProfile :: string
  nf_WiFiSSID :: string
  nf_WiFiPSK :: string
  nf_WiFiCountry :: string
  nf_Hostname :: string
  nf_DHCP :: bool
  nf_StaticIP :: "StaticIP option"
  nf_DNS :: "string list"
  nf_NTP :: "string list"
  nf_Format :: string
  nf_User :: string
  nf_Volumes :: "Volume list"
  nf_Env :: "EnvVar list"
  nf_Firewall :: "string list"
  nf_Firewall6 :: "string list"
  nf_FirewallOnError :: string
  nf_TmpfsSize :: string
  nf_StopGrace :: int
  nf_PiecesKey :: string
  nf_Copies :: "CopyOp list"
  nf_Entrypoint :: "string list"
  nf_Cmd :: "string list"
  nf_Services :: "Service list"
  nf_Agent :: "Agent option"
  nf_Workdir :: string
  nf_Labels :: "EnvVar list"
  nf_Exposed :: "ExposedPort list"
  nf_Healthcheck :: "Healthcheck option"
  nf_EntrypointRestart :: string
  nf_BaseDir :: string
  nf_ntpTouched :: bool

datatype nimbus_error =
    ERequires string
  | ENotOneOf string string
  | EInvalidBool string string
  | EAlreadySet string
  | ESSIDTooLong nat
  | EMetaChar
  | EPSKLength nat
  | ENotPrintable
  | ECountryMissing
  | ECountryFormat string
  | EInvalidIP string string
  | EInvalidPort string
  | EProto string
  | EInvalidFlag string string
  | ENoCommand
  | EExecJSON string
  | EPolicy string
  | ENoService string
  | EFSType string
  | EFirewallOp string
  | ETmpfsSize string
  | EStopGrace string
  | EPiecesKey string
  | EHeaderWithoutHTTP
  | EHeaderForm string
  | EInterval string string
  | EChmodSyntax string
  | EChmodZero
  | EChmodSpecial string
  | EUnknownDirective
  | EUnterminated string
  | EUndefinedArg string
  | EArgName
  | EArgMissing string
  | EWiFiWithoutDriver string
  | EWiFiMissing string "string list"
  | EReading string
  | EIn string nimbus_error
  | ELine nat nimbus_error

text \<open>
  \<^verbatim>\<open>EIn d e\<close> is \<^verbatim>\<open>fmt.Errorf("d: %w", e)\<close> and \<^verbatim>\<open>ELine n e\<close> is \<^verbatim>\<open>fmt.Errorf("line n: %w", e)\<close>;
  \<^verbatim>\<open>ERequires d\<close> is the complaint that directive \<^verbatim>\<open>d\<close> lacks its operands.
\<close>

text \<open>The manifest \<^verbatim>\<open>Parse\<close> starts from (lines 377-387).\<close>

definition default_nimbusfile :: "string \<Rightarrow> Nimbusfile" where
  "default_nimbusfile base =
     \<lparr> nf_KernelVersion = ''latest-stable'', nf_BusyboxVersion = ''latest'', nf_Arch = ''amd64'',
       nf_VGA = False, nf_BootProfile = ''none'', nf_WiFiSSID = [], nf_WiFiPSK = [],
       nf_WiFiCountry = [], nf_Hostname = ''cnimbus'', nf_DHCP = True, nf_StaticIP = None,
       nf_DNS = [], nf_NTP = [], nf_Format = ''iso'', nf_User = [], nf_Volumes = [], nf_Env = [],
       nf_Firewall = [], nf_Firewall6 = [], nf_FirewallOnError = [], nf_TmpfsSize = [],
       nf_StopGrace = 0, nf_PiecesKey = [], nf_Copies = [], nf_Entrypoint = [], nf_Cmd = [],
       nf_Services = [], nf_Agent = None, nf_Workdir = [], nf_Labels = [], nf_Exposed = [],
       nf_Healthcheck = None, nf_EntrypointRestart = ''always'', nf_BaseDir = base,
       nf_ntpTouched = False \<rparr>"

end
