(* ===== verification/Nimbus_Lex.thy ===== *)
theory Nimbus_Lex
  imports Nimbus_Types
begin

text \<open>
  The lexical layer of the manifest parser (internal/nimbusfile/nimbusfile.go): line
  continuations, ARG substitution, exec forms, HEALTHCHECK flags, header lines and the base
  directory. Each Go loop is a recursion on what is left of its input.
\<close>

section \<open>joinContinuations\<close>

definition normalise_newlines :: "string \<Rightarrow> string" where
  "normalise_newlines src = go_replace_all src [CHR 0x0D, CHR 0x0A] NL"

text \<open>
  The loop over the physical lines: \<^verbatim>\<open>acc\<close> is the text of the continued lines so far, \<^verbatim>\<open>start\<close>
  the line the logical line began on, \<^verbatim>\<open>i\<close> the 1-based number of the next physical line.
\<close>

fun join_loop :: "string \<Rightarrow> nat \<Rightarrow> nat \<Rightarrow> string list \<Rightarrow> (string \<times> nat) list" where
  "join_loop acc start i [] = (if acc \<noteq> [] then [(acc, start)] else [])"
| "join_loop acc start i (l # ls) =
     (let start' = (if acc = [] then i else start);
          trimmed = go_trim_right l ('' '' @ TAB)
      in if go_has_suffix trimmed BSL
         then join_loop (acc @ go_trim_suffix trimmed BSL @ '' '') start' (Suc i) ls
         else (acc @ l, start') # join_loop [] start' (Suc i) ls)"

definition joinContinuations :: "string \<Rightarrow> (string \<times> nat) list" where
  "joinContinuations src = join_loop [] 0 1 (go_split (CHR 0x0A) (normalise_newlines src))"

section \<open>substituteArgs\<close>

definition isArgNameByte :: "char \<Rightarrow> bool" where
  "isArgNameByte b \<longleftrightarrow>
     b = CHR ''_'' \<or> (97 \<le> code b \<and> code b \<le> 122) \<or> (65 \<le> code b \<and> code b \<le> 90) \<or>
     (48 \<le> code b \<and> code b \<le> 57)"

definition isArgNameStartByte :: "char \<Rightarrow> bool" where
  "isArgNameStartByte b \<longleftrightarrow>
     b = CHR ''_'' \<or> (97 \<le> code b \<and> code b \<le> 122) \<or> (65 \<le> code b \<and> code b \<le> 90)"

type_synonym arg_values = "string \<rightharpoonup> string"

definition arg_lookup :: "arg_values \<Rightarrow> string \<Rightarrow> nimbus_error + string" where
  "arg_lookup values name =
     (case values name of None \<Rightarrow> Inl (EUndefinedArg name) | Some v \<Rightarrow> Inr v)"

text \<open>
  The scan of \<^verbatim>\<open>substituteArgs\<close>: \<^verbatim>\<open>whole\<close> is the full operand text (for the error), the last
  argument the suffix from index \<^verbatim>\<open>i\<close> on, and the result what the loop appends to \<^verbatim>\<open>out\<close>.
\<close>

function subst_loop :: "string \<Rightarrow> arg_values \<Rightarrow> string \<Rightarrow> nimbus_error + string" where
  "subst_loop whole values s =
     (case s of
        [] \<Rightarrow> Inr []
      | c # r \<Rightarrow>
        if c \<noteq> CHR ''$'' \<or> r = [] then bindE (subst_loop whole values r) (\<lambda>o'. Inr (c # o'))
        else if hd r = CHR ''$'' then
          bindE (subst_loop whole values (tl r)) (\<lambda>o'. Inr (CHR ''$'' # o'))
        else if hd r = CHR ''{'' then
          (case go_index (tl r) ''}'' of
             None \<Rightarrow> Inl (EUnterminated whole)
           | Some e \<Rightarrow>
               bindE (arg_lookup values (take e (tl r)))
                 (\<lambda>v. bindE (subst_loop whole values (drop (e + 1) (tl r))) (\<lambda>o'. Inr (v @ o'))))
        else if \<not> isArgNameStartByte (hd r) then
          bindE (subst_loop whole values r) (\<lambda>o'. Inr (c # o'))
        else
          bindE (arg_lookup values (takeWhile isArgNameByte r))
            (\<lambda>v. bindE (subst_loop whole values (dropWhile isArgNameByte r)) (\<lambda>o'. Inr (v @ o'))))"
  by pat_completeness auto
termination
  by (relation "measure (\<lambda>(_, _, s). length s)")
     (auto simp: le_imp_less_Suc length_dropWhile_le less_Suc_eq_le diff_le_self neq_Nil_conv
       intro: le_SucI)

declare subst_loop.simps [simp del]

definition substituteArgs :: "string \<Rightarrow> arg_values \<Rightarrow> nimbus_error + string" where
  "substituteArgs rest values =
     (if \<not> go_contains rest ''$'' then Inr rest else subst_loop rest values rest)"

section \<open>parseExecForm\<close>

definition parseExecForm :: "string \<Rightarrow> nimbus_error + string list" where
  "parseExecForm s =
     (let t = go_trim_space s in
      if t = [] then Inl ENoCommand
      else if go_has_prefix t ''['' then
        (case go_json_strings t of None \<Rightarrow> Inl (EExecJSON t) | Some args \<Rightarrow> Inr args)
      else Inr (go_fields t))"

section \<open>parseHealthcheckFlags\<close>

text \<open>
  The loop strips one flag token a turn: \<^verbatim>\<open>(remaining, interval, retries)\<close>. The text gets
  shorter each turn, so the loop ends.
\<close>

definition interval_prefix :: string where "interval_prefix = ''--interval=''"
definition retries_prefix :: string where "retries_prefix = ''--retries=''"

lemma length_go_trim_space: "length (go_trim_space s) \<le> length s"
proof -
  obtain p q where "s = p @ trim_left_space s"
    and "rev (trim_left_space s) = q @ trim_left_space_rev (rev (trim_left_space s))"
    using trim_left_space_suffix trim_left_space_rev_suffix by blast
  then have "length s = length p + length (trim_left_space s)"
    and "length (trim_left_space s) = length q + length (go_trim_space s)"
    by (metis length_append, metis go_trim_space_def length_append length_rev)
  then show ?thesis by simp
qed

lemma length_fst_snd_go_cut: "length (fst (snd (go_cut s [c]))) \<le> length s - 1"
proof -
  have "length (dropWhile (\<lambda>x. x \<noteq> c) s) \<le> length s" by (rule length_dropWhile_le)
  then show ?thesis by (simp add: go_cut_char)
qed

function parseHealthcheckFlags_loop ::
  "string \<Rightarrow> string \<Rightarrow> string \<Rightarrow> nimbus_error + (string \<times> string \<times> string)" where
  "parseHealthcheckFlags_loop rest interval retries =
     (let t = go_trim_space rest in
      if go_has_prefix t interval_prefix then
        (let v = go_trim_prefix (fst (go_cut t '' '')) interval_prefix in
         if go_atoi v = None then Inl (EInvalidFlag interval_prefix v)
         else parseHealthcheckFlags_loop (fst (snd (go_cut t '' ''))) v retries)
      else if go_has_prefix t retries_prefix then
        (let v = go_trim_prefix (fst (go_cut t '' '')) retries_prefix in
         if go_atoi v = None then Inl (EInvalidFlag retries_prefix v)
         else parseHealthcheckFlags_loop (fst (snd (go_cut t '' ''))) interval v)
      else Inr (t, interval, retries))"
  by pat_completeness auto
termination
proof (relation "measure (\<lambda>(r, _, _). length r)", goal_cases)
  case (2 rest interval retries t v)
  have "t \<noteq> []" using 2 by (auto simp: interval_prefix_def)
  moreover have "length t \<le> length rest" using 2 length_go_trim_space by simp
  ultimately show ?case using length_fst_snd_go_cut [of t "CHR '' ''"]
    by (cases t) (auto simp: less_Suc_eq_le)
next
  case (3 rest interval retries t v)
  have "t \<noteq> []" using 3 by (auto simp: retries_prefix_def)
  moreover have "length t \<le> length rest" using 3 length_go_trim_space by simp
  ultimately show ?case using length_fst_snd_go_cut [of t "CHR '' ''"]
    by (cases t) (auto simp: less_Suc_eq_le)
qed simp

declare parseHealthcheckFlags_loop.simps [simp del]

definition parseHealthcheckFlags ::
  "string \<Rightarrow> nimbus_error + (string \<times> string \<times> string)" where
  "parseHealthcheckFlags rest = parseHealthcheckFlags_loop rest ''30'' ''3''"

section \<open>cutHeader, firstFieldOrEmpty, dirOf\<close>

definition cutHeader :: "string \<Rightarrow> (string \<times> string) option" where
  "cutHeader s =
     (let (n, v, found) = go_cut s '':'' in
      if found then
        (let n' = go_trim_space n; v' = go_trim_space v
         in if n' = [] \<or> v' = [] then None else Some (n', v'))
      else
        (let (n2, v2, found2) = go_cut s '' '';
             n' = go_trim_space n2; v' = go_trim_space v2
         in if \<not> found2 \<or> n' = [] \<or> v' = [] then None else Some (n', v')))"

definition firstFieldOrEmpty :: "string list \<Rightarrow> string" where
  "firstFieldOrEmpty fs = (case fs of [] \<Rightarrow> [] | f # _ \<Rightarrow> f)"

definition dirOf :: "string \<Rightarrow> string" where
  "dirOf path =
     (case go_last_index_any path (''/'' @ BSL) of None \<Rightarrow> ''.'' | Some i \<Rightarrow> take i path)"

end
