(* ===== verification/Nimbus_Subst.thy ===== *)
theory Nimbus_Subst
  imports Nimbus_Lex
begin

text \<open>
  What \<^verbatim>\<open>substituteArgs\<close> means: a reference semantics of operand texts as sequences of literal
  text, escaped dollars and references, and the theorem that the scanner computes it.
\<close>

section \<open>A reference semantics\<close>

datatype arg_token = Lit char | EscDollar | Braced string | Bare string

fun render_token :: "arg_token \<Rightarrow> string" where
  "render_token (Lit c) = [c]"
| "render_token EscDollar = ''$$''"
| "render_token (Braced n) = ''${'' @ n @ ''}''"
| "render_token (Bare n) = CHR ''$'' # n"

definition render_tokens :: "arg_token list \<Rightarrow> string" where
  "render_tokens ts = concat (map render_token ts)"

fun token_value :: "arg_values \<Rightarrow> arg_token \<Rightarrow> nimbus_error + string" where
  "token_value values (Lit c) = Inr [c]"
| "token_value values EscDollar = Inr ''$''"
| "token_value values (Braced n) = arg_lookup values n"
| "token_value values (Bare n) = arg_lookup values n"

text \<open>
  A bare reference is a maximal name: what is rendered after it must not go on with a name
  byte. A braced name holds no closing brace.
\<close>

fun tokens_ok :: "arg_token list \<Rightarrow> bool" where
  "tokens_ok [] = True"
| "tokens_ok (Lit c # ts) = (c \<noteq> CHR ''$'' \<and> tokens_ok ts)"
| "tokens_ok (EscDollar # ts) = tokens_ok ts"
| "tokens_ok (Braced n # ts) = (CHR ''}'' \<notin> set n \<and> tokens_ok ts)"
| "tokens_ok (Bare n # ts) =
     (n \<noteq> [] \<and> isArgNameStartByte (hd n) \<and> list_all isArgNameByte n \<and>
      (render_tokens ts = [] \<or> \<not> isArgNameByte (hd (render_tokens ts))) \<and> tokens_ok ts)"

lemma render_tokens_simps [simp]:
  "render_tokens [] = []"
  "render_tokens (t # ts) = render_token t @ render_tokens ts"
  by (simp_all add: render_tokens_def)

section \<open>The scanner computes it\<close>

lemma subst_loop_plain [simp]:
  "subst_loop w vs [] = Inr []"
  "c \<noteq> CHR ''$'' \<Longrightarrow> subst_loop w vs (c # r) = bindE (subst_loop w vs r) (\<lambda>o'. Inr (c # o'))"
  "subst_loop w vs (CHR ''$'' # CHR ''$'' # r) = bindE (subst_loop w vs r) (\<lambda>o'. Inr (CHR ''$'' # o'))"
  by (simp_all add: subst_loop.simps [of w vs "[]"] subst_loop.simps [of w vs "c # r"]
      subst_loop.simps [of w vs "CHR ''$'' # CHR ''$'' # r"])

lemma subst_loop_braced:
  assumes "CHR ''}'' \<notin> set n"
  shows "subst_loop w vs (''${'' @ n @ CHR ''}'' # r) =
    bindE (arg_lookup vs n) (\<lambda>v. bindE (subst_loop w vs r) (\<lambda>o'. Inr (v @ o')))"
proof -
  have tw: "takeWhile (\<lambda>x. x \<noteq> CHR ''}'') (n @ CHR ''}'' # r) = n"
    using assms by (induction n) auto
  have "go_index (n @ CHR ''}'' # r) ''}'' = Some (length n)"
    by (simp add: go_index_char tw)
  then show ?thesis
    by (simp add: subst_loop.simps [of w vs "CHR ''$'' # CHR ''{'' # n @ CHR ''}'' # r"])
qed

lemma name_byte_not_special:
  "isArgNameStartByte c \<Longrightarrow> c \<noteq> CHR ''$'' \<and> c \<noteq> CHR ''{''"
  by (auto simp: isArgNameStartByte_def)

lemma subst_loop_bare:
  assumes n: "n \<noteq> []" "isArgNameStartByte (hd n)" "list_all isArgNameByte n"
    and r: "r = [] \<or> \<not> isArgNameByte (hd r)"
  shows "subst_loop w vs (CHR ''$'' # n @ r) =
    bindE (arg_lookup vs n) (\<lambda>v. bindE (subst_loop w vs r) (\<lambda>o'. Inr (v @ o')))"
proof -
  have tw: "takeWhile isArgNameByte (n @ r) = n" "dropWhile isArgNameByte (n @ r) = r"
    using n(3) r by (cases r; auto simp: list_all_iff takeWhile_append dropWhile_append)+
  have hd: "hd (n @ r) = hd n" "n @ r \<noteq> []" using n by auto
  show ?thesis
    using n name_byte_not_special [of "hd n"]
    by (subst subst_loop.simps) (simp add: hd tw)
qed

lemma subst_loop_tokens:
  "tokens_ok ts \<Longrightarrow>
   subst_loop w vs (render_tokens ts) = bindE (mapE (token_value vs) ts) (\<lambda>xs. Inr (concat xs))"
proof (induction ts rule: tokens_ok.induct)
  case 1
  then show ?case by simp
next
  case (2 c ts)
  then show ?case by (cases "mapE (token_value vs) ts") auto
next
  case (3 ts)
  then show ?case by (cases "mapE (token_value vs) ts") auto
next
  case (4 n ts)
  then show ?case
    using subst_loop_braced [of n w vs "render_tokens ts"]
    by (cases "arg_lookup vs n"; cases "mapE (token_value vs) ts") auto
next
  case (5 n ts)
  then show ?case
    using subst_loop_bare [of n "render_tokens ts" w vs]
    by (cases "arg_lookup vs n"; cases "mapE (token_value vs) ts") auto
qed

lemma subst_loop_no_dollar: "CHR ''$'' \<notin> set s \<Longrightarrow> subst_loop w vs s = Inr s"
  by (induction s) auto

lemma substituteArgs_eq_loop: "substituteArgs s vs = subst_loop s vs s"
  by (simp add: substituteArgs_def subst_loop_no_dollar)

text \<open>
  Property C12. \<^verbatim>\<open>substituteArgs\<close> computes the reference semantics: every literal byte is copied,
  a doubled dollar is one dollar, every braced or bare reference is the value of its ARG, inserted
  as it is and not scanned again, and the first reference to an ARG not declared is the error.
\<close>

theorem substituteArgs_tokens:
  assumes "tokens_ok ts"
  shows "substituteArgs (render_tokens ts) vs =
    bindE (mapE (token_value vs) ts) (\<lambda>xs. Inr (concat xs))"
  using assms by (simp add: substituteArgs_eq_loop subst_loop_tokens)

theorem substituteArgs_tokens_witness:
  "substituteArgs ''a${X}-$Y/$$5'' [''X'' \<mapsto> ''$Y'', ''Y'' \<mapsto> ''2''] = Inr ''a$Y-2/$5''"
proof -
  let ?ts = "[Lit CHR ''a'', Braced ''X'', Lit CHR ''-'', Bare ''Y'', Lit CHR ''/'', EscDollar, Lit CHR ''5'']"
  have "tokens_ok ?ts" by (simp add: isArgNameByte_def isArgNameStartByte_def)
  from substituteArgs_tokens [OF this, of "[''X'' \<mapsto> ''$Y'', ''Y'' \<mapsto> ''2'']"]
  show ?thesis by (simp add: arg_lookup_def)
qed

definition escape_dollars :: "string \<Rightarrow> string" where
  "escape_dollars s = go_replace_all s ''$'' ''$$''"

text \<open>
  The escape is complete: with every dollar doubled, any text passes through
  substitution unchanged, whatever ARGs are declared.
\<close>

theorem substituteArgs_escaped: "substituteArgs (escape_dollars s) vs = Inr s"
proof -
  let ?ts = "map (\<lambda>c. if c = CHR ''$'' then EscDollar else Lit c) s"
  have ok: "tokens_ok ?ts" by (induction s) auto
  have "render_tokens ?ts = escape_dollars s"
    by (induction s) (auto simp: escape_dollars_def go_replace_all_char)
  moreover have "mapE (token_value vs) ?ts = Inr (map (\<lambda>c. [c]) s)" by (induction s) auto
  ultimately show ?thesis
    using subst_loop_tokens [OF ok, of "escape_dollars s" vs]
    by (simp add: substituteArgs_eq_loop)
qed

end
