(* ===== verification/Shell.thy ===== *)
theory Shell
  imports Go_Strconv
begin

text \<open>
  Shell quoting (\<^verbatim>\<open>shQuote\<close> and \<^verbatim>\<open>shJoin\<close> of internal/rootfs/build.go) and the reference it is
  measured against: a lexer for POSIX shell text.

  Generated scripts are written here in a transliteration, because a HOL string literal cannot
  hold three of their characters: in the argument of \<^verbatim>\<open>sh\<close> (and \<^verbatim>\<open>shl\<close>, which adds a newline) a
  tilde stands for a double quote, a caret for a single quote and an at sign for a backslash.
  The scripts use none of the three otherwise.
\<close>

section \<open>Script text\<close>

definition sh_char :: "char \<Rightarrow> char" where
  "sh_char c = (if c = CHR 0x7E then CHR 0x22 else if c = CHR 0x5E then CHR 0x27
     else if c = CHR 0x40 then CHR 0x5C else c)"

definition sh :: "string \<Rightarrow> string" where
  "sh s = map sh_char s"

definition shl :: "string \<Rightarrow> string" where
  "shl s = sh s @ NL"

section \<open>Quoting\<close>

definition shQuote :: "string \<Rightarrow> string" where
  "shQuote s = SQ @ go_replace_all s SQ (SQ @ BSL @ SQ @ SQ) @ SQ"

definition shJoin :: "string list \<Rightarrow> string" where
  "shJoin argv = go_join (map shQuote argv) '' ''"

section \<open>A reference lexer\<close>

text \<open>
  The characters of a word are literal (\<^verbatim>\<open>Lit\<close>) or may start an expansion (\<^verbatim>\<open>Exp\<close>): a dollar
  or backquote outside single quotes, a glob, tilde, comment or brace character outside all
  quotes. Operators and newlines are tokens of their own. An unclosed quote is no token list.
\<close>

datatype sh_mark = Lit char | Exp char

datatype sh_token = Word "sh_mark list" | Oper char

datatype sh_mode = Plain | Single | Double

definition sh_blank :: "char \<Rightarrow> bool" where
  "sh_blank c \<longleftrightarrow> c = CHR 0x20 \<or> c = CHR 0x09"

definition sh_oper :: "char \<Rightarrow> bool" where
  "sh_oper c \<longleftrightarrow> c \<in> set ('';&|<>()'' @ NL)"

definition sh_expand :: "char \<Rightarrow> bool" where
  "sh_expand c \<longleftrightarrow> c \<in> set (''$*?[{}#!'' @ [CHR 0x7E] @ BQ)"

definition flush :: "sh_mark list option \<Rightarrow> sh_token list" where
  "flush w = (case w of None \<Rightarrow> [] | Some x \<Rightarrow> [Word x])"

definition grow :: "sh_mark list option \<Rightarrow> sh_mark \<Rightarrow> sh_mark list option" where
  "grow w m = Some ((case w of None \<Rightarrow> [] | Some x \<Rightarrow> x) @ [m])"

definition opened :: "sh_mark list option \<Rightarrow> sh_mark list option" where
  "opened w = Some (case w of None \<Rightarrow> [] | Some x \<Rightarrow> x)"

fun sh_lex :: "sh_mode \<Rightarrow> sh_mark list option \<Rightarrow> string \<Rightarrow> sh_token list option" where
  "sh_lex Plain w [] = Some (flush w)"
| "sh_lex Single w [] = None"
| "sh_lex Double w [] = None"
| "sh_lex Plain w (c # cs) =
     (if sh_blank c then map_option ((@) (flush w)) (sh_lex Plain None cs)
      else if sh_oper c then map_option ((@) (flush w @ [Oper c])) (sh_lex Plain None cs)
      else if c = CHR 0x27 then sh_lex Single (opened w) cs
      else if c = CHR 0x22 then sh_lex Double (opened w) cs
      else if c = CHR 0x5C then
        (case cs of [] \<Rightarrow> Some (flush (grow w (Lit c)))
         | d # ds \<Rightarrow> if d = CHR 0x0A then sh_lex Plain w ds else sh_lex Plain (grow w (Lit d)) ds)
      else if sh_expand c then sh_lex Plain (grow w (Exp c)) cs
      else sh_lex Plain (grow w (Lit c)) cs)"
| "sh_lex Single w (c # cs) =
     (if c = CHR 0x27 then sh_lex Plain w cs else sh_lex Single (grow w (Lit c)) cs)"
| "sh_lex Double w (c # cs) =
     (if c = CHR 0x22 then sh_lex Plain w cs
      else if c = CHR 0x5C then
        (case cs of [] \<Rightarrow> None
         | d # ds \<Rightarrow>
             if d = CHR 0x0A then sh_lex Double w ds
             else if d \<in> set (''$'' @ BQ @ DQ @ BSL) then sh_lex Double (grow w (Lit d)) ds
             else sh_lex Double (grow w (Lit c)) (d # ds))
      else if c = CHR ''$'' \<or> c = CHR 0x60 then sh_lex Double (grow w (Exp c)) cs
      else sh_lex Double (grow w (Lit c)) cs)"

definition sh_tokens :: "string \<Rightarrow> sh_token list option" where
  "sh_tokens s = sh_lex Plain None s"

definition literal :: "string \<Rightarrow> sh_token" where
  "literal s = Word (map Lit s)"

section \<open>What quoting guarantees\<close>

abbreviation marks :: "sh_mark list option \<Rightarrow> sh_mark list" where
  "marks w \<equiv> (case w of None \<Rightarrow> [] | Some x \<Rightarrow> x)"

lemma flush_simps [simp]: "flush None = []" "flush (Some x) = [Word x]"
  by (simp_all add: flush_def)

lemma grow_Some [simp]: "grow (Some x) m = Some (x @ [m])" "grow None m = Some [m]"
  by (simp_all add: grow_def)

lemma opened_simps [simp]: "opened (Some x) = Some x" "opened None = Some []"
  by (simp_all add: opened_def)

text \<open>Inside single quotes, the escaped text of a value gives exactly its bytes.\<close>

definition sq_escape :: "char \<Rightarrow> string" where
  "sq_escape c = (if c = CHR 0x27 then SQ @ BSL @ SQ @ SQ else [c])"

lemma shQuote_eq: "shQuote s = SQ @ concat (map sq_escape s) @ SQ"
  unfolding shQuote_def go_replace_all_char sq_escape_def by (rule refl)

lemma sh_lex_single:
  "sh_lex Single (Some x) (concat (map sq_escape s) @ CHR 0x27 # rest) =
   sh_lex Plain (Some (x @ map Lit s)) rest"
proof (induction s arbitrary: x)
  case Nil
  then show ?case by simp
next
  case (Cons c s)
  show ?case
  proof (cases "c = CHR 0x27")
    case True
    with Cons show ?thesis by (simp add: sq_escape_def sh_blank_def sh_oper_def)
  next
    case False
    with Cons show ?thesis by (simp add: sq_escape_def)
  qed
qed

lemma sh_lex_shQuote:
  "sh_lex Plain w (shQuote s @ rest) = sh_lex Plain (Some (marks w @ map Lit s)) rest"
  by (cases w) (simp_all add: shQuote_eq sh_lex_single sh_blank_def sh_oper_def)

text \<open>A plain character extends the word, a blank ends it.\<close>

definition plain_char :: "char \<Rightarrow> bool" where
  "plain_char c \<longleftrightarrow> \<not> sh_blank c \<and> \<not> sh_oper c \<and> \<not> sh_expand c \<and> c \<notin> set (SQ @ DQ @ BSL)"

lemma sh_lex_plain_chars:
  "list_all plain_char p \<Longrightarrow> p \<noteq> [] \<Longrightarrow>
   sh_lex Plain w (p @ rest) = sh_lex Plain (Some (marks w @ map Lit p)) rest"
proof (induction p arbitrary: w)
  case Nil
  then show ?case by simp
next
  case (Cons c p)
  have "sh_lex Plain w ((c # p) @ rest) = sh_lex Plain (Some (marks w @ [Lit c])) (p @ rest)"
    using Cons.prems by (simp add: plain_char_def grow_def)
  also have "\<dots> = sh_lex Plain (Some (marks w @ map Lit (c # p))) rest"
    using Cons by (cases "p = []") auto
  finally show ?case .
qed

lemma sh_lex_blank:
  "sh_lex Plain w (CHR '' '' # rest) = map_option ((@) (flush w)) (sh_lex Plain None rest)"
  by (simp add: sh_blank_def)

lemma sh_lex_oper:
  "sh_oper c \<Longrightarrow> sh_lex Plain w (c # rest) = map_option ((@) (flush w @ [Oper c])) (sh_lex Plain None rest)"
  by (auto simp: sh_oper_def sh_blank_def)

lemma append_single: "(@) [x] = (#) x"
  by (rule ext) simp

lemma append_pair: "(@) [x, y] = (\<lambda>z. x # y # z)"
  by (rule ext) simp

lemma sh_lex_shJoin:
  "argv \<noteq> [] \<Longrightarrow> rest = [] \<or> (\<exists>r. rest = CHR '' '' # r) \<or> (\<exists>c r. rest = c # r \<and> sh_oper c) \<Longrightarrow>
   sh_lex Plain None (shJoin argv @ rest) =
     map_option ((@) (map literal argv)) (sh_lex Plain None rest)"
proof (induction argv)
  case Nil
  then show ?case by simp
next
  case (Cons a argv)
  have ends: "sh_lex Plain (Some (map Lit a)) rest = map_option ((@) [literal a]) (sh_lex Plain None rest)"
    using Cons.prems(2)
    by (auto simp: sh_lex_blank sh_lex_oper literal_def append_single append_pair option.map_comp o_def
        simp del: sh_lex.simps(4))
  show ?case
  proof (cases "argv = []")
    case True
    then show ?thesis using ends by (simp add: shJoin_def sh_lex_shQuote append_single)
  next
    case False
    then have "shJoin (a # argv) @ rest = shQuote a @ CHR '' '' # (shJoin argv @ rest)"
      by (simp add: shJoin_def go_join_map_Cons)
    with False Cons show ?thesis
      by (simp add: sh_lex_shQuote sh_lex_blank literal_def append_single option.map_comp o_def
          del: sh_lex.simps(4))
  qed
qed

text \<open>The script text of a line, with the transliterated characters put back.\<close>

lemma sh_append: "sh (a @ b) = sh a @ sh b"
  by (simp add: sh_def)

text \<open>
  Property C10. Quoting is injection-proof: whatever bytes the arguments hold (quotes, dollars,
  semicolons, newlines), a POSIX shell reads the joined text as exactly these words, each character
  literal, no operator and no expansion among them.
\<close>

theorem shJoin_words: "sh_tokens (shJoin argv) = Some (map literal argv)"
proof (cases "argv = []")
  case True
  then show ?thesis by (simp add: sh_tokens_def shJoin_def)
next
  case False
  then show ?thesis using sh_lex_shJoin [of argv "[]"] by (simp add: sh_tokens_def)
qed

end
