(* ===== verification/Rootfs_Types.thy ===== *)
theory Rootfs_Types
  imports Nimbus_Types Shell
begin

text \<open>
  The data the root-filesystem generator works on (internal/rootfs/build.go and frompieces.go):
  one record per struct, in the source's field order, and the paths and defaults its scripts
  share.

  The package's own \<^verbatim>\<open>EnvVar\<close>, \<^verbatim>\<open>StaticIP\<close>, \<^verbatim>\<open>Volume\<close>, \<^verbatim>\<open>Service\<close>, \<^verbatim>\<open>AgentHeader\<close> and
  \<^verbatim>\<open>Healthcheck\<close> have the fields of the manifest's types of the same names, so the records of
  \<^verbatim>\<open>Nimbus_Types\<close> serve for both. A firmware map is the list of its entries in the order one
  iteration over it happens to visit them; no key occurs twice.
\<close>

record ExtraFile =
  xf_Path :: string
  xf_Perm :: nat
  xf_Data :: string

record RAgent =
  ra_Kind :: string
  ra_URL :: string
  ra_Interval :: string
  ra_Headers :: "AgentHeader list"
  ra_Binary :: string

record BusyboxApplet =
  ba_Path :: string
  ba_Target :: string

record PiecesSpec =
  ps_BusyboxBinary :: string
  ps_BusyboxApplets :: "BusyboxApplet list"
  ps_Hostname :: string
  ps_DHCP :: bool
  ps_StaticIP :: "StaticIP option"
  ps_DNS :: "string list"
  ps_NTP :: "string list"
  ps_Volumes :: "Volume list"
  ps_Firewall :: "string list"
  ps_Firewall6 :: "string list"
  ps_FirewallOnError :: string
  ps_Iptables :: string
  ps_Supplicant :: string
  ps_WifiFirmware :: "(string \<times> string) list"
  ps_EthernetFirmware :: "(string \<times> string) list"
  ps_BootProfile :: string
  ps_WifiSSID :: string
  ps_WifiPSK :: string
  ps_WifiCountry :: string
  ps_Env :: "EnvVar list"
  ps_User :: string
  ps_ExtraFiles :: "ExtraFile list"
  ps_Services :: "Service list"
  ps_Agent :: "RAgent option"
  ps_Workdir :: string
  ps_Healthcheck :: "Healthcheck option"
  ps_TmpfsSize :: string
  ps_StopGrace :: int
  ps_VGA :: bool

section \<open>Shared paths and constants\<close>

definition supervisorScriptPath :: "string \<Rightarrow> string" where
  "supervisorScriptPath name = ''/usr/sbin/cnimbus-svc-'' @ name @ ''.sh''"

definition agentScriptPath :: string where
  "agentScriptPath = ''/usr/sbin/cnimbus-agent.sh''"

definition pidFilePath :: "string \<Rightarrow> string" where
  "pidFilePath name = ''/var/run/cnimbus-'' @ name @ ''.pid''"

definition consoleSayPath :: string where
  "consoleSayPath = ''/etc/cnimbus-say''"

definition consoleSayCmd :: string where
  "consoleSayCmd = ''/bin/sh '' @ consoleSayPath"

definition defaultStopGrace :: int where
  "defaultStopGrace = 10"

definition defaultTmpfsSize :: string where
  "defaultTmpfsSize = ''32m''"

definition acpiPowerHandlerPath :: string where
  "acpiPowerHandlerPath = ''etc/acpi/PWRF/00000080''"

definition wpaSupplicantLog :: string where
  "wpaSupplicantLog = ''/var/log/wpa_supplicant.log''"

definition wifiAssociateTimeoutSeconds :: nat where
  "wifiAssociateTimeoutSeconds = 20"

definition trimLeadingSlash :: "string \<Rightarrow> string" where
  "trimLeadingSlash p = go_trim_prefix p ''/''"

definition rootfs_hasWifiDriver :: "string \<Rightarrow> bool" where
  "rootfs_hasWifiDriver profile \<longleftrightarrow> profile = ''wifi'' \<or> profile = ''eth+wifi''"

text \<open>The console helper every script prints through, and the boot-stage timestamps.\<close>

definition buildConsoleSayScript :: string where
  "buildConsoleSayScript = concat
    [shl ''#!/bin/sh'',
     shl ''# Print ~$*~ on every console the kernel registered, not just the one'',
     shl ''# /dev/console aliases (the last console= on the cmdline). See'',
     shl ''# internal/rootfs/console.go for the full rationale.'',
     shl ''sent='',
     shl ''for c in $(cat /sys/class/tty/console/active 2>/dev/null); do'',
     TAB @ shl ''[ -c ~/dev/$c~ ] || continue'',
     TAB @ shl ''echo ~$*~ > ~/dev/$c~ 2>/dev/null && sent=1'',
     shl ''done'',
     shl ''# Fallback: no sysfs (or no console class) means no list to fan out to,'',
     shl ''# so behave exactly like the plain echo this replaced.'',
     shl ''[ -n ~$sent~ ] || echo ~$*~'']"

definition writeUptimeCheckpoint :: "string \<Rightarrow> string" where
  "writeUptimeCheckpoint label =
     sh ''/bin/sh /etc/cnimbus-say ~cnimbus: $(cut -d. -f1 /proc/uptime)s: '' @ label @ shl ''~''"

lemma supervisorScriptPath_inj: "supervisorScriptPath a = supervisorScriptPath b \<Longrightarrow> a = b"
  by (simp add: supervisorScriptPath_def)

lemma pidFilePath_inj: "pidFilePath a = pidFilePath b \<Longrightarrow> a = b"
  by (simp add: pidFilePath_def)

text \<open>A minimal specification, for examples.\<close>

definition spec_example :: PiecesSpec where
  "spec_example =
     \<lparr> ps_BusyboxBinary = ''ELF'', ps_BusyboxApplets = [], ps_Hostname = ''cnimbus'', ps_DHCP = True,
       ps_StaticIP = None, ps_DNS = [], ps_NTP = [], ps_Volumes = [], ps_Firewall = [],
       ps_Firewall6 = [], ps_FirewallOnError = [], ps_Iptables = [], ps_Supplicant = [],
       ps_WifiFirmware = [], ps_EthernetFirmware = [], ps_BootProfile = ''none'', ps_WifiSSID = [],
       ps_WifiPSK = [], ps_WifiCountry = [], ps_Env = [\<lparr> ev_Key = ''TOKEN'', ev_Value = ''s3cret'' \<rparr>],
       ps_User = [], ps_ExtraFiles = [],
       ps_Services = [\<lparr> svc_Name = ''entrypoint'', svc_Argv = [''/usr/bin/app''], svc_Restart = ''always'' \<rparr>],
       ps_Agent = None, ps_Workdir = [], ps_Healthcheck = None, ps_TmpfsSize = [],
       ps_StopGrace = 0, ps_VGA = False \<rparr>"

end
