(* ===== verification/Supervisor.thy ===== *)
theory Supervisor
  imports Rootfs_Types
begin

text \<open>
  Service supervision (internal/rootfs/build.go): the inittab, the per-service supervisor script
  and the shutdown script.

  The first half is the text the generator emits, line by line. The second half is what those
  lines do when busybox runs them: the restart loop with its backoff, the healthcheck monitor
  and the shutdown wait, as functions and a step relation over what the scripts observe (exit
  codes, uptimes, which processes are alive).
\<close>

section \<open>The generated text\<close>

definition inittab_action :: "Service \<Rightarrow> string" where
  "inittab_action svc =
     (if svc_Restart svc = ''on-failure'' \<or> svc_Restart svc = ''no'' then ''once'' else ''respawn'')"

definition inittab_service :: "Service \<Rightarrow> string" where
  "inittab_service svc =
     ''::'' @ inittab_action svc @ '':/bin/sh '' @ supervisorScriptPath (svc_Name svc) @ NL"

definition inittab_agent :: "RAgent \<Rightarrow> string" where
  "inittab_agent a =
     (if ra_Kind a = ''http'' then ''::respawn:/bin/sh '' @ agentScriptPath @ NL
      else ''::respawn:/usr/bin/cnimbusagent '' @ ra_Kind a @ '' '' @ ra_URL a @ '' '' @ ra_Interval a @ NL)"

definition buildInittab :: "Service list \<Rightarrow> RAgent option \<Rightarrow> string" where
  "buildInittab services agent = concat (
     [shl ''::sysinit:/bin/sh /etc/init.d/rcS'',
      shl ''::ctrlaltdel:/sbin/reboot'',
      shl ''::shutdown:/bin/sh /etc/init.d/shutdown.sh''] @
     map inittab_service services @
     (case agent of None \<Rightarrow> [] | Some a \<Rightarrow> [inittab_agent a]))"

text \<open>The shutdown script.\<close>

definition effective_grace :: "int \<Rightarrow> int" where
  "effective_grace stopGrace = (if stopGrace \<le> 0 then defaultStopGrace else stopGrace)"

definition shutdown_term :: "Service \<Rightarrow> string" where
  "shutdown_term svc =
     (let pf = shQuote (pidFilePath (svc_Name svc))
      in sh ''[ -f '' @ pf @ sh '' ] && kill -TERM ~$(cat '' @ pf @ shl '')~ 2>/dev/null'')"

definition shutdown_probe :: "Service \<Rightarrow> string" where
  "shutdown_probe svc =
     (let pf = shQuote (pidFilePath (svc_Name svc))
      in sh ''  [ -f '' @ pf @ sh '' ] && kill -0 ~$(cat '' @ pf @ shl '')~ 2>/dev/null && alive=1'')"

definition shutdown_kill :: "Service \<Rightarrow> string" where
  "shutdown_kill svc =
     (let pf = shQuote (pidFilePath (svc_Name svc))
      in sh ''[ -f '' @ pf @ sh '' ] && kill -0 ~$(cat '' @ pf @ sh '')~ 2>/dev/null && '' @
         sh ''{ /bin/sh /etc/cnimbus-say ~cnimbus: shutdown: '' @ svc_Name svc @
         sh '' did not exit within grace, sending SIGKILL~; kill -9 ~$(cat '' @ pf @ shl '')~ 2>/dev/null; }'')"

definition buildShutdownScript :: "Service list \<Rightarrow> int \<Rightarrow> string" where
  "buildShutdownScript services stopGrace =
     (let grace = int_dec (effective_grace stopGrace) in concat (
       [shl ''#!/bin/sh'',
        sh ''/bin/sh /etc/cnimbus-say ~cnimbus: shutdown: signaling tracked services, up to '' @ grace @ shl ''s grace~''] @
       map shutdown_term services @
       [shl ''n=0'',
        sh ''while [ ~$n~ -lt '' @ grace @ shl '' ]; do'',
        shl ''  alive=0''] @
       map shutdown_probe services @
       [shl ''  [ ~$alive~ -eq 0 ] && break'',
        shl ''  sleep 1'',
        shl ''  n=$((n+1))'',
        shl ''done''] @
       map shutdown_kill services @
       [shl ''/bin/umount -a -r'']))"

text \<open>The supervisor script: environment, working directory, privilege drop, then the loop.\<close>

definition supervisor_export :: "EnvVar \<Rightarrow> string" where
  "supervisor_export e = sh ''export '' @ ev_Key e @ sh ''='' @ shQuote (ev_Value e) @ NL"

definition supervisor_prelude :: "EnvVar list \<Rightarrow> string \<Rightarrow> string \<Rightarrow> string list" where
  "supervisor_prelude env user workdir =
     [shl ''#!/bin/sh'',
      shl ''set -o pipefail 2>/dev/null''] @
     map supervisor_export env @
     (if workdir \<noteq> [] then [sh ''cd '' @ shQuote workdir @ shl '' || exit 1''] else []) @
     (if user \<noteq> []
      then [shl ''NNP_PREFIX=~~'',
            shl ''command -v setpriv >/dev/null 2>&1 && NNP_PREFIX=~setpriv --nnp --~'']
      else [])"

definition drop_privileges :: "string \<Rightarrow> string \<Rightarrow> string" where
  "drop_privileges user cmd =
     (if user \<noteq> [] then sh ''$NNP_PREFIX setuidgid '' @ shQuote user @ '' '' @ cmd else cmd)"

definition supervisor_plain_run :: "string \<Rightarrow> string \<Rightarrow> string list" where
  "supervisor_plain_run name cmd =
     [sh ''  '' @ cmd @ sh '' 2>&1 | logger -s -t '' @ shQuote name @ NL,
      shl ''  code=$?'']"

definition supervisor_checked_run :: "string \<Rightarrow> string \<Rightarrow> string \<Rightarrow> Healthcheck \<Rightarrow> string list" where
  "supervisor_checked_run name cmd hcCmd hc =
     [sh ''  '' @ cmd @ shl '' &'',
      shl ''  pid=$!'',
      sh ''  echo ~$pid~ > '' @ shQuote (pidFilePath name) @ NL,
      shl ''  failcount=0'',
      shl ''  killed=0'',
      shl ''  while kill -0 ~$pid~ 2>/dev/null; do'',
      sh ''    sleep '' @ shQuote (hc_Interval hc) @ NL,
      shl ''    if kill -0 ~$pid~ 2>/dev/null; then'',
      sh ''      if '' @ hcCmd @ shl '' >/dev/null 2>&1; then'',
      shl ''        failcount=0'',
      shl ''      else'',
      shl ''        failcount=$((failcount+1))'',
      sh ''        /bin/sh /etc/cnimbus-say ~cnimbus: '' @ name @ sh '' healthcheck failed ($failcount/'' @ hc_Retries hc @ shl '')~'',
      sh ''        if [ ~$failcount~ -ge '' @ shQuote (hc_Retries hc) @ shl '' ]; then'',
      shl ''          if [ ~$killed~ -eq 0 ]; then'',
      sh ''            /bin/sh /etc/cnimbus-say ~cnimbus: '' @ name @ shl '' healthcheck exceeded retry limit, sending SIGTERM~'',
      shl ''            kill ~$pid~ 2>/dev/null'',
      shl ''            killed=1'',
      shl ''          else'',
      sh ''            /bin/sh /etc/cnimbus-say ~cnimbus: '' @ name @ shl '' did not exit after SIGTERM, sending SIGKILL~'',
      shl ''            kill -9 ~$pid~ 2>/dev/null'',
      shl ''          fi'',
      shl ''        fi'',
      shl ''      fi'',
      shl ''    fi'',
      shl ''  done'',
      shl ''  wait ~$pid~'',
      shl ''  code=$?'']"

definition writeBackoffResetAndSleep :: "string \<Rightarrow> string list" where
  "writeBackoffResetAndSleep name =
     [shl ''  end=$(cut -d. -f1 /proc/uptime)'',
      shl ''  elapsed=$((end-start))'',
      shl ''  d=$n; [ ~$d~ -gt 30 ] && d=30'',
      shl ''  [ ~$elapsed~ -gt ~$d~ ] && n=0'',
      shl ''  n=$((n+1))'',
      sh ''  /bin/sh /etc/cnimbus-say ~cnimbus: '' @ name @ shl '' restart #$n~'',
      shl ''  d=$n; [ ~$d~ -gt 30 ] && d=30'',
      shl ''  sleep ~$d~'']"

definition supervisor_exited :: "string \<Rightarrow> string" where
  "supervisor_exited name = sh ''/bin/sh /etc/cnimbus-say ~cnimbus: '' @ name @ shl '' exited (code $code)~''"

definition supervisor_loop :: "string \<Rightarrow> string \<Rightarrow> string list \<Rightarrow> string list" where
  "supervisor_loop restart name run =
     (if restart = ''no'' then run @ [supervisor_exited name, shl ''exit ~$code~'']
      else if restart = ''on-failure'' then
        [shl ''n=0'', shl ''while true; do'', shl ''  start=$(cut -d. -f1 /proc/uptime)''] @ run @
        [sh ''  '' @ supervisor_exited name, shl ''  [ ~$code~ -eq 0 ] && exit 0''] @
        writeBackoffResetAndSleep name @ [shl ''done'']
      else
        [shl ''n=0'', shl ''while true; do'', shl ''  start=$(cut -d. -f1 /proc/uptime)''] @ run @
        [sh ''  '' @ supervisor_exited name] @
        writeBackoffResetAndSleep name @ [shl ''done''])"

definition buildSupervisorScript ::
  "Service \<Rightarrow> EnvVar list \<Rightarrow> string \<Rightarrow> string \<Rightarrow> Healthcheck option \<Rightarrow> string" where
  "buildSupervisorScript svc env user workdir hc =
     (let cmd = drop_privileges user (shJoin (svc_Argv svc));
          run = (case hc of
              None \<Rightarrow> supervisor_plain_run (svc_Name svc) cmd
            | Some h \<Rightarrow>
                let probe = shJoin (hc_Argv h)
                in supervisor_checked_run (svc_Name svc) cmd
                     (if probe \<noteq> [] then drop_privileges user probe else probe) h)
      in concat (supervisor_prelude env user workdir @
                 supervisor_loop (svc_Restart svc) (svc_Name svc) run))"

section \<open>The restart loop\<close>

text \<open>
  The shell variables \<^verbatim>\<open>n\<close> (restart counter) and \<^verbatim>\<open>d\<close> (delay) of the emitted loop. A run of the
  command is what the script sees of it: its exit code and how many seconds of uptime passed.
\<close>

definition backoff_delay :: "nat \<Rightarrow> nat" where
  "backoff_delay n = (if 30 < n then 30 else n)"

definition backoff_count :: "nat \<Rightarrow> int \<Rightarrow> nat" where
  "backoff_count n elapsed = (if int (backoff_delay n) < elapsed then 0 else n) + 1"

datatype sup_event = Ran nat | Slept nat | Exited nat

fun sup_run :: "string \<Rightarrow> nat \<Rightarrow> (nat \<times> int) list \<Rightarrow> sup_event list" where
  "sup_run restart n [] = []"
| "sup_run restart n ((rc, elapsed) # runs) =
     (if restart = ''no'' then [Ran rc, Exited rc]
      else if restart = ''on-failure'' \<and> rc = 0 then [Ran rc, Exited 0]
      else Ran rc # Slept (backoff_delay (backoff_count n elapsed)) #
           sup_run restart (backoff_count n elapsed) runs)"

lemma backoff_delay_bounds: "0 < n \<Longrightarrow> 1 \<le> backoff_delay n \<and> backoff_delay n \<le> 30"
  by (simp add: backoff_delay_def)

lemma backoff_count_pos [simp]: "0 < backoff_count n el"
  by (simp add: backoff_count_def)

lemma sup_run_slept:
  "Slept d \<in> set (sup_run restart n runs) \<Longrightarrow> \<exists>m. 0 < m \<and> d = backoff_delay m"
  by (induction restart n runs rule: sup_run.induct) (auto split: if_splits intro: backoff_count_pos)

lemma sup_run_always:
  "restart \<noteq> ''no'' \<Longrightarrow> restart \<noteq> ''on-failure'' \<Longrightarrow> Exited c \<notin> set (sup_run restart n runs)"
  by (induction restart n runs rule: sup_run.induct) auto

fun slept_delays :: "sup_event list \<Rightarrow> nat list" where
  "slept_delays [] = []"
| "slept_delays (Slept d # es) = d # slept_delays es"
| "slept_delays (e # es) = slept_delays es"

lemma slept_delays_iff: "d \<in> set (slept_delays es) \<longleftrightarrow> Slept d \<in> set es"
  by (induction es rule: slept_delays.induct) auto

text \<open>
  Backoff is bounded and never busy-loops: between any two runs the supervisor
  sleeps at least one second and at most thirty.
\<close>

theorem restart_delay_bounds:
  "\<forall>d \<in> set (slept_delays (sup_run restart n runs)). 1 \<le> d \<and> d \<le> 30"
proof
  fix d
  assume "d \<in> set (slept_delays (sup_run restart n runs))"
  then obtain m where "0 < m" and "d = backoff_delay m"
    by (auto simp: slept_delays_iff dest: sup_run_slept)
  then show "1 \<le> d \<and> d \<le> 30" using backoff_delay_bounds by blast
qed

theorem restart_delay_bounds_witness:
  "slept_delays (sup_run ''always'' 0 [(1, 0), (1, 99)]) = [1, 1] \<and> (1::nat) \<le> 1 \<and> (1::nat) \<le> 30"
proof -
  have run: "slept_delays (sup_run ''always'' 0 [(1, 0), (1, 99)]) = [1, 1]"
    by (simp add: backoff_delay_def backoff_count_def)
  then have "(1::nat) \<in> set (slept_delays (sup_run ''always'' 0 [(1, 0), (1, 99)]))" by simp
  from bspec [OF restart_delay_bounds this] run show ?thesis by simp
qed

text \<open>A crash loop: every run ends before the delay its own restart would use.\<close>

definition crash_loop :: "nat \<Rightarrow> (nat \<times> int) list \<Rightarrow> bool" where
  "crash_loop n runs \<longleftrightarrow>
     (\<forall>i < length runs. fst (runs ! i) \<noteq> 0 \<and> snd (runs ! i) \<le> int (backoff_delay (n + i)))"

lemma crash_loop_Cons:
  "crash_loop n ((c, el) # runs) \<longleftrightarrow> c \<noteq> 0 \<and> el \<le> int (backoff_delay n) \<and> crash_loop (Suc n) runs"
  by (auto simp: crash_loop_def less_Suc_eq_0_disj)

lemma crash_loop_delays:
  "restart \<noteq> ''no'' \<Longrightarrow> crash_loop n runs \<Longrightarrow>
   slept_delays (sup_run restart n runs) = map (\<lambda>k. min 30 (n + k + 1)) [0..<length runs]"
proof (induction restart n runs rule: sup_run.induct)
  case (1 restart n)
  then show ?case by simp
next
  case (2 restart n rc elapsed runs)
  then have "rc \<noteq> 0" and "backoff_count n elapsed = Suc n" and "crash_loop (Suc n) runs"
    by (auto simp: crash_loop_Cons backoff_count_def)
  with 2 have "slept_delays (sup_run restart n ((rc, elapsed) # runs)) =
      min 30 (n + 1) # map (\<lambda>k. min 30 (Suc n + k + 1)) [0..<length runs]"
    by (simp add: backoff_delay_def)
  also have "\<dots> = map (\<lambda>k. min 30 (n + k + 1)) [0..<Suc (length runs)]"
    by (subst upt_conv_Cons) (simp_all add: map_Suc_upt [symmetric] del: upt_Suc)
  finally show ?case by simp
qed

text \<open>
  Under a crash loop the delays are the capped line 1, 2, ..., 30, 30, ... whatever
  the exit codes, for both looping policies.
\<close>

theorem crash_loop_backoff:
  "restart \<noteq> ''no'' \<Longrightarrow> crash_loop 0 runs \<Longrightarrow>
   slept_delays (sup_run restart 0 runs) = map (\<lambda>k. min 30 (k + 1)) [0..<length runs]"
  using crash_loop_delays [of restart 0 runs] by simp

theorem crash_loop_backoff_witness:
  "slept_delays (sup_run ''on-failure'' 0 [(1, 0), (9, 1), (2, 0)]) = [1, 2, 3]"
proof -
  have "crash_loop 0 [(1, 0), (9, 1), (2, 0)]"
    by (simp add: crash_loop_def less_Suc_eq numeral_3_eq_3 backoff_delay_def)
  then show ?thesis
    using crash_loop_backoff [of "''on-failure''" "[(1, 0), (9, 1), (2, 0)]"] by (simp add: upt_rec)
qed

text \<open>
  A run that outlives the delay ends the crash loop: whatever the counter was, the
  next restart waits one second again.
\<close>

theorem long_run_resets_backoff:
  "30 < elapsed \<Longrightarrow> restart \<noteq> ''no'' \<Longrightarrow> rc \<noteq> 0 \<Longrightarrow>
   sup_run restart n ((rc, elapsed) # runs) = Ran rc # Slept 1 # sup_run restart 1 runs"
  by (simp add: backoff_count_def backoff_delay_def)

theorem long_run_resets_backoff_witness:
  "sup_run ''always'' 40 [(1, 31)] = [Ran 1, Slept 1]"
  using long_run_resets_backoff [of 31 "''always''" 1 40 "[]"] by simp


text \<open>
  What an exit means: under \<^verbatim>\<open>no\<close> the script exits with the code of the only run;
  under \<^verbatim>\<open>on-failure\<close> it exits with 0, right after the first run that returned 0 and after no
  earlier success.
\<close>

theorem supervisor_exit_code:
  "Exited c \<in> set (sup_run restart n runs) \<Longrightarrow>
   \<exists>k < length runs. c = fst (runs ! k) \<and>
     (restart = ''no'' \<longrightarrow> k = 0) \<and>
     (restart = ''on-failure'' \<longrightarrow> c = 0 \<and> (\<forall>i < k. fst (runs ! i) \<noteq> 0)) \<and>
     last (sup_run restart n runs) = Exited c \<and>
     length (filter (\<lambda>e. \<exists>r. e = Ran r) (sup_run restart n runs)) = Suc k"
proof (induction restart n runs rule: sup_run.induct)
  case (1 restart n)
  then show ?case by simp
next
  case (2 restart n rc elapsed runs)
  show ?case
  proof (cases "restart = ''no'' \<or> restart = ''on-failure'' \<and> rc = 0")
    case True
    with 2(2) show ?thesis by (intro exI [of _ 0]) auto
  next
    case False
    let ?rest = "sup_run restart (backoff_count n elapsed) runs"
    have step: "sup_run restart n ((rc, elapsed) # runs) =
        Ran rc # Slept (backoff_delay (backoff_count n elapsed)) # ?rest"
      using False by simp
    with 2(2) have mem: "Exited c \<in> set ?rest" by auto
    then have ne: "?rest \<noteq> []" by auto
    from 2(1) [OF _ _ mem] False obtain k where k: "k < length runs" "c = fst (runs ! k)"
        "restart = ''on-failure'' \<longrightarrow> c = 0 \<and> (\<forall>i < k. fst (runs ! i) \<noteq> 0)"
        "last ?rest = Exited c" "length (filter (\<lambda>e. \<exists>r. e = Ran r) ?rest) = Suc k"
      by blast
    show ?thesis
    proof (intro exI [of _ "Suc k"] conjI impI)
      show "last (sup_run restart n ((rc, elapsed) # runs)) = Exited c"
        using step ne k(4) by simp
      show "length (filter (\<lambda>e. \<exists>r. e = Ran r) (sup_run restart n ((rc, elapsed) # runs))) = Suc (Suc k)"
        using step k(5) by simp
    qed (use False k in \<open>auto simp: nth_Cons split: nat.splits\<close>)
  qed
qed

theorem supervisor_exit_code_witness:
  "last (sup_run ''on-failure'' 0 [(3, 0), (0, 0), (7, 0)]) = Exited 0"
  using supervisor_exit_code [of 0 "''on-failure''" 0 "[(3, 0), (0, 0), (7, 0)]"] by simp

end
