(* ===== verification/Monitor.thy ===== *)
theory Monitor
  imports Supervisor
begin

text \<open>
  The two loops of the generated scripts that signal a workload (internal/rootfs/build.go): the
  healthcheck monitor inside a supervisor script, as a step relation in which the workload may
  die at any moment, and the shutdown script, as a function of which processes are alive at each
  second.
\<close>

section \<open>The healthcheck monitor\<close>

text \<open>
  \<^verbatim>\<open>Head\<close> is the test of \<^verbatim>\<open>while kill -0\<close>, \<^verbatim>\<open>Asleep\<close> the sleep of one interval, \<^verbatim>\<open>Probing\<close> the
  probe after it, \<^verbatim>\<open>Reaped\<close> the \<^verbatim>\<open>wait\<close> after the loop. \<^verbatim>\<open>mon_Alive\<close> is what \<^verbatim>\<open>kill -0\<close>
  reports; SIGKILL cannot be caught, so it clears it. \<^verbatim>\<open>mon_Sent\<close> and \<^verbatim>\<open>mon_Probes\<close> record the
  signals sent and the probe results, the latest first; the script does not read them.
\<close>

datatype signal = SigTerm | SigKill

text \<open>Signals in the order of their severity.\<close>

instantiation signal :: linorder
begin

definition less_eq_signal :: "signal \<Rightarrow> signal \<Rightarrow> bool" where
  "less_eq_signal s t \<longleftrightarrow> s = SigTerm \<or> t = SigKill"

definition less_signal :: "signal \<Rightarrow> signal \<Rightarrow> bool" where
  "less_signal s t \<longleftrightarrow> s = SigTerm \<and> t = SigKill"

instance
proof
  fix s t u :: signal
  show "s < t \<longleftrightarrow> s \<le> t \<and> \<not> t \<le> s" by (cases s; cases t) (simp_all add: less_eq_signal_def less_signal_def)
  show "s \<le> s" by (cases s) (simp_all add: less_eq_signal_def)
  show "s \<le> t \<Longrightarrow> t \<le> u \<Longrightarrow> s \<le> u" by (cases s; cases t) (simp_all add: less_eq_signal_def)
  show "s \<le> t \<Longrightarrow> t \<le> s \<Longrightarrow> s = t" by (cases s; cases t) (simp_all add: less_eq_signal_def)
  show "s \<le> t \<or> t \<le> s" by (cases s; cases t) (simp_all add: less_eq_signal_def)
qed

end

datatype mon_pc = Head | Asleep | Probing | Reaped

record monitor =
  mon_PC :: mon_pc
  mon_Alive :: bool
  mon_Fail :: nat
  mon_Killed :: bool
  mon_Sent :: "signal list"
  mon_Probes :: "bool list"

definition mon_init :: monitor where
  "mon_init = \<lparr> mon_PC = Head, mon_Alive = True, mon_Fail = 0, mon_Killed = False,
                mon_Sent = [], mon_Probes = [] \<rparr>"

text \<open>The probe's branch of the loop body, \<^verbatim>\<open>retries\<close> being the number HEALTHCHECK gives.\<close>

definition probe_ok :: "monitor \<Rightarrow> monitor" where
  "probe_ok s = s \<lparr> mon_PC := Head, mon_Fail := 0, mon_Probes := True # mon_Probes s \<rparr>"

definition probe_failed :: "int \<Rightarrow> monitor \<Rightarrow> monitor" where
  "probe_failed retries s =
     (let f = mon_Fail s + 1;
          t = s \<lparr> mon_PC := Head, mon_Fail := f, mon_Probes := False # mon_Probes s \<rparr>
      in if retries \<le> int f then
           (if \<not> mon_Killed s
            then t \<lparr> mon_Killed := True, mon_Sent := SigTerm # mon_Sent s \<rparr>
            else t \<lparr> mon_Alive := False, mon_Sent := SigKill # mon_Sent s \<rparr>)
         else t)"

inductive mon_step :: "int \<Rightarrow> monitor \<Rightarrow> monitor \<Rightarrow> bool" for retries :: int where
  dies: "mon_Alive s \<Longrightarrow> mon_step retries s (s \<lparr> mon_Alive := False \<rparr>)"
| loop_enter: "mon_PC s = Head \<Longrightarrow> mon_Alive s \<Longrightarrow> mon_step retries s (s \<lparr> mon_PC := Asleep \<rparr>)"
| loop_leave: "mon_PC s = Head \<Longrightarrow> \<not> mon_Alive s \<Longrightarrow> mon_step retries s (s \<lparr> mon_PC := Reaped \<rparr>)"
| woke_alive: "mon_PC s = Asleep \<Longrightarrow> mon_Alive s \<Longrightarrow> mon_step retries s (s \<lparr> mon_PC := Probing \<rparr>)"
| woke_dead: "mon_PC s = Asleep \<Longrightarrow> \<not> mon_Alive s \<Longrightarrow> mon_step retries s (s \<lparr> mon_PC := Head \<rparr>)"
| probed_ok: "mon_PC s = Probing \<Longrightarrow> mon_step retries s (probe_ok s)"
| probed_bad: "mon_PC s = Probing \<Longrightarrow> mon_step retries s (probe_failed retries s)"

inductive mon_reach :: "int \<Rightarrow> monitor \<Rightarrow> bool" for retries :: int where
  start: "mon_reach retries mon_init"
| more: "mon_reach retries s \<Longrightarrow> mon_step retries s t \<Longrightarrow> mon_reach retries t"

inductive_cases mon_stepE: "mon_step retries s t"

inductive_simps mon_step_Reaped: "mon_step retries (s \<lparr> mon_PC := Reaped \<rparr>) t"

text \<open>Runs of failed probes at the end of the history.\<close>

definition failing_run :: "bool list \<Rightarrow> nat" where
  "failing_run ps = length (takeWhile Not ps)"

lemma failing_run_simps [simp]:
  "failing_run [] = 0" "failing_run (True # ps) = 0" "failing_run (False # ps) = Suc (failing_run ps)"
  by (simp_all add: failing_run_def)

lemma failing_run_all: "True \<notin> set ps \<Longrightarrow> failing_run ps = length ps"
  by (induction ps) auto

text \<open>
  The invariant: the counter is the length of the current run of failures; what was sent is
  nothing, or SIGTERM, or SIGTERM and then SIGKILL, and after the last the process is dead and
  is probed no more.
\<close>

definition mon_inv :: "int \<Rightarrow> monitor \<Rightarrow> bool" where
  "mon_inv retries s \<longleftrightarrow>
     mon_Fail s = failing_run (mon_Probes s) \<and>
     mon_Sent s \<in> {[], [SigTerm], [SigKill, SigTerm]} \<and>
     (mon_Killed s \<longleftrightarrow> mon_Sent s \<noteq> []) \<and>
     (SigKill \<in> set (mon_Sent s) \<longrightarrow> \<not> mon_Alive s \<and> mon_PC s \<noteq> Probing)"

lemma mon_inv_step: "mon_inv retries s \<Longrightarrow> mon_step retries s t \<Longrightarrow> mon_inv retries t"
  by (erule mon_stepE)
     (auto simp: mon_inv_def probe_ok_def probe_failed_def Let_def)

lemma mon_inv_reach: "mon_reach retries s \<Longrightarrow> mon_inv retries s"
proof (induction rule: mon_reach.induct)
  case start
  then show ?case by (simp add: mon_inv_def mon_init_def)
next
  case (more s t)
  then show ?case by (blast intro: mon_inv_step)
qed


text \<open>A workload that fails its probes and ignores SIGTERM, with one retry.\<close>

definition mon_wedged :: monitor where
  "mon_wedged = \<lparr> mon_PC = Head, mon_Alive = False, mon_Fail = 2, mon_Killed = True,
                  mon_Sent = [SigKill, SigTerm], mon_Probes = [False, False] \<rparr>"

lemma mon_tick_bad:
  "mon_reach r s \<Longrightarrow> mon_PC s = Head \<Longrightarrow> mon_Alive s \<Longrightarrow>
   mon_reach r (probe_failed r (s \<lparr> mon_PC := Probing \<rparr>))"
proof -
  assume reach: "mon_reach r s" and head: "mon_PC s = Head" "mon_Alive s"
  have "mon_reach r (s \<lparr> mon_PC := Asleep \<rparr>)"
    using reach by (rule mon_reach.more) (simp add: loop_enter head)
  from mon_reach.more [OF this woke_alive] have "mon_reach r (s \<lparr> mon_PC := Probing \<rparr>)"
    using head by simp
  from mon_reach.more [OF this probed_bad] show ?thesis by simp
qed

lemma mon_tick_ok:
  "mon_reach r s \<Longrightarrow> mon_PC s = Head \<Longrightarrow> mon_Alive s \<Longrightarrow>
   mon_reach r (probe_ok (s \<lparr> mon_PC := Probing \<rparr>))"
proof -
  assume reach: "mon_reach r s" and head: "mon_PC s = Head" "mon_Alive s"
  have "mon_reach r (s \<lparr> mon_PC := Asleep \<rparr>)"
    using reach by (rule mon_reach.more) (simp add: loop_enter head)
  from mon_reach.more [OF this woke_alive] have "mon_reach r (s \<lparr> mon_PC := Probing \<rparr>)"
    using head by simp
  from mon_reach.more [OF this probed_ok] show ?thesis by simp
qed

lemma mon_wedged_reach: "mon_reach 1 mon_wedged"
  using mon_tick_bad [OF mon_tick_bad [OF mon_reach.start [of 1]]]
  by (simp add: mon_init_def mon_wedged_def probe_failed_def numeral_2_eq_2)


text \<open>
  No signal without cause: when the monitor is about to act on a failed probe, it
  sends something only if that failure completes \<^verbatim>\<open>retries\<close> failures in a row, with no success
  between them.
\<close>

theorem monitor_signals_need_retries:
  "mon_reach retries s \<Longrightarrow> mon_PC s = Probing \<Longrightarrow>
   mon_Sent (probe_failed retries s) \<noteq> mon_Sent s \<longleftrightarrow>
   retries \<le> int (failing_run (False # mon_Probes s))"
  by (drule mon_inv_reach) (auto simp: mon_inv_def probe_failed_def Let_def)

theorem monitor_signals_need_retries_witness:
  "mon_Sent (probe_failed 2 (mon_init \<lparr> mon_PC := Probing \<rparr>)) = mon_Sent mon_init"
proof -
  have "mon_reach 2 (mon_init \<lparr> mon_PC := Asleep \<rparr>)"
    using mon_reach.more [OF mon_reach.start loop_enter [of mon_init 2]] by (simp add: mon_init_def)
  from mon_reach.more [OF this woke_alive]
  have "mon_reach 2 (mon_init \<lparr> mon_PC := Probing \<rparr>)" by (simp add: mon_init_def)
  from monitor_signals_need_retries [OF this] show ?thesis by (simp add: mon_init_def)
qed

definition mon_pressed :: "int \<Rightarrow> monitor \<Rightarrow> bool" where
  "mon_pressed retries s \<longleftrightarrow>
     (True \<notin> set (mon_Probes s) \<longrightarrow>
       (0 < mon_Fail s \<and> retries \<le> int (mon_Fail s) \<longrightarrow> mon_Killed s) \<and>
       (2 \<le> mon_Fail s \<and> retries < int (mon_Fail s) \<longrightarrow> \<not> mon_Alive s))"

lemma mon_pressed_reach: "mon_reach retries s \<Longrightarrow> mon_pressed retries s"
proof (induction rule: mon_reach.induct)
  case start
  then show ?case by (simp add: mon_pressed_def mon_init_def)
next
  case (more s t)
  have inv: "mon_inv retries s" using more.hyps(1) by (rule mon_inv_reach)
  show ?case
    using more.hyps(2)
  proof (cases rule: mon_step.cases)
    case probed_bad
    have step: "mon_pressed retries (probe_failed retries s)"
      using more.IH inv \<open>mon_PC s = Probing\<close>
      by (cases "mon_Fail s") (auto simp: mon_pressed_def mon_inv_def probe_failed_def Let_def)
    then show ?thesis by (simp add: probed_bad)
  qed (use more.IH in \<open>auto simp: mon_pressed_def probe_ok_def\<close>)
qed

text \<open>
  Property C36. A wedged workload does not stay: if every probe since the start failed, then after
  one probe more than \<^verbatim>\<open>retries\<close> (and at least two) the workload is dead, even if it ignores
  SIGTERM.
\<close>

theorem monitor_kills_wedged:
  "mon_reach retries s \<Longrightarrow> True \<notin> set (mon_Probes s) \<Longrightarrow>
   max 1 retries < int (length (mon_Probes s)) \<Longrightarrow> \<not> mon_Alive s"
  using mon_pressed_reach [of retries s] mon_inv_reach [of retries s]
  by (auto simp: mon_pressed_def mon_inv_def failing_run_all)

theorem monitor_kills_wedged_witness: "\<not> mon_Alive mon_wedged"
  using monitor_kills_wedged [OF mon_wedged_reach] by (simp add: mon_wedged_def)

text \<open>A workload that survives a SIGTERM, recovers, and fails a probe again.\<close>

definition mon_relapsed :: monitor where
  "mon_relapsed = \<lparr> mon_PC = Head, mon_Alive = False, mon_Fail = 1, mon_Killed = True,
                    mon_Sent = [SigKill, SigTerm], mon_Probes = [False, True, False] \<rparr>"

text \<open>
  The flag \<^verbatim>\<open>killed\<close> is never reset: a workload that survives a SIGTERM and recovers
  gets no second one. With one retry, its next failed probe is answered with SIGKILL, although a
  successful probe came after the SIGTERM.
\<close>

theorem monitor_no_second_term:
  "mon_reach 1 mon_relapsed \<and> mon_Probes mon_relapsed = [False, True, False] \<and>
   mon_Sent mon_relapsed = [SigKill, SigTerm]"
  using mon_tick_bad [OF mon_tick_ok [OF mon_tick_bad [OF mon_reach.start [of 1]]]]
  by (simp add: mon_init_def mon_relapsed_def probe_failed_def probe_ok_def)

section \<open>The shutdown script\<close>

text \<open>
  The script's world: which services have a pid file, and which processes are alive at the
  given second after the signals went out.
\<close>

datatype shutdown_event = SendTerm string | SleepOne | SendKill string | Umount

fun shutdown_wait :: "nat \<Rightarrow> (nat \<Rightarrow> string \<Rightarrow> bool) \<Rightarrow> string list \<Rightarrow> nat \<Rightarrow> nat" where
  "shutdown_wait 0 alive tracked n = n"
| "shutdown_wait (Suc left) alive tracked n =
     (if \<not> list_ex (alive n) tracked then n else shutdown_wait left alive tracked (n + 1))"

definition shutdown_run ::
  "string list \<Rightarrow> nat \<Rightarrow> (string \<Rightarrow> bool) \<Rightarrow> (nat \<Rightarrow> string \<Rightarrow> bool) \<Rightarrow> shutdown_event list" where
  "shutdown_run names grace has_pid alive =
     (let tracked = filter has_pid names;
          n = shutdown_wait grace alive tracked 0
      in map SendTerm tracked @ replicate n SleepOne @
         map SendKill (filter (alive n) tracked) @ [Umount])"

lemma shutdown_wait_bounds:
  "n \<le> shutdown_wait left alive tracked n \<and> shutdown_wait left alive tracked n \<le> n + left"
proof (induction left arbitrary: n)
  case 0
  then show ?case by simp
next
  case (Suc left)
  from Suc.IH [of "n + 1"] show ?case by auto
qed

lemma shutdown_wait_early:
  "shutdown_wait left alive tracked n < n + left \<Longrightarrow>
   \<not> list_ex (alive (shutdown_wait left alive tracked n)) tracked"
  by (induction left arbitrary: n) (auto split: if_splits)

text \<open>
  The shutdown wait is a total budget, not a per-service one: the script sleeps at
  most \<^verbatim>\<open>grace\<close> seconds however many services there are, and it unmounts last.
\<close>

theorem shutdown_within_grace:
  "length (filter (\<lambda>e. e = SleepOne) (shutdown_run names grace has_pid alive)) \<le> grace \<and>
   last (shutdown_run names grace has_pid alive) = Umount \<and>
   count_list (shutdown_run names grace has_pid alive) Umount = 1"
proof -
  have terms: "filter (\<lambda>e. e = SleepOne) (map SendTerm xs) = []" "count_list (map SendTerm xs) Umount = 0"
    for xs by (induction xs) auto
  have kills: "filter (\<lambda>e. e = SleepOne) (map SendKill xs) = []" "count_list (map SendKill xs) Umount = 0"
    for xs by (induction xs) auto
  have sleeps: "count_list (replicate n SleepOne) Umount = 0" for n by (induction n) auto
  show ?thesis
    using shutdown_wait_bounds [of 0 grace alive "filter has_pid names"]
    by (simp add: shutdown_run_def Let_def terms kills sleeps)
qed

text \<open>
  Only survivors are killed: SIGKILL goes to a service exactly when it is tracked
  and still alive at the end of the wait; each had its SIGTERM first, and when anything is killed
  the whole grace time has passed.
\<close>

theorem shutdown_kills_survivors:
  "SendKill s \<in> set (shutdown_run names grace has_pid alive) \<longleftrightarrow>
     s \<in> set names \<and> has_pid s \<and> alive grace s \<and>
     shutdown_wait grace alive (filter has_pid names) 0 = grace \<and>
     SendTerm s \<in> set (shutdown_run names grace has_pid alive)"
proof -
  let ?tracked = "filter has_pid names"
  let ?n = "shutdown_wait grace alive ?tracked 0"
  have "?n = grace \<or> \<not> list_ex (alive ?n) ?tracked"
    using shutdown_wait_early [of grace alive ?tracked 0] shutdown_wait_bounds [of 0 grace alive ?tracked]
    by (metis add_0 le_neq_implies_less)
  then show ?thesis
    by (auto simp: shutdown_run_def Let_def list_ex_iff)
qed

end
