(* ===== verification/Nimbus_Checks.thy ===== *)
theory Nimbus_Checks
  imports Nimbus_Lex
begin

text \<open>
  The operand validators of the manifest parser (internal/nimbusfile/nimbusfile.go): FIREWALL
  rules, TMPSIZE, WIFI, WIFIPSK, WIFICOUNTRY, and the cross-directive WiFi check. Each regular
  expression is written out as the strings it matches.
\<close>

section \<open>Firewall rules\<close>

definition firewallMetaChars :: string where
  "firewallMetaChars = '';&|'' @ BQ @ ''$()<>'' @ NL"

definition firewallOps :: "string list" where
  "firewallOps =
     [''-A'', ''--append'', ''-I'', ''--insert'', ''-D'', ''--delete'', ''-R'', ''--replace'',
      ''-L'', ''--list'', ''-F'', ''--flush'', ''-Z'', ''--zero'', ''-N'', ''--new-chain'',
      ''-X'', ''--delete-chain'', ''-P'', ''--policy'', ''-E'', ''--rename-chain'']"

definition validateFirewallRule :: "string \<Rightarrow> nimbus_error + unit" where
  "validateFirewallRule rule =
     (if go_contains_any rule firewallMetaChars then Inl EMetaChar
      else let fs = go_fields rule
           in if fs = [] \<or> hd fs \<notin> set firewallOps
              then Inl (EFirewallOp (firstFieldOrEmpty fs)) else Inr ())"

section \<open>TMPSIZE\<close>

text \<open>\<^verbatim>\<open>^[1-9][0-9]*[kKmMgG]?$\<close>\<close>

definition size_suffix :: "char \<Rightarrow> bool" where
  "size_suffix c \<longleftrightarrow> c \<in> set ''kKmMgG''"

definition tmpfsSizePattern :: "string \<Rightarrow> bool" where
  "tmpfsSizePattern s \<longleftrightarrow>
     (case s of [] \<Rightarrow> False
      | c # _ \<Rightarrow> is_digit c \<and> c \<noteq> CHR ''0'' \<and>
          (case dropWhile is_digit s of [] \<Rightarrow> True | k # r \<Rightarrow> size_suffix k \<and> r = []))"

definition validateTmpfsSize :: "string \<Rightarrow> nimbus_error + unit" where
  "validateTmpfsSize sz = guardE (tmpfsSizePattern sz) (ETmpfsSize sz)"

section \<open>WiFi\<close>

definition wifiMetaChars :: string where
  "wifiMetaChars = DQ @ BSL @ NL @ [CHR 0x0D]"

definition validateWiFiSSID :: "string \<Rightarrow> nimbus_error + unit" where
  "validateWiFiSSID ssid =
     (if 32 < length ssid then Inl (ESSIDTooLong (length ssid))
      else if go_contains_any ssid wifiMetaChars then Inl EMetaChar else Inr ())"

text \<open>\<^verbatim>\<open>^[0-9a-fA-F]{64}$\<close>\<close>

definition wifiPSKHexPattern :: "string \<Rightarrow> bool" where
  "wifiPSKHexPattern s \<longleftrightarrow> length s = 64 \<and> list_all is_hex s"

definition validateWiFiPSK :: "string \<Rightarrow> nimbus_error + unit" where
  "validateWiFiPSK psk =
     (if wifiPSKHexPattern psk then Inr ()
      else if length psk < 8 \<or> 63 < length psk then Inl (EPSKLength (length psk))
      else if go_contains_any psk wifiMetaChars then Inl EMetaChar
      else if list_ex (\<lambda>r. r < 32 \<or> 126 < r) (go_runes psk) then Inl ENotPrintable
      else Inr ())"

text \<open>\<^verbatim>\<open>^[A-Z]{2}$\<close>\<close>

definition wifiCountryPattern :: "string \<Rightarrow> bool" where
  "wifiCountryPattern s \<longleftrightarrow> length s = 2 \<and> list_all (\<lambda>c. 65 \<le> code c \<and> code c \<le> 90) s"

definition validateWiFiCountry :: "string \<Rightarrow> nimbus_error + unit" where
  "validateWiFiCountry country =
     (if country = [] then Inl ECountryMissing
      else guardE (wifiCountryPattern country) (ECountryFormat country))"

definition hasWifiDriver :: "string \<Rightarrow> bool" where
  "hasWifiDriver profile \<longleftrightarrow> profile = ''wifi'' \<or> profile = ''eth+wifi''"

definition validateWiFiCrossRefs :: "Nimbusfile \<Rightarrow> nimbus_error + unit" where
  "validateWiFiCrossRefs hf =
     (if \<not> hasWifiDriver (nf_BootProfile hf) then
        (if nf_WiFiSSID hf \<noteq> [] \<or> nf_WiFiPSK hf \<noteq> [] \<or> nf_WiFiCountry hf \<noteq> []
         then Inl (EWiFiWithoutDriver (nf_BootProfile hf)) else Inr ())
      else
        (let missing = (if nf_WiFiSSID hf = [] then [''WIFI''] else []) @
                       (if nf_WiFiPSK hf = [] then [''WIFIPSK''] else []) @
                       (if nf_WiFiCountry hf = [] then [''WIFICOUNTRY''] else [])
         in if missing \<noteq> [] then Inl (EWiFiMissing (nf_BootProfile hf) missing) else Inr ()))"

section \<open>What the validators accept\<close>

definition firewall_rule_ok :: "string \<Rightarrow> bool" where
  "firewall_rule_ok rule \<longleftrightarrow> set rule \<inter> set firewallMetaChars = {} \<and>
     (\<exists>op args. go_fields rule = op # args \<and> op \<in> set firewallOps)"

definition wifi_psk_ok :: "string \<Rightarrow> bool" where
  "wifi_psk_ok psk \<longleftrightarrow> wifiPSKHexPattern psk \<or>
     (8 \<le> length psk \<and> length psk \<le> 63 \<and> set psk \<inter> set wifiMetaChars = {} \<and>
      list_all (\<lambda>c. 32 \<le> code c \<and> code c \<le> 126) psk)"

lemma if_if_Inr_iff:
  "(if A then Inl e else if B then Inl e' else Inr ()) = Inr u \<longleftrightarrow> \<not> A \<and> \<not> B"
  by simp

lemma validateFirewallRule_iff: "validateFirewallRule rule = Inr u \<longleftrightarrow> firewall_rule_ok rule"
proof -
  have "(\<exists>op args. go_fields rule = op # args \<and> op \<in> set firewallOps) \<longleftrightarrow>
      \<not> (go_fields rule = [] \<or> hd (go_fields rule) \<notin> set firewallOps)"
    by (cases "go_fields rule") simp_all
  moreover have "validateFirewallRule rule = Inr u \<longleftrightarrow>
      \<not> go_contains_any rule firewallMetaChars \<and>
      \<not> (go_fields rule = [] \<or> hd (go_fields rule) \<notin> set firewallOps)"
    unfolding validateFirewallRule_def Let_def by (rule if_if_Inr_iff)
  ultimately show ?thesis
    unfolding firewall_rule_ok_def go_contains_any_iff by blast
qed

text \<open>The runes of a text are all printable ASCII exactly when its bytes are.\<close>

lemma decode_rune_ascii: "code c < 128 \<Longrightarrow> decode_rune (c # s) = (code c, 1)"
  by (simp add: decode_rune_def)

lemma two_byte_high: "194 \<le> (x::nat) \<Longrightarrow> 126 < 64 * (x - 192) + y"
  by arith

lemma three_byte_high:
  "224 \<le> (x::nat) \<Longrightarrow> (x = 224 \<longrightarrow> 160 \<le> y) \<Longrightarrow> 126 < 4096 * (x - 224) + 64 * (y - 128) + z"
  by (cases "x = 224") arith+

lemma four_byte_high:
  "240 \<le> (x::nat) \<Longrightarrow> (x = 240 \<longrightarrow> 144 \<le> y) \<Longrightarrow>
     126 < 262144 * (x - 240) + 4096 * (y - 128) + 64 * z + w"
  by (cases "x = 240") arith+

lemma decode_rune_high: "128 \<le> code c \<Longrightarrow> 126 < fst (decode_rune (c # s))"
  using two_byte_high three_byte_high four_byte_high
  by (simp add: decode_rune_def Let_def split: list.split)

lemma go_runes_printable:
  "list_ex (\<lambda>r. r < 32 \<or> 126 < r) (go_runes s) \<longleftrightarrow> \<not> list_all (\<lambda>c. 32 \<le> code c \<and> code c \<le> 126) s"
proof (induction s rule: go_runes.induct)
  case (1 s)
  show ?case
  proof (cases s)
    case Nil
    then show ?thesis by (simp add: go_runes.simps)
  next
    case (Cons c r)
    show ?thesis
    proof (cases "code c < 128")
      case True
      then have "go_runes s = code c # go_runes r"
        using Cons by (subst go_runes.simps) (simp add: decode_rune_ascii)
      moreover have "drop (snd (decode_rune s)) s = r"
        using True Cons by (simp add: decode_rune_ascii)
      ultimately show ?thesis using "1.IH" Cons by auto
    next
      case False
      then have "126 < fst (decode_rune s)" using Cons decode_rune_high by simp
      then have "list_ex (\<lambda>r. r < 32 \<or> 126 < r) (go_runes s)"
        using Cons by (subst go_runes.simps) simp
      with False Cons show ?thesis by simp
    qed
  qed
qed

lemma validateWiFiPSK_iff: "validateWiFiPSK psk = Inr u \<longleftrightarrow> wifi_psk_ok psk"
  by (auto simp: validateWiFiPSK_def wifi_psk_ok_def go_contains_any_iff go_runes_printable)

lemma validateWiFiSSID_iff:
  "validateWiFiSSID ssid = Inr u \<longleftrightarrow> length ssid \<le> 32 \<and> set ssid \<inter> set wifiMetaChars = {}"
  by (auto simp: validateWiFiSSID_def go_contains_any_iff)

lemma validateTmpfsSize_iff: "validateTmpfsSize sz = Inr u \<longleftrightarrow> tmpfsSizePattern sz"
  by (simp add: validateTmpfsSize_def)

lemma validateWiFiCountry_iff: "validateWiFiCountry country = Inr u \<longleftrightarrow> wifiCountryPattern country"
  by (auto simp: validateWiFiCountry_def wifiCountryPattern_def)

lemmas validator_iffs =
  validateFirewallRule_iff validateWiFiPSK_iff validateWiFiSSID_iff validateTmpfsSize_iff
  validateWiFiCountry_iff

text \<open>What the cross-directive check accepts: all three WiFi values with a WiFi profile, none without.\<close>

definition wifi_consistent :: "Nimbusfile \<Rightarrow> bool" where
  "wifi_consistent hf \<longleftrightarrow>
     (if hasWifiDriver (nf_BootProfile hf)
      then nf_WiFiSSID hf \<noteq> [] \<and> nf_WiFiPSK hf \<noteq> [] \<and> nf_WiFiCountry hf \<noteq> []
      else nf_WiFiSSID hf = [] \<and> nf_WiFiPSK hf = [] \<and> nf_WiFiCountry hf = [])"

lemma validateWiFiCrossRefs_iff: "validateWiFiCrossRefs hf = Inr u \<longleftrightarrow> wifi_consistent hf"
  by (auto simp: validateWiFiCrossRefs_def wifi_consistent_def Let_def)

end
