(* ===== verification/Nimbus_Apply.thy ===== *)
theory Nimbus_Apply
  imports Nimbus_Checks
begin

text \<open>
  \<^verbatim>\<open>(*Nimbusfile).apply\<close> of internal/nimbusfile/nimbusfile.go: one handler per case of its
  switch, from the manifest so far and the operand text to an error or the new manifest, and the
  table of handlers the switch is.
\<close>

type_synonym handler = "string \<Rightarrow> Nimbusfile \<Rightarrow> nimbus_error + Nimbusfile"

section \<open>Kernel, BusyBox, architecture, boot profile\<close>

definition apply_KERNEL :: handler where
  "apply_KERNEL rest hf =
     (if rest = [] then Inl (ERequires ''KERNEL'') else Inr (hf\<lparr>nf_KernelVersion := rest\<rparr>))"

definition apply_BUSYBOX :: handler where
  "apply_BUSYBOX rest hf =
     (if rest = [] then Inl (ERequires ''BUSYBOX'') else Inr (hf\<lparr>nf_BusyboxVersion := rest\<rparr>))"

definition apply_ARCH :: handler where
  "apply_ARCH rest hf =
     (if rest \<noteq> ''amd64'' \<and> rest \<noteq> ''arm64'' then Inl (ENotOneOf ''ARCH'' rest)
      else Inr (hf\<lparr>nf_Arch := rest\<rparr>))"

definition apply_VGA :: handler where
  "apply_VGA rest hf =
     (case go_parse_bool rest of None \<Rightarrow> Inl (EInvalidBool ''VGA'' rest)
      | Some v \<Rightarrow> Inr (hf\<lparr>nf_VGA := v\<rparr>))"

definition apply_HARDBOOT :: handler where
  "apply_HARDBOOT rest hf =
     (if rest \<noteq> ''none'' \<and> rest \<noteq> ''eth'' \<and> rest \<noteq> ''wifi'' \<and> rest \<noteq> ''eth+wifi''
      then Inl (ENotOneOf ''HARDBOOT'' rest) else Inr (hf\<lparr>nf_BootProfile := rest\<rparr>))"

section \<open>WiFi\<close>

definition apply_WIFI :: handler where
  "apply_WIFI rest hf =
     (if rest = [] then Inl (ERequires ''WIFI'')
      else if nf_WiFiSSID hf \<noteq> [] then Inl (EAlreadySet ''WIFI'')
      else bindE (wrapE (EIn ''WIFI'') (validateWiFiSSID rest))
             (\<lambda>_. Inr (hf\<lparr>nf_WiFiSSID := rest\<rparr>)))"

definition apply_WIFIPSK :: handler where
  "apply_WIFIPSK rest hf =
     (if rest = [] then Inl (ERequires ''WIFIPSK'')
      else bindE (wrapE (EIn ''WIFIPSK'') (validateWiFiPSK rest))
             (\<lambda>_. Inr (hf\<lparr>nf_WiFiPSK := rest\<rparr>)))"

definition apply_WIFICOUNTRY :: handler where
  "apply_WIFICOUNTRY rest hf =
     bindE (wrapE (EIn ''WIFICOUNTRY'') (validateWiFiCountry rest))
       (\<lambda>_. Inr (hf\<lparr>nf_WiFiCountry := rest\<rparr>))"

section \<open>Network\<close>

definition apply_HOSTNAME :: handler where
  "apply_HOSTNAME rest hf =
     (if rest = [] then Inl (ERequires ''HOSTNAME'') else Inr (hf\<lparr>nf_Hostname := rest\<rparr>))"

definition apply_DHCP :: handler where
  "apply_DHCP rest hf =
     (case go_parse_bool rest of None \<Rightarrow> Inl (EInvalidBool ''DHCP'' rest)
      | Some v \<Rightarrow> Inr (hf\<lparr>nf_DHCP := v\<rparr>))"

definition apply_IP :: handler where
  "apply_IP rest hf =
     (case go_fields rest of
        [a, m, g] \<Rightarrow>
          (if \<not> go_parse_ip a then Inl (EInvalidIP ''address'' a)
           else if \<not> go_parse_ip m then Inl (EInvalidIP ''netmask'' m)
           else if \<not> go_parse_ip g then Inl (EInvalidIP ''gateway'' g)
           else Inr (hf\<lparr>nf_StaticIP := Some \<lparr>sip_Address = a, sip_Netmask = m, sip_Gateway = g\<rparr>\<rparr>))
      | _ \<Rightarrow> Inl (ERequires ''IP''))"

definition apply_DNS :: handler where
  "apply_DNS rest hf =
     (if rest = [] then Inl (ERequires ''DNS'')
      else if \<not> go_parse_ip rest then Inl (EInvalidIP ''DNS'' rest)
      else Inr (hf\<lparr>nf_DNS := nf_DNS hf @ [rest]\<rparr>))"

definition apply_NTP :: handler where
  "apply_NTP rest hf =
     (if rest = [] then Inl (ERequires ''NTP'')
      else if rest = ''false'' then Inr (hf\<lparr>nf_NTP := [], nf_ntpTouched := True\<rparr>)
      else Inr (hf\<lparr>nf_NTP := (if nf_ntpTouched hf then nf_NTP hf else []) @ [rest],
                  nf_ntpTouched := True\<rparr>))"

section \<open>Image, user, labels, ports\<close>

definition apply_FORMAT :: handler where
  "apply_FORMAT rest hf =
     (if rest \<noteq> ''iso'' \<and> rest \<noteq> ''raw'' \<and> rest \<noteq> ''vhd'' then Inl (ENotOneOf ''FORMAT'' rest)
      else Inr (hf\<lparr>nf_Format := rest\<rparr>))"

definition apply_USER :: handler where
  "apply_USER rest hf =
     (if rest = [] then Inl (ERequires ''USER'') else Inr (hf\<lparr>nf_User := rest\<rparr>))"

definition apply_WORKDIR :: handler where
  "apply_WORKDIR rest hf =
     (if rest = [] then Inl (ERequires ''WORKDIR'') else Inr (hf\<lparr>nf_Workdir := rest\<rparr>))"

definition apply_LABEL :: handler where
  "apply_LABEL rest hf =
     (let (k, v, ok) = go_cut rest ''='' in
      if \<not> ok \<or> k = [] then Inl (ERequires ''LABEL'')
      else Inr (hf\<lparr>nf_Labels := nf_Labels hf @ [\<lparr>ev_Key = k, ev_Value = v\<rparr>]\<rparr>))"

definition apply_EXPOSE :: handler where
  "apply_EXPOSE rest hf =
     (if rest = [] then Inl (ERequires ''EXPOSE'')
      else
        let (portStr, proto0, hasProto) = go_cut rest ''/'';
            proto = (if hasProto then proto0 else ''tcp'') in
        if proto \<noteq> ''tcp'' \<and> proto \<noteq> ''udp'' then Inl (EProto proto)
        else (case go_atoi portStr of
                None \<Rightarrow> Inl (EInvalidPort portStr)
              | Some port \<Rightarrow>
                  if port < 1 \<or> 65535 < port then Inl (EInvalidPort portStr)
                  else Inr (hf\<lparr>nf_Exposed := nf_Exposed hf @ [\<lparr>ep_Port = port, ep_Proto = proto\<rparr>]\<rparr>)))"

section \<open>Services and their supervision\<close>

definition apply_HEALTHCHECK :: handler where
  "apply_HEALTHCHECK rest hf =
     bindE (wrapE (EIn ''HEALTHCHECK'') (parseHealthcheckFlags rest))
       (\<lambda>(remaining, interval, retries).
          bindE (wrapE (EIn ''HEALTHCHECK'') (parseExecForm remaining))
            (\<lambda>argv. Inr (hf\<lparr>nf_Healthcheck :=
               Some \<lparr>hc_Argv = argv, hc_Interval = interval, hc_Retries = retries\<rparr>\<rparr>)))"

text \<open>The first service of the name gets the policy; None when there is none.\<close>

fun set_restart :: "string \<Rightarrow> string \<Rightarrow> Service list \<Rightarrow> Service list option" where
  "set_restart target policy [] = None"
| "set_restart target policy (s # ss) =
     (if svc_Name s = target then Some (s\<lparr>svc_Restart := policy\<rparr> # ss)
      else map_option ((#) s) (set_restart target policy ss))"

definition apply_RESTART :: handler where
  "apply_RESTART rest hf =
     (case go_fields rest of
        [target, policy] \<Rightarrow>
          (if policy \<noteq> ''always'' \<and> policy \<noteq> ''on-failure'' \<and> policy \<noteq> ''no''
           then Inl (EPolicy policy)
           else if target = ''entrypoint'' then Inr (hf\<lparr>nf_EntrypointRestart := policy\<rparr>)
           else (case set_restart target policy (nf_Services hf) of
                   None \<Rightarrow> Inl (ENoService target)
                 | Some ss \<Rightarrow> Inr (hf\<lparr>nf_Services := ss\<rparr>)))
      | _ \<Rightarrow> Inl (ERequires ''RESTART''))"

definition apply_VOLUME :: handler where
  "apply_VOLUME rest hf =
     (let fs0 = go_fields rest;
          required = (fs0 \<noteq> [] \<and> last fs0 = ''required'');
          fs = (if required then butlast fs0 else fs0) in
      (case fs of
         [dev, mnt] \<Rightarrow>
           Inr (hf\<lparr>nf_Volumes := nf_Volumes hf @
             [\<lparr>vol_Device = dev, vol_Mountpoint = mnt, vol_FSType = ''vfat'', vol_Required = required\<rparr>]\<rparr>)
       | [dev, mnt, fstype] \<Rightarrow>
           (if fstype \<noteq> ''vfat'' \<and> fstype \<noteq> ''ext4'' then Inl (EFSType fstype)
            else Inr (hf\<lparr>nf_Volumes := nf_Volumes hf @
              [\<lparr>vol_Device = dev, vol_Mountpoint = mnt, vol_FSType = fstype, vol_Required = required\<rparr>]\<rparr>))
       | _ \<Rightarrow> Inl (ERequires ''VOLUME'')))"

definition apply_ENV :: handler where
  "apply_ENV rest hf =
     (let (k, v, ok) = go_cut rest ''='' in
      if \<not> ok \<or> k = [] then Inl (ERequires ''ENV'')
      else Inr (hf\<lparr>nf_Env := nf_Env hf @ [\<lparr>ev_Key = k, ev_Value = v\<rparr>]\<rparr>))"

section \<open>Firewall, sizes, keys\<close>

definition apply_FIREWALL :: handler where
  "apply_FIREWALL rest hf =
     (if rest = [] then Inl (ERequires ''FIREWALL'')
      else bindE (wrapE (EIn ''FIREWALL'') (validateFirewallRule rest))
             (\<lambda>_. Inr (hf\<lparr>nf_Firewall := nf_Firewall hf @ [rest]\<rparr>)))"

definition apply_FIREWALL6 :: handler where
  "apply_FIREWALL6 rest hf =
     (if rest = [] then Inl (ERequires ''FIREWALL6'')
      else bindE (wrapE (EIn ''FIREWALL6'') (validateFirewallRule rest))
             (\<lambda>_. Inr (hf\<lparr>nf_Firewall6 := nf_Firewall6 hf @ [rest]\<rparr>)))"

definition apply_FIREWALL_ON_ERROR :: handler where
  "apply_FIREWALL_ON_ERROR rest hf =
     (if rest \<noteq> ''open'' \<and> rest \<noteq> ''closed'' then Inl (ENotOneOf ''FIREWALL_ON_ERROR'' rest)
      else Inr (hf\<lparr>nf_FirewallOnError := rest\<rparr>))"

definition apply_TMPSIZE :: handler where
  "apply_TMPSIZE rest hf =
     bindE (wrapE (EIn ''TMPSIZE'') (validateTmpfsSize rest))
       (\<lambda>_. Inr (hf\<lparr>nf_TmpfsSize := rest\<rparr>))"

definition apply_STOPGRACE :: handler where
  "apply_STOPGRACE rest hf =
     (case go_atoi rest of
        None \<Rightarrow> Inl (EStopGrace rest)
      | Some seconds \<Rightarrow> if seconds \<le> 0 then Inl (EStopGrace rest)
                       else Inr (hf\<lparr>nf_StopGrace := seconds\<rparr>))"

definition apply_PIECESKEY :: handler where
  "apply_PIECESKEY rest hf =
     (case go_hex_decode rest of
        None \<Rightarrow> Inl (EPiecesKey rest)
      | Some raw \<Rightarrow> if length raw \<noteq> 32 then Inl (EPiecesKey rest)
                   else Inr (hf\<lparr>nf_PiecesKey := go_to_lower rest\<rparr>))"

definition apply_SERVICE :: handler where
  "apply_SERVICE rest hf =
     (let (name, cmd, ok) = go_cut rest '' '' in
      if \<not> ok \<or> name = [] then Inl (ERequires ''SERVICE'')
      else bindE (wrapE (EIn (''SERVICE '' @ name)) (parseExecForm cmd))
             (\<lambda>argv. Inr (hf\<lparr>nf_Services := nf_Services hf @
                [\<lparr>svc_Name = name, svc_Argv = argv, svc_Restart = []\<rparr>]\<rparr>)))"

section \<open>AGENT\<close>

definition agent_kinds :: "string list" where
  "agent_kinds = [''vboxguest'', ''virtio-serial'', ''vmware'', ''aws-imds'', ''ibm-imds'']"

definition apply_AGENT_header :: "string \<Rightarrow> handler" where
  "apply_AGENT_header word0 rest hf =
     (case nf_Agent hf of
        None \<Rightarrow> Inl EHeaderWithoutHTTP
      | Some a \<Rightarrow>
          if ag_Kind a \<noteq> ''http'' then Inl EHeaderWithoutHTTP
          else (let headerRest = go_trim_space (drop (length word0) rest) in
                case cutHeader headerRest of
                  None \<Rightarrow> Inl (EHeaderForm headerRest)
                | Some (n, v) \<Rightarrow>
                    Inr (hf\<lparr>nf_Agent := Some (a\<lparr>ag_Headers := ag_Headers a @
                           [\<lparr>ah_Name = n, ah_Value = v\<rparr>]\<rparr>)\<rparr>)))"

text \<open>The optional interval field: the default, or a field that is a whole number.\<close>

definition agent_interval :: "string \<Rightarrow> string list \<Rightarrow> nimbus_error + string" where
  "agent_interval keyword fs =
     (case fs of [] \<Rightarrow> Inr ''5''
      | f # _ \<Rightarrow> if go_atoi f = None then Inl (EInterval keyword f) else Inr f)"

definition apply_AGENT :: handler where
  "apply_AGENT rest hf =
     (let fs = go_fields rest in
      if fs = [] then Inl (ERequires ''AGENT'')
      else
        let keyword = go_to_lower (hd fs) in
        if keyword = ''header'' then apply_AGENT_header (hd fs) rest hf
        else if nf_Agent hf \<noteq> None then Inl (EAlreadySet ''AGENT'')
        else if keyword \<in> set agent_kinds then
          (if length fs < 2 \<or> 3 < length fs then Inl (EIn ''AGENT'' (ERequires keyword))
           else bindE (agent_interval keyword (drop 2 fs))
                  (\<lambda>iv. Inr (hf\<lparr>nf_Agent := Some \<lparr>ag_Kind = keyword, ag_URL = fs ! 1,
                          ag_Interval = iv, ag_Headers = []\<rparr>\<rparr>)))
        else
          (if 2 < length fs then Inl (ERequires ''AGENT'')
           else bindE (agent_interval [] (drop 1 fs))
                  (\<lambda>iv. Inr (hf\<lparr>nf_Agent := Some \<lparr>ag_Kind = ''http'', ag_URL = hd fs,
                          ag_Interval = iv, ag_Headers = []\<rparr>\<rparr>))))"

section \<open>COPY, ADD, ENTRYPOINT, CMD\<close>

definition chmod_prefix :: string where "chmod_prefix = ''--chmod=''"

text \<open>The optional leading \<^verbatim>\<open>--chmod=\<close> token: the mode (0 when absent) and the rest.\<close>

definition copy_chmod :: "string \<Rightarrow> string \<Rightarrow> nimbus_error + (nat \<times> string)" where
  "copy_chmod directive rest =
     (if go_has_prefix rest chmod_prefix then
        (let (tok, remainder, _) = go_cut rest '' '';
             val = go_trim_prefix tok chmod_prefix in
         case go_parse_octal32 val of
           None \<Rightarrow> Inl (EIn directive (EChmodSyntax val))
         | Some parsed \<Rightarrow>
             if parsed = 0 then Inl (EIn directive EChmodZero)
             else if parsed div 512 mod 8 \<noteq> 0 then Inl (EIn directive (EChmodSpecial val))
             else Inr (parsed, go_trim_space remainder))
      else Inr (0, rest))"

definition apply_COPY_ADD :: "string \<Rightarrow> handler" where
  "apply_COPY_ADD directive rest0 hf =
     bindE (copy_chmod directive rest0)
       (\<lambda>(chmod, rest).
          let (src, dest0, ok) = go_cut rest '' '';
              dest = go_trim_space dest0 in
          if \<not> ok \<or> src = [] \<or> dest = [] then Inl (ERequires directive)
          else Inr (hf\<lparr>nf_Copies := nf_Copies hf @
                 [\<lparr>co_Src = src, co_Dest = dest, co_IsURL = go_contains src ''://'',
                   co_IsAdd = (directive = ''ADD''), co_Chmod = chmod\<rparr>]\<rparr>))"

definition apply_ENTRYPOINT :: handler where
  "apply_ENTRYPOINT rest hf =
     bindE (wrapE (EIn ''ENTRYPOINT'') (parseExecForm rest))
       (\<lambda>args. Inr (hf\<lparr>nf_Entrypoint := args\<rparr>))"

definition apply_CMD :: handler where
  "apply_CMD rest hf =
     bindE (wrapE (EIn ''CMD'') (parseExecForm rest)) (\<lambda>args. Inr (hf\<lparr>nf_Cmd := args\<rparr>))"

section \<open>The switch\<close>

definition directive_table :: "(string \<times> handler) list" where
  "directive_table =
     [(''KERNEL'', apply_KERNEL), (''BUSYBOX'', apply_BUSYBOX), (''ARCH'', apply_ARCH),
      (''VGA'', apply_VGA), (''HARDBOOT'', apply_HARDBOOT), (''WIFI'', apply_WIFI),
      (''WIFIPSK'', apply_WIFIPSK), (''WIFICOUNTRY'', apply_WIFICOUNTRY),
      (''HOSTNAME'', apply_HOSTNAME), (''DHCP'', apply_DHCP), (''IP'', apply_IP),
      (''DNS'', apply_DNS), (''NTP'', apply_NTP), (''FORMAT'', apply_FORMAT),
      (''USER'', apply_USER), (''WORKDIR'', apply_WORKDIR), (''LABEL'', apply_LABEL),
      (''EXPOSE'', apply_EXPOSE), (''HEALTHCHECK'', apply_HEALTHCHECK),
      (''RESTART'', apply_RESTART), (''VOLUME'', apply_VOLUME), (''ENV'', apply_ENV),
      (''FIREWALL'', apply_FIREWALL), (''FIREWALL6'', apply_FIREWALL6),
      (''FIREWALL_ON_ERROR'', apply_FIREWALL_ON_ERROR), (''TMPSIZE'', apply_TMPSIZE),
      (''STOPGRACE'', apply_STOPGRACE), (''PIECESKEY'', apply_PIECESKEY),
      (''SERVICE'', apply_SERVICE), (''AGENT'', apply_AGENT),
      (''COPY'', apply_COPY_ADD ''COPY''), (''ADD'', apply_COPY_ADD ''ADD''),
      (''ENTRYPOINT'', apply_ENTRYPOINT), (''CMD'', apply_CMD)]"

definition apply_directive :: "string \<Rightarrow> handler" where
  "apply_directive directive rest hf =
     (case map_of directive_table directive of
        None \<Rightarrow> Inl EUnknownDirective
      | Some h \<Rightarrow> h rest hf)"

lemmas handler_defs [nimbus_defs] =
  apply_KERNEL_def apply_BUSYBOX_def apply_ARCH_def apply_VGA_def apply_HARDBOOT_def
  apply_WIFI_def apply_WIFIPSK_def apply_WIFICOUNTRY_def apply_HOSTNAME_def apply_DHCP_def
  apply_IP_def apply_DNS_def apply_NTP_def apply_FORMAT_def apply_USER_def apply_WORKDIR_def
  apply_LABEL_def apply_EXPOSE_def apply_HEALTHCHECK_def apply_RESTART_def apply_VOLUME_def
  apply_ENV_def apply_FIREWALL_def apply_FIREWALL6_def apply_FIREWALL_ON_ERROR_def
  apply_TMPSIZE_def apply_STOPGRACE_def apply_PIECESKEY_def apply_SERVICE_def apply_AGENT_def
  apply_AGENT_header_def apply_COPY_ADD_def apply_ENTRYPOINT_def apply_CMD_def

end
