(* ===== verification/Nimbus_Invariant.thy ===== *)
theory Nimbus_Invariant
  imports Nimbus_Apply
begin

text \<open>
  What every manifest the directive handlers build satisfies: the well-formedness invariant, in
  one predicate per group of fields, and that each handler of the switch keeps it.
\<close>

section \<open>The invariant\<close>

definition plain_word :: "string \<Rightarrow> bool" where
  "plain_word w \<longleftrightarrow> w \<noteq> [] \<and> (\<forall>c \<in> set w. \<not> ascii_space c)"

definition target_ok :: "Nimbusfile \<Rightarrow> bool" where
  "target_ok hf \<longleftrightarrow>
     nf_KernelVersion hf \<noteq> [] \<and> nf_BusyboxVersion hf \<noteq> [] \<and> nf_Hostname hf \<noteq> [] \<and>
     nf_Arch hf \<in> {''amd64'', ''arm64''} \<and>
     nf_BootProfile hf \<in> {''none'', ''eth'', ''wifi'', ''eth+wifi''} \<and>
     nf_Format hf \<in> {''iso'', ''raw'', ''vhd''}"

definition wifi_ok :: "Nimbusfile \<Rightarrow> bool" where
  "wifi_ok hf \<longleftrightarrow>
     length (nf_WiFiSSID hf) \<le> 32 \<and> set (nf_WiFiSSID hf) \<inter> set wifiMetaChars = {} \<and>
     (nf_WiFiPSK hf = [] \<or> wifi_psk_ok (nf_WiFiPSK hf)) \<and>
     (nf_WiFiCountry hf = [] \<or> wifiCountryPattern (nf_WiFiCountry hf))"

definition static_ip_ok :: "StaticIP \<Rightarrow> bool" where
  "static_ip_ok ip \<longleftrightarrow>
     go_parse_ip (sip_Address ip) \<and> go_parse_ip (sip_Netmask ip) \<and> go_parse_ip (sip_Gateway ip)"

definition ntp_ok :: "string \<Rightarrow> bool" where
  "ntp_ok s \<longleftrightarrow> s \<noteq> [] \<and> s \<noteq> ''false''"

definition pieces_key_ok :: "string \<Rightarrow> bool" where
  "pieces_key_ok k \<longleftrightarrow>
     (\<exists>k0 raw. go_hex_decode k0 = Some raw \<and> length raw = 32 \<and> k = go_to_lower k0)"

definition network_ok :: "Nimbusfile \<Rightarrow> bool" where
  "network_ok hf \<longleftrightarrow>
     pred_option static_ip_ok (nf_StaticIP hf) \<and>
     list_all go_parse_ip (nf_DNS hf) \<and> list_all ntp_ok (nf_NTP hf)"

definition firewall_ok :: "Nimbusfile \<Rightarrow> bool" where
  "firewall_ok hf \<longleftrightarrow>
     list_all firewall_rule_ok (nf_Firewall hf) \<and> list_all firewall_rule_ok (nf_Firewall6 hf) \<and>
     nf_FirewallOnError hf \<in> {[], ''open'', ''closed''}"

definition limits_ok :: "Nimbusfile \<Rightarrow> bool" where
  "limits_ok hf \<longleftrightarrow>
     (nf_TmpfsSize hf = [] \<or> tmpfsSizePattern (nf_TmpfsSize hf)) \<and>
     0 \<le> nf_StopGrace hf \<and> nf_StopGrace hf < 2 ^ 63 \<and>
     (nf_PiecesKey hf = [] \<or> pieces_key_ok (nf_PiecesKey hf))"

definition copy_ok :: "CopyOp \<Rightarrow> bool" where
  "copy_ok c \<longleftrightarrow>
     co_Src c \<noteq> [] \<and> CHR '' '' \<notin> set (co_Src c) \<and> co_Dest c \<noteq> [] \<and>
     co_IsURL c = go_contains (co_Src c) ''://'' \<and>
     co_Chmod c < 2 ^ 32 \<and> co_Chmod c div 512 mod 8 = 0"

definition volume_ok :: "Volume \<Rightarrow> bool" where
  "volume_ok v \<longleftrightarrow> plain_word (vol_Device v) \<and> plain_word (vol_Mountpoint v) \<and>
     vol_FSType v \<in> {''vfat'', ''ext4''}"

definition service_ok :: "Service \<Rightarrow> bool" where
  "service_ok s \<longleftrightarrow> svc_Name s \<noteq> [] \<and> CHR '' '' \<notin> set (svc_Name s) \<and>
     svc_Restart s \<in> {[], ''always'', ''on-failure'', ''no''}"

definition env_ok :: "EnvVar \<Rightarrow> bool" where
  "env_ok e \<longleftrightarrow> ev_Key e \<noteq> [] \<and> CHR ''='' \<notin> set (ev_Key e)"

definition port_ok :: "ExposedPort \<Rightarrow> bool" where
  "port_ok p \<longleftrightarrow> 1 \<le> ep_Port p \<and> ep_Port p \<le> 65535 \<and> ep_Proto p \<in> {''tcp'', ''udp''}"

definition agent_ok :: "Agent \<Rightarrow> bool" where
  "agent_ok a \<longleftrightarrow>
     (ag_Kind a = ''http'' \<or> (ag_Kind a \<in> set agent_kinds \<and> ag_Headers a = [])) \<and>
     plain_word (ag_URL a) \<and> go_atoi (ag_Interval a) \<noteq> None \<and>
     list_all (\<lambda>h. ah_Name h \<noteq> [] \<and> ah_Value h \<noteq> []) (ag_Headers a)"

definition health_ok :: "Healthcheck \<Rightarrow> bool" where
  "health_ok h \<longleftrightarrow> go_atoi (hc_Interval h) \<noteq> None \<and> go_atoi (hc_Retries h) \<noteq> None"

definition lists_ok :: "Nimbusfile \<Rightarrow> bool" where
  "lists_ok hf \<longleftrightarrow>
     list_all copy_ok (nf_Copies hf) \<and> list_all volume_ok (nf_Volumes hf) \<and>
     list_all service_ok (nf_Services hf) \<and> list_all env_ok (nf_Env hf) \<and>
     list_all env_ok (nf_Labels hf) \<and> list_all port_ok (nf_Exposed hf) \<and>
     nf_EntrypointRestart hf \<in> {''always'', ''on-failure'', ''no''} \<and>
     pred_option agent_ok (nf_Agent hf) \<and> pred_option health_ok (nf_Healthcheck hf)"

definition nimbus_ok :: "Nimbusfile \<Rightarrow> bool" where
  "nimbus_ok hf \<longleftrightarrow> target_ok hf \<and> wifi_ok hf \<and> network_ok hf \<and> firewall_ok hf \<and>
     limits_ok hf \<and> lists_ok hf"

lemma default_nimbusfile_ok: "nimbus_ok (default_nimbusfile base)"
  by (simp add: nimbus_ok_def target_ok_def wifi_ok_def network_ok_def firewall_ok_def
      limits_ok_def lists_ok_def default_nimbusfile_def)

text \<open>The contract of one handler.\<close>

definition preserves_ok :: "handler \<Rightarrow> bool" where
  "preserves_ok h \<longleftrightarrow> (\<forall>rest hf hf'. nimbus_ok hf \<longrightarrow> h rest hf = Inr hf' \<longrightarrow> nimbus_ok hf')"

named_theorems keeps_ok \<open>handlers that keep the manifest well formed\<close>

lemma preserves_okI:
  "(\<And>rest hf hf'. nimbus_ok hf \<Longrightarrow> h rest hf = Inr hf' \<Longrightarrow> nimbus_ok hf') \<Longrightarrow> preserves_ok h"
  by (simp add: preserves_ok_def)

section \<open>Facts about the lexical routines\<close>

lemma plain_word_fields: "go_fields s = ws \<Longrightarrow> w \<in> set ws \<Longrightarrow> plain_word w"
  using go_fields_no_empty go_fields_no_space by (auto simp: plain_word_def)

lemma go_cut_char_fst: "go_cut s [c] = (a, b, True) \<Longrightarrow> c \<notin> set a"
  by (auto simp: go_cut_char dest: set_takeWhileD)

lemma parseHealthcheckFlags_loop_ok:
  "parseHealthcheckFlags_loop rest iv rt = Inr (r, iv', rt') \<Longrightarrow> go_atoi iv \<noteq> None \<Longrightarrow>
   go_atoi rt \<noteq> None \<Longrightarrow>
   go_atoi iv' \<noteq> None \<and> go_atoi rt' \<noteq> None \<and>
   \<not> go_has_prefix r interval_prefix \<and> \<not> go_has_prefix r retries_prefix"
proof (induction rest iv rt rule: parseHealthcheckFlags_loop.induct)
  case (1 rest iv rt)
  show ?case
    using "1.prems" "1.IH"
    by (subst (asm) parseHealthcheckFlags_loop.simps [of rest iv rt])
       (auto simp: Let_def split: if_splits)
qed

lemma default_flags_atoi: "go_atoi ''30'' = Some 30" "go_atoi ''3'' = Some 3" "go_atoi ''5'' = Some 5"
  by (simp_all add: go_atoi_def digits_val_def hex_val_def is_digit_def)

lemma parseHealthcheckFlags_ok:
  "parseHealthcheckFlags rest = Inr (r, iv, rt) \<Longrightarrow> go_atoi iv \<noteq> None \<and> go_atoi rt \<noteq> None"
  using parseHealthcheckFlags_loop_ok [of rest "''30''" "''3''" r iv rt]
  by (simp add: parseHealthcheckFlags_def default_flags_atoi)

lemma agent_interval_ok: "agent_interval k fs = Inr iv \<Longrightarrow> go_atoi iv \<noteq> None"
  by (auto simp: agent_interval_def default_flags_atoi split: list.splits if_splits)

lemma cutHeader_ok: "cutHeader s = Some (n, v) \<Longrightarrow> n \<noteq> [] \<and> v \<noteq> []"
  by (auto simp: cutHeader_def Let_def split: if_splits prod.splits)

lemma copy_chmod_ok:
  "copy_chmod d rest = Inr (m, r) \<Longrightarrow> m < 2 ^ 32 \<and> m div 512 mod 8 = 0"
  by (auto simp: copy_chmod_def Let_def dest!: go_parse_octal32_less
      split: if_splits prod.splits option.splits)

lemma set_restart_ok:
  "set_restart t p ss = Some ss' \<Longrightarrow> list_all service_ok ss \<Longrightarrow> p \<in> {''always'', ''on-failure'', ''no''} \<Longrightarrow>
   list_all service_ok ss'"
  by (induction ss arbitrary: ss') (auto simp: service_ok_def split: if_splits)

section \<open>Every handler keeps the invariant\<close>

lemmas group_defs =
  target_ok_def wifi_ok_def network_ok_def firewall_ok_def limits_ok_def lists_ok_def

text \<open>One assignment to a field, with what its new value must satisfy.\<close>

lemma nimbus_ok_update:
  "nimbus_ok hf \<Longrightarrow> x1 \<noteq> [] \<Longrightarrow> nimbus_ok (hf\<lparr>nf_KernelVersion := x1\<rparr>)"
  "nimbus_ok hf \<Longrightarrow> x2 \<noteq> [] \<Longrightarrow> nimbus_ok (hf\<lparr>nf_BusyboxVersion := x2\<rparr>)"
  "nimbus_ok hf \<Longrightarrow> x3 \<noteq> [] \<Longrightarrow> nimbus_ok (hf\<lparr>nf_Hostname := x3\<rparr>)"
  "nimbus_ok hf \<Longrightarrow> x4 \<in> {''amd64'', ''arm64''} \<Longrightarrow> nimbus_ok (hf\<lparr>nf_Arch := x4\<rparr>)"
  "nimbus_ok hf \<Longrightarrow> x5 \<in> {''none'', ''eth'', ''wifi'', ''eth+wifi''} \<Longrightarrow> nimbus_ok (hf\<lparr>nf_BootProfile := x5\<rparr>)"
  "nimbus_ok hf \<Longrightarrow> x6 \<in> {''iso'', ''raw'', ''vhd''} \<Longrightarrow> nimbus_ok (hf\<lparr>nf_Format := x6\<rparr>)"
  "nimbus_ok hf \<Longrightarrow> nimbus_ok (hf\<lparr>nf_VGA := x7\<rparr>)"
  "nimbus_ok hf \<Longrightarrow> nimbus_ok (hf\<lparr>nf_DHCP := x8\<rparr>)"
  "nimbus_ok hf \<Longrightarrow> nimbus_ok (hf\<lparr>nf_User := x9\<rparr>)"
  "nimbus_ok hf \<Longrightarrow> nimbus_ok (hf\<lparr>nf_Workdir := x10\<rparr>)"
  "nimbus_ok hf \<Longrightarrow> nimbus_ok (hf\<lparr>nf_Entrypoint := x11\<rparr>)"
  "nimbus_ok hf \<Longrightarrow> nimbus_ok (hf\<lparr>nf_Cmd := x12\<rparr>)"
  "nimbus_ok hf \<Longrightarrow> nimbus_ok (hf\<lparr>nf_ntpTouched := x13\<rparr>)"
  "nimbus_ok hf \<Longrightarrow> length x14 \<le> 32 \<and> set x14 \<inter> set wifiMetaChars = {} \<Longrightarrow> nimbus_ok (hf\<lparr>nf_WiFiSSID := x14\<rparr>)"
  "nimbus_ok hf \<Longrightarrow> wifi_psk_ok x15 \<Longrightarrow> nimbus_ok (hf\<lparr>nf_WiFiPSK := x15\<rparr>)"
  "nimbus_ok hf \<Longrightarrow> wifiCountryPattern x16 \<Longrightarrow> nimbus_ok (hf\<lparr>nf_WiFiCountry := x16\<rparr>)"
  "nimbus_ok hf \<Longrightarrow> pred_option static_ip_ok x17 \<Longrightarrow> nimbus_ok (hf\<lparr>nf_StaticIP := x17\<rparr>)"
  "nimbus_ok hf \<Longrightarrow> list_all go_parse_ip x18 \<Longrightarrow> nimbus_ok (hf\<lparr>nf_DNS := x18\<rparr>)"
  "nimbus_ok hf \<Longrightarrow> list_all ntp_ok x19 \<Longrightarrow> nimbus_ok (hf\<lparr>nf_NTP := x19\<rparr>)"
  "nimbus_ok hf \<Longrightarrow> list_all firewall_rule_ok x20 \<Longrightarrow> nimbus_ok (hf\<lparr>nf_Firewall := x20\<rparr>)"
  "nimbus_ok hf \<Longrightarrow> list_all firewall_rule_ok x21 \<Longrightarrow> nimbus_ok (hf\<lparr>nf_Firewall6 := x21\<rparr>)"
  "nimbus_ok hf \<Longrightarrow> x22 \<in> {[], ''open'', ''closed''} \<Longrightarrow> nimbus_ok (hf\<lparr>nf_FirewallOnError := x22\<rparr>)"
  "nimbus_ok hf \<Longrightarrow> tmpfsSizePattern x23 \<Longrightarrow> nimbus_ok (hf\<lparr>nf_TmpfsSize := x23\<rparr>)"
  "nimbus_ok hf \<Longrightarrow> 0 \<le> x24 \<and> x24 < 2 ^ 63 \<Longrightarrow> nimbus_ok (hf\<lparr>nf_StopGrace := x24\<rparr>)"
  "nimbus_ok hf \<Longrightarrow> pieces_key_ok x25 \<Longrightarrow> nimbus_ok (hf\<lparr>nf_PiecesKey := x25\<rparr>)"
  "nimbus_ok hf \<Longrightarrow> list_all copy_ok x26 \<Longrightarrow> nimbus_ok (hf\<lparr>nf_Copies := x26\<rparr>)"
  "nimbus_ok hf \<Longrightarrow> list_all volume_ok x27 \<Longrightarrow> nimbus_ok (hf\<lparr>nf_Volumes := x27\<rparr>)"
  "nimbus_ok hf \<Longrightarrow> list_all service_ok x28 \<Longrightarrow> nimbus_ok (hf\<lparr>nf_Services := x28\<rparr>)"
  "nimbus_ok hf \<Longrightarrow> list_all env_ok x29 \<Longrightarrow> nimbus_ok (hf\<lparr>nf_Env := x29\<rparr>)"
  "nimbus_ok hf \<Longrightarrow> list_all env_ok x30 \<Longrightarrow> nimbus_ok (hf\<lparr>nf_Labels := x30\<rparr>)"
  "nimbus_ok hf \<Longrightarrow> list_all port_ok x31 \<Longrightarrow> nimbus_ok (hf\<lparr>nf_Exposed := x31\<rparr>)"
  "nimbus_ok hf \<Longrightarrow> x32 \<in> {''always'', ''on-failure'', ''no''} \<Longrightarrow> nimbus_ok (hf\<lparr>nf_EntrypointRestart := x32\<rparr>)"
  "nimbus_ok hf \<Longrightarrow> pred_option agent_ok x33 \<Longrightarrow> nimbus_ok (hf\<lparr>nf_Agent := x33\<rparr>)"
  "nimbus_ok hf \<Longrightarrow> pred_option health_ok x34 \<Longrightarrow> nimbus_ok (hf\<lparr>nf_Healthcheck := x34\<rparr>)"
  by (simp_all add: nimbus_ok_def group_defs)

lemma nimbus_ok_get:
  assumes "nimbus_ok hf"
  shows "list_all go_parse_ip (nf_DNS hf)" "list_all ntp_ok (nf_NTP hf)"
    "list_all firewall_rule_ok (nf_Firewall hf)" "list_all firewall_rule_ok (nf_Firewall6 hf)"
    "list_all copy_ok (nf_Copies hf)" "list_all volume_ok (nf_Volumes hf)"
    "list_all service_ok (nf_Services hf)" "list_all env_ok (nf_Env hf)"
    "list_all env_ok (nf_Labels hf)" "list_all port_ok (nf_Exposed hf)"
    "pred_option agent_ok (nf_Agent hf)"
  using assms by (simp_all add: nimbus_ok_def group_defs)

lemma target_handlers_ok [keeps_ok]:
  "preserves_ok apply_KERNEL" "preserves_ok apply_BUSYBOX" "preserves_ok apply_HOSTNAME"
  "preserves_ok apply_ARCH" "preserves_ok apply_HARDBOOT" "preserves_ok apply_FORMAT"
  "preserves_ok apply_FIREWALL_ON_ERROR"
  by (rule preserves_okI; simp only: nimbus_defs split: if_splits; clarsimp;
      rule nimbus_ok_update; blast)+

lemma plain_handlers_ok [keeps_ok]:
  "preserves_ok apply_USER" "preserves_ok apply_WORKDIR" "preserves_ok apply_VGA"
  "preserves_ok apply_DHCP"
  by (rule preserves_okI; simp only: nimbus_defs split: if_splits option.splits; clarsimp;
      rule nimbus_ok_update; assumption)+

lemma exec_handlers_ok [keeps_ok]: "preserves_ok apply_ENTRYPOINT" "preserves_ok apply_CMD"
  by (rule preserves_okI; clarsimp simp only: nimbus_defs bindE_Inr_iff; clarsimp;
      rule nimbus_ok_update; assumption)+

lemma validated_handlers_ok [keeps_ok]:
  "preserves_ok apply_WIFI" "preserves_ok apply_WIFIPSK" "preserves_ok apply_WIFICOUNTRY"
  "preserves_ok apply_TMPSIZE"
  by (rule preserves_okI;
      clarsimp simp only: nimbus_defs bindE_Inr_iff wrapE_Inr_iff validator_iffs split: if_splits;
      clarsimp; erule nimbus_ok_update; simp)+

lemma firewall_handlers_ok [keeps_ok]:
  "preserves_ok apply_FIREWALL" "preserves_ok apply_FIREWALL6"
  by (rule preserves_okI;
      clarsimp simp only: nimbus_defs bindE_Inr_iff wrapE_Inr_iff validator_iffs split: if_splits;
      clarsimp; frule nimbus_ok_get(3); frule nimbus_ok_get(4); erule nimbus_ok_update; simp)+

lemma apply_STOPGRACE_ok [keeps_ok]: "preserves_ok apply_STOPGRACE"
  by (rule preserves_okI; clarsimp simp only: nimbus_defs split: option.splits if_splits; clarsimp;
      drule go_atoi_range; erule nimbus_ok_update; simp)

lemma apply_PIECESKEY_ok [keeps_ok]: "preserves_ok apply_PIECESKEY"
  by (rule preserves_okI; clarsimp simp only: nimbus_defs split: option.splits if_splits; clarsimp;
      erule nimbus_ok_update; auto simp: pieces_key_ok_def)

lemma apply_IP_ok [keeps_ok]: "preserves_ok apply_IP"
  by (rule preserves_okI; clarsimp simp only: nimbus_defs split: list.splits if_splits; clarsimp;
      erule nimbus_ok_update; simp add: static_ip_ok_def)

lemma apply_DNS_ok [keeps_ok]: "preserves_ok apply_DNS"
  by (rule preserves_okI; clarsimp simp only: nimbus_defs split: if_splits; clarsimp;
      frule nimbus_ok_get(1); erule nimbus_ok_update; simp)

lemma apply_NTP_ok [keeps_ok]: "preserves_ok apply_NTP"
proof (rule preserves_okI)
  fix rest hf hf'
  assume ok: "nimbus_ok hf" and app: "apply_NTP rest hf = Inr hf'"
  from app obtain xs where hf': "hf' = hf\<lparr>nf_NTP := xs, nf_ntpTouched := True\<rparr>"
    and xs: "list_all ntp_ok xs"
    using nimbus_ok_get(2) [OF ok]
    by (auto simp: apply_NTP_def ntp_ok_def split: if_splits)
  show "nimbus_ok hf'"
    unfolding hf' by (intro nimbus_ok_update ok xs)
qed

lemma apply_pair_elim:
  "apply_ENV rest hf = Inr hf' \<Longrightarrow> \<exists>k v. go_cut rest ''='' = (k, v, True) \<and> k \<noteq> [] \<and>
     hf' = hf\<lparr>nf_Env := nf_Env hf @ [\<lparr>ev_Key = k, ev_Value = v\<rparr>]\<rparr>"
  "apply_LABEL rest hf = Inr hf' \<Longrightarrow> \<exists>k v. go_cut rest ''='' = (k, v, True) \<and> k \<noteq> [] \<and>
     hf' = hf\<lparr>nf_Labels := nf_Labels hf @ [\<lparr>ev_Key = k, ev_Value = v\<rparr>]\<rparr>"
  by (cases "go_cut rest ''=''"; auto simp: apply_ENV_def apply_LABEL_def split: if_splits)+

lemma pair_handlers_ok [keeps_ok]: "preserves_ok apply_LABEL" "preserves_ok apply_ENV"
  by (rule preserves_okI; drule apply_pair_elim; clarsimp;
      frule nimbus_ok_get(8); frule nimbus_ok_get(9); drule go_cut_char_fst;
      erule nimbus_ok_update; simp add: env_ok_def)+

lemma apply_EXPOSE_ok [keeps_ok]: "preserves_ok apply_EXPOSE"
proof (rule preserves_okI)
  fix rest hf hf'
  assume ok: "nimbus_ok hf" and app: "apply_EXPOSE rest hf = Inr hf'"
  from app obtain p where "hf' = hf\<lparr>nf_Exposed := nf_Exposed hf @ [p]\<rparr>" and "port_ok p"
    by (auto simp: apply_EXPOSE_def port_ok_def Let_def split: if_splits option.splits prod.splits)
  with ok nimbus_ok_get(10) [OF ok] show "nimbus_ok hf'" by (auto intro!: nimbus_ok_update)
qed

lemma apply_SERVICE_elim:
  "apply_SERVICE rest hf = Inr hf' \<Longrightarrow>
     \<exists>name cmd argv. go_cut rest '' '' = (name, cmd, True) \<and> name \<noteq> [] \<and> parseExecForm cmd = Inr argv \<and>
       hf' = hf\<lparr>nf_Services := nf_Services hf @
         [\<lparr>svc_Name = name, svc_Argv = argv, svc_Restart = []\<rparr>]\<rparr>"
  by (cases "go_cut rest '' ''"; auto simp: apply_SERVICE_def bindE_Inr_iff split: if_splits)

lemma apply_SERVICE_ok [keeps_ok]: "preserves_ok apply_SERVICE"
  by (rule preserves_okI; drule apply_SERVICE_elim; clarsimp;
      frule nimbus_ok_get(7); drule go_cut_char_fst; erule nimbus_ok_update;
      simp add: service_ok_def)

lemma apply_RESTART_ok [keeps_ok]: "preserves_ok apply_RESTART"
proof (rule preserves_okI)
  fix rest hf hf'
  assume ok: "nimbus_ok hf" and app: "apply_RESTART rest hf = Inr hf'"
  from app obtain p ss where p: "p \<in> {''always'', ''on-failure'', ''no''}"
    and hf': "hf' = hf\<lparr>nf_EntrypointRestart := p\<rparr> \<or>
      (hf' = hf\<lparr>nf_Services := ss\<rparr> \<and> list_all service_ok ss)"
    using set_restart_ok [OF _ nimbus_ok_get(7) [OF ok]]
    by (clarsimp simp only: apply_RESTART_def split: list.splits if_splits option.splits; blast)
  then show "nimbus_ok hf'" using ok p by (auto intro!: nimbus_ok_update)
qed

lemma apply_HEALTHCHECK_ok [keeps_ok]: "preserves_ok apply_HEALTHCHECK"
  by (rule preserves_okI;
      clarsimp simp only: nimbus_defs bindE_Inr_iff wrapE_Inr_iff split: prod.splits;
      clarsimp; drule parseHealthcheckFlags_ok; erule nimbus_ok_update; simp add: health_ok_def)

lemma apply_VOLUME_ok [keeps_ok]: "preserves_ok apply_VOLUME"
proof (rule preserves_okI)
  fix rest hf hf'
  assume ok: "nimbus_ok hf" and app: "apply_VOLUME rest hf = Inr hf'"
  define req where "req = (go_fields rest \<noteq> [] \<and> last (go_fields rest) = ''required'')"
  define fs where "fs = (if req then butlast (go_fields rest) else go_fields rest)"
  have words: "w \<in> set fs \<Longrightarrow> plain_word w" for w
    by (auto simp: fs_def dest: in_set_butlastD intro: plain_word_fields [OF refl] split: if_splits)
  from app have "(case fs of
      [dev, mnt] \<Rightarrow> Inr (hf\<lparr>nf_Volumes := nf_Volumes hf @
        [\<lparr>vol_Device = dev, vol_Mountpoint = mnt, vol_FSType = ''vfat'', vol_Required = req\<rparr>]\<rparr>)
    | [dev, mnt, fstype] \<Rightarrow> (if fstype \<noteq> ''vfat'' \<and> fstype \<noteq> ''ext4'' then Inl (EFSType fstype)
        else Inr (hf\<lparr>nf_Volumes := nf_Volumes hf @
        [\<lparr>vol_Device = dev, vol_Mountpoint = mnt, vol_FSType = fstype, vol_Required = req\<rparr>]\<rparr>))
    | _ \<Rightarrow> Inl (ERequires ''VOLUME'')) = Inr hf'"
    by (simp only: apply_VOLUME_def Let_def fs_def req_def)
  then obtain v where "hf' = hf\<lparr>nf_Volumes := nf_Volumes hf @ [v]\<rparr>" and "volume_ok v"
    using words by (clarsimp simp: volume_ok_def split: list.splits if_splits)
  with ok nimbus_ok_get(6) [OF ok] show "nimbus_ok hf'" by (auto intro!: nimbus_ok_update)
qed

lemma apply_COPY_ADD_elim:
  "apply_COPY_ADD d rest hf = Inr hf' \<Longrightarrow>
     \<exists>m r src dest0. copy_chmod d rest = Inr (m, r) \<and> go_cut r '' '' = (src, dest0, True) \<and>
       src \<noteq> [] \<and> go_trim_space dest0 \<noteq> [] \<and>
       hf' = hf\<lparr>nf_Copies := nf_Copies hf @
         [\<lparr>co_Src = src, co_Dest = go_trim_space dest0, co_IsURL = go_contains src ''://'',
           co_IsAdd = (d = ''ADD''), co_Chmod = m\<rparr>]\<rparr>"
proof -
  assume app: "apply_COPY_ADD d rest hf = Inr hf'"
  then obtain m r where m: "copy_chmod d rest = Inr (m, r)"
    unfolding apply_COPY_ADD_def bindE_Inr_iff by auto
  obtain src dest0 ok where c: "go_cut r '' '' = (src, dest0, ok)" by (metis prod_cases3)
  from app m c show ?thesis
    by (auto simp: apply_COPY_ADD_def Let_def split: if_splits)
qed

lemma apply_COPY_ADD_ok [keeps_ok]: "preserves_ok (apply_COPY_ADD d)"
  by (rule preserves_okI; drule apply_COPY_ADD_elim; clarsimp;
      frule nimbus_ok_get(5); drule copy_chmod_ok; drule go_cut_char_fst;
      erule nimbus_ok_update; simp add: copy_ok_def)

lemma apply_AGENT_header_ok:
  "nimbus_ok hf \<Longrightarrow> apply_AGENT_header w rest hf = Inr hf' \<Longrightarrow> nimbus_ok hf'"
  by (clarsimp simp only: apply_AGENT_header_def Let_def split: option.splits if_splits prod.splits;
      clarsimp; drule cutHeader_ok; frule nimbus_ok_get(11); erule nimbus_ok_update;
      auto simp: agent_ok_def agent_kinds_def)

lemma agent_interval_bind:
  "bindE (agent_interval k ws) (\<lambda>iv. Inr (F iv)) = Inr y \<Longrightarrow> \<exists>iv. go_atoi iv \<noteq> None \<and> y = F iv"
proof -
  assume "bindE (agent_interval k ws) (\<lambda>iv. Inr (F iv)) = Inr y"
  then obtain iv where "agent_interval k ws = Inr iv" and "y = F iv"
    by (auto simp: bindE_Inr_iff)
  then show ?thesis using agent_interval_ok by blast
qed

lemma apply_AGENT_elim:
  assumes "apply_AGENT rest hf = Inr hf'"
  shows "apply_AGENT_header (hd (go_fields rest)) rest hf = Inr hf' \<or>
    (\<exists>a. hf' = hf\<lparr>nf_Agent := Some a\<rparr> \<and> nf_Agent hf = None \<and> ag_Headers a = [] \<and>
       ag_URL a \<in> set (go_fields rest) \<and> go_atoi (ag_Interval a) \<noteq> None \<and>
       (ag_Kind a = ''http'' \<or> ag_Kind a \<in> set agent_kinds))"
proof -
  define fs where "fs = go_fields rest"
  define kw where "kw = go_to_lower (hd fs)"
  have ne: "fs \<noteq> []" using assms by (auto simp: apply_AGENT_def fs_def)
  consider (header) "kw = ''header''" | (kind) "kw \<noteq> ''header''" "kw \<in> set agent_kinds"
    | (http) "kw \<noteq> ''header''" "kw \<notin> set agent_kinds" by blast
  then show ?thesis
  proof cases
    case header
    with assms ne show ?thesis
      unfolding apply_AGENT_def Let_def fs_def [symmetric] kw_def [symmetric] by simp
  next
    case kind
    then have "nf_Agent hf = None \<and> \<not> (length fs < 2 \<or> 3 < length fs) \<and>
        bindE (agent_interval kw (drop 2 fs)) (\<lambda>iv. Inr (hf\<lparr>nf_Agent := Some
          \<lparr>ag_Kind = kw, ag_URL = fs ! 1, ag_Interval = iv, ag_Headers = []\<rparr>\<rparr>)) = Inr hf'"
      using assms ne
      unfolding apply_AGENT_def Let_def fs_def [symmetric] kw_def [symmetric]
      by (simp split: if_splits)
    moreover from this have "fs ! 1 \<in> set fs" by simp
    ultimately show ?thesis using kind unfolding fs_def
      by (auto dest!: agent_interval_bind)
  next
    case http
    then have "nf_Agent hf = None \<and>
        bindE (agent_interval [] (drop 1 fs)) (\<lambda>iv. Inr (hf\<lparr>nf_Agent := Some
          \<lparr>ag_Kind = ''http'', ag_URL = hd fs, ag_Interval = iv, ag_Headers = []\<rparr>\<rparr>)) = Inr hf'"
      using assms ne
      unfolding apply_AGENT_def Let_def fs_def [symmetric] kw_def [symmetric]
      by (simp split: if_splits)
    with ne show ?thesis unfolding fs_def
      by (auto dest!: agent_interval_bind)
  qed
qed

lemma apply_AGENT_ok [keeps_ok]: "preserves_ok apply_AGENT"
proof (rule preserves_okI)
  fix rest hf hf'
  assume ok: "nimbus_ok hf" and app: "apply_AGENT rest hf = Inr hf'"
  from apply_AGENT_elim [OF app] show "nimbus_ok hf'"
  proof
    assume "apply_AGENT_header (hd (go_fields rest)) rest hf = Inr hf'"
    with ok show ?thesis by (rule apply_AGENT_header_ok)
  next
    assume "\<exists>a. hf' = hf\<lparr>nf_Agent := Some a\<rparr> \<and> nf_Agent hf = None \<and> ag_Headers a = [] \<and>
       ag_URL a \<in> set (go_fields rest) \<and> go_atoi (ag_Interval a) \<noteq> None \<and>
       (ag_Kind a = ''http'' \<or> ag_Kind a \<in> set agent_kinds)"
    then obtain a where "hf' = hf\<lparr>nf_Agent := Some a\<rparr>" "agent_ok a"
      using plain_word_fields [OF refl] by (auto simp: agent_ok_def)
    with ok show ?thesis by (auto intro!: nimbus_ok_update)
  qed
qed

lemma directive_table_ok: "list_all (\<lambda>(d, h). preserves_ok h) directive_table"
  by (simp add: directive_table_def keeps_ok)

lemma apply_directive_ok: "nimbus_ok hf \<Longrightarrow> apply_directive d rest hf = Inr hf' \<Longrightarrow> nimbus_ok hf'"
  using directive_table_ok
  by (auto simp: apply_directive_def list_all_iff preserves_ok_def split: option.splits
      dest!: map_of_SomeD)

section \<open>Handlers only add\<close>

text \<open>
  No handler takes back what an earlier line declared: repeatable directives append, a service
  keeps its name and command (RESTART rewrites its policy only), an SSID and an AGENT stay set.
\<close>

definition grows :: "Nimbusfile \<Rightarrow> Nimbusfile \<Rightarrow> bool" where
  "grows hf hf' \<longleftrightarrow>
     prefix (nf_Copies hf) (nf_Copies hf') \<and> prefix (nf_Volumes hf) (nf_Volumes hf') \<and>
     prefix (nf_Env hf) (nf_Env hf') \<and> prefix (nf_Labels hf) (nf_Labels hf') \<and>
     prefix (nf_Firewall hf) (nf_Firewall hf') \<and> prefix (nf_Firewall6 hf) (nf_Firewall6 hf') \<and>
     prefix (nf_DNS hf) (nf_DNS hf') \<and> prefix (nf_Exposed hf) (nf_Exposed hf') \<and>
     prefix (map (\<lambda>s. (svc_Name s, svc_Argv s)) (nf_Services hf))
            (map (\<lambda>s. (svc_Name s, svc_Argv s)) (nf_Services hf')) \<and>
     (nf_WiFiSSID hf \<noteq> [] \<longrightarrow> nf_WiFiSSID hf' = nf_WiFiSSID hf) \<and>
     (nf_Agent hf \<noteq> None \<longrightarrow> map_option ag_URL (nf_Agent hf') = map_option ag_URL (nf_Agent hf)) \<and>
     nf_BaseDir hf' = nf_BaseDir hf"

lemma grows_refl: "grows hf hf"
  by (simp add: grows_def)

lemma grows_trans: "grows a b \<Longrightarrow> grows b c \<Longrightarrow> grows a c"
  unfolding grows_def by (auto intro: prefix_order.trans)

definition grows_handler :: "handler \<Rightarrow> bool" where
  "grows_handler h \<longleftrightarrow> (\<forall>rest hf hf'. h rest hf = Inr hf' \<longrightarrow> grows hf hf')"

named_theorems only_adds \<open>handlers that only add\<close>

lemma grows_handlerI: "(\<And>rest hf hf'. h rest hf = Inr hf' \<Longrightarrow> grows hf hf') \<Longrightarrow> grows_handler h"
  by (simp add: grows_handler_def)

lemma scalar_handlers_grow [only_adds]:
  "grows_handler apply_KERNEL" "grows_handler apply_BUSYBOX" "grows_handler apply_ARCH"
  "grows_handler apply_VGA" "grows_handler apply_HARDBOOT" "grows_handler apply_HOSTNAME"
  "grows_handler apply_DHCP" "grows_handler apply_IP" "grows_handler apply_DNS"
  "grows_handler apply_FORMAT" "grows_handler apply_USER" "grows_handler apply_WORKDIR"
  "grows_handler apply_FIREWALL_ON_ERROR" "grows_handler apply_STOPGRACE"
  "grows_handler apply_PIECESKEY"
  by (rule grows_handlerI; clarsimp simp only: nimbus_defs split: if_splits option.splits list.splits;
      clarsimp simp: grows_def)+

lemma bind_handlers_grow [only_adds]:
  "grows_handler apply_WIFI" "grows_handler apply_WIFIPSK" "grows_handler apply_WIFICOUNTRY"
  "grows_handler apply_TMPSIZE" "grows_handler apply_FIREWALL" "grows_handler apply_FIREWALL6"
  "grows_handler apply_ENTRYPOINT" "grows_handler apply_CMD"
  by (rule grows_handlerI; clarsimp simp only: nimbus_defs bindE_Inr_iff split: if_splits;
      clarsimp simp: grows_def)+

lemma apply_NTP_grows [only_adds]: "grows_handler apply_NTP"
  by (rule grows_handlerI; clarsimp simp only: apply_NTP_def split: if_splits; clarsimp simp: grows_def)

lemma elim_handlers_grow [only_adds]:
  "grows_handler apply_ENV" "grows_handler apply_LABEL" "grows_handler apply_SERVICE"
  "grows_handler (apply_COPY_ADD d)"
  by (rule grows_handlerI; (drule apply_pair_elim apply_SERVICE_elim apply_COPY_ADD_elim);
      clarsimp simp: grows_def)+

lemma apply_EXPOSE_grows [only_adds]: "grows_handler apply_EXPOSE"
  by (rule grows_handlerI)
     (auto simp: apply_EXPOSE_def grows_def Let_def split: if_splits option.splits prod.splits)

lemma apply_HEALTHCHECK_grows [only_adds]: "grows_handler apply_HEALTHCHECK"
  by (rule grows_handlerI; clarsimp simp only: nimbus_defs bindE_Inr_iff split: prod.splits;
      clarsimp simp: grows_def)

lemma set_restart_names:
  "set_restart t p ss = Some ss' \<Longrightarrow>
   map (\<lambda>s. (svc_Name s, svc_Argv s)) ss' = map (\<lambda>s. (svc_Name s, svc_Argv s)) ss"
  by (induction ss arbitrary: ss') (auto split: if_splits)

lemma apply_RESTART_grows [only_adds]: "grows_handler apply_RESTART"
  by (rule grows_handlerI; clarsimp simp only: apply_RESTART_def split: list.splits if_splits option.splits;
      clarsimp simp: grows_def set_restart_names)

lemma apply_VOLUME_grows [only_adds]: "grows_handler apply_VOLUME"
  by (rule grows_handlerI; simp only: apply_VOLUME_def Let_def split: list.splits if_splits;
      clarsimp simp: grows_def)

lemma apply_AGENT_header_grows: "apply_AGENT_header w rest hf = Inr hf' \<Longrightarrow> grows hf hf'"
  by (clarsimp simp only: apply_AGENT_header_def Let_def split: option.splits if_splits prod.splits;
      clarsimp simp: grows_def)

lemma apply_AGENT_grows [only_adds]: "grows_handler apply_AGENT"
  by (rule grows_handlerI; drule apply_AGENT_elim; elim disjE;
      (erule apply_AGENT_header_grows | clarsimp simp: grows_def))

lemma directive_table_grows: "list_all (\<lambda>(d, h). grows_handler h) directive_table"
  by (simp add: directive_table_def only_adds)

lemma apply_directive_grows: "apply_directive d rest hf = Inr hf' \<Longrightarrow> grows hf hf'"
  using directive_table_grows
  by (auto simp: apply_directive_def list_all_iff grows_handler_def split: option.splits
      dest!: map_of_SomeD)

end
