(* ===== verification/Nimbus_Parse.thy ===== *)
theory Nimbus_Parse
  imports Nimbus_Invariant
begin

text \<open>
  \<^verbatim>\<open>Parse\<close> of internal/nimbusfile/nimbusfile.go: the loop over the logical lines, and the
  theorems about it. The file's contents are an argument (\<^verbatim>\<open>None\<close> when reading fails); the map
  of \<^verbatim>\<open>--build-arg\<close> vals is another.
\<close>

section \<open>The parser\<close>

definition parse_ARG :: "arg_values \<Rightarrow> string \<Rightarrow> arg_values \<Rightarrow> nimbus_error + arg_values" where
  "parse_ARG buildArgs rest vals =
     (let (name0, def, hasDefault) = go_cut rest ''='';
          name = go_trim_space name0 in
      if name = [] then Inl EArgName
      else (case buildArgs name of
              Some v \<Rightarrow> Inr (vals(name \<mapsto> v))
            | None \<Rightarrow> if hasDefault then Inr (vals(name \<mapsto> def)) else Inl (EArgMissing name)))"

type_synonym parse_state = "Nimbusfile \<times> arg_values"

definition parse_line :: "arg_values \<Rightarrow> string \<Rightarrow> parse_state \<Rightarrow> nimbus_error + parse_state" where
  "parse_line buildArgs line0 st =
     (let line = go_trim_space line0; (hf, vals) = st in
      if line = [] \<or> go_has_prefix line ''#'' then Inr (hf, vals)
      else
        let (d0, r0, _) = go_cut line '' '';
            directive = go_to_upper d0;
            rest = go_trim_space r0 in
        if directive = ''ARG'' then
          bindE (parse_ARG buildArgs rest vals) (\<lambda>vals'. Inr (hf, vals'))
        else
          bindE (substituteArgs rest vals)
            (\<lambda>rest'. bindE (apply_directive directive rest' hf) (\<lambda>hf'. Inr (hf', vals))))"

definition parse_step :: "arg_values \<Rightarrow> parse_state \<Rightarrow> string \<times> nat \<Rightarrow> nimbus_error + parse_state" where
  "parse_step buildArgs st ln = wrapE (ELine (snd ln)) (parse_line buildArgs (fst ln) st)"

definition finish_ntp :: "Nimbusfile \<Rightarrow> Nimbusfile" where
  "finish_ntp hf = (if \<not> nf_ntpTouched hf then hf\<lparr>nf_NTP := [''pool.ntp.org'']\<rparr> else hf)"

definition Parse :: "string \<Rightarrow> string option \<Rightarrow> arg_values \<Rightarrow> nimbus_error + Nimbusfile" where
  "Parse path data buildArgs =
     (case data of
        None \<Rightarrow> Inl (EReading path)
      | Some src \<Rightarrow>
          bindE (foldE (parse_step buildArgs) (default_nimbusfile (dirOf path), Map.empty)
                  (joinContinuations src))
            (\<lambda>(hf0, _). let hf = finish_ntp hf0
                        in bindE (validateWiFiCrossRefs hf) (\<lambda>_. Inr hf)))"

section \<open>Every accepted manifest is well formed\<close>

lemma parse_line_elim:
  assumes "parse_line buildArgs l (hf, vals) = Inr (hf', vals')"
  shows "hf' = hf \<or> (vals' = vals \<and> (\<exists>d rest. apply_directive d rest hf = Inr hf'))"
  using assms
  by (auto simp: parse_line_def Let_def bindE_Inr_iff split: if_splits prod.splits)

lemma parse_step_keeps:
  assumes "nimbus_ok (fst st)" and "parse_step buildArgs st ln = Inr st'"
  shows "nimbus_ok (fst st')"
proof -
  obtain hf vals hf' vals' where st: "st = (hf, vals)" "st' = (hf', vals')"
    by (metis surj_pair)
  with assms have "parse_line buildArgs (fst ln) (hf, vals) = Inr (hf', vals')"
    by (simp add: parse_step_def)
  from parse_line_elim [OF this] assms(1) show ?thesis
    by (auto simp: st dest: apply_directive_ok)
qed

interpretation directives: preserving_step "parse_step buildArgs" "\<lambda>st. nimbus_ok (fst st)"
  for buildArgs
  by unfold_locales (rule parse_step_keeps)

lemma finish_ntp_ok: "nimbus_ok hf \<Longrightarrow> nimbus_ok (finish_ntp hf)"
  by (simp add: finish_ntp_def nimbus_ok_update(19) ntp_ok_def)

lemma Parse_elim:
  assumes "Parse path data buildArgs = Inr hf"
  obtains src hf0 vals where "data = Some src"
    and "foldE (parse_step buildArgs) (default_nimbusfile (dirOf path), Map.empty)
          (joinContinuations src) = Inr (hf0, vals)"
    and "hf = finish_ntp hf0" and "wifi_consistent hf"
proof -
  from assms obtain src where "data = Some src"
    by (auto simp: Parse_def split: option.splits)
  with assms that show thesis
    by (auto simp: Parse_def bindE_Inr_iff Let_def validateWiFiCrossRefs_iff)
qed

section \<open>Continuation lines\<close>

definition continues :: "string \<Rightarrow> bool" where
  "continues l \<longleftrightarrow> go_has_suffix (go_trim_right l ('' '' @ TAB)) BSL"

definition continued_text :: "string \<Rightarrow> string" where
  "continued_text l = go_trim_suffix (go_trim_right l ('' '' @ TAB)) BSL @ '' ''"

lemma join_loop_Cons:
  "join_loop acc start i (l # ls) =
     (if continues l
      then join_loop (acc @ continued_text l) (if acc = [] then i else start) (Suc i) ls
      else (acc @ l, if acc = [] then i else start) # join_loop [] (if acc = [] then i else start) (Suc i) ls)"
  by (simp add: continues_def continued_text_def Let_def)

declare join_loop.simps(2) [simp del]

lemma continued_text_nonempty [simp]: "continued_text l \<noteq> []"
  by (simp add: continued_text_def)

lemma join_loop_start: "join_loop [] start i ls = join_loop [] start' i ls"
  by (cases ls) (auto simp: join_loop_Cons)

text \<open>A block of continued lines and the line that ends it make one logical line.\<close>

lemma join_loop_block:
  "list_all continues ls \<Longrightarrow> \<not> continues l \<Longrightarrow> acc \<noteq> [] \<Longrightarrow>
   join_loop acc start i (ls @ l # rest) =
     (acc @ concat (map continued_text ls) @ l, start) # join_loop [] 0 (i + length ls + 1) rest"
proof (induction ls arbitrary: acc i)
  case Nil
  then show ?case by (simp add: join_loop_Cons join_loop_start [of start _ _ 0])
next
  case (Cons m ms)
  then show ?case by (simp add: join_loop_Cons)
qed

lemma join_loop_first_block:
  assumes "list_all continues ls" and "\<not> continues l"
  shows "join_loop [] start i (ls @ l # rest) =
    (concat (map continued_text ls) @ l, i) # join_loop [] 0 (i + length ls + 1) rest"
proof (cases ls)
  case Nil
  with assms show ?thesis by (simp add: join_loop_Cons join_loop_start [of i _ _ 0])
next
  case (Cons m ms)
  with assms show ?thesis
    by (simp add: join_loop_Cons join_loop_block)
qed

text \<open>The numbers of the logical lines are numbers of physical lines, and increase.\<close>

lemma join_loop_numbers:
  "(acc \<noteq> [] \<longrightarrow> start < i) \<Longrightarrow>
   sorted_wrt (<) (map snd (join_loop acc start i ls)) \<and>
   (\<forall>p \<in> set (join_loop acc start i ls).
      (if acc = [] then i else start) \<le> snd p \<and> snd p < i + length ls)"
proof (induction ls arbitrary: acc start i)
  case Nil
  then show ?case by auto
next
  case (Cons l ls)
  define st where "st = (if acc = [] then i else start)"
  have le: "st \<le> i" using Cons.prems by (auto simp: st_def)
  show ?case
  proof (cases "continues l")
    case True
    have "sorted_wrt (<) (map snd (join_loop (acc @ continued_text l) st (Suc i) ls)) \<and>
      (\<forall>p \<in> set (join_loop (acc @ continued_text l) st (Suc i) ls).
        st \<le> snd p \<and> snd p < Suc i + length ls)"
      using Cons.IH [of "acc @ continued_text l" st "Suc i"] le by simp
    with True show ?thesis by (simp add: join_loop_Cons flip: st_def)
  next
    case False
    have "sorted_wrt (<) (map snd (join_loop [] st (Suc i) ls)) \<and>
      (\<forall>p \<in> set (join_loop [] st (Suc i) ls). Suc i \<le> snd p \<and> snd p < Suc i + length ls)"
      using Cons.IH [of "[]" st "Suc i"] by simp
    with False le show ?thesis by (fastforce simp: join_loop_Cons simp flip: st_def)
  qed
qed

definition physical_lines :: "string \<Rightarrow> string list" where
  "physical_lines src = go_split (CHR 0x0A) (normalise_newlines src)"

lemma joinContinuations_numbers:
  "sorted_wrt (<) (map snd (joinContinuations src))"
  "(t, n) \<in> set (joinContinuations src) \<Longrightarrow> 1 \<le> n \<and> n \<le> length (physical_lines src)"
  using join_loop_numbers [of "[]" 0 1 "physical_lines src"]
  by (fastforce simp: joinContinuations_def physical_lines_def)+

section \<open>Errors name the first line that fails\<close>

lemma foldE_Inl_split:
  "foldE step s xs = Inl e \<Longrightarrow>
   \<exists>pre x post s'. xs = pre @ x # post \<and> foldE step s pre = Inr s' \<and> step s' x = Inl e"
proof (induction xs arbitrary: s)
  case Nil
  then show ?case by simp
next
  case (Cons y ys)
  show ?case
  proof (cases "step s y")
    case (Inl e')
    with Cons.prems have "foldE step s [] = Inr s \<and> step s y = Inl e" by simp
    then show ?thesis by (metis append_Nil)
  next
    case (Inr t)
    with Cons.prems have "foldE step t ys = Inl e" by simp
    from Cons.IH [OF this] obtain pre x post s' where
      "ys = pre @ x # post" "foldE step t pre = Inr s'" "step s' x = Inl e" by blast
    with Inr have "y # ys = (y # pre) @ x # post \<and> foldE step s (y # pre) = Inr s' \<and> step s' x = Inl e"
      by simp
    then show ?thesis by blast
  qed
qed

section \<open>Properties\<close>

interpretation growing: extending_step "parse_step buildArgs" "\<lambda>s t. grows (fst s) (fst t)"
  for buildArgs
proof unfold_locales
  fix st st' :: parse_state and ln
  assume "parse_step buildArgs st ln = Inr st'"
  then have "parse_line buildArgs (fst ln) (fst st, snd st) = Inr (fst st', snd st')"
    by (simp add: parse_step_def)
  from parse_line_elim [OF this] show "grows (fst st) (fst st')"
    using apply_directive_grows grows_refl by metis
qed (blast intro: grows_refl grows_trans)+

lemma Parse_ok:
  assumes "Parse path data buildArgs = Inr hf"
  shows "nimbus_ok hf" "wifi_consistent hf" "nf_BaseDir hf = dirOf path"
proof -
  from assms obtain src hf0 vals where
    run: "foldE (parse_step buildArgs) (default_nimbusfile (dirOf path), Map.empty)
          (joinContinuations src) = Inr (hf0, vals)"
    and hf: "hf = finish_ntp hf0" and wifi: "wifi_consistent hf"
    by (rule Parse_elim)
  have "nimbus_ok hf0"
    using directives.fold_preserves [OF _ run] by (simp add: default_nimbusfile_ok)
  moreover have "nf_BaseDir hf0 = dirOf path"
    using growing.fold_extends [OF run] by (simp add: grows_def default_nimbusfile_def)
  ultimately show "nimbus_ok hf" "nf_BaseDir hf = dirOf path"
    by (simp_all add: hf finish_ntp_ok) (simp add: finish_ntp_def)
  show "wifi_consistent hf" by (rule wifi)
qed

text \<open>
  Property C1. Every manifest \<^verbatim>\<open>Parse\<close> accepts is well formed: architecture, profile, format and
  policies are among the documented values, addresses parse, FIREWALL rules hold no shell
  metacharacter and start with an iptables operation (also when their text came from an ARG),
  SSID, passphrase and country fit the configuration file they go to, ports, sizes, modes and
  keys are in range, and the three WiFi values are all set exactly when the profile has WiFi.
\<close>

theorem Parse_well_formed:
  assumes "Parse path data buildArgs = Inr hf"
  shows "nimbus_ok hf \<and> wifi_consistent hf \<and> nf_BaseDir hf = dirOf path"
  using Parse_ok [OF assms] by blast

definition sample_file :: string where
  "sample_file = ''# demo'' @ NL @ ''ARG P=8080'' @ NL @ ''ARCH arm64'' @ NL @
     ''FIREWALL -A INPUT -p tcp '' @ BSL @ NL @ '' --dport ${P} -j ACCEPT'' @ NL @ ''expose $P''"

lemma sample_file_parses:
  "map_sum id (\<lambda>hf. (nf_Arch hf, nf_Firewall hf, map ep_Port (nf_Exposed hf)))
     (Parse ''d/Nimbusfile'' (Some sample_file) (\<lambda>_. None)) =
   Inr (''arm64'', [''-A INPUT -p tcp   --dport 8080 -j ACCEPT''], [8080])"
  by code_simp

theorem Parse_well_formed_witness:
  "\<exists>hf. Parse ''d/Nimbusfile'' (Some sample_file) (\<lambda>_. None) = Inr hf \<and>
     nf_Arch hf = ''arm64'' \<and> nimbus_ok hf \<and> wifi_consistent hf \<and> nf_BaseDir hf = dirOf ''d/Nimbusfile''"
proof -
  obtain hf where hf: "Parse ''d/Nimbusfile'' (Some sample_file) (\<lambda>_. None) = Inr hf"
    and "nf_Arch hf = ''arm64''"
    using sample_file_parses
    by (cases "Parse ''d/Nimbusfile'' (Some sample_file) (\<lambda>_. None)") auto
  with Parse_well_formed [OF hf] show ?thesis by blast
qed

text \<open>
  Later lines never take back what earlier lines declared: from any state the loop
  reaches, going on with more lines only extends the copies, volumes, variables, labels, rules,
  name servers, ports and services (in order), and leaves an SSID and an agent as they were set.
\<close>

theorem Parse_lines_only_add:
  assumes "foldE (parse_step buildArgs) st xs = Inr s1"
    and "foldE (parse_step buildArgs) st (xs @ ys) = Inr s2"
  shows "grows (fst st) (fst s1) \<and> grows (fst s1) (fst s2)"
proof -
  from assms have "foldE (parse_step buildArgs) s1 ys = Inr s2"
    by (simp add: foldE_append)
  with assms(1) show ?thesis using growing.fold_extends by blast
qed

theorem Parse_lines_only_add_witness:
  "\<exists>s1 s2. foldE (parse_step (\<lambda>_. None)) (default_nimbusfile ''d'', \<lambda>_. None)
      [(''ENV A=1'', 1)] = Inr s1 \<and>
    foldE (parse_step (\<lambda>_. None)) (default_nimbusfile ''d'', \<lambda>_. None)
      ([(''ENV A=1'', 1)] @ [(''ENV A=2'', 2)]) = Inr s2 \<and>
    map ev_Value (nf_Env (fst s2)) = [''1'', ''2''] \<and> grows (fst s1) (fst s2)"
proof -
  have "map_sum id (\<lambda>s. map ev_Value (nf_Env (fst s))) (foldE (parse_step (\<lambda>_. None))
      (default_nimbusfile ''d'', \<lambda>_. None) [(''ENV A=1'', 1)]) = Inr [''1'']"
    by code_simp
  then obtain s1 where s1: "foldE (parse_step (\<lambda>_. None)) (default_nimbusfile ''d'', \<lambda>_. None)
      [(''ENV A=1'', 1)] = Inr s1"
    by (cases "foldE (parse_step (\<lambda>_. None)) (default_nimbusfile ''d'', \<lambda>_. None) [(''ENV A=1'', 1)]")
       auto
  have "map_sum id (\<lambda>s. map ev_Value (nf_Env (fst s))) (foldE (parse_step (\<lambda>_. None))
      (default_nimbusfile ''d'', \<lambda>_. None) ([(''ENV A=1'', 1)] @ [(''ENV A=2'', 2)])) = Inr [''1'', ''2'']"
    by code_simp
  then obtain s2 where s2: "foldE (parse_step (\<lambda>_. None)) (default_nimbusfile ''d'', \<lambda>_. None)
      ([(''ENV A=1'', 1)] @ [(''ENV A=2'', 2)]) = Inr s2"
    and env: "map ev_Value (nf_Env (fst s2)) = [''1'', ''2'']"
    by (cases "foldE (parse_step (\<lambda>_. None)) (default_nimbusfile ''d'', \<lambda>_. None)
      ([(''ENV A=1'', 1)] @ [(''ENV A=2'', 2)])") auto
  have "grows (fst s1) (fst s2)" using Parse_lines_only_add [OF s1 s2] by (rule conjunct2)
  with s1 s2 env show ?thesis by (intro exI conjI)
qed



text \<open>
  Line continuations: a block of physical lines that end in a backslash (white space
  after it ignored) and the line that ends the block become one logical line, in order, numbered
  by the block's first line; the text after the block is joined the same way.
\<close>

theorem join_block:
  assumes "list_all continues ls" and "\<not> continues l"
  shows "join_loop [] start i (ls @ l # rest) =
    (concat (map continued_text ls) @ l, i) # join_loop [] 0 (i + length ls + 1) rest"
  using assms by (rule join_loop_first_block)

theorem join_block_witness:
  "join_loop [] 0 1 ([''RUN a '' @ BSL @ '' '', ''b'' @ BSL] @ ''c'' # [''d'']) =
     [(''RUN a  b c'', 1), (''d'', 4)]"
proof -
  have c: "list_all continues [''RUN a '' @ BSL @ '' '', ''b'' @ BSL]" by code_simp
  have n: "\<not> continues ''c''" by code_simp
  have t: "concat (map continued_text [''RUN a '' @ BSL @ '' '', ''b'' @ BSL]) = ''RUN a  b ''"
    by code_simp
  have r: "join_loop [] 0 (1 + length [''RUN a '' @ BSL @ '' '', ''b'' @ BSL] + 1) [''d''] = [(''d'', 4)]"
    by code_simp
  show ?thesis
    unfolding join_block [OF c n, of 0 1 "[''d'']"] t r by simp
qed

end
