(* ===== verification/RC_Script.thy ===== *)
theory RC_Script
  imports Rootfs_Types
begin

text \<open>
  The sysinit script \<^verbatim>\<open>/etc/init.d/rcS\<close> (\<^verbatim>\<open>buildRCScript\<close> of internal/rootfs/build.go), one
  definition per section of it in the order the sections are emitted, and the scripts it hands
  to udhcpc and wpa_supplicant.
\<close>

section \<open>Configuration of wpa_supplicant\<close>

definition wpaConfQuote :: "string \<Rightarrow> string" where
  "wpaConfQuote s =
     DQ @ concat (map (\<lambda>r. (if r = 34 \<or> r = 92 then BSL else []) @ encode_rune r) (go_runes s)) @ DQ"

definition wifiPSKHex64 :: "string \<Rightarrow> bool" where
  "wifiPSKHex64 s \<longleftrightarrow> length s = 64 \<and> list_all is_hex s"

definition buildWpaSupplicantConf :: "string \<Rightarrow> string \<Rightarrow> string \<Rightarrow> string" where
  "buildWpaSupplicantConf ssid psk country = concat (
     [shl ''# Generated by cnimbus (F6.5) -- do not edit by hand.'',
      shl ''# Carries the WIFIPSK secret in plain text (wpa_supplicant has no other'',
      shl ''# way to consume a PSK); this file must stay 0600 -- see BuildImages.'',
      shl ''ap_scan=1''] @
     (if country \<noteq> [] then [sh ''country='' @ country @ NL] else []) @
     [shl ''network={'',
      sh ''  ssid='' @ wpaConfQuote ssid @ NL,
      (if wifiPSKHex64 psk then sh ''  psk='' @ psk @ NL else sh ''  psk='' @ wpaConfQuote psk @ NL),
      shl ''  key_mgmt=WPA-PSK'',
      shl ''}''])"

section \<open>Networking sections of rcS\<close>

definition ntpCanResolve :: "PiecesSpec \<Rightarrow> bool" where
  "ntpCanResolve spec \<longleftrightarrow>
     ps_DNS spec \<noteq> [] \<or> (ps_StaticIP spec = None \<and> ps_DHCP spec) \<or>
     list_all go_parse_ip (ps_NTP spec)"

definition rc_mounts :: "string list" where
  "rc_mounts =
     [shl ''#!/bin/sh'',
      shl ''mount -t devtmpfs devtmpfs /dev'',
      shl ''mount -t proc proc /proc'',
      shl ''mount -o remount,hidepid=2,nosuid,nodev,noexec /proc || /bin/sh /etc/cnimbus-say ~cnimbus: warning: could not apply hidepid=2 to /proc (kernel/config too old?), continuing without it~'',
      shl ''mount -t sysfs sysfs /sys'',
      writeUptimeCheckpoint ''rcS starting (post switch_root)'',
      shl ''mount -o remount,nosuid,nodev,noexec /sys || /bin/sh /etc/cnimbus-say ~cnimbus: warning: could not apply hardening options to /sys, continuing without them~'',
      shl ''echo -1000 > /proc/1/oom_score_adj 2>/dev/null'',
      shl ''mount -t tmpfs -o nosuid,nodev,noexec,mode=1777,size=64m tmpfs /tmp'',
      shl ''mount -t tmpfs -o nosuid,nodev,mode=0755,size=8m tmpfs /var/run'',
      shl ''mount --bind /var/run /run 2>/dev/null || mount -t tmpfs tmpfs /run 2>/dev/null'',
      shl '': > /var/run/resolv.conf'',
      shl ''mount --bind /var/run/resolv.conf /etc/resolv.conf 2>/dev/null || /bin/sh /etc/cnimbus-say ~cnimbus: could not make /etc/resolv.conf writable -- DNS resolution may not work~'']"

definition rc_hostname :: "PiecesSpec \<Rightarrow> string list" where
  "rc_hostname spec =
     [sh ''hostname '' @ shQuote (ps_Hostname spec) @ NL,
      shl ''ifconfig lo up'']"

definition rc_nic_report :: "PiecesSpec \<Rightarrow> string list" where
  "rc_nic_report spec =
     (if ps_StaticIP spec \<noteq> None \<or> ps_DHCP spec then
       [shl ''[ -e /sys/class/net/eth0 ] || /bin/sh /etc/cnimbus-say ~cnimbus: no eth0 -- unsupported NIC model for this VM/hypervisor~'',
        shl ''if [ -e /sys/class/net/eth0 ]; then'',
        shl ''  ETH0DRV=$(readlink -f /sys/class/net/eth0/device/driver 2>/dev/null); ETH0DRV=${ETH0DRV##*/}'',
        sh ''  '' @ consoleSayCmd @ shl '' ~cnimbus: eth0 driver=${ETH0DRV:-unknown} mac=$(cat /sys/class/net/eth0/address 2>/dev/null)~'',
        shl ''fi'']
      else [])"

text \<open>The \<^verbatim>\<open>switch\<close>: the commands of the branch taken, and the variable \<^verbatim>\<open>networked\<close> after it.\<close>

definition rc_static :: "StaticIP \<Rightarrow> string list" where
  "rc_static ip =
     [sh ''ifconfig eth0 '' @ shQuote (sip_Address ip) @ sh '' netmask '' @ shQuote (sip_Netmask ip) @ shl '' up'',
      sh ''route add default gw '' @ shQuote (sip_Gateway ip) @ shl '' dev eth0'']"

definition rc_dhcp :: "string list" where
  "rc_dhcp =
     [shl ''ifconfig eth0 up'',
      shl ''for i in 1 2 3; do [ ~$(cat /sys/class/net/eth0/carrier 2>/dev/null)~ = 1 ] && break; sleep 1; done'',
      consoleSayCmd @ shl '' ~cnimbus: eth0 carrier=$(cat /sys/class/net/eth0/carrier 2>/dev/null) operstate=$(cat /sys/class/net/eth0/operstate 2>/dev/null) speed=$(cat /sys/class/net/eth0/speed 2>/dev/null)Mbps~'',
      shl ''udhcpc -i eth0 -n -t 3 -T 1 -A 2 -s /sbin/udhcpc.script'',
      shl ''DHCPRC=$?'',
      consoleSayCmd @ shl '' ~cnimbus: udhcpc exit=$DHCPRC addr=$(ip -o -f inet addr show eth0 2>/dev/null | awk ^{print $4}^)~'']"

definition rc_address :: "PiecesSpec \<Rightarrow> string list \<times> bool" where
  "rc_address spec =
     (case ps_StaticIP spec of
        Some ip \<Rightarrow> (rc_static ip, True)
      | None \<Rightarrow> if ps_DHCP spec then (rc_dhcp, True) else ([], False))"

definition rc_ipv6_report :: "bool \<Rightarrow> string list" where
  "rc_ipv6_report networked =
     (if networked then
       [shl ''for i in 1 2 3 4 5; do ip -6 addr show dev eth0 2>/dev/null | grep -q ^scope global^ && break; sleep 1; done'',
        shl ''IPV6ADDRS=$(ip -o -6 addr show dev eth0 2>/dev/null | awk ^{print $4}^ | tr ^@n^ ^ ^)'',
        consoleSayCmd @ shl '' ~cnimbus: eth0 ipv6 addrs: ${IPV6ADDRS:-(none)}~'',
        shl ''IPV6GW=$(ip -6 route show default 2>/dev/null | head -n1)'',
        consoleSayCmd @ shl '' ~cnimbus: eth0 ipv6 default route: ${IPV6GW:-(none)}~'']
      else [])"

section \<open>WiFi bring-up\<close>

definition wifi_join :: "PiecesSpec \<Rightarrow> string list" where
  "wifi_join spec =
     [shl ''if [ -e /sys/class/net/wlan0 ]; then'',
      shl ''  ifconfig wlan0 up'',
      sh ''  /usr/sbin/wpa_supplicant -B -i wlan0 -c /usr/sbin/wpa_supplicant.conf -f '' @ shQuote wpaSupplicantLog @ shl '' 2>/dev/null'',
      shl ''  WIFI_N=0'',
      shl ''  WIFI_STATE=pending'',
      sh ''  while [ ~$WIFI_N~ -lt '' @ nat_dec wifiAssociateTimeoutSeconds @ shl '' ]; do'',
      sh ''    grep -q ^CTRL-EVENT-CONNECTED^ '' @ shQuote wpaSupplicantLog @ shl '' 2>/dev/null && { WIFI_STATE=connected; break; }'',
      sh ''    grep -qE ^CTRL-EVENT-SSID-TEMP-DISABLED|WRONG_KEY^ '' @ shQuote wpaSupplicantLog @ shl '' 2>/dev/null && { WIFI_STATE=rejected; break; }'',
      shl ''    sleep 1'',
      shl ''    WIFI_N=$((WIFI_N+1))'',
      shl ''  done'',
      shl ''  [ ~$WIFI_STATE~ = pending ] && WIFI_STATE=timeout'',
      shl ''  case ~$WIFI_STATE~ in'',
      sh ''    connected) echo '' @ shQuote (''cnimbus: wifi: associated with SSID '' @ ps_WifiSSID spec) @ shl '';;'',
      sh ''    rejected) echo '' @ shQuote (''cnimbus: wifi: authentication rejected for SSID '' @ ps_WifiSSID spec @ '' -- check WIFIPSK'') @ shl '';;'',
      sh ''    *) echo '' @ shQuote (''cnimbus: wifi: no association with SSID '' @ ps_WifiSSID spec @ '' within '' @
        nat_dec wifiAssociateTimeoutSeconds @ ''s (no matching AP in range, or firmware missing -- check dmesg for request_firmware failures)'') @ shl '';;'',
      shl ''  esac'',
      shl ''  if [ ~$WIFI_STATE~ = connected ]; then'']"

definition wifi_address :: "PiecesSpec \<Rightarrow> string list" where
  "wifi_address spec =
     (case ps_StaticIP spec of
        Some ip \<Rightarrow>
          [sh ''    ifconfig wlan0 '' @ shQuote (sip_Address ip) @ sh '' netmask '' @ shQuote (sip_Netmask ip) @ shl '' up'',
           sh ''    route add default gw '' @ shQuote (sip_Gateway ip) @ shl '' dev wlan0'']
      | None \<Rightarrow> if ps_DHCP spec then [shl ''    udhcpc -i wlan0 -n -t 3 -T 1 -A 2 -s /sbin/udhcpc.script''] else [])"

definition buildWifiBringupScript :: "PiecesSpec \<Rightarrow> string list" where
  "buildWifiBringupScript spec =
     wifi_join spec @ wifi_address spec @
     [shl ''  fi'',
      shl ''else'',
      sh ''  echo '' @ shQuote (sh ''cnimbus: no wlan0 -- unsupported WiFi chipset for this HARDBOOT wifi/eth+wifi image (see F6.6^s curated chipset list)'') @ NL,
      shl ''fi'']"

definition rc_wifi :: "PiecesSpec \<Rightarrow> string list" where
  "rc_wifi spec =
     (if rootfs_hasWifiDriver (ps_BootProfile spec)
      then buildWifiBringupScript spec @ [writeUptimeCheckpoint ''wifi bringup done''] else [])"

definition rc_secondary_nics :: "bool \<Rightarrow> string list" where
  "rc_secondary_nics networked =
     (if networked then
       [shl ''for i in 1 2 3; do'',
        shl ''  [ -e /sys/class/net/eth$i ] && { ifconfig eth$i up; udhcpc -i eth$i -n -s /sbin/udhcpc-secondary.script & }'',
        shl ''done'']
      else [])"

section \<open>The other sections of rcS\<close>

definition rc_vga_addresses :: "PiecesSpec \<Rightarrow> string list" where
  "rc_vga_addresses spec =
     (if ps_VGA spec then
       [shl ''for fam in inet inet6; do'',
        shl ''  if [ ~$fam~ = inet6 ]; then'',
        shl ''    for i in 1 2 3 4 5; do ip -o -f inet6 addr show scope global 2>/dev/null | grep -q . && break; sleep 1; done'',
        shl ''  fi'',
        shl ''  ip -o -f ~$fam~ addr show scope global 2>/dev/null | while read -r _ iface _ addrpfx _; do'',
        shl ''    addr=~${addrpfx%%/*}~'',
        shl ''    [ ~$fam~ = inet6 ] && label=IPv6 || label=IPv4'',
        shl ''    /bin/sh /etc/cnimbus-say ~cnimbus: $label address: $addr ($iface)~'',
        shl ''  done'',
        shl ''done'']
      else [])"

definition rc_dns :: "PiecesSpec \<Rightarrow> string list" where
  "rc_dns spec =
     (if ps_DNS spec \<noteq> [] then
       shl '': > /etc/resolv.conf'' #
       map (\<lambda>s. sh ''echo '' @ shQuote (''nameserver '' @ s) @ shl '' >> /etc/resolv.conf'') (ps_DNS spec)
      else [])"

definition ntp_args :: "string list \<Rightarrow> string" where
  "ntp_args servers = concat (map (\<lambda>server. '' -p '' @ shQuote server) servers)"

definition rc_ntp :: "PiecesSpec \<Rightarrow> bool \<Rightarrow> string list" where
  "rc_ntp spec networked =
     (if networked \<and> ps_NTP spec \<noteq> [] \<and> ntpCanResolve spec then
       [sh ''timeout 3 ntpd -q -n'' @ ntp_args (ps_NTP spec) @ shl '' >/dev/null 2>&1'',
        sh ''(timeout 15 ntpd -q -n'' @ ntp_args (ps_NTP spec) @ shl '' >/dev/null 2>&1 &)'']
      else [])"

definition volume_fstype :: "Volume \<Rightarrow> string" where
  "volume_fstype v = (if vol_FSType v = [] then ''vfat'' else vol_FSType v)"

definition rc_volume :: "Volume \<Rightarrow> string list" where
  "rc_volume v =
     (let dev = shQuote (vol_Device v); mnt = shQuote (vol_Mountpoint v); fstype = volume_fstype v in
      [sh ''mkdir -p '' @ mnt @ NL,
       sh ''mount -t '' @ fstype @ sh '' -o nosuid,nodev '' @ dev @ sh '' '' @ mnt @ shl '' 2>/dev/null''] @
      (if vol_Required v then
        [sh ''if ! mountpoint -q '' @ mnt @ shl ''; then'',
         sh ''  /bin/sh /etc/cnimbus-say ~cnimbus: FATAL: required volume '' @ vol_Device v @ sh '' at '' @ vol_Mountpoint v @ sh '' ('' @ fstype @ sh '') did not mount -- is it attached, and pre-formatted as '' @ fstype @ shl ''?~'',
         shl ''  /bin/sh /etc/cnimbus-say ~cnimbus: halting boot -- no declared service will start~'',
         shl ''  while true; do sleep 3600; done'',
         shl ''fi'',
         sh ''/bin/sh /etc/cnimbus-say ~cnimbus: volume '' @ vol_Device v @ sh '' mounted at '' @ vol_Mountpoint v @ sh '' ('' @ fstype @ shl '')~'']
       else
        [sh ''mountpoint -q '' @ mnt @ sh '' && /bin/sh /etc/cnimbus-say ~cnimbus: volume '' @ vol_Device v @ sh '' mounted at '' @ vol_Mountpoint v @ sh '' ('' @ fstype @ sh '')~ || /bin/sh /etc/cnimbus-say ~cnimbus: could not mount '' @ vol_Device v @ sh '' at '' @ vol_Mountpoint v @ sh '' -- is it attached, and pre-formatted as '' @ fstype @ shl ''?~'']))"

definition rc_logging :: "PiecesSpec \<Rightarrow> string list" where
  "rc_logging spec =
     [shl ''LOGFILE=/dev/console''] @
     (case ps_Volumes spec of
        [] \<Rightarrow> []
      | v # _ \<Rightarrow> [sh ''mountpoint -q '' @ shQuote (vol_Mountpoint v) @ sh '' && LOGFILE='' @
                  shQuote (go_trim_right (vol_Mountpoint v) ''/'') @ shl ''/cnimbus.log'']) @
     [shl ''syslogd -O ~$LOGFILE~ -s 1024 -b 5'',
      shl ''klogd'']"

definition rc_acpi :: "string list" where
  "rc_acpi =
     [sh ''mount --bind /sbin/powerbtn.sh /'' @ acpiPowerHandlerPath @ sh '' 2>/dev/null || '' @ consoleSayCmd @ shl '' ~cnimbus: could not wire up ACPI power button handler~'',
      shl ''acpid -d &'']"

definition rc_firewall :: "string \<Rightarrow> string \<Rightarrow> string \<Rightarrow> string list \<Rightarrow> string list" where
  "rc_firewall directive tool script rules =
     (if rules \<noteq> [] then
       [sh ''if command -v '' @ tool @ shl '' >/dev/null 2>&1; then'',
        sh ''  IPTABLES_CMD='' @ tool @ NL,
        shl ''elif [ -x /usr/sbin/cnimbus-iptables ]; then'',
        sh ''  IPTABLES_CMD=~/usr/sbin/cnimbus-iptables '' @ tool @ shl ''~'',
        shl ''fi'',
        shl ''if [ -n ~$IPTABLES_CMD~ ]; then'',
        shl ''  export IPTABLES_CMD'',
        sh ''  sh '' @ script @ sh '' || /bin/sh /etc/cnimbus-say ~cnimbus: '' @ directive @ shl '' script exited non-zero -- see the failure logged above; the ruleset was flushed to accept-all, not left half-applied~'',
        shl ''else'',
        sh ''  /bin/sh /etc/cnimbus-say ~cnimbus: '' @ directive @ sh '' rules configured but no '' @ tool @ shl '' binary available -- COPY one in as a fallback~'',
        shl ''fi'']
      else [])"

definition buildRCScript_lines :: "PiecesSpec \<Rightarrow> string list" where
  "buildRCScript_lines spec =
     (let (address, networked0) = rc_address spec;
          networked = networked0 \<or> rootfs_hasWifiDriver (ps_BootProfile spec) in
      rc_mounts @ rc_hostname spec @ rc_nic_report spec @ address @ rc_ipv6_report networked0 @
      [writeUptimeCheckpoint ''eth0 network setup done''] @
      rc_wifi spec @ rc_secondary_nics networked @ rc_vga_addresses spec @ rc_dns spec @
      rc_ntp spec networked @ concat (map rc_volume (ps_Volumes spec)) @
      rc_logging spec @ rc_acpi @
      rc_firewall ''FIREWALL'' ''iptables'' ''/etc/init.d/firewall.sh'' (ps_Firewall spec) @
      rc_firewall ''FIREWALL6'' ''ip6tables'' ''/etc/init.d/firewall6.sh'' (ps_Firewall6 spec) @
      [writeUptimeCheckpoint ''rcS finished, services starting''])"

definition buildRCScript :: "PiecesSpec \<Rightarrow> string" where
  "buildRCScript spec = concat (buildRCScript_lines spec)"

section \<open>The udhcpc scripts\<close>

definition udhcpcScriptSecondary :: string where
  "udhcpcScriptSecondary = concat
    [shl ''#!/bin/sh'',
     shl ''[ ~$1~ = ~bound~ ] || [ ~$1~ = ~renew~ ] || exit 0'',
     shl ''ifconfig ~$interface~ ~$ip~ netmask ~$subnet~'']"

definition udhcpcScript :: string where
  "udhcpcScript = concat
    [shl ''#!/bin/sh'',
     shl ''[ ~$1~ = ~bound~ ] || [ ~$1~ = ~renew~ ] || exit 0'',
     shl ''ifconfig ~$interface~ ~$ip~ netmask ~$subnet~'',
     shl ''[ -n ~$mtu~ ] && ifconfig ~$interface~ mtu ~$mtu~'',
     shl ''if [ -n ~$router~ ]; then'',
     shl ''  while route del default gw 0.0.0.0 dev ~$interface~ 2>/dev/null; do :; done'',
     shl ''  for gw in $router; do route add default gw ~$gw~ dev ~$interface~; done'',
     shl ''fi'',
     shl ''if [ -n ~$staticroutes~ ]; then'',
     shl ''  set -- $staticroutes'',
     shl ''  while [ $# -ge 2 ]; do'',
     shl ''    route add -net ~$1~ gw ~$2~ dev ~$interface~'',
     shl ''    shift 2'',
     shl ''  done'',
     shl ''fi'',
     shl ''if [ -n ~$dns~ ]; then'',
     shl ''  : > /etc/resolv.conf'',
     shl ''  for d in $dns; do echo ~nameserver $d~ >> /etc/resolv.conf; done'',
     shl ''fi'']"

section \<open>Small configuration files\<close>

definition acpiPowerScript :: string where
  "acpiPowerScript = shl ''#!/bin/sh'' @ shl ''poweroff''"

definition buildAgentScript :: "RAgent \<Rightarrow> string" where
  "buildAgentScript a = concat (
     [shl ''#!/bin/sh''] @
     (if ra_Headers a \<noteq> [] then
       [sh ''export CNIMBUS_AGENT_HEADERS='' @
        shQuote (go_join (map (\<lambda>h. ah_Name h @ '': '' @ ah_Value h) (ra_Headers a)) NL) @ NL]
      else []) @
     [''exec /usr/bin/cnimbusagent http '' @ shQuote (ra_URL a) @ '' '' @ shQuote (ra_Interval a) @ NL])"

definition buildHostsFile :: "string \<Rightarrow> string" where
  "buildHostsFile hostname =
     ''127.0.0.1'' @ TAB @ ''localhost'' @ NL @ ''::1'' @ TAB @ ''localhost ip6-localhost ip6-loopback'' @ NL @
     (if hostname \<noteq> [] \<and> hostname \<noteq> ''localhost'' then ''127.0.1.1'' @ TAB @ hostname @ NL else [])"

definition buildPasswd :: "string \<Rightarrow> string" where
  "buildPasswd user =
     ''root:x:0:0:root:/:/bin/false'' @ NL @
     (if user \<noteq> [] then user @ '':x:1000:1000:'' @ user @ '':/:/bin/false'' @ NL else [])"

definition buildGroup :: "string \<Rightarrow> string" where
  "buildGroup user =
     ''root:x:0:'' @ NL @ (if user \<noteq> [] then user @ '':x:1000:'' @ NL else [])"

end
