(* ===== verification/Firewall.thy ===== *)
theory Firewall
  imports RC_Script
begin

text \<open>
  The firewall scripts (\<^verbatim>\<open>buildFirewallScript\<close> of internal/rootfs/build.go): the emitted text, and
  what running it does to the kernel's tables. The tool \<^verbatim>\<open>$IPTABLES_CMD\<close> is not part of the
  program; it is the parameter \<^verbatim>\<open>ipt\<close>, which maps a table state and the arguments of one call to the
  new state, or to nothing when the call fails.
\<close>

section \<open>The generated text\<close>

definition icmpv6NDPAutoRules :: "string list" where
  "icmpv6NDPAutoRules =
     [''-A INPUT -p icmpv6 --icmpv6-type destination-unreachable -j ACCEPT'',
      ''-A INPUT -p icmpv6 --icmpv6-type packet-too-big -j ACCEPT'',
      ''-A INPUT -p icmpv6 --icmpv6-type time-exceeded -j ACCEPT'',
      ''-A INPUT -p icmpv6 --icmpv6-type parameter-problem -j ACCEPT'',
      ''-A INPUT -p icmpv6 --icmpv6-type echo-request -j ACCEPT'',
      ''-A INPUT -p icmpv6 --icmpv6-type echo-reply -j ACCEPT'',
      ''-A INPUT -p icmpv6 --icmpv6-type router-solicitation -j ACCEPT'',
      ''-A INPUT -p icmpv6 --icmpv6-type router-advertisement -j ACCEPT'',
      ''-A INPUT -p icmpv6 --icmpv6-type neighbour-solicitation -j ACCEPT'',
      ''-A INPUT -p icmpv6 --icmpv6-type neighbour-advertisement -j ACCEPT'',
      ''-A INPUT -p icmpv6 --icmpv6-type redirect -j ACCEPT'']"

definition effectiveFirewallOnError :: "string \<Rightarrow> string" where
  "effectiveFirewallOnError onError = (if onError = ''closed'' then ''closed'' else ''open'')"

definition firewall_trap :: "string \<Rightarrow> string" where
  "firewall_trap onError =
     (if onError = ''closed'' then
        sh ''trap ^code=$?; if [ ~$code~ -ne 0 ]; then '' @
        sh ''/bin/sh /etc/cnimbus-say ~cnimbus: FIREWALL rule failed ($CNIMBUS_FAILED_RULE), flushing to a closed (reachable-by-nothing) fallback~; '' @
        sh ''$IPTABLES_CMD -F; '' @
        sh ''$IPTABLES_CMD -P INPUT DROP; $IPTABLES_CMD -P FORWARD DROP; $IPTABLES_CMD -P OUTPUT ACCEPT; '' @
        sh ''$IPTABLES_CMD -A INPUT -i lo -j ACCEPT; '' @
        sh ''$IPTABLES_CMD -A INPUT -m state --state ESTABLISHED,RELATED -j ACCEPT; '' @
        shl ''fi^ EXIT''
      else
        sh ''trap ^code=$?; if [ ~$code~ -ne 0 ]; then '' @
        sh ''/bin/sh /etc/cnimbus-say ~cnimbus: FIREWALL rule failed ($CNIMBUS_FAILED_RULE), flushing to a known-safe (accept-all) fallback~; '' @
        sh ''$IPTABLES_CMD -F; '' @
        sh ''$IPTABLES_CMD -P INPUT ACCEPT; $IPTABLES_CMD -P FORWARD ACCEPT; $IPTABLES_CMD -P OUTPUT ACCEPT; '' @
        shl ''fi^ EXIT'')"

definition firewall_auto_rules :: "bool \<Rightarrow> string list" where
  "firewall_auto_rules ipv6 =
     [''-A INPUT -i lo -j ACCEPT'', ''-A INPUT -m state --state ESTABLISHED,RELATED -j ACCEPT''] @
     (if ipv6 then icmpv6NDPAutoRules else [])"

definition firewall_rule_lines :: "string \<Rightarrow> string list" where
  "firewall_rule_lines r =
     [sh ''CNIMBUS_FAILED_RULE='' @ shQuote r @ NL, ''$IPTABLES_CMD '' @ r @ NL]"

definition buildFirewallScript :: "string list \<Rightarrow> string \<Rightarrow> bool \<Rightarrow> string" where
  "buildFirewallScript rules onError ipv6 = concat (
     [shl ''#!/bin/sh'',
      shl ''set -e'',
      firewall_trap onError,
      sh ''/bin/sh /etc/cnimbus-say ~cnimbus: firewall ('' @ (if ipv6 then ''IPv6'' else ''IPv4'') @
      sh '') fallback-on-error mode: '' @ shQuote (effectiveFirewallOnError onError) @ shl ''~''] @
     concat (map firewall_rule_lines (firewall_auto_rules ipv6 @ rules)))"

section \<open>Running it\<close>

text \<open>
  Under \<^verbatim>\<open>set -e\<close> the first call that fails ends the script; \<^verbatim>\<open>CNIMBUS_FAILED_RULE\<close> then holds
  its rule. The trap's calls are run one after the other, whatever each returns.
\<close>

fun fw_apply :: "('t \<Rightarrow> string \<Rightarrow> 't option) \<Rightarrow> 't \<Rightarrow> string list \<Rightarrow> 't \<times> string option" where
  "fw_apply ipt t [] = (t, None)"
| "fw_apply ipt t (r # rs) =
     (case ipt t r of None \<Rightarrow> (t, Some r) | Some t' \<Rightarrow> fw_apply ipt t' rs)"

definition fw_fallback :: "string \<Rightarrow> string list" where
  "fw_fallback onError =
     (if onError = ''closed''
      then [''-F'', ''-P INPUT DROP'', ''-P FORWARD DROP'', ''-P OUTPUT ACCEPT'',
            ''-A INPUT -i lo -j ACCEPT'', ''-A INPUT -m state --state ESTABLISHED,RELATED -j ACCEPT'']
      else [''-F'', ''-P INPUT ACCEPT'', ''-P FORWARD ACCEPT'', ''-P OUTPUT ACCEPT''])"

definition fw_each :: "('t \<Rightarrow> string \<Rightarrow> 't option) \<Rightarrow> 't \<Rightarrow> string list \<Rightarrow> 't" where
  "fw_each ipt t cmds = foldl (\<lambda>t c. case ipt t c of None \<Rightarrow> t | Some t' \<Rightarrow> t') t cmds"

definition fw_run ::
  "('t \<Rightarrow> string \<Rightarrow> 't option) \<Rightarrow> string list \<Rightarrow> string \<Rightarrow> bool \<Rightarrow> 't \<Rightarrow> 't \<times> string option" where
  "fw_run ipt rules onError ipv6 t =
     (case fw_apply ipt t (firewall_auto_rules ipv6 @ rules) of
        (t', None) \<Rightarrow> (t', None)
      | (t', Some r) \<Rightarrow> (fw_each ipt t' (fw_fallback onError), Some r))"

text \<open>The tool rcS picks: one on the PATH, else the bundled one, else whatever it picked last.\<close>

definition select_iptables :: "string \<Rightarrow> bool \<Rightarrow> bool \<Rightarrow> string \<Rightarrow> string" where
  "select_iptables tool on_path bundled prev =
     (if on_path then tool
      else if bundled then ''/usr/sbin/cnimbus-iptables '' @ tool
      else prev)"

definition rc_run_firewalls ::
  "string list \<Rightarrow> string list \<Rightarrow> bool \<Rightarrow> bool \<Rightarrow> bool \<Rightarrow> (string \<times> string) list" where
  "rc_run_firewalls rules rules6 has4 has6 bundled =
     (let cmd4 = (if rules \<noteq> [] then select_iptables ''iptables'' has4 bundled [] else []);
          cmd6 = (if rules6 \<noteq> [] then select_iptables ''ip6tables'' has6 bundled cmd4 else [])
      in (if rules \<noteq> [] \<and> cmd4 \<noteq> [] then [(cmd4, ''firewall.sh'')] else []) @
         (if rules6 \<noteq> [] \<and> cmd6 \<noteq> [] then [(cmd6, ''firewall6.sh'')] else []))"

section \<open>A table to run it on\<close>

text \<open>
  The documented behaviour of the calls the fallback makes, over the filter table's three
  policies and its rules in order; any other call may do anything, or fail.
\<close>

record fw_table =
  fw_input :: string
  fw_forward :: string
  fw_output :: string
  fw_rules :: "string list"

definition ipt_documented :: "(fw_table \<Rightarrow> string \<Rightarrow> fw_table option) \<Rightarrow> bool" where
  "ipt_documented ipt \<longleftrightarrow> (\<forall>t.
     ipt t ''-F'' = Some (t \<lparr> fw_rules := [] \<rparr>) \<and>
     (\<forall>p \<in> {''ACCEPT'', ''DROP''}.
        ipt t (''-P INPUT '' @ p) = Some (t \<lparr> fw_input := p \<rparr>) \<and>
        ipt t (''-P FORWARD '' @ p) = Some (t \<lparr> fw_forward := p \<rparr>) \<and>
        ipt t (''-P OUTPUT '' @ p) = Some (t \<lparr> fw_output := p \<rparr>)) \<and>
     (\<forall>r \<in> set (firewall_auto_rules False).
        ipt t r = Some (t \<lparr> fw_rules := fw_rules t @ [r] \<rparr>)))"

definition fw_open :: fw_table where
  "fw_open = \<lparr> fw_input = ''ACCEPT'', fw_forward = ''ACCEPT'', fw_output = ''ACCEPT'', fw_rules = [] \<rparr>"

definition fw_closed :: fw_table where
  "fw_closed = \<lparr> fw_input = ''DROP'', fw_forward = ''DROP'', fw_output = ''ACCEPT'',
                 fw_rules = firewall_auto_rules False \<rparr>"

lemma ipt_documentedD:
  assumes "ipt_documented ipt"
  shows "ipt t ''-F'' = Some (t \<lparr> fw_rules := [] \<rparr>)"
    and "ipt t ''-P INPUT ACCEPT'' = Some (t \<lparr> fw_input := ''ACCEPT'' \<rparr>)"
    and "ipt t ''-P INPUT DROP'' = Some (t \<lparr> fw_input := ''DROP'' \<rparr>)"
    and "ipt t ''-P FORWARD ACCEPT'' = Some (t \<lparr> fw_forward := ''ACCEPT'' \<rparr>)"
    and "ipt t ''-P FORWARD DROP'' = Some (t \<lparr> fw_forward := ''DROP'' \<rparr>)"
    and "ipt t ''-P OUTPUT ACCEPT'' = Some (t \<lparr> fw_output := ''ACCEPT'' \<rparr>)"
    and "ipt t ''-A INPUT -i lo -j ACCEPT'' =
         Some (t \<lparr> fw_rules := fw_rules t @ [''-A INPUT -i lo -j ACCEPT''] \<rparr>)"
    and "ipt t ''-A INPUT -m state --state ESTABLISHED,RELATED -j ACCEPT'' =
         Some (t \<lparr> fw_rules := fw_rules t @ [''-A INPUT -m state --state ESTABLISHED,RELATED -j ACCEPT''] \<rparr>)"
  using assms unfolding ipt_documented_def by (simp_all add: firewall_auto_rules_def)

lemma fw_fallback_result:
  "ipt_documented ipt \<Longrightarrow>
   fw_each ipt t (fw_fallback onError) = (if onError = ''closed'' then fw_closed else fw_open)"
  by (simp add: fw_each_def fw_fallback_def ipt_documentedD fw_open_def fw_closed_def
      firewall_auto_rules_def)

lemma fw_apply_None: "fw_apply ipt t rs = (u, None) \<Longrightarrow> foldl (\<lambda>m r. Option.bind m (\<lambda>x. ipt x r)) (Some t) rs = Some u"
  by (induction ipt t rs rule: fw_apply.induct) (auto split: option.splits)

lemma fw_apply_Some:
  "fw_apply ipt t rs = (u, Some r) \<Longrightarrow>
   \<exists>pre post. rs = pre @ r # post \<and> fw_apply ipt t pre = (u, None) \<and> ipt u r = None"
proof (induction ipt t rs rule: fw_apply.induct)
  case (1 ipt t)
  then show ?case by simp
next
  case (2 ipt t x xs)
  show ?case
  proof (cases "ipt t x")
    case None
    with 2(2) have "x = r" "t = u" by auto
    with None show ?thesis by (intro exI [of _ "[]"] exI [of _ xs]) auto
  next
    case (Some t')
    with 2 obtain pre post where "xs = pre @ r # post" "fw_apply ipt t' pre = (u, None)" "ipt u r = None"
      by fastforce
    with Some show ?thesis by (intro exI [of _ "x # pre"] exI [of _ post]) auto
  qed
qed

text \<open>
  Property C2. A firewall script never leaves a half-applied ruleset: either every call
  succeeded, the protective rules first and then the manifest's in their order, or a rule failed,
  the script names that rule, and the table is the fallback of the configured mode, the same
  whichever rule failed and whatever was in the table before.
\<close>

theorem firewall_all_or_fallback:
  assumes "ipt_documented ipt"
    and "fw_run ipt rules onError ipv6 t = (u, failed)"
  shows "case failed of
      None \<Rightarrow> foldl (\<lambda>m r. Option.bind m (\<lambda>x. ipt x r)) (Some t) (firewall_auto_rules ipv6 @ rules) = Some u
    | Some r \<Rightarrow> u = (if effectiveFirewallOnError onError = ''closed'' then fw_closed else fw_open) \<and>
        (\<exists>pre post v. firewall_auto_rules ipv6 @ rules = pre @ r # post \<and>
           fw_apply ipt t pre = (v, None) \<and> ipt v r = None)"
proof -
  obtain v f where run: "fw_apply ipt t (firewall_auto_rules ipv6 @ rules) = (v, f)"
    by (meson surj_pair)
  show ?thesis
  proof (cases f)
    case None
    with run assms(2) have "failed = None" "u = v" by (auto simp: fw_run_def)
    with fw_apply_None [OF run [unfolded None]] show ?thesis by (simp only: option.case)
  next
    case (Some r)
    with run assms have "failed = Some r" "u = (if onError = ''closed'' then fw_closed else fw_open)"
      by (auto simp: fw_run_def fw_fallback_result)
    with fw_apply_Some [OF run [unfolded Some]] show ?thesis
      by (auto simp: effectiveFirewallOnError_def)
  qed
qed

text \<open>A tool that implements the documented calls and appends any other \<^verbatim>\<open>-A\<close> rule but one.\<close>

definition ipt_example :: "fw_table \<Rightarrow> string \<Rightarrow> fw_table option" where
  "ipt_example t r =
     (if r = ''-F'' then Some (t \<lparr> fw_rules := [] \<rparr>)
      else if go_has_prefix r ''-P INPUT '' then Some (t \<lparr> fw_input := drop 9 r \<rparr>)
      else if go_has_prefix r ''-P FORWARD '' then Some (t \<lparr> fw_forward := drop 11 r \<rparr>)
      else if go_has_prefix r ''-P OUTPUT '' then Some (t \<lparr> fw_output := drop 10 r \<rparr>)
      else if r = ''-A NOWHERE'' then None
      else Some (t \<lparr> fw_rules := fw_rules t @ [r] \<rparr>))"

lemma ipt_example_documented: "ipt_documented ipt_example"
  by (simp add: ipt_documented_def ipt_example_def firewall_auto_rules_def)

theorem firewall_all_or_fallback_witness:
  "fst (fw_run ipt_example [''-P INPUT DROP'', ''-A NOWHERE''] ''closed'' False fw_open) = fw_closed"
proof -
  let ?res = "fw_run ipt_example [''-P INPUT DROP'', ''-A NOWHERE''] ''closed'' False fw_open"
  have failed: "snd ?res = Some ''-A NOWHERE''"
    by (simp add: fw_run_def fw_open_def firewall_auto_rules_def ipt_example_def)
  show ?thesis
    using firewall_all_or_fallback [OF ipt_example_documented surjective_pairing [of ?res]]
    unfolding failed by (simp add: effectiveFirewallOnError_def)
qed

text \<open>
  An IPv6 ruleset reaches an IPv6 tool whenever one exists: with \<^verbatim>\<open>ip6tables\<close> on the
  PATH or the bundled binary in place, rcS runs \<^verbatim>\<open>firewall6.sh\<close> with an \<^verbatim>\<open>ip6tables\<close> command and
  \<^verbatim>\<open>firewall.sh\<close> with an \<^verbatim>\<open>iptables\<close> one; the first block's choice does not leak.
\<close>

theorem firewalls_use_their_tool:
  assumes "has6 \<or> bundled"
  shows "((c, ''firewall6.sh'') \<in> set (rc_run_firewalls rules rules6 has4 has6 bundled) \<longleftrightarrow>
     (rules6 \<noteq> [] \<and> c = select_iptables ''ip6tables'' has6 bundled [])) \<and>
     ((d, ''firewall.sh'') \<in> set (rc_run_firewalls rules rules6 has4 has6 bundled) \<longleftrightarrow>
     (rules \<noteq> [] \<and> (has4 \<or> bundled) \<and> d = select_iptables ''iptables'' has4 bundled []))"
  using assms by (auto simp: rc_run_firewalls_def select_iptables_def Let_def)

theorem firewalls_use_their_tool_witness:
  "(''/usr/sbin/cnimbus-iptables ip6tables'', ''firewall6.sh'')
     \<in> set (rc_run_firewalls [''-A INPUT''] [''-A INPUT''] True False True)"
  using firewalls_use_their_tool [of False True] by (simp add: select_iptables_def)

text \<open>
  Without either, the choice of the first block does leak: an image that ships its
  own \<^verbatim>\<open>iptables\<close> but no \<^verbatim>\<open>ip6tables\<close> and no bundled binary runs \<^verbatim>\<open>firewall6.sh\<close> with
  \<^verbatim>\<open>iptables\<close>, so the IPv6 rules go to the IPv4 table and no missing tool is reported.
\<close>

theorem firewall6_runs_on_iptables:
  "(''iptables'', ''firewall6.sh'') \<in> set (rc_run_firewalls (r # rules) (r6 # rules6) True False False)"
  by (simp add: rc_run_firewalls_def select_iptables_def Let_def)

end
