(* ===== verification/Go_Path.thy ===== *)
theory Go_Path
  imports Go_Strings
begin

text \<open>
  Go's \<^verbatim>\<open>path/filepath\<close> on a system whose separator is the slash: \<^verbatim>\<open>Clean\<close>, \<^verbatim>\<open>Dir\<close>, \<^verbatim>\<open>Base\<close>,
  \<^verbatim>\<open>Join\<close>, \<^verbatim>\<open>IsAbs\<close>. Cleaning drops empty and dot components and lets a dot-dot remove the
  component before it.
\<close>

fun clean_comps :: "bool \<Rightarrow> string list \<Rightarrow> string list \<Rightarrow> string list" where
  "clean_comps rooted out [] = rev out"
| "clean_comps rooted out (c # cs) =
     (if c = [] \<or> c = ''.'' then clean_comps rooted out cs
      else if c = ''..'' then
        (case out of
           [] \<Rightarrow> clean_comps rooted (if rooted then [] else [c]) cs
         | o1 # os \<Rightarrow> if o1 = ''..'' then clean_comps rooted (c # out) cs else clean_comps rooted os cs)
      else clean_comps rooted (c # out) cs)"

definition path_rooted :: "string \<Rightarrow> bool" where
  "path_rooted p \<longleftrightarrow> go_has_prefix p ''/''"

definition go_clean :: "string \<Rightarrow> string" where
  "go_clean p =
     (let cs = clean_comps (path_rooted p) [] (go_split (CHR ''/'') p)
      in if path_rooted p then CHR ''/'' # go_join cs ''/''
         else if cs = [] then ''.'' else go_join cs ''/'')"

definition go_dir :: "string \<Rightarrow> string" where
  "go_dir p = go_clean (rev (dropWhile (\<lambda>c. c \<noteq> CHR ''/'') (rev p)))"

definition go_base :: "string \<Rightarrow> string" where
  "go_base p =
     (if p = [] then ''.''
      else let q = rev (dropWhile (\<lambda>c. c = CHR ''/'') (rev p));
               b = rev (takeWhile (\<lambda>c. c \<noteq> CHR ''/'') (rev q))
           in if b = [] then ''/'' else b)"

definition go_path_join :: "string list \<Rightarrow> string" where
  "go_path_join ps =
     (case filter (\<lambda>p. p \<noteq> []) ps of [] \<Rightarrow> [] | qs \<Rightarrow> go_clean (go_join qs ''/''))"

lemma path_rooted_Nil [simp]: "\<not> path_rooted []"
  by (simp add: path_rooted_def go_has_prefix_def)

lemma path_rooted_Cons [simp]: "path_rooted (c # cs) \<longleftrightarrow> c = CHR ''/''"
  by (auto simp: path_rooted_def)

section \<open>Lengths\<close>

definition joined_length :: "string list \<Rightarrow> nat" where
  "joined_length cs = sum_list (map (\<lambda>c. Suc (length c)) cs)"

lemma joined_length_simps [simp]:
  "joined_length [] = 0"
  "joined_length (c # cs) = Suc (length c) + joined_length cs"
  "joined_length (xs @ ys) = joined_length xs + joined_length ys"
  by (simp_all add: joined_length_def)

lemma joined_length_rev [simp]: "joined_length (rev cs) = joined_length cs"
  by (induction cs) auto

lemma length_go_join: "cs \<noteq> [] \<Longrightarrow> Suc (length (go_join cs [c])) = joined_length cs"
  by (induction cs "[c]" rule: go_join.induct) auto

lemma clean_comps_length: "joined_length (clean_comps r out cs) \<le> joined_length out + joined_length cs"
proof (induction r out cs rule: clean_comps.induct)
  case (1 rooted out)
  then show ?case by simp
next
  case (2 rooted out c cs)
  then show ?case by (auto split: list.splits)
qed

lemma clean_comps_empty_end: "clean_comps r out (cs @ [[]]) = clean_comps r out cs"
  by (induction r out cs rule: clean_comps.induct) (auto split: list.splits)

lemma go_split_snoc: "go_split c (s @ [c]) = go_split c s @ [[]]"
  by (induction s) (auto split: list.splits)

lemma go_clean_slash_length:
  assumes "\<not> path_rooted s" and "s \<noteq> []"
  shows "length (go_clean (s @ ''/'')) \<le> length s"
proof -
  let ?cs = "clean_comps False [] (go_split (CHR ''/'') s)"
  have unrooted: "\<not> path_rooted (s @ ''/'')"
    using assms by (cases s) (auto simp: path_rooted_def go_has_prefix_def)
  have "joined_length (go_split (CHR ''/'') s) = Suc (length s)"
    using length_go_join [of "go_split (CHR ''/'') s" "CHR ''/''"] by (simp add: go_join_split)
  with clean_comps_length [of False "[]" "go_split (CHR ''/'') s"]
  have le: "joined_length ?cs \<le> Suc (length s)" by simp
  have eq: "go_clean (s @ ''/'') = (if ?cs = [] then ''.'' else go_join ?cs ''/'')"
    using unrooted by (simp add: go_clean_def go_split_snoc clean_comps_empty_end Let_def)
  show ?thesis
  proof (cases "?cs = []")
    case True
    then have "go_clean (s @ ''/'') = ''.''" using eq by simp
    with assms(2) show ?thesis by (cases s) simp_all
  next
    case False
    then have "go_clean (s @ ''/'') = go_join ?cs ''/''" using eq by simp
    with length_go_join [OF False, of "CHR ''/''"] le show ?thesis by simp
  qed
qed

text \<open>The directory of a relative path is shorter than the path, or the dot.\<close>

lemma go_dir_shorter:
  assumes "\<not> path_rooted p" and "p \<noteq> []"
  shows "go_dir p = ''.'' \<or> length (go_dir p) < length p"
proof (cases "CHR ''/'' \<in> set p")
  case False
  then have "dropWhile (\<lambda>c. c \<noteq> CHR ''/'') (rev p) = []" by (auto simp: dropWhile_eq_Nil_conv)
  then have "go_dir p = go_clean []" by (simp only: go_dir_def rev.simps)
  then show ?thesis by (simp add: go_clean_def path_rooted_def go_has_prefix_def)
next
  case True
  then obtain a b where p: "p = a @ CHR ''/'' # b" and b: "CHR ''/'' \<notin> set b"
    by (meson split_list_last)
  have "dropWhile (\<lambda>c. c \<noteq> CHR ''/'') (rev b @ CHR ''/'' # rev a) = dropWhile (\<lambda>c. c \<noteq> CHR ''/'') (CHR ''/'' # rev a)"
    using b by (intro dropWhile_append2) auto
  then have "dropWhile (\<lambda>c. c \<noteq> CHR ''/'') (rev p) = CHR ''/'' # rev a" by (simp add: p)
  then have dir: "go_dir p = go_clean (a @ ''/'')" by (simp add: go_dir_def)
  have "a \<noteq> []" and "\<not> path_rooted a"
    using assms p by (cases a; auto simp: path_rooted_def go_has_prefix_def)+
  from go_clean_slash_length [OF this(2) this(1)] p dir show ?thesis by simp
qed

section \<open>Joining a file name\<close>

definition plain_name :: "string \<Rightarrow> bool" where
  "plain_name n \<longleftrightarrow> n \<noteq> [] \<and> CHR ''/'' \<notin> set n \<and> n \<noteq> ''.'' \<and> n \<noteq> ''..''"

text \<open>What stands before the name in a joined path.\<close>

definition join_prefix :: "string \<Rightarrow> string" where
  "join_prefix dir =
     (if dir = [] then []
      else let ds = clean_comps (path_rooted dir) [] (go_split (CHR ''/'') dir)
           in (if path_rooted dir then ''/'' else []) @ (if ds = [] then [] else go_join ds ''/'' @ ''/''))"

lemma clean_comps_snoc:
  "n \<noteq> [] \<Longrightarrow> n \<noteq> ''.'' \<Longrightarrow> n \<noteq> ''..'' \<Longrightarrow> clean_comps r out (cs @ [n]) = clean_comps r out cs @ [n]"
  by (induction r out cs rule: clean_comps.induct) (auto split: list.splits)

lemma go_split_snoc_name: "c \<notin> set n \<Longrightarrow> go_split c (s @ c # n) = go_split c s @ [n]"
  by (induction s) (auto simp: go_split_id split: list.splits)

lemma go_join_snoc: "go_join (ds @ [n]) sep = (if ds = [] then n else go_join ds sep @ sep @ n)"
  by (induction ds sep rule: go_join.induct) auto

lemma go_path_join_plain:
  assumes "plain_name n"
  shows "go_path_join [dir, n] = join_prefix dir @ n"
proof (cases "dir = []")
  case True
  from assms have "n \<noteq> []" "n \<noteq> ''.''" "n \<noteq> ''..''" "CHR ''/'' \<notin> set n" by (auto simp: plain_name_def)
  moreover from this have "\<not> path_rooted n" by (cases n) auto
  ultimately show ?thesis
    using True by (simp add: go_path_join_def go_clean_def join_prefix_def go_split_id Let_def)
next
  case False
  from assms have n: "n \<noteq> []" "n \<noteq> ''.''" "n \<noteq> ''..''" "CHR ''/'' \<notin> set n" by (auto simp: plain_name_def)
  have "path_rooted (dir @ CHR ''/'' # n) = path_rooted dir" using False by (cases dir) auto
  with False n show ?thesis
    by (simp add: go_path_join_def go_clean_def join_prefix_def Let_def go_split_snoc_name clean_comps_snoc go_join_snoc)
qed

lemma go_path_join_inj: "plain_name n \<Longrightarrow> plain_name m \<Longrightarrow> go_path_join [dir, n] = go_path_join [dir, m] \<longleftrightarrow> n = m"
  by (simp add: go_path_join_plain)

end
