(* ===== verification/File_Tree.thy ===== *)
theory File_Tree
  imports Rootfs_Types Go_Path
begin

text \<open>
  The tree a cpio archive is rendered from (internal/rootfs/tree.go): entries in the order they
  are emitted and the set of paths already there. A path added twice keeps its first entry.
\<close>

datatype entryKind = entryDir | entryFile | entrySymlink

record treeEntry =
  te_path :: string
  te_kind :: entryKind
  te_perm :: nat
  te_data :: string
  te_linkTarget :: string

record fileTree =
  ft_entries :: "treeEntry list"
  ft_seen :: "string set"

definition newFileTree :: fileTree where
  "newFileTree = \<lparr> ft_entries = [], ft_seen = {} \<rparr>"

definition cleanPath :: "string \<Rightarrow> string" where
  "cleanPath p = (let q = dropWhile (\<lambda>c. c = CHR ''/'') p in if q = ''.'' then [] else q)"

definition tree_append :: "treeEntry \<Rightarrow> fileTree \<Rightarrow> fileTree" where
  "tree_append e t = \<lparr> ft_entries = ft_entries t @ [e], ft_seen = insert (te_path e) (ft_seen t) \<rparr>"

lemma cleanPath_length: "length (cleanPath p) \<le> length p"
  by (simp add: cleanPath_def Let_def length_dropWhile_le)

lemma cleanPath_unrooted: "\<not> path_rooted (cleanPath p)"
proof -
  let ?q = "dropWhile (\<lambda>c. c = CHR ''/'') p"
  have "?q = [] \<or> hd ?q \<noteq> CHR ''/''" using hd_dropWhile by blast
  then have "\<not> path_rooted ?q"
    by (metis list.sel(1) neq_Nil_conv path_rooted_Cons path_rooted_Nil)
  then show ?thesis by (simp add: cleanPath_def Let_def)
qed

lemma cleanPath_dir_shorter: "cleanPath p \<noteq> [] \<Longrightarrow> length (cleanPath (go_dir (cleanPath p))) < length (cleanPath p)"
  using go_dir_shorter [OF cleanPath_unrooted, of p] cleanPath_length [of "go_dir (cleanPath p)"]
  by (auto simp: cleanPath_def [of "''.''"])

function addDir :: "string \<Rightarrow> fileTree \<Rightarrow> fileTree" where
  "addDir path0 t =
     (let path = cleanPath path0 in
      if path = [] \<or> path \<in> ft_seen t then t
      else tree_append \<lparr> te_path = path, te_kind = entryDir, te_perm = 0, te_data = [], te_linkTarget = [] \<rparr>
             (addDir (go_dir path) t))"
  by pat_completeness auto
termination
proof (relation "measure (\<lambda>(p, _). length (cleanPath p))")
  fix path0 :: string and t :: fileTree and x
  assume "x = cleanPath path0" "\<not> (x = [] \<or> x \<in> ft_seen t)"
  then show "((go_dir x, t), path0, t) \<in> measure (\<lambda>(p, _). length (cleanPath p))"
    by (simp add: cleanPath_dir_shorter)
qed simp

declare addDir.simps [simp del]

definition addFile :: "string \<Rightarrow> nat \<Rightarrow> string \<Rightarrow> fileTree \<Rightarrow> fileTree" where
  "addFile path0 perm data t =
     (let path = cleanPath path0; t' = addDir (go_dir path) t in
      if path \<in> ft_seen t' then t'
      else tree_append \<lparr> te_path = path, te_kind = entryFile, te_perm = perm, te_data = data, te_linkTarget = [] \<rparr> t')"

definition addSymlink :: "string \<Rightarrow> string \<Rightarrow> fileTree \<Rightarrow> fileTree" where
  "addSymlink path0 target t =
     (let path = cleanPath path0; t' = addDir (go_dir path) t in
      if path \<in> ft_seen t' then t'
      else tree_append \<lparr> te_path = path, te_kind = entrySymlink, te_perm = 0, te_data = [], te_linkTarget = target \<rparr> t')"

section \<open>The invariant\<close>

text \<open>
  No path twice, the set is the set of the entries' paths, and every entry's directory has an
  entry before it: the kernel's unpacker rejects an archive without that.
\<close>

definition parents_first :: "treeEntry list \<Rightarrow> bool" where
  "parents_first es \<longleftrightarrow> (\<forall>pre e post. es = pre @ e # post \<longrightarrow>
     (let d = cleanPath (go_dir (te_path e)) in d = [] \<or> d \<in> te_path ` set pre))"

definition tree_ok :: "fileTree \<Rightarrow> bool" where
  "tree_ok t \<longleftrightarrow> distinct (map te_path (ft_entries t)) \<and>
     ft_seen t = te_path ` set (ft_entries t) \<and> parents_first (ft_entries t)"

lemma parents_first_snoc:
  "parents_first es \<Longrightarrow> cleanPath (go_dir (te_path e)) = [] \<or> cleanPath (go_dir (te_path e)) \<in> te_path ` set es \<Longrightarrow>
   parents_first (es @ [e])"
  unfolding parents_first_def Let_def
  by (auto simp: append_eq_Cons_conv append_eq_append_conv2 Cons_eq_append_conv)

lemma tree_ok_new [simp]: "tree_ok newFileTree"
  by (simp add: tree_ok_def newFileTree_def parents_first_def)

lemma tree_ok_append:
  "tree_ok t \<Longrightarrow> te_path e \<notin> ft_seen t \<Longrightarrow>
   cleanPath (go_dir (te_path e)) = [] \<or> cleanPath (go_dir (te_path e)) \<in> ft_seen t \<Longrightarrow>
   tree_ok (tree_append e t)"
  by (auto simp: tree_ok_def tree_append_def intro: parents_first_snoc)

text \<open>Entries are only ever appended.\<close>

definition tree_extends :: "fileTree \<Rightarrow> fileTree \<Rightarrow> bool" where
  "tree_extends t u \<longleftrightarrow> (\<exists>es. ft_entries u = ft_entries t @ es) \<and> ft_seen t \<subseteq> ft_seen u"

lemma tree_extends_refl [simp]: "tree_extends t t"
  by (simp add: tree_extends_def)

lemma tree_extends_append: "tree_extends t u \<Longrightarrow> tree_extends t (tree_append e u)"
  by (auto simp: tree_extends_def tree_append_def)

lemma tree_extends_trans: "tree_extends t u \<Longrightarrow> tree_extends u v \<Longrightarrow> tree_extends t v"
  by (fastforce simp: tree_extends_def)

lemma addDir_props:
  "tree_ok t \<Longrightarrow>
   tree_ok (addDir p t) \<and> tree_extends t (addDir p t) \<and>
   (cleanPath p = [] \<or> cleanPath p \<in> ft_seen (addDir p t)) \<and>
   (\<forall>q \<in> ft_seen (addDir p t) - ft_seen t. length q \<le> length (cleanPath p))"
proof (induction p t rule: addDir.induct)
  case (1 path0 t)
  let ?path = "cleanPath path0"
  let ?parent = "addDir (go_dir ?path) t"
  show ?case
  proof (cases "?path = [] \<or> ?path \<in> ft_seen t")
    case True
    with 1(2) show ?thesis by (subst (1 2 3 4) addDir.simps) auto
  next
    case False
    with 1 have IH: "tree_ok ?parent" "tree_extends t ?parent"
      "cleanPath (go_dir ?path) = [] \<or> cleanPath (go_dir ?path) \<in> ft_seen ?parent"
      "\<forall>q \<in> ft_seen ?parent - ft_seen t. length q \<le> length (cleanPath (go_dir ?path))"
      by auto
    have shorter: "length (cleanPath (go_dir ?path)) < length ?path"
      using False by (simp add: cleanPath_dir_shorter)
    with IH(4) False have fresh: "?path \<notin> ft_seen ?parent" by (meson DiffI leD)
    let ?e = "\<lparr> te_path = ?path, te_kind = entryDir, te_perm = 0, te_data = [], te_linkTarget = [] \<rparr>"
    have eq: "addDir path0 t = tree_append ?e ?parent"
      using False by (subst addDir.simps) (simp add: Let_def)
    have "tree_ok (tree_append ?e ?parent)"
      using IH fresh by (intro tree_ok_append) auto
    moreover have "tree_extends t (tree_append ?e ?parent)"
      using IH by (simp add: tree_extends_append)
    moreover have "\<forall>q \<in> ft_seen (tree_append ?e ?parent) - ft_seen t. length q \<le> length ?path"
    proof
      fix q
      assume "q \<in> ft_seen (tree_append ?e ?parent) - ft_seen t"
      then have "q = ?path \<or> q \<in> ft_seen ?parent - ft_seen t" by (auto simp: tree_append_def)
      with IH(4) shorter show "length q \<le> length ?path" by (metis le_trans less_imp_le order_refl)
    qed
    ultimately show ?thesis
      unfolding eq by (simp add: tree_append_def)
  qed
qed

lemma add_entry_props:
  assumes "tree_ok t" and path: "te_path e = cleanPath p"
    and u: "u = (let t' = addDir (go_dir (cleanPath p)) t in
       if cleanPath p \<in> ft_seen t' then t' else tree_append e t')"
  shows "tree_ok u \<and> tree_extends t u \<and> cleanPath p \<in> ft_seen u"
proof -
  let ?t = "addDir (go_dir (cleanPath p)) t"
  have parent: "tree_ok ?t" "tree_extends t ?t"
    "cleanPath (go_dir (cleanPath p)) = [] \<or> cleanPath (go_dir (cleanPath p)) \<in> ft_seen ?t"
    using addDir_props [OF assms(1)] by blast+
  show ?thesis
  proof (cases "cleanPath p \<in> ft_seen ?t")
    case True
    with parent u show ?thesis by simp
  next
    case False
    with parent path have "tree_ok (tree_append e ?t)" by (intro tree_ok_append) auto
    with False parent path u show ?thesis
      by (simp add: tree_extends_append) (simp add: tree_append_def)
  qed
qed

lemma addFile_props:
  "tree_ok t \<Longrightarrow> tree_ok (addFile p perm data t) \<and> tree_extends t (addFile p perm data t) \<and>
   cleanPath p \<in> ft_seen (addFile p perm data t)"
  by (rule add_entry_props) (auto simp: addFile_def Let_def)

lemma addSymlink_props:
  "tree_ok t \<Longrightarrow> tree_ok (addSymlink p target t) \<and> tree_extends t (addSymlink p target t) \<and>
   cleanPath p \<in> ft_seen (addSymlink p target t)"
  by (rule add_entry_props) (auto simp: addSymlink_def Let_def)

text \<open>What is there keeps its first entry; what is new gets the one asked for.\<close>

definition tree_lookup :: "fileTree \<Rightarrow> string \<Rightarrow> treeEntry option" where
  "tree_lookup t p = find (\<lambda>e. te_path e = p) (ft_entries t)"

lemma find_append: "find P (xs @ ys) = (case find P xs of None \<Rightarrow> find P ys | Some x \<Rightarrow> Some x)"
  by (induction xs) auto

lemma tree_lookup_extends:
  "tree_extends t u \<Longrightarrow> tree_lookup t p = Some e \<Longrightarrow> tree_lookup u p = Some e"
  by (auto simp: tree_extends_def tree_lookup_def find_append)

lemma tree_lookup_None_iff: "tree_ok t \<Longrightarrow> tree_lookup t p = None \<longleftrightarrow> p \<notin> ft_seen t"
  by (auto simp: tree_ok_def tree_lookup_def find_None_iff)

end
