(* ===== verification/Cpio.thy ===== *)
theory Cpio
  imports File_Tree
begin

unbundle bit_operations_syntax

text \<open>
  The newc cpio writer (internal/rootfs/cpio.go) and a reference reader for the format: the
  reader of the kernel's initramfs unpacker, field by field. The two form a codec, so an archive
  is read back as exactly the entries written.
\<close>

section \<open>The writer\<close>

text \<open>\<^verbatim>\<open>%08x\<close>: lower-case hexadecimal, at least eight digits.\<close>

fun hex_fixed :: "nat \<Rightarrow> nat \<Rightarrow> string" where
  "hex_fixed 0 n = []"
| "hex_fixed (Suc w) n = hex_fixed w (n div 16) @ [hex_digit (n mod 16)]"

fun nat_hex :: "nat \<Rightarrow> string" where
  "nat_hex n = (if n < 16 then [hex_digit n] else nat_hex (n div 16) @ [hex_digit (n mod 16)])"

declare nat_hex.simps [simp del]

definition fmt_08x :: "nat \<Rightarrow> string" where
  "fmt_08x n = (if n < 2 ^ 32 then hex_fixed 8 n else nat_hex n)"

definition modeDir :: nat where "modeDir = 16384"
definition modeReg :: nat where "modeReg = 32768"
definition modeSymlink :: nat where "modeSymlink = 40960"

definition cpio_pad :: "nat \<Rightarrow> string" where
  "cpio_pad n = (if n mod 4 \<noteq> 0 then replicate (4 - n mod 4) (CHR 0x00) else [])"

definition cpio_header :: "nat \<Rightarrow> nat \<Rightarrow> nat \<Rightarrow> nat \<Rightarrow> string" where
  "cpio_header ino mode filesize namesize =
     ''070701'' @ fmt_08x ino @ fmt_08x mode @ fmt_08x 0 @ fmt_08x 0 @ fmt_08x 1 @ fmt_08x 0 @
     fmt_08x filesize @ fmt_08x 0 @ fmt_08x 0 @ fmt_08x 0 @ fmt_08x 0 @ fmt_08x namesize @ fmt_08x 0"

text \<open>
  The writer's counter is a uint32 that is incremented before each entry; an entry is the header,
  the name with its NUL, padding, the data, padding.
\<close>

definition cpio_entry :: "nat \<Rightarrow> string \<Rightarrow> nat \<Rightarrow> string \<Rightarrow> string" where
  "cpio_entry ino name mode data =
     (let header = cpio_header ino mode (length data) (length name + 1)
      in header @ name @ [CHR 0x00] @ cpio_pad (length header + length name + 1) @
         data @ cpio_pad (length data))"

definition writeEntry :: "nat \<times> string \<Rightarrow> string \<Rightarrow> nat \<Rightarrow> string \<Rightarrow> nat \<times> string" where
  "writeEntry w name mode data =
     (let ino = (fst w + 1) mod 2 ^ 32 in (ino, snd w @ cpio_entry ino name mode data))"

definition entry_mode :: "treeEntry \<Rightarrow> nat" where
  "entry_mode e = (case te_kind e of
      entryDir \<Rightarrow> modeDir OR 493
    | entryFile \<Rightarrow> modeReg OR te_perm e
    | entrySymlink \<Rightarrow> modeSymlink OR 511)"

definition entry_data :: "treeEntry \<Rightarrow> string" where
  "entry_data e = (if te_kind e = entrySymlink then te_linkTarget e else te_data e)"

definition buildCPIO :: "fileTree \<Rightarrow> string" where
  "buildCPIO tree =
     (let w = foldl (\<lambda>w e. writeEntry w (te_path e) (entry_mode e) (entry_data e)) (1, []) (ft_entries tree)
      in snd (writeEntry w ''TRAILER!!!'' 0 []))"

section \<open>A reference reader\<close>

definition read_hex8 :: "string \<Rightarrow> (nat \<times> string) option" where
  "read_hex8 bs =
     (if length bs < 8 \<or> \<not> list_all is_hex (take 8 bs) then None
      else Some (digits_val 16 (take 8 bs), drop 8 bs))"

fun read_fields :: "nat \<Rightarrow> string \<Rightarrow> (nat list \<times> string) option" where
  "read_fields 0 bs = Some ([], bs)"
| "read_fields (Suc k) bs =
     (case read_hex8 bs of None \<Rightarrow> None
      | Some (v, r) \<Rightarrow> (case read_fields k r of None \<Rightarrow> None | Some (vs, r') \<Rightarrow> Some (v # vs, r')))"

definition read_bytes :: "nat \<Rightarrow> string \<Rightarrow> (string \<times> string) option" where
  "read_bytes n bs = (if length bs < n then None else Some (take n bs, drop n bs))"

definition pad4 :: "nat \<Rightarrow> nat" where
  "pad4 n = (4 - n mod 4) mod 4"

text \<open>One entry: inode number, name, mode and data.\<close>

definition cpio_read :: "string \<Rightarrow> ((nat \<times> string \<times> nat \<times> string) \<times> string) option" where
  "cpio_read bs =
     (case read_bytes 6 bs of None \<Rightarrow> None | Some (magic, b1) \<Rightarrow>
      if magic \<noteq> ''070701'' then None else
      case read_fields 13 b1 of None \<Rightarrow> None | Some (fs, b2) \<Rightarrow>
      let namesize = fs ! 11; filesize = fs ! 6 in
      case read_bytes namesize b2 of None \<Rightarrow> None | Some (name0, b3) \<Rightarrow>
      if name0 = [] \<or> last name0 \<noteq> CHR 0x00 then None else
      case read_bytes (pad4 (110 + namesize)) b3 of None \<Rightarrow> None | Some (_, b4) \<Rightarrow>
      case read_bytes filesize b4 of None \<Rightarrow> None | Some (data, b5) \<Rightarrow>
      case read_bytes (pad4 filesize) b5 of None \<Rightarrow> None | Some (_, b6) \<Rightarrow>
      Some ((fs ! 0, butlast name0, fs ! 1, data), b6))"

section \<open>Fixed-width hexadecimal is a codec\<close>

lemma length_hex_fixed [simp]: "length (hex_fixed w n) = w"
  by (induction w arbitrary: n) auto

lemma hex_fixed_is_hex: "list_all is_hex (hex_fixed w n)"
  by (induction w arbitrary: n) (auto simp: hex_digit_val)

lemma hex_fixed_val: "n < 16 ^ w \<Longrightarrow> digits_val 16 (hex_fixed w n) = n"
proof (induction w arbitrary: n)
  case 0
  then show ?case by (simp add: digits_val_def)
next
  case (Suc w)
  then have "n div 16 < 16 ^ w" by (simp add: less_mult_imp_div_less mult.commute)
  with Suc.IH [OF this] show ?case by (simp add: digits_val_append hex_digit_val)
qed

lemma fmt_08x_length: "n < 2 ^ 32 \<Longrightarrow> length (fmt_08x n) = 8"
  by (simp add: fmt_08x_def)

interpretation hex8: prefix_codec fmt_08x read_hex8 "\<lambda>n. n < 2 ^ 32"
proof (unfold_locales)
  fix n :: nat and rest :: string
  assume n: "n < 2 ^ 32"
  then have "n < 16 ^ 8" by simp
  with n show "read_hex8 (fmt_08x n @ rest) = Some (n, rest)"
    by (simp add: read_hex8_def fmt_08x_def hex_fixed_is_hex hex_fixed_val)
qed

lemma read_fields_dec_n: "read_fields k bs = hex8.dec_n k bs"
  by (induction k arbitrary: bs) (auto split: option.splits)

lemma read_fields_concat:
  "(\<And>x. x \<in> set xs \<Longrightarrow> x < 2 ^ 32) \<Longrightarrow> k = length xs \<Longrightarrow>
   read_fields k (concat (map fmt_08x xs) @ rest) = Some (xs, rest)"
  using hex8.dec_n_concat [of xs rest] by (simp add: read_fields_dec_n)

section \<open>Entries are a codec\<close>

lemma read_bytes_append: "n = length a \<Longrightarrow> read_bytes n (a @ b) = Some (a, b)"
  by (simp add: read_bytes_def)

lemma cpio_pad_length: "length (cpio_pad n) = pad4 n"
proof -
  have "n mod 4 < 4" by simp
  then have "n mod 4 = 0 \<or> n mod 4 = 1 \<or> n mod 4 = 2 \<or> n mod 4 = 3" by linarith
  then show ?thesis by (auto simp: cpio_pad_def pad4_def)
qed

definition header_fields :: "nat \<Rightarrow> nat \<Rightarrow> nat \<Rightarrow> nat \<Rightarrow> nat list" where
  "header_fields ino mode filesize namesize = [ino, mode, 0, 0, 1, 0, filesize, 0, 0, 0, 0, namesize, 0]"

lemma cpio_header_fields:
  "cpio_header ino mode filesize namesize =
   ''070701'' @ concat (map fmt_08x (header_fields ino mode filesize namesize))"
  by (simp add: cpio_header_def header_fields_def)

definition entry_fits :: "nat \<times> string \<times> nat \<times> string \<Rightarrow> bool" where
  "entry_fits = (\<lambda>(ino, name, mode, data).
     ino < 2 ^ 32 \<and> mode < 2 ^ 32 \<and> length data < 2 ^ 32 \<and> length name + 1 < 2 ^ 32)"

lemma cpio_header_length:
  "entry_fits (ino, name, mode, data) \<Longrightarrow>
   length (cpio_header ino mode (length data) (length name + 1)) = 110"
  by (simp add: cpio_header_def entry_fits_def fmt_08x_length)

lemma cpio_read_entry:
  assumes "entry_fits (ino, name, mode, data)"
  shows "cpio_read (cpio_entry ino name mode data @ rest) = Some ((ino, name, mode, data), rest)"
proof -
  let ?fs = "header_fields ino mode (length data) (length name + 1)"
  let ?tail = "name @ [CHR 0x00] @ cpio_pad (110 + (length name + 1)) @ data @ cpio_pad (length data) @ rest"
  have entry: "cpio_entry ino name mode data @ rest = ''070701'' @ concat (map fmt_08x ?fs) @ ?tail"
    using cpio_header_length [OF assms]
    by (simp add: cpio_entry_def Let_def cpio_header_fields [symmetric] del: One_nat_def)
       (simp add: cpio_header_fields)
  have small: "\<And>x. x \<in> set ?fs \<Longrightarrow> x < 2 ^ 32"
    using assms by (auto simp: entry_fits_def header_fields_def)
  have fields: "read_fields 13 (concat (map fmt_08x ?fs) @ ?tail) = Some (?fs, ?tail)"
    using small by (rule read_fields_concat) (simp_all add: header_fields_def)
  have nth: "?fs ! 11 = length name + 1" "?fs ! 6 = length data" "?fs ! 0 = ino" "?fs ! 1 = mode"
    by (simp_all add: header_fields_def)
  have magic: "read_bytes 6 (''070701'' @ X) = Some (''070701'', X)" for X
    by (rule read_bytes_append) simp
  have name: "read_bytes (length name + 1) ?tail =
      Some (name @ [CHR 0x00], cpio_pad (110 + (length name + 1)) @ data @ cpio_pad (length data) @ rest)"
    using read_bytes_append [of "length name + 1" "name @ [CHR 0x00]"] by simp
  have pad: "read_bytes (pad4 n) (cpio_pad n @ X) = Some (cpio_pad n, X)" for n X
    by (simp add: read_bytes_append cpio_pad_length)
  have body: "read_bytes (length data) (data @ X) = Some (data, X)" for X
    by (simp add: read_bytes_append)
  have nul: "(name @ [CHR 0x00] = [] \<or> last (name @ [CHR 0x00]) \<noteq> CHR 0x00) = False"
    "butlast (name @ [CHR 0x00]) = name" by simp_all
  show ?thesis
    unfolding entry cpio_read_def
    by (simp only: magic fields nth name pad body nul Let_def option.case prod.case if_False simp_thms)
qed

interpretation entries: prefix_codec
  "\<lambda>(ino, name, mode, data). cpio_entry ino name mode data" cpio_read entry_fits
  by unfold_locales (auto simp: cpio_read_entry)

section \<open>Archives\<close>

text \<open>The entries with the inode numbers the writer gives them, the trailer last.\<close>

fun numbered :: "nat \<Rightarrow> treeEntry list \<Rightarrow> (nat \<times> string \<times> nat \<times> string) list" where
  "numbered ino [] = [((ino + 1) mod 2 ^ 32, ''TRAILER!!!'', 0, [])]"
| "numbered ino (e # es) =
     ((ino + 1) mod 2 ^ 32, te_path e, entry_mode e, entry_data e) # numbered ((ino + 1) mod 2 ^ 32) es"

definition cpio_records :: "fileTree \<Rightarrow> (nat \<times> string \<times> nat \<times> string) list" where
  "cpio_records tree = numbered 1 (ft_entries tree)"

lemma write_numbered:
  "snd (writeEntry (foldl (\<lambda>w e. writeEntry w (te_path e) (entry_mode e) (entry_data e)) (ino, out) es)
     ''TRAILER!!!'' 0 []) =
   out @ concat (map (\<lambda>(ino, name, mode, data). cpio_entry ino name mode data) (numbered ino es))"
  by (induction es arbitrary: ino out) (simp_all add: writeEntry_def Let_def)

lemma numbered_length [simp]: "length (numbered ino es) = length es + 1"
  by (induction es arbitrary: ino) auto

lemma numbered_paths: "map (\<lambda>(ino, name, mode, data). name) (numbered ino es) = map te_path es @ [''TRAILER!!!'']"
  by (induction es arbitrary: ino) auto

definition tree_fits :: "fileTree \<Rightarrow> bool" where
  "tree_fits tree \<longleftrightarrow> (\<forall>e \<in> set (ft_entries tree).
     te_perm e < 2 ^ 32 \<and> length (entry_data e) < 2 ^ 32 \<and> length (te_path e) + 1 < 2 ^ 32)"

lemma or_less_32: "a < 2 ^ 32 \<Longrightarrow> b < 2 ^ 32 \<Longrightarrow> (a OR b :: nat) < 2 ^ 32"
proof -
  assume "a < 2 ^ 32" "b < 2 ^ 32"
  then have "take_bit 32 a = a" "take_bit 32 b = b" by (simp_all add: take_bit_nat_eq_self_iff)
  then have "take_bit 32 (a OR b) = a OR b" by (simp add: take_bit_or)
  then show ?thesis by (metis take_bit_nat_less_exp)
qed

lemma entry_mode_less: "te_perm e < 2 ^ 32 \<Longrightarrow> entry_mode e < 2 ^ 32"
  unfolding entry_mode_def
  by (cases "te_kind e") (simp_all add: or_less_32 [simplified] modeReg_def modeDir_def modeSymlink_def)

lemma numbered_fits:
  "(\<And>e. e \<in> set es \<Longrightarrow> te_perm e < 2 ^ 32 \<and> length (entry_data e) < 2 ^ 32 \<and> length (te_path e) + 1 < 2 ^ 32) \<Longrightarrow>
   x \<in> set (numbered ino es) \<Longrightarrow> entry_fits x"
  by (induction es arbitrary: ino) (auto simp: entry_fits_def entry_mode_less [simplified])

text \<open>
  Property C3. An initramfs archive is read back as what was written: whatever the file contents
  and names (of less than 4 GiB), the format's reader finds exactly the tree's entries in order,
  each with its path, mode and data, then the trailer, and no byte is left over.
\<close>

theorem buildCPIO_roundtrip:
  "tree_fits tree \<Longrightarrow>
   entries.dec_n (length (ft_entries tree) + 1) (buildCPIO tree) = Some (cpio_records tree, [])"
  using entries.dec_n_concat [of "cpio_records tree" "[]"] numbered_fits [of "ft_entries tree" _ 1]
  by (simp add: cpio_records_def buildCPIO_def Let_def write_numbered tree_fits_def)

definition cpio_example :: fileTree where
  "cpio_example = addSymlink ''/bin/sh'' ''busybox'' (addFile ''bin/busybox'' 493 ''ELF'' newFileTree)"

lemma cpio_example_entries:
  "map (\<lambda>e. (te_path e, te_kind e, te_perm e, entry_data e)) (ft_entries cpio_example) =
   [(''bin'', entryDir, 0, []), (''bin/busybox'', entryFile, 493, ''ELF''), (''bin/sh'', entrySymlink, 0, ''busybox'')]"
  by (simp add: cpio_example_def addFile_def addSymlink_def addDir.simps newFileTree_def tree_append_def
      cleanPath_def go_dir_def go_clean_def entry_data_def Let_def)

theorem buildCPIO_roundtrip_witness:
  "\<exists>rs. entries.dec_n 4 (buildCPIO cpio_example) = Some (rs, []) \<and>
     map (\<lambda>(ino, name, mode, data). name) rs = [''bin'', ''bin/busybox'', ''bin/sh'', ''TRAILER!!!'']"
proof -
  have paths: "map te_path (ft_entries cpio_example) = [''bin'', ''bin/busybox'', ''bin/sh'']"
    using arg_cong [OF cpio_example_entries, of "map fst"] by (simp add: o_def)
  have len: "length (ft_entries cpio_example) = 3"
    using arg_cong [OF paths, of length] by simp
  have "tree_fits cpio_example"
  proof -
    have "\<forall>x \<in> set (map (\<lambda>e. (te_path e, te_kind e, te_perm e, entry_data e)) (ft_entries cpio_example)).
        (case x of (p, k, m, d) \<Rightarrow> m < 2 ^ 32 \<and> length d < 2 ^ 32 \<and> length p + 1 < 2 ^ 32)"
      unfolding cpio_example_entries by simp
    then show ?thesis by (simp add: tree_fits_def)
  qed
  from buildCPIO_roundtrip [OF this] len paths show ?thesis
    by (simp add: cpio_records_def numbered_paths)
qed

end
