(* ===== verification/Stage1.thy ===== *)
theory Stage1
  imports Cpio
begin

text \<open>
  The first boot stage (internal/rootfs/stage1.go): the init script that finds the SquashFS root
  and stages the executables into its tmpfs directories, the initramfs that carries it, and what
  the staging part of the script does when it runs.
\<close>

section \<open>Text fragments\<close>

fun nat_oct :: "nat \<Rightarrow> string" where
  "nat_oct n = (if n < 8 then [char_of (48 + n)] else nat_oct (n div 8) @ [char_of (48 + n mod 8)])"

declare nat_oct.simps [simp del]

definition writeIdentifyBootImage :: "string \<Rightarrow> string \<Rightarrow> string list" where
  "writeIdentifyBootImage isoDir indent =
     [indent @ sh ''CFG='' @ isoDir @ shl ''/CNIMBUS.CFG'',
      indent @ sh ''[ -e ~$CFG~ ] || CFG='' @ isoDir @ shl ''/cnimbus.cfg'',
      indent @ shl ''if [ -e ~$CFG~ ]; then'',
      indent @ sh ''  '' @ consoleSayCmd @ shl '' ~cnimbus: identified boot image:~'',
      indent @ sh ''  while read -r cfgline; do '' @ consoleSayCmd @ shl '' ~cnimbus:   $cfgline~; done < ~$CFG~'',
      indent @ shl ''fi'']"

definition writeStagingCheck :: "string \<times> string \<Rightarrow> string list" where
  "writeStagingCheck = (\<lambda>(cmd, path).
     [sh ''if ! '' @ cmd @ shl ''; then'',
      sh ''  echo '' @ shQuote (''cnimbus: FATAL: could not stage '' @ path @
        '' into its exec directory (tmpfs full? see TMPSIZE)'') @ NL,
      shl ''  exit 1'',
      shl ''fi''])"

section \<open>Finding the root\<close>

definition stage1_mounts :: "string list" where
  "stage1_mounts =
     [shl ''#!/bin/sh'',
      shl ''mount -t proc proc /proc'',
      shl ''mount -t sysfs sysfs /sys'',
      shl ''mount -t devtmpfs devtmpfs /dev 2>/dev/null'',
      shl ''echo'',
      consoleSayCmd @ shl '' ~=== cnimbus: $(uname -s) $(uname -r) ===~'',
      shl ''echo'']"

definition stage1_cdrom :: "string list" where
  "stage1_cdrom =
     [shl ''ROOT_MOUNTED=0'',
      shl ''for attempt in 1 2 3 4 5 6 7 8 9 10; do'',
      shl ''  for dev in /dev/sr0 /dev/sr1 /dev/vda /dev/vdb /dev/sda /dev/sdb; do'',
      shl ''    [ -e ~$dev~ ] || continue'',
      shl ''    mount -t iso9660 -o ro ~$dev~ /mnt/boot 2>/dev/null || continue'',
      shl ''    if [ -e /mnt/boot/SQUASHFS.IMG ] || [ -e /mnt/boot/squashfs.img ]; then break; fi'',
      shl ''    umount /mnt/boot 2>/dev/null'',
      shl ''  done'',
      shl ''  if mountpoint -q /mnt/boot; then'',
      shl ''    SQ=/mnt/boot/SQUASHFS.IMG'',
      shl ''    [ -e ~$SQ~ ] || SQ=/mnt/boot/squashfs.img'',
      shl ''    [ -e /dev/loop0 ] || mknod /dev/loop0 b 7 0'',
      shl ''    if losetup /dev/loop0 ~$SQ~ && mount -t squashfs -o ro /dev/loop0 /mnt/root; then'',
      shl ''      ROOT_MOUNTED=1''] @
     writeIdentifyBootImage ''/mnt/boot'' ''      '' @
     [shl ''    fi'',
      shl ''  fi'']"

definition stage1_partition :: "string list" where
  "stage1_partition =
     [shl ''  if [ ~$ROOT_MOUNTED~ != 1 ]; then'',
      shl ''    for dev in /dev/vda2 /dev/vdb2 /dev/sda2 /dev/sdb2 /dev/xvda2 /dev/xvdb2 /dev/nvme0n1p2 /dev/nvme1n1p2; do'',
      shl ''      [ -e ~$dev~ ] || continue'',
      shl ''      if mount -t squashfs -o ro ~$dev~ /mnt/root 2>/dev/null; then ROOT_MOUNTED=1; break; fi'',
      shl ''    done'',
      shl ''  fi'']"

definition stage1_isoscan_devices :: "string list" where
  "stage1_isoscan_devices =
     [shl ''  if [ ~$ROOT_MOUNTED~ != 1 ]; then'',
      shl ''    for bd in /sys/block/*; do'',
      shl ''      dev=${bd##*/}'',
      shl ''      case ~$dev~ in loop*|ram*|sr*) continue;; esac'',
      shl ''      for part in ~$bd~ ~$bd~/~$dev~*; do'',
      shl ''        [ -e ~$part~ ] || continue'',
      shl ''        pdev=${part##*/}'',
      shl ''        [ -e ~/dev/$pdev~ ] || continue'',
      shl ''        for fstype in vfat exfat; do'',
      shl ''          if [ ~$fstype~ = exfat ] && ! dd if=~/dev/$pdev~ bs=1 skip=3 count=5 2>/dev/null | grep -q EXFAT; then continue; fi'',
      shl ''          mount -t ~$fstype~ -o ro ~/dev/$pdev~ /mnt/isoscan 2>/dev/null || continue'',
      shl ''          find /mnt/isoscan -maxdepth 3 -iname ^*.iso^ 2>/dev/null > /isocandidates'']"

definition stage1_isoscan_candidates :: "string list" where
  "stage1_isoscan_candidates =
     [shl ''          while read -r iso; do'',
      shl ''            [ -n ~$iso~ ] || continue'',
      shl ''            /bin/sh /etc/cnimbus-say ~cnimbus: checking candidate image: $iso~'',
      shl ''            [ -e /dev/loop1 ] || mknod /dev/loop1 b 7 1'',
      shl ''            if losetup /dev/loop1 ~$iso~ && mount -t iso9660 -o ro /dev/loop1 /mnt/boot 2>/dev/null; then'',
      shl ''              SQ=/mnt/boot/SQUASHFS.IMG'',
      shl ''              [ -e ~$SQ~ ] || SQ=/mnt/boot/squashfs.img'',
      shl ''              if [ -e ~$SQ~ ]; then'',
      shl ''                [ -e /dev/loop0 ] || mknod /dev/loop0 b 7 0'',
      shl ''                if losetup /dev/loop0 ~$SQ~ && mount -t squashfs -o ro /dev/loop0 /mnt/root; then'',
      shl ''                  ROOT_MOUNTED=1''] @
     writeIdentifyBootImage ''/mnt/boot'' ''                  '' @
     [shl ''                fi'',
      shl ''              fi'',
      shl ''            fi'',
      shl ''            [ ~$ROOT_MOUNTED~ = 1 ] && break'',
      shl ''            umount /mnt/boot 2>/dev/null'',
      shl ''            losetup -d /dev/loop1 2>/dev/null'',
      shl ''          done < /isocandidates'',
      shl ''          rm -f /isocandidates'',
      shl ''          [ ~$ROOT_MOUNTED~ = 1 ] || umount /mnt/isoscan 2>/dev/null'',
      shl ''        done'',
      shl ''        [ ~$ROOT_MOUNTED~ = 1 ] && break'',
      shl ''      done'',
      shl ''      [ ~$ROOT_MOUNTED~ = 1 ] && break'',
      shl ''    done'',
      shl ''  fi'']"

definition stage1_retry :: "string list" where
  "stage1_retry =
     [shl ''  [ ~$ROOT_MOUNTED~ = 1 ] && break'',
      shl ''  [ ~$attempt~ = 1 ] && /bin/sh /etc/cnimbus-say ~cnimbus: boot device not found yet -- retrying for up to 10s (real USB/SATA hardware can take a few seconds to enumerate)~'',
      shl ''  sleep 1'',
      shl ''done'',
      shl ''if [ ~$ROOT_MOUNTED~ != 1 ]; then'',
      shl ''  /bin/sh /etc/cnimbus-say ~cnimbus: FATAL: could not find/mount the SquashFS root (tried the CD-ROM drive and common second-partition names, retried for 10s)~'',
      shl ''  exit 1'',
      shl ''fi'']"

section \<open>Staging\<close>

definition stage1_tmpfs :: "string \<Rightarrow> string \<Rightarrow> string list" where
  "stage1_tmpfs tmpfsSize d =
     [sh ''mkdir -p /mnt/root/'' @ d @ NL,
      sh ''mount -t tmpfs -o mode=0755,nosuid,nodev,size='' @ tmpfsSize @ sh '' tmpfs /mnt/root/'' @ d @ NL]"

definition stage_file :: "ExtraFile \<Rightarrow> (string \<times> string) list" where
  "stage_file f =
     (let rel = trimLeadingSlash (xf_Path f); dst = shQuote (''/mnt/root/'' @ rel) in
      [(''cp '' @ shQuote (''/shadow/'' @ rel) @ '' '' @ dst, rel),
       (''chmod '' @ nat_oct (xf_Perm f) @ '' '' @ dst, rel)])"

definition staging_commands :: "ExtraFile list \<Rightarrow> (string \<times> string) list" where
  "staging_commands shadowed =
     [(''cp /bin/busybox /mnt/root/bin/busybox'', ''/bin/busybox''),
      (''chmod 755 /mnt/root/bin/busybox'', ''/bin/busybox''),
      (''chroot /mnt/root /bin/busybox --install -s'', ''busybox applets''),
      (''[ -L /mnt/root/bin/sh ]'', ''busybox applets (verifying /bin/sh exists)'')] @
     concat (map stage_file shadowed)"

definition buildStage1Init :: "BusyboxApplet list \<Rightarrow> ExtraFile list \<Rightarrow> string \<Rightarrow> string" where
  "buildStage1Init applets shadowed tmpfsSize0 =
     (let tmpfsSize = (if tmpfsSize0 = [] then defaultTmpfsSize else tmpfsSize0) in concat (
       stage1_mounts @ stage1_cdrom @ stage1_partition @ stage1_isoscan_devices @
       stage1_isoscan_candidates @ stage1_retry @
       [writeUptimeCheckpoint ''root mounted, starting staging''] @
       concat (map (stage1_tmpfs tmpfsSize) [''bin'', ''sbin'', ''usr/bin'', ''usr/sbin'']) @
       concat (map writeStagingCheck (staging_commands shadowed)) @
       [writeUptimeCheckpoint ''staging complete, switching to real root'',
        shl ''exec switch_root /mnt/root /sbin/init'']))"

section \<open>The initramfs\<close>

definition stage1_tree ::
  "string \<Rightarrow> BusyboxApplet list \<Rightarrow> ExtraFile list \<Rightarrow> (string \<times> string) list \<Rightarrow> string \<Rightarrow> fileTree" where
  "stage1_tree busyboxBinary applets shadowed firmware tmpfsSize =
     (let t0 = foldl (\<lambda>t d. addDir d t) newFileTree
            [''dev'', ''proc'', ''sys'', ''etc'', ''mnt/boot'', ''mnt/root'', ''mnt/isoscan''];
          t1 = addFile (trimLeadingSlash consoleSayPath) 493 buildConsoleSayScript t0;
          t2 = addFile ''bin/busybox'' 493 busyboxBinary t1;
          t3 = foldl (\<lambda>t a. addSymlink (ba_Path a) (ba_Target a) t) t2 applets;
          t4 = foldl (\<lambda>t f. addFile (''shadow/'' @ trimLeadingSlash (xf_Path f)) (xf_Perm f) (xf_Data f) t) t3 shadowed;
          t5 = foldl (\<lambda>t e. addFile (''lib/firmware/'' @ trimLeadingSlash (fst e)) 420 (snd e) t) t4 firmware
      in addFile ''init'' 493 (buildStage1Init applets shadowed tmpfsSize) t5)"

text \<open>The archive before \<^verbatim>\<open>compress/gzip\<close>, whose writer to memory does not fail.\<close>

definition buildStage1Initramfs ::
  "(string \<Rightarrow> string) \<Rightarrow> string \<Rightarrow> BusyboxApplet list \<Rightarrow> ExtraFile list \<Rightarrow> (string \<times> string) list \<Rightarrow> string \<Rightarrow> string" where
  "buildStage1Initramfs gzip busyboxBinary applets shadowed firmware tmpfsSize =
     gzip (buildCPIO (stage1_tree busyboxBinary applets shadowed firmware tmpfsSize))"

text \<open>Folding additions over a list keeps what they keep.\<close>

lemma tree_fold:
  assumes "tree_ok t"
    and step: "\<And>t x. tree_ok t \<Longrightarrow> tree_ok (f t x) \<and> tree_extends t (f t x)"
  shows "tree_ok (foldl f t xs) \<and> tree_extends t (foldl f t xs)"
  using assms(1)
proof (induction xs arbitrary: t)
  case Nil
  then show ?case by simp
next
  case (Cons x xs)
  with step have "tree_ok (f t x)" "tree_extends t (f t x)" by blast+
  with Cons.IH show ?case by (auto intro: tree_extends_trans)
qed

lemma tree_fold_addDir: "tree_ok t \<Longrightarrow> tree_ok (foldl (\<lambda>t d. addDir d t) t ds) \<and> tree_extends t (foldl (\<lambda>t d. addDir d t) t ds)"
  by (rule tree_fold) (use addDir_props in blast)+

lemma tree_fold_addFile:
  "tree_ok t \<Longrightarrow> tree_ok (foldl (\<lambda>t x. addFile (p x) (m x) (d x) t) t xs) \<and>
   tree_extends t (foldl (\<lambda>t x. addFile (p x) (m x) (d x) t) t xs)"
  by (rule tree_fold) (use addFile_props in blast)+

lemma tree_fold_addSymlink:
  "tree_ok t \<Longrightarrow> tree_ok (foldl (\<lambda>t x. addSymlink (p x) (g x) t) t xs) \<and>
   tree_extends t (foldl (\<lambda>t x. addSymlink (p x) (g x) t) t xs)"
  by (rule tree_fold) (use addSymlink_props in blast)+

lemma tree_fold_addFile_seen:
  "tree_ok t \<Longrightarrow> x \<in> set xs \<Longrightarrow>
   cleanPath (p x) \<in> ft_seen (foldl (\<lambda>t x. addFile (p x) (m x) (d x) t) t xs)"
proof (induction xs arbitrary: t)
  case Nil
  then show ?case by simp
next
  case (Cons y ys)
  let ?t = "addFile (p y) (m y) (d y) t"
  have t: "tree_ok ?t" "cleanPath (p y) \<in> ft_seen ?t"
    using addFile_props [OF Cons.prems(1)] by blast+
  show ?case
  proof (cases "x = y")
    case True
    with t tree_fold_addFile [OF t(1), of p m d ys] show ?thesis
      by (auto simp: tree_extends_def)
  next
    case False
    with Cons t show ?thesis by simp
  qed
qed

text \<open>
  The initramfs is one the kernel can unpack: no path occurs twice and every entry's
  directory has its own entry earlier in the archive, whatever applets, files and firmware were
  given.
\<close>

theorem stage1_tree_ok:
  "tree_ok (stage1_tree busyboxBinary applets shadowed firmware tmpfsSize)"
  unfolding stage1_tree_def Let_def
  by (intro conjunct1 [OF addFile_props] conjunct1 [OF tree_fold_addFile]
      conjunct1 [OF tree_fold_addSymlink] conjunct1 [OF tree_fold_addDir] tree_ok_new)

section \<open>Running the staging\<close>

text \<open>
  Each check runs its command; the first that fails prints its message and exits the script, so
  \<^verbatim>\<open>switch_root\<close> is not reached.
\<close>

datatype stage_event = Did string | Fatal string | SwitchRoot

fun run_staging :: "(string \<Rightarrow> bool) \<Rightarrow> (string \<times> string) list \<Rightarrow> stage_event list" where
  "run_staging ok [] = [SwitchRoot]"
| "run_staging ok ((cmd, path) # rest) =
     (if ok cmd then Did cmd # run_staging ok rest else [Fatal path])"

lemma run_staging_switch:
  "SwitchRoot \<in> set (run_staging ok cs) \<longleftrightarrow> (\<forall>c \<in> set cs. ok (fst c))"
  by (induction ok cs rule: run_staging.induct) auto

lemma run_staging_all:
  "(\<forall>c \<in> set cs. ok (fst c)) \<Longrightarrow> run_staging ok cs = map (Did \<circ> fst) cs @ [SwitchRoot]"
  by (induction ok cs rule: run_staging.induct) auto

text \<open>
  The real root is entered only fully staged: the script reaches \<^verbatim>\<open>switch_root\<close>
  exactly when every staging command succeeded, and then each shadowed file has been copied and
  after that given its mode, before the switch.
\<close>

theorem stage1_switches_when_staged:
  "SwitchRoot \<in> set (run_staging ok (staging_commands shadowed)) \<Longrightarrow>
   f \<in> set shadowed \<Longrightarrow>
   (\<exists>pre post. run_staging ok (staging_commands shadowed) =
      pre @ map (Did \<circ> fst) (stage_file f) @ post @ [SwitchRoot]) \<and>
   (\<forall>c \<in> set (staging_commands shadowed). ok (fst c))"
proof -
  assume switched: "SwitchRoot \<in> set (run_staging ok (staging_commands shadowed))"
    and f: "f \<in> set shadowed"
  then have all: "\<forall>c \<in> set (staging_commands shadowed). ok (fst c)" by (simp only: run_staging_switch)
  from f obtain xs ys where "shadowed = xs @ f # ys" by (meson split_list)
  then obtain pre post where "staging_commands shadowed = pre @ stage_file f @ post"
    using that [of "staging_commands xs" "concat (map stage_file ys)"] by (simp add: staging_commands_def)
  then have "run_staging ok (staging_commands shadowed) =
      map (Did \<circ> fst) pre @ map (Did \<circ> fst) (stage_file f) @ map (Did \<circ> fst) post @ [SwitchRoot]"
    using run_staging_all [OF all] by simp
  with all show ?thesis by blast
qed

theorem stage1_switches_when_staged_witness:
  "\<exists>pre post. run_staging (\<lambda>c. True) (staging_commands [\<lparr> xf_Path = ''/usr/bin/app'', xf_Perm = 493, xf_Data = ''ELF'' \<rparr>]) =
     pre @ [Did (sh ''cp ^/shadow/usr/bin/app^ ^/mnt/root/usr/bin/app^''), Did (sh ''chmod 755 ^/mnt/root/usr/bin/app^'')] @ post @ [SwitchRoot]"
proof -
  let ?f = "\<lparr> xf_Path = ''/usr/bin/app'', xf_Perm = 493, xf_Data = ''ELF'' \<rparr>"
  have staged: "map (Did \<circ> fst) (stage_file ?f) =
      [Did (sh ''cp ^/shadow/usr/bin/app^ ^/mnt/root/usr/bin/app^''), Did (sh ''chmod 755 ^/mnt/root/usr/bin/app^'')]"
    by code_simp
  have "SwitchRoot \<in> set (run_staging (\<lambda>c. True) (staging_commands [?f]))"
    by (simp add: run_staging_switch)
  from stage1_switches_when_staged [OF this, of ?f] show ?thesis unfolding staged by simp
qed

end
