(* ===== verification/Squashfs_Root.thy ===== *)
theory Squashfs_Root
  imports Firewall Supervisor Stage1
begin

text \<open>
  The read-only root (internal/rootfs/squashfsroot.go): which directories and files it holds, in
  the order they are written, and the padding of the finished image. The SquashFS writer itself
  (go-diskfs) is not part of the program: its operations are the parameters \<^verbatim>\<open>mkdir\<close>, \<^verbatim>\<open>put\<close>
  (open, write, close and chmod of one file) and \<^verbatim>\<open>finalize\<close>, over a state of any type.
\<close>

section \<open>Directories\<close>

definition root_base_dirs :: "string list" where
  "root_base_dirs =
     [''bin'', ''sbin'', ''usr'', ''usr/bin'', ''usr/sbin'',
      ''dev'', ''proc'', ''sys'', ''tmp'', ''var'', ''var/run'', ''run'', ''mnt'',
      ''etc'', ''etc/init.d'', ''etc/acpi'', ''etc/acpi/PWRF'']"

text \<open>The prefixes of a path that end at a component, the shortest first.\<close>

fun path_prefixes :: "string \<Rightarrow> string list \<Rightarrow> string list" where
  "path_prefixes built [] = []"
| "path_prefixes built (part # parts) =
     (built @ part) # path_prefixes (built @ part @ ''/'') parts"

definition add_new :: "string list \<Rightarrow> string \<Rightarrow> string list" where
  "add_new dirs d = (if d \<in> set dirs then dirs else dirs @ [d])"

definition add_mountpoint :: "string list \<Rightarrow> Volume \<Rightarrow> string list" where
  "add_mountpoint dirs v =
     (let mnt = trimLeadingSlash (vol_Mountpoint v) in
      if mnt = [] then dirs else foldl add_new dirs (path_prefixes [] (go_split (CHR ''/'') mnt)))"

definition root_dirs :: "Volume list \<Rightarrow> string list" where
  "root_dirs volumes = foldl add_mountpoint root_base_dirs volumes"

section \<open>Files\<close>

definition root_fixed_files :: "PiecesSpec \<Rightarrow> ExtraFile list" where
  "root_fixed_files spec =
     map (\<lambda>(p, m, d). \<lparr> xf_Path = p, xf_Perm = m, xf_Data = d \<rparr>)
      [(''etc/inittab'', 420, buildInittab (ps_Services spec) (ps_Agent spec)),
       (trimLeadingSlash consoleSayPath, 493, buildConsoleSayScript),
       (''etc/init.d/rcS'', 493, buildRCScript spec),
       (''etc/init.d/shutdown.sh'', 493, buildShutdownScript (ps_Services spec) (ps_StopGrace spec)),
       (''etc/hostname'', 420, ps_Hostname spec @ NL),
       (''etc/hosts'', 420, buildHostsFile (ps_Hostname spec)),
       (acpiPowerHandlerPath, 420, []),
       (''etc/resolv.conf'', 420, []),
       (''etc/passwd'', 420, buildPasswd (ps_User spec)),
       (''etc/group'', 420, buildGroup (ps_User spec))]"

definition root_firewall_files :: "PiecesSpec \<Rightarrow> ExtraFile list" where
  "root_firewall_files spec =
     (if ps_Firewall spec \<noteq> []
      then [\<lparr> xf_Path = ''etc/init.d/firewall.sh'', xf_Perm = 493,
              xf_Data = buildFirewallScript (ps_Firewall spec) (ps_FirewallOnError spec) False \<rparr>] else []) @
     (if ps_Firewall6 spec \<noteq> []
      then [\<lparr> xf_Path = ''etc/init.d/firewall6.sh'', xf_Perm = 493,
              xf_Data = buildFirewallScript (ps_Firewall6 spec) (ps_FirewallOnError spec) True \<rparr>] else [])"

definition root_files :: "PiecesSpec \<Rightarrow> ExtraFile list \<Rightarrow> ExtraFile list" where
  "root_files spec normalFiles =
     root_fixed_files spec @ root_firewall_files spec @
     map (\<lambda>f. f \<lparr> xf_Path := trimLeadingSlash (xf_Path f) \<rparr>) normalFiles"

section \<open>Writing the image\<close>

definition pad_64k :: "string \<Rightarrow> string" where
  "pad_64k img =
     (let r = length img mod 65536
      in if r \<noteq> 0 then img @ replicate (65536 - r) (CHR 0x00) else img)"

definition buildSquashfsRoot ::
  "'fs \<Rightarrow> ('fs \<Rightarrow> string \<Rightarrow> 'e + 'fs) \<Rightarrow> ('fs \<Rightarrow> ExtraFile \<Rightarrow> 'e + 'fs) \<Rightarrow> ('fs \<Rightarrow> 'e + string) \<Rightarrow>
   PiecesSpec \<Rightarrow> ExtraFile list \<Rightarrow> 'e + string" where
  "buildSquashfsRoot fs0 mkdir put finalize spec normalFiles =
     bindE (foldE mkdir fs0 (root_dirs (ps_Volumes spec))) (\<lambda>fs1.
     bindE (foldE put fs1 (root_files spec normalFiles)) (\<lambda>fs2.
     bindE (finalize fs2) (\<lambda>img. Inr (pad_64k img))))"

section \<open>What the directory list guarantees\<close>

lemma set_add_new [simp]: "set (add_new dirs d) = insert d (set dirs)"
  by (auto simp: add_new_def)

lemma set_foldl_add_new: "set (foldl add_new dirs ds) = set dirs \<union> set ds"
  by (induction ds arbitrary: dirs) auto

lemma distinct_add_new: "distinct dirs \<Longrightarrow> distinct (add_new dirs d)"
  by (auto simp: add_new_def)

lemma distinct_foldl_add_new: "distinct dirs \<Longrightarrow> distinct (foldl add_new dirs ds)"
  by (induction ds arbitrary: dirs) (auto simp: distinct_add_new)

text \<open>Every directory's parent is made before it.\<close>

definition parent_of :: "string \<Rightarrow> string" where
  "parent_of d = rev (tl (dropWhile (\<lambda>c. c \<noteq> CHR ''/'') (rev d)))"

definition made_in_order :: "string list \<Rightarrow> bool" where
  "made_in_order dirs \<longleftrightarrow> (\<forall>i < length dirs.
     CHR ''/'' \<in> set (dirs ! i) \<longrightarrow> parent_of (dirs ! i) \<in> set (take i dirs))"

lemma made_in_order_snoc:
  "made_in_order dirs \<Longrightarrow> (CHR ''/'' \<in> set d \<longrightarrow> parent_of d \<in> set dirs) \<Longrightarrow> made_in_order (dirs @ [d])"
  by (auto simp: made_in_order_def nth_append less_Suc_eq)

lemma parent_of_snoc: "CHR ''/'' \<notin> set part \<Longrightarrow> parent_of (a @ CHR ''/'' # part) = a"
proof -
  assume "CHR ''/'' \<notin> set part"
  then have "dropWhile (\<lambda>c. c \<noteq> CHR ''/'') (rev part @ CHR ''/'' # rev a) =
      dropWhile (\<lambda>c. c \<noteq> CHR ''/'') (CHR ''/'' # rev a)"
    by (intro dropWhile_append2) auto
  then show ?thesis by (simp add: parent_of_def)
qed

lemma foldl_add_new_ordered:
  "made_in_order dirs \<Longrightarrow> (\<And>p. p \<in> set parts \<Longrightarrow> CHR ''/'' \<notin> set p) \<Longrightarrow>
   (built = [] \<or> (\<exists>a. built = a @ ''/'' \<and> a \<in> set dirs)) \<Longrightarrow>
   made_in_order (foldl add_new dirs (path_prefixes built parts))"
proof (induction built parts arbitrary: dirs rule: path_prefixes.induct)
  case (1 built)
  then show ?case by simp
next
  case (2 built part parts)
  let ?d = "built @ part"
  have slash: "CHR ''/'' \<notin> set part" using "2.prems"(2) by simp
  have parent: "CHR ''/'' \<in> set ?d \<longrightarrow> parent_of ?d \<in> set dirs"
    using "2.prems"(3) slash by (auto simp: parent_of_snoc)
  have "made_in_order (add_new dirs ?d)"
    using "2.prems"(1) parent by (simp add: add_new_def made_in_order_snoc)
  then have "made_in_order (foldl add_new (add_new dirs ?d) (path_prefixes (built @ part @ ''/'') parts))"
    using "2.prems"(2) by (intro "2.IH") auto
  then show ?case by simp
qed

lemma root_base_ordered: "made_in_order root_base_dirs"
  by code_simp

lemma path_prefixes_full: "parts \<noteq> [] \<Longrightarrow> built @ go_join parts ''/'' \<in> set (path_prefixes built parts)"
proof (induction built parts rule: path_prefixes.induct)
  case (1 built)
  then show ?case by simp
next
  case (2 built part parts)
  show ?case
  proof (cases "parts = []")
    case True
    then show ?thesis by simp
  next
    case False
    with 2 show ?thesis by (simp add: go_join_map_Cons)
  qed
qed

lemma add_mountpoint_props:
  "made_in_order dirs \<Longrightarrow> distinct dirs \<Longrightarrow>
   made_in_order (add_mountpoint dirs v) \<and> distinct (add_mountpoint dirs v) \<and>
   set dirs \<subseteq> set (add_mountpoint dirs v) \<and>
   (trimLeadingSlash (vol_Mountpoint v) \<noteq> [] \<longrightarrow>
     trimLeadingSlash (vol_Mountpoint v) \<in> set (add_mountpoint dirs v))"
proof -
  assume dirs: "made_in_order dirs" "distinct dirs"
  let ?mnt = "trimLeadingSlash (vol_Mountpoint v)"
  let ?ps = "path_prefixes [] (go_split (CHR ''/'') ?mnt)"
  have "made_in_order (foldl add_new dirs ?ps)"
    using dirs(1) by (rule foldl_add_new_ordered) (auto dest: go_split_no_sep)
  moreover have "distinct (foldl add_new dirs ?ps)"
    using dirs(2) by (rule distinct_foldl_add_new)
  moreover have "?mnt \<in> set ?ps"
    using path_prefixes_full [of "go_split (CHR ''/'') ?mnt" "[]"] by (simp add: go_join_split)
  ultimately show ?thesis
    using dirs by (auto simp: add_mountpoint_def Let_def set_foldl_add_new)
qed

lemma root_dirs_props:
  assumes "made_in_order dirs" and "distinct dirs"
  shows "made_in_order (foldl add_mountpoint dirs vs) \<and> distinct (foldl add_mountpoint dirs vs) \<and>
    set dirs \<subseteq> set (foldl add_mountpoint dirs vs) \<and>
    (\<forall>v \<in> set vs. trimLeadingSlash (vol_Mountpoint v) \<noteq> [] \<longrightarrow>
      trimLeadingSlash (vol_Mountpoint v) \<in> set (foldl add_mountpoint dirs vs))"
  using assms
proof (induction vs arbitrary: dirs)
  case Nil
  then show ?case by simp
next
  case (Cons v vs)
  note props = add_mountpoint_props [OF Cons.prems, of v]
  then have "made_in_order (add_mountpoint dirs v)" "distinct (add_mountpoint dirs v)" by blast+
  from Cons.IH [OF this] props show ?case by auto
qed

text \<open>
  The image has a directory for every volume to mount on: the list of directories
  has no duplicates, every volume's mount point is on it, and each directory comes after its
  parent, so no mkdir of the writer fails for want of one.
\<close>

theorem root_dirs_cover_volumes:
  "distinct (root_dirs volumes) \<and> made_in_order (root_dirs volumes) \<and>
   (\<forall>v \<in> set volumes. trimLeadingSlash (vol_Mountpoint v) \<noteq> [] \<longrightarrow>
      trimLeadingSlash (vol_Mountpoint v) \<in> set (root_dirs volumes))"
proof -
  have "distinct root_base_dirs" by code_simp
  from root_dirs_props [OF root_base_ordered this, of volumes] show ?thesis
    by (simp add: root_dirs_def)
qed

theorem root_dirs_cover_volumes_witness:
  "''mnt/data'' \<in> set (root_dirs [\<lparr> vol_Device = ''/dev/vda'', vol_Mountpoint = ''/mnt/data'',
      vol_FSType = [], vol_Required = False \<rparr>])"
proof -
  let ?v = "\<lparr> vol_Device = ''/dev/vda'', vol_Mountpoint = ''/mnt/data'', vol_FSType = [], vol_Required = False \<rparr>"
  have "trimLeadingSlash (vol_Mountpoint ?v) = ''mnt/data''"
    by (simp add: trimLeadingSlash_def go_trim_prefix_def)
  with root_dirs_cover_volumes [of "[?v]"] show ?thesis by simp
qed

lemma dvd_pad: "0 < k \<Longrightarrow> k dvd n + (k - n mod k)" for k :: nat
proof -
  assume "0 < k"
  then have "n mod k < k" and "n mod k \<le> n" by simp_all
  then have "n + (k - n mod k) = (n - n mod k) + k" by arith
  moreover have "k dvd (n - n mod k) + k" by (intro dvd_add dvd_minus_mod dvd_refl)
  ultimately show ?thesis by (simp only:)
qed

text \<open>
  The image is padded, not changed: its length is a multiple of 64 KiB, what the
  writer produced is its beginning, and fewer than 64 KiB of zero bytes follow.
\<close>

theorem squashfs_root_padded:
  "buildSquashfsRoot fs0 mkdir put finalize spec normalFiles = Inr img \<Longrightarrow>
   65536 dvd length img \<and>
   (\<exists>fs raw k. finalize fs = Inr raw \<and> img = raw @ replicate k (CHR 0x00) \<and> k < 65536)"
proof -
  assume "buildSquashfsRoot fs0 mkdir put finalize spec normalFiles = Inr img"
  then obtain fs raw where fin: "finalize fs = Inr raw" and img: "img = pad_64k raw"
    by (auto simp: buildSquashfsRoot_def bindE_Inr_iff)
  have "\<exists>k. img = raw @ replicate k (CHR 0x00) \<and> k < 65536 \<and> 65536 dvd length img"
  proof (cases "length raw mod 65536 = 0")
    case True
    then show ?thesis by (intro exI [of _ 0]) (auto simp: img pad_64k_def)
  next
    case False
    let ?k = "65536 - length raw mod 65536"
    have "65536 dvd length raw + ?k" by (rule dvd_pad) simp
    with False show ?thesis by (intro exI [of _ ?k]) (auto simp: img pad_64k_def Let_def)
  qed
  with fin show ?thesis by blast
qed

theorem squashfs_root_padded_witness:
  "\<exists>img. buildSquashfsRoot [] (\<lambda>fs d. Inr (d # fs)) (\<lambda>fs f. Inr (xf_Path f # fs))
      (\<lambda>fs. (Inr ''hsqs'' :: string + string)) spec_example [] = Inr img \<and> 65536 dvd length img"
proof -
  have dirs: "\<exists>fs'. foldE (\<lambda>fs d. Inr (d # fs)) fs ds = (Inr fs' :: string + string list)" for fs and ds :: "string list"
    by (induction ds arbitrary: fs) auto
  have files: "\<exists>fs'. foldE (\<lambda>fs f. Inr (xf_Path f # fs)) fs xs = (Inr fs' :: string + string list)"
    for fs and xs :: "ExtraFile list"
    by (induction xs arbitrary: fs) auto
  obtain fs1 where fs1: "foldE (\<lambda>fs d. Inr (d # fs)) [] (root_dirs (ps_Volumes spec_example)) = (Inr fs1 :: string + string list)"
    using dirs by blast
  obtain fs2 where fs2: "foldE (\<lambda>fs f. Inr (xf_Path f # fs)) fs1 (root_files spec_example []) = (Inr fs2 :: string + string list)"
    using files by blast
  have "buildSquashfsRoot [] (\<lambda>fs d. Inr (d # fs)) (\<lambda>fs f. Inr (xf_Path f # fs))
      (\<lambda>fs. (Inr ''hsqs'' :: string + string)) spec_example [] = Inr (pad_64k ''hsqs'')"
    by (simp add: buildSquashfsRoot_def fs1 fs2)
  from squashfs_root_padded [OF this] this show ?thesis by blast
qed

end
