(* ===== verification/Go_Int.thy ===== *)
theory Go_Int
  imports Go_Base
begin

text \<open>
  Go's fixed-width integers as mathematical integers with the wrap-around written out, and its
  division, which truncates toward zero.
\<close>

definition wrap64 :: "int \<Rightarrow> int" where
  "wrap64 v = (v + 2 ^ 63) mod 2 ^ 64 - 2 ^ 63"

definition u64 :: "int \<Rightarrow> int" where
  "u64 v = v mod 2 ^ 64"

definition tdiv :: "int \<Rightarrow> int \<Rightarrow> int" where
  "tdiv a b = (if a < 0 then - ((- a) div b) else a div b)"

definition tmod :: "int \<Rightarrow> int \<Rightarrow> int" where
  "tmod a b = a - b * tdiv a b"

lemma wrap64_id: "0 \<le> v \<Longrightarrow> v < 2 ^ 63 \<Longrightarrow> wrap64 v = v"
  by (simp add: wrap64_def)

lemma u64_id: "0 \<le> v \<Longrightarrow> v < 2 ^ 64 \<Longrightarrow> u64 v = v"
  by (simp add: u64_def)

lemma tdiv_nonneg: "0 \<le> a \<Longrightarrow> tdiv a b = a div b"
  by (simp add: tdiv_def)

lemma tmod_nonneg: "0 \<le> a \<Longrightarrow> tmod a b = a mod b"
  by (simp add: tmod_def tdiv_def minus_mult_div_eq_mod)

end
