(* ===== verification/From_Pieces.thy ===== *)
theory From_Pieces
  imports Squashfs_Root Go_Int
begin

text \<open>
  Assembling an image from its pieces (internal/rootfs/frompieces.go): which files are generated,
  which go through stage 1's tmpfs directories and which into the read-only root, and the check
  that the former fit.
\<close>

section \<open>Routing files\<close>

definition isShadowedPath :: "string \<Rightarrow> bool" where
  "isShadowedPath p \<longleftrightarrow>
     list_ex (go_has_prefix (trimLeadingSlash p)) [''bin/'', ''sbin/'', ''usr/bin/'', ''usr/sbin/'']"

fun splitShadowedFiles :: "ExtraFile list \<Rightarrow> ExtraFile list \<times> ExtraFile list" where
  "splitShadowedFiles [] = ([], [])"
| "splitShadowedFiles (f # fs) =
     (let (shadowed, normal) = splitShadowedFiles fs
      in if isShadowedPath (xf_Path f) then (f # shadowed, normal) else (shadowed, f # normal))"

definition exec_dirs :: "string list" where
  "exec_dirs = [''bin'', ''sbin'', ''usr/bin'', ''usr/sbin'']"

definition execDirOf :: "string \<Rightarrow> string" where
  "execDirOf p0 =
     (let p = trimLeadingSlash p0
      in case find (\<lambda>dir. go_has_prefix p (dir @ ''/'')) exec_dirs of None \<Rightarrow> [] | Some dir \<Rightarrow> dir)"

section \<open>The tmpfs size check\<close>

definition parseTmpfsSizeBytes :: "string \<Rightarrow> int option" where
  "parseTmpfsSizeBytes size0 =
     (let size = (if size0 = [] then defaultTmpfsSize else size0);
          (mult, numPart) =
            (if size = [] then (1, size)
             else if last size \<in> set ''kK'' then (1024, butlast size)
             else if last size \<in> set ''mM'' then (1024 * 1024, butlast size)
             else if last size \<in> set ''gG'' then (1024 * 1024 * 1024, butlast size)
             else (1, size))
      in case go_atoi numPart of
           None \<Rightarrow> None
         | Some n \<Rightarrow> if n \<le> 0 then None else Some (wrap64 (n * mult)))"

definition dir_total :: "ExtraFile list \<Rightarrow> string \<Rightarrow> string \<Rightarrow> int" where
  "dir_total shadowed busyboxBinary dir =
     (if dir = ''bin'' then int (length busyboxBinary) else 0) +
     sum_list (map (\<lambda>f. int (length (xf_Data f)))
       (filter (\<lambda>f. execDirOf (xf_Path f) \<noteq> [] \<and> execDirOf (xf_Path f) = dir) shadowed))"

datatype pieces_error =
    BadTmpfsSize string
  | TmpfsTooSmall string int int
  | SquashfsFailed

definition checkShadowedFilesFitTmpfs :: "ExtraFile list \<Rightarrow> string \<Rightarrow> string \<Rightarrow> pieces_error + unit" where
  "checkShadowedFilesFitTmpfs shadowed busyboxBinary tmpfsSize =
     (case parseTmpfsSizeBytes tmpfsSize of
        None \<Rightarrow> Inl (BadTmpfsSize tmpfsSize)
      | Some limit \<Rightarrow>
          (case find (\<lambda>dir. limit < dir_total shadowed busyboxBinary dir) exec_dirs of
             None \<Rightarrow> Inr ()
           | Some dir \<Rightarrow> Inl (TmpfsTooSmall dir (dir_total shadowed busyboxBinary dir) limit)))"

section \<open>Firmware\<close>

fun map_set :: "(string \<times> string) list \<Rightarrow> string \<Rightarrow> string \<Rightarrow> (string \<times> string) list" where
  "map_set [] k v = [(k, v)]"
| "map_set ((k', v') # m) k v = (if k' = k then (k, v) # m else (k', v') # map_set m k v)"

definition mergeFirmwareMaps :: "(string \<times> string) list \<Rightarrow> (string \<times> string) list \<Rightarrow> (string \<times> string) list" where
  "mergeFirmwareMaps wifi ethernet =
     (if wifi = [] then ethernet else if ethernet = [] then wifi
      else foldl (\<lambda>m (k, v). map_set m k v) [] (wifi @ ethernet))"

section \<open>Building the images\<close>

definition service_script :: "PiecesSpec \<Rightarrow> Service \<Rightarrow> ExtraFile" where
  "service_script spec svc =
     \<lparr> xf_Path = supervisorScriptPath (svc_Name svc), xf_Perm = 384,
       xf_Data = buildSupervisorScript svc (ps_Env spec) (ps_User spec) (ps_Workdir spec)
         (if svc_Name svc = ''entrypoint'' then ps_Healthcheck spec else None) \<rparr>"

definition generated_extra :: "PiecesSpec \<Rightarrow> ExtraFile list" where
  "generated_extra spec =
     map (service_script spec) (ps_Services spec) @
     (case ps_Agent spec of
        Some a \<Rightarrow> if ra_Kind a = ''http''
          then [\<lparr> xf_Path = agentScriptPath, xf_Perm = 384, xf_Data = buildAgentScript a \<rparr>] else []
      | None \<Rightarrow> [])"

definition generated_shadowed :: "PiecesSpec \<Rightarrow> ExtraFile list" where
  "generated_shadowed spec =
     (if ps_DHCP spec \<and> ps_StaticIP spec = None
      then [\<lparr> xf_Path = ''sbin/udhcpc.script'', xf_Perm = 493, xf_Data = udhcpcScript \<rparr>] else []) @
     [\<lparr> xf_Path = ''sbin/udhcpc-secondary.script'', xf_Perm = 493, xf_Data = udhcpcScriptSecondary \<rparr>] @
     (if ps_Iptables spec \<noteq> []
      then [\<lparr> xf_Path = ''usr/sbin/cnimbus-iptables'', xf_Perm = 493, xf_Data = ps_Iptables spec \<rparr>] else []) @
     [\<lparr> xf_Path = ''sbin/powerbtn.sh'', xf_Perm = 493, xf_Data = acpiPowerScript \<rparr>] @
     (if ps_Supplicant spec \<noteq> []
      then [\<lparr> xf_Path = ''usr/sbin/wpa_supplicant'', xf_Perm = 493, xf_Data = ps_Supplicant spec \<rparr>] else []) @
     (if rootfs_hasWifiDriver (ps_BootProfile spec) \<and> ps_Supplicant spec \<noteq> []
      then [\<lparr> xf_Path = ''usr/sbin/wpa_supplicant.conf'', xf_Perm = 384,
              xf_Data = buildWpaSupplicantConf (ps_WifiSSID spec) (ps_WifiPSK spec) (ps_WifiCountry spec) \<rparr>] else []) @
     (case ps_Agent spec of
        Some a \<Rightarrow> [\<lparr> xf_Path = ''usr/bin/cnimbusagent'', xf_Perm = 493, xf_Data = ra_Binary a \<rparr>]
      | None \<Rightarrow> [])"

definition image_files :: "PiecesSpec \<Rightarrow> ExtraFile list \<times> ExtraFile list" where
  "image_files spec =
     (let (shadowed, normal) = splitShadowedFiles (ps_ExtraFiles spec @ generated_extra spec)
      in (shadowed @ generated_shadowed spec, normal))"

text \<open>The result: the stage-1 initramfs and the finished SquashFS image.\<close>

definition BuildImages ::
  "(string \<Rightarrow> string) \<Rightarrow> (PiecesSpec \<Rightarrow> ExtraFile list \<Rightarrow> pieces_error + string) \<Rightarrow>
   PiecesSpec \<Rightarrow> pieces_error + (string \<times> string)" where
  "BuildImages gzip squashfs spec0 =
     (let spec = (if ps_Hostname spec0 = [] then spec0 \<lparr> ps_Hostname := ''cnimbus'' \<rparr> else spec0);
          (shadowed, normal) = image_files spec;
          firmware = mergeFirmwareMaps (ps_WifiFirmware spec) (ps_EthernetFirmware spec) in
      bindE (checkShadowedFilesFitTmpfs shadowed (ps_BusyboxBinary spec) (ps_TmpfsSize spec)) (\<lambda>_.
      bindE (squashfs spec normal) (\<lambda>root.
      Inr (buildStage1Initramfs gzip (ps_BusyboxBinary spec) (ps_BusyboxApplets spec) shadowed firmware
             (ps_TmpfsSize spec), root))))"

section \<open>Lemmas\<close>

lemma splitShadowedFiles_filter:
  "splitShadowedFiles fs =
     (filter (\<lambda>f. isShadowedPath (xf_Path f)) fs, filter (\<lambda>f. \<not> isShadowedPath (xf_Path f)) fs)"
  by (induction fs) (auto simp: Let_def)

lemma execDirOf_eq:
  "execDirOf p =
     (if go_has_prefix (trimLeadingSlash p) ''bin/'' then ''bin''
      else if go_has_prefix (trimLeadingSlash p) ''sbin/'' then ''sbin''
      else if go_has_prefix (trimLeadingSlash p) ''usr/bin/'' then ''usr/bin''
      else if go_has_prefix (trimLeadingSlash p) ''usr/sbin/'' then ''usr/sbin'' else [])"
  by (simp add: execDirOf_def exec_dirs_def Let_def)

lemma execDirOf_shadowed: "execDirOf p \<noteq> [] \<longleftrightarrow> isShadowedPath p"
  by (simp add: execDirOf_eq isShadowedPath_def)

lemma find_Some_holds: "find P xs = Some x \<Longrightarrow> P x \<and> x \<in> set xs"
  by (auto simp: find_Some_iff)

text \<open>
  Nothing is lost or duplicated by the split: a file is staged through tmpfs exactly
  when its path is under one of the four executable directories, both parts keep their order, and
  the directory the size check charges it to is one of the four.
\<close>

theorem splitShadowedFiles_partition:
  "splitShadowedFiles fs = (shadowed, normal) \<Longrightarrow>
   shadowed = filter (\<lambda>f. execDirOf (xf_Path f) \<noteq> []) fs \<and>
   normal = filter (\<lambda>f. execDirOf (xf_Path f) = []) fs \<and>
   (\<forall>f \<in> set shadowed. execDirOf (xf_Path f) \<in> set exec_dirs)"
proof -
  have dirs: "execDirOf p \<noteq> [] \<longrightarrow> execDirOf p \<in> set exec_dirs" for p
    by (simp add: execDirOf_eq exec_dirs_def)
  assume "splitShadowedFiles fs = (shadowed, normal)"
  with dirs show ?thesis
    by (auto simp: splitShadowedFiles_filter execDirOf_shadowed [symmetric])
qed

theorem splitShadowedFiles_partition_witness:
  "fst (splitShadowedFiles [\<lparr> xf_Path = ''/usr/bin/app'', xf_Perm = 0, xf_Data = [] \<rparr>,
      \<lparr> xf_Path = ''etc/app.conf'', xf_Perm = 0, xf_Data = [] \<rparr>]) =
   [\<lparr> xf_Path = ''/usr/bin/app'', xf_Perm = 0, xf_Data = [] \<rparr>]"
proof -
  let ?fs = "[\<lparr> xf_Path = ''/usr/bin/app'', xf_Perm = 0, xf_Data = [] \<rparr>,
      \<lparr> xf_Path = ''etc/app.conf'', xf_Perm = 0, xf_Data = [] \<rparr>]"
  have "execDirOf ''/usr/bin/app'' = ''usr/bin''" "execDirOf ''etc/app.conf'' = []" by code_simp+
  with splitShadowedFiles_partition [OF surjective_pairing [of "splitShadowedFiles ?fs"]]
  show ?thesis by simp
qed

text \<open>What the size check promises, as long as the size in bytes fits an int64.\<close>

text \<open>
  The tmpfs check is exact: it passes precisely when the declared size parses and,
  in each of the four tmpfs directories, the bytes staged there (BusyBox counted in /bin) fit it.
\<close>

theorem tmpfs_check_exact:
  "checkShadowedFilesFitTmpfs shadowed busybox tmpfsSize = Inr () \<longleftrightarrow>
   (\<exists>limit. parseTmpfsSizeBytes tmpfsSize = Some limit \<and>
      list_all (\<lambda>dir. dir_total shadowed busybox dir \<le> limit) exec_dirs)"
  unfolding checkShadowedFilesFitTmpfs_def
  by (auto split: option.splits simp: find_None_iff list_all_iff not_less not_le dest!: find_Some_holds)

lemma perm_secret: "f \<in> set (generated_extra spec) \<Longrightarrow> xf_Perm f = 384"
  by (auto simp: generated_extra_def service_script_def split: option.splits if_splits)

lemma generated_extra_shadowed: "f \<in> set (generated_extra spec) \<Longrightarrow> isShadowedPath (xf_Path f)"
  by (auto simp: generated_extra_def service_script_def supervisorScriptPath_def agentScriptPath_def
      isShadowedPath_def trimLeadingSlash_def go_trim_prefix_def go_has_prefix_iff
      split: option.splits if_splits)

text \<open>
  Property C4. Secrets are staged where a mode holds: every supervisor script (it carries the
  ENV values) and the agent script (its token) goes through stage 1's tmpfs, never into the
  world-readable root, and the init script gives it mode 600 before the real root is entered.
\<close>

theorem secrets_staged_0600:
  assumes "f \<in> set (generated_extra spec)"
    and "image_files spec = (shadowed, normal)"
    and "SwitchRoot \<in> set (run_staging ok (staging_commands shadowed))"
  shows "f \<in> set shadowed \<and>
    Did (''chmod 600 '' @ shQuote (''/mnt/root/'' @ trimLeadingSlash (xf_Path f)))
      \<in> set (run_staging ok (staging_commands shadowed)) \<and>
    (\<forall>g \<in> set normal. xf_Path g \<noteq> xf_Path f)"
proof -
  have split: "shadowed = filter (\<lambda>f. isShadowedPath (xf_Path f)) (ps_ExtraFiles spec @ generated_extra spec) @
        generated_shadowed spec"
      "normal = filter (\<lambda>f. \<not> isShadowedPath (xf_Path f)) (ps_ExtraFiles spec @ generated_extra spec)"
    using assms(2) by (auto simp: image_files_def splitShadowedFiles_filter)
  have f: "f \<in> set shadowed" and sp: "isShadowedPath (xf_Path f)"
    using assms(1) by (auto simp: split generated_extra_shadowed)
  have oct: "nat_oct 384 = ''600''" by code_simp
  have "(''chmod 600 '' @ shQuote (''/mnt/root/'' @ trimLeadingSlash (xf_Path f)), trimLeadingSlash (xf_Path f))
      \<in> set (stage_file f)"
    by (simp add: stage_file_def Let_def perm_secret [OF assms(1)] oct)
  then have "(''chmod 600 '' @ shQuote (''/mnt/root/'' @ trimLeadingSlash (xf_Path f)), trimLeadingSlash (xf_Path f))
      \<in> set (staging_commands shadowed)"
    using f by (auto simp: staging_commands_def)
  moreover have "\<forall>c \<in> set (staging_commands shadowed). ok (fst c)"
    using assms(3) by (simp only: run_staging_switch)
  ultimately have "Did (''chmod 600 '' @ shQuote (''/mnt/root/'' @ trimLeadingSlash (xf_Path f)))
      \<in> set (run_staging ok (staging_commands shadowed))"
    by (force simp: run_staging_all)
  with f sp split show ?thesis by auto
qed

theorem secrets_staged_0600_witness:
  "Did (sh ''chmod 600 ^/mnt/root/usr/sbin/cnimbus-svc-entrypoint.sh^'')
     \<in> set (run_staging (\<lambda>c. True) (staging_commands (fst (image_files spec_example))))"
proof -
  let ?f = "service_script spec_example \<lparr> svc_Name = ''entrypoint'', svc_Argv = [''/usr/bin/app''], svc_Restart = ''always'' \<rparr>"
  have f: "?f \<in> set (generated_extra spec_example)"
    by (simp add: generated_extra_def spec_example_def)
  have sw: "SwitchRoot \<in> set (run_staging (\<lambda>c. True) (staging_commands (fst (image_files spec_example))))"
    by (simp add: run_staging_switch)
  have path: "''chmod 600 '' @ shQuote (''/mnt/root/'' @ trimLeadingSlash (supervisorScriptPath ''entrypoint'')) =
      sh ''chmod 600 ^/mnt/root/usr/sbin/cnimbus-svc-entrypoint.sh^''"
    by code_simp
  from secrets_staged_0600 [OF f surjective_pairing sw] path show ?thesis
    by (simp add: service_script_def)
qed

end
