(* ===== verification/Copies.thy ===== *)
theory Copies
  imports Go_Path Rootfs_Types
begin

text \<open>
  Expanding COPY and ADD (cmd/cnimbus/build.go, lines 647 to 851): which files of the host end up at
  which path of the image, with which mode, and the check that keeps a tar archive inside its
  destination.

  The host is a record of what it answers: globbing, stat, reading, walking a directory, an HTTP
  request, and the tar and gzip readers. A walk is the entries visited, a path and whether it is a
  directory, \<^verbatim>\<open>None\<close> standing for an error handed to the callback.
\<close>

datatype tar_event =
    TarReg string int "string option"
  | TarDir string
  | TarOther string
  | TarError

record host =
  h_glob :: "string \<Rightarrow> string list option"
  h_stat :: "string \<Rightarrow> bool option"
  h_read :: "string \<Rightarrow> string option"
  h_walk :: "string \<Rightarrow> (string \<times> bool) option list"
  h_get :: "string \<Rightarrow> (nat \<times> string option) option"
  h_gunzip :: "string \<Rightarrow> string option"
  h_untar :: "string \<Rightarrow> tar_event list"

datatype copy_error =
    CopyFromURL string
  | FetchFailed string
  | FetchStatus string nat
  | ArchiveUnreadable string
  | ArchiveEscapes string string
  | BadGlob string
  | NoMatch string
  | StatFailed string
  | ReadFailed string
  | WalkFailed string
  | InAdd string copy_error

section \<open>Paths\<close>

fun strip_common :: "string list \<Rightarrow> string list \<Rightarrow> string list \<times> string list" where
  "strip_common (b # bs) (t # ts) = (if b = t then strip_common bs ts else (b # bs, t # ts))"
| "strip_common bs ts = (bs, ts)"

text \<open>\<^verbatim>\<open>filepath.Rel\<close> of a path that a walk of the base visits.\<close>

definition go_rel :: "string \<Rightarrow> string \<Rightarrow> string option" where
  "go_rel base targ =
     (if path_rooted base \<noteq> path_rooted targ then None
      else case strip_common (clean_comps (path_rooted base) [] (go_split (CHR ''/'') base))
                             (clean_comps (path_rooted targ) [] (go_split (CHR ''/'') targ)) of
             ([], []) \<Rightarrow> Some ''.''
           | ([], ts) \<Rightarrow> Some (go_join ts ''/'')
           | (b # bs, ts) \<Rightarrow>
               if b = ''..'' then None else Some (go_join (replicate (Suc (length bs)) ''..'' @ ts) ''/''))"

definition safeImagePath :: "string \<Rightarrow> string \<Rightarrow> string option" where
  "safeImagePath destPrefix n =
     (let joined = go_clean (destPrefix @ ''/'' @ n); prefix = go_clean destPrefix
      in if joined \<noteq> prefix \<and> \<not> go_has_prefix joined (prefix @ ''/'') then None else Some joined)"

definition isTarball :: "string \<Rightarrow> bool" where
  "isTarball n \<longleftrightarrow> go_has_suffix n ''.tar'' \<or> go_has_suffix n ''.tar.gz'' \<or> go_has_suffix n ''.tgz''"

section \<open>Sources\<close>

definition fetchURL :: "host \<Rightarrow> string \<Rightarrow> copy_error + string" where
  "fetchURL h url =
     (case h_get h url of
        None \<Rightarrow> Inl (FetchFailed url)
      | Some (status, body) \<Rightarrow>
          if status \<noteq> 200 then Inl (FetchStatus url status)
          else case body of None \<Rightarrow> Inl (FetchFailed url) | Some data \<Rightarrow> Inr data)"

fun tar_files :: "string \<Rightarrow> string \<Rightarrow> tar_event list \<Rightarrow> copy_error + ExtraFile list" where
  "tar_files p destPrefix [] = Inr []"
| "tar_files p destPrefix (TarError # es) = Inl (ArchiveUnreadable p)"
| "tar_files p destPrefix (TarDir n # es) = tar_files p destPrefix es"
| "tar_files p destPrefix (TarOther n # es) = tar_files p destPrefix es"
| "tar_files p destPrefix (TarReg n mode data # es) =
     (case safeImagePath destPrefix n of
        None \<Rightarrow> Inl (ArchiveEscapes p n)
      | Some imgPath \<Rightarrow>
          (case data of
             None \<Rightarrow> Inl (ArchiveUnreadable p)
           | Some d \<Rightarrow>
               bindE (tar_files p destPrefix es) (\<lambda>fs.
               Inr (\<lparr> xf_Path = imgPath, xf_Perm = nat (mode mod 512), xf_Data = d \<rparr> # fs))))"

definition extractLocalTarball :: "host \<Rightarrow> string \<Rightarrow> string \<Rightarrow> copy_error + ExtraFile list" where
  "extractLocalTarball h p destPrefix =
     (case h_read h p of
        None \<Rightarrow> Inl (ArchiveUnreadable p)
      | Some bytes \<Rightarrow>
          if go_has_suffix p ''.gz'' \<or> go_has_suffix p ''.tgz''
          then (case h_gunzip h bytes of
                  None \<Rightarrow> Inl (ArchiveUnreadable p)
                | Some r \<Rightarrow> tar_files p destPrefix (h_untar h r))
          else tar_files p destPrefix (h_untar h bytes))"

fun walk_files :: "host \<Rightarrow> string \<Rightarrow> string \<Rightarrow> nat \<Rightarrow> (string \<times> bool) option list \<Rightarrow> copy_error + ExtraFile list" where
  "walk_files h dir dest perm [] = Inr []"
| "walk_files h dir dest perm (None # es) = Inl (WalkFailed dir)"
| "walk_files h dir dest perm (Some (p, isDir) # es) =
     (if isDir then walk_files h dir dest perm es
      else case go_rel dir p of
             None \<Rightarrow> Inl (WalkFailed dir)
           | Some rel \<Rightarrow>
               (case h_read h p of
                  None \<Rightarrow> Inl (WalkFailed dir)
                | Some data \<Rightarrow>
                    bindE (walk_files h dir dest perm es) (\<lambda>fs.
                    Inr (\<lparr> xf_Path = dest @ ''/'' @ rel, xf_Perm = perm, xf_Data = data \<rparr> # fs))))"

definition walkLocalDir :: "host \<Rightarrow> string \<Rightarrow> string \<Rightarrow> nat \<Rightarrow> copy_error + ExtraFile list" where
  "walkLocalDir h dir dest perm = walk_files h dir dest perm (h_walk h dir)"

definition local_matches :: "host \<Rightarrow> string \<Rightarrow> string \<Rightarrow> copy_error + string list" where
  "local_matches h baseDir src =
     (let pattern = go_path_join [baseDir, src] in
      if go_contains_any src ''*?['' then
        (case h_glob h pattern of
           None \<Rightarrow> Inl (BadGlob src)
         | Some ms \<Rightarrow> if ms = [] then Inl (NoMatch src) else Inr ms)
      else Inr [pattern])"

definition local_match_files ::
  "host \<Rightarrow> string \<Rightarrow> string \<Rightarrow> nat \<Rightarrow> bool \<Rightarrow> string \<Rightarrow> copy_error + ExtraFile list" where
  "local_match_files h src dest perm asDirPrefix m =
     (case h_stat h m of
        None \<Rightarrow> Inl (StatFailed src)
      | Some isDir \<Rightarrow>
          if isDir then walkLocalDir h m dest perm
          else case h_read h m of
                 None \<Rightarrow> Inl (ReadFailed src)
               | Some data \<Rightarrow>
                   Inr [\<lparr> xf_Path = (if asDirPrefix then dest @ ''/'' @ go_base m else dest),
                          xf_Perm = perm, xf_Data = data \<rparr>])"

definition resolveLocalCopy ::
  "host \<Rightarrow> string \<Rightarrow> string \<Rightarrow> string \<Rightarrow> nat \<Rightarrow> bool \<Rightarrow> copy_error + ExtraFile list" where
  "resolveLocalCopy h baseDir src dest perm destIsDir =
     bindE (local_matches h baseDir src) (\<lambda>ms.
     bindE (mapE (local_match_files h src dest perm (1 < length ms \<or> destIsDir)) ms) (\<lambda>fss.
     Inr (concat fss)))"

section \<open>One directive, and all\<close>

definition copy_dest :: "string \<Rightarrow> string" where
  "copy_dest d = go_trim_suffix (go_trim_prefix d ''/'') ''/''"

definition copy_perm :: "CopyOp \<Rightarrow> nat" where
  "copy_perm c = (if co_Chmod c \<noteq> 0 then co_Chmod c else 493)"

definition resolve_copy :: "host \<Rightarrow> string \<Rightarrow> CopyOp \<Rightarrow> copy_error + ExtraFile list" where
  "resolve_copy h baseDir c =
     (let dest = copy_dest (co_Dest c) in
      if co_IsURL c then
        (if \<not> co_IsAdd c then Inl (CopyFromURL (co_Src c))
         else bindE (fetchURL h (co_Src c)) (\<lambda>data.
              Inr [\<lparr> xf_Path = dest, xf_Perm = copy_perm c, xf_Data = data \<rparr>]))
      else if co_IsAdd c \<and> isTarball (co_Src c) then
        bindE (wrapE (InAdd (co_Src c)) (extractLocalTarball h (go_path_join [baseDir, co_Src c]) dest)) (\<lambda>entries.
        Inr (if co_Chmod c \<noteq> 0 then map (\<lambda>f. f \<lparr> xf_Perm := co_Chmod c \<rparr>) entries else entries))
      else resolveLocalCopy h baseDir (co_Src c) dest (copy_perm c) (go_has_suffix (co_Dest c) ''/''))"

definition resolveCopies :: "host \<Rightarrow> Nimbusfile \<Rightarrow> copy_error + ExtraFile list" where
  "resolveCopies h hf =
     bindE (mapE (resolve_copy h (nf_BaseDir hf)) (nf_Copies hf)) (\<lambda>fss. Inr (concat fss))"

section \<open>The shape of a cleaned path\<close>

definition clean_shape :: "bool \<Rightarrow> string list \<Rightarrow> bool" where
  "clean_shape rooted cs \<longleftrightarrow>
     (\<exists>k names. cs = replicate k ''..'' @ names \<and> (\<forall>n \<in> set names. plain_name n) \<and> (rooted \<longrightarrow> k = 0))"

lemma clean_shape_snoc: "clean_shape r cs \<Longrightarrow> plain_name c \<Longrightarrow> clean_shape r (cs @ [c])"
  by (fastforce simp: clean_shape_def)

lemma clean_shape_butlast: "clean_shape r (cs @ [c]) \<Longrightarrow> clean_shape r cs"
  unfolding clean_shape_def
proof (elim exE conjE)
  fix k names
  assume *: "cs @ [c] = replicate k ''..'' @ names" "\<forall>n \<in> set names. plain_name n" "r \<longrightarrow> k = 0"
  show "\<exists>k names. cs = replicate k ''..'' @ names \<and> (\<forall>n \<in> set names. plain_name n) \<and> (r \<longrightarrow> k = 0)"
  proof (cases "names = []")
    case True
    with * obtain k' where "k = Suc k'" by (cases k) auto
    with * True have "cs = replicate k' ''..''" by (simp add: replicate_append_same [symmetric])
    with * \<open>k = Suc k'\<close> show ?thesis by (intro exI [of _ k'] exI [of _ "[]"]) auto
  next
    case False
    with *(1) have "cs = replicate k ''..'' @ butlast names"
      by (metis butlast_append butlast_snoc)
    with * show ?thesis by (metis in_set_butlastD)
  qed
qed

lemma clean_shape_dotdot: "clean_shape r (cs @ [''..'']) \<Longrightarrow> clean_shape r (cs @ [''..'', ''..''])"
  unfolding clean_shape_def
proof (elim exE conjE)
  fix k names
  assume *: "cs @ [''..''] = replicate k ''..'' @ names" "\<forall>n \<in> set names. plain_name n" "r \<longrightarrow> k = 0"
  have "names = []"
  proof (rule ccontr)
    assume "names \<noteq> []"
    with *(1) have "last names = ''..''" by (metis last_appendR last_snoc)
    with *(2) \<open>names \<noteq> []\<close> show False by (metis last_in_set plain_name_def)
  qed
  with *(1) have k: "cs @ [''..''] = replicate k ''..''" by simp
  then have "k \<noteq> 0" by (cases k) auto
  have "cs @ [''..'', ''..''] = (cs @ [''..'']) @ [''..'']" by simp
  also have "\<dots> = replicate (Suc k) ''..''" by (simp only: k replicate_append_same replicate_Suc)
  finally have "cs @ [''..'', ''..''] = replicate (Suc k) ''..''" .
  note this \<open>k \<noteq> 0\<close>
  with *(3) show "\<exists>k names. cs @ [''..'', ''..''] = replicate k ''..'' @ names \<and> (\<forall>n \<in> set names. plain_name n) \<and> (r \<longrightarrow> k = 0)"
    by (intro exI [of _ "Suc k"] exI [of _ "[]"]) auto
qed

lemma clean_shape_Nil [simp]: "clean_shape r []"
  by (auto simp: clean_shape_def)

lemma clean_shape_one: "clean_shape False [''..'']"
  unfolding clean_shape_def by (intro exI [of _ 1] exI [of _ "[]"]) auto

lemma clean_comps_shape:
  "clean_shape r (rev out) \<Longrightarrow> \<forall>c \<in> set cs. CHR ''/'' \<notin> set c \<Longrightarrow> clean_shape r (clean_comps r out cs)"
proof (induction r out cs rule: clean_comps.induct)
  case (1 rooted out)
  then show ?case by simp
next
  case (2 rooted out c cs)
  consider "c = [] \<or> c = ''.''" | "c = ''..''" "out = []" | o1 os where "c = ''..''" "out = o1 # os"
    | "c \<noteq> []" "c \<noteq> ''.''" "c \<noteq> ''..''"
    by (cases out) auto
  then show ?case
  proof cases
    case 1
    with 2 show ?thesis by auto
  next
    case 2
    then show ?thesis
      using "2.IH"(2) "2.prems" by (cases rooted) (simp_all add: clean_shape_one)
  next
    case 3
    then show ?thesis
      using "2.IH"(3,4) "2.prems" clean_shape_dotdot [of rooted "rev os"] clean_shape_butlast [of rooted "rev os" o1]
      by auto
  next
    case 4
    with "2.prems" have "clean_shape rooted (rev out @ [c])"
      by (intro clean_shape_snoc) (auto simp: plain_name_def)
    with 4 2 show ?thesis by simp
  qed
qed

lemma clean_shape_mem: "clean_shape r cs \<Longrightarrow> c \<in> set cs \<Longrightarrow> c = ''..'' \<or> plain_name c"
  unfolding clean_shape_def by (elim exE conjE) (simp add: set_replicate_conv_if split: if_splits, blast+)

lemma clean_shape_slash: "clean_shape r cs \<Longrightarrow> c \<in> set cs \<Longrightarrow> CHR ''/'' \<notin> set c"
  by (drule (1) clean_shape_mem, elim disjE) (simp_all add: plain_name_def)

lemma clean_shape_nonempty: "clean_shape r cs \<Longrightarrow> [] \<notin> set cs"
  using clean_shape_mem [of r cs "[]"] by (auto simp: plain_name_def)

lemma go_split_append_general: "go_split c (s @ c # t) = go_split c s @ go_split c t"
  by (induction s) (auto split: list.splits)

text \<open>The components of a cleaned path.\<close>

lemma go_clean_components:
  obtains cs where "clean_shape (path_rooted p) cs"
    and "go_split (CHR ''/'') (go_clean p) =
      (if path_rooted p then [] # (if cs = [] then [[]] else cs) else if cs = [] then [''.''] else cs)"
proof -
  define cs where "cs = clean_comps (path_rooted p) [] (go_split (CHR ''/'') p)"
  have "\<forall>c \<in> set (go_split (CHR ''/'') p). CHR ''/'' \<notin> set c" by (auto dest: go_split_no_sep)
  then have sh: "clean_shape (path_rooted p) cs" unfolding cs_def by (intro clean_comps_shape) auto
  have j: "cs \<noteq> [] \<longrightarrow> go_split (CHR ''/'') (go_join cs ''/'') = cs"
    using go_split_join [of cs "CHR ''/''"] clean_shape_slash [OF sh] by blast
  have c: "go_clean p = (if path_rooted p then CHR ''/'' # go_join cs ''/''
      else if cs = [] then ''.'' else go_join cs ''/'')"
    by (simp only: go_clean_def Let_def cs_def)
  have "go_split (CHR ''/'') (go_clean p) =
      (if path_rooted p then [] # (if cs = [] then [[]] else cs) else if cs = [] then [''.''] else cs)"
  proof (cases "cs = []")
    case True
    then show ?thesis unfolding c by simp
  next
    case False
    with j show ?thesis unfolding c by simp
  qed
  with sh show ?thesis by (rule that)
qed

section \<open>Archives stay inside\<close>

text \<open>A path at or below a cleaned destination, reached through ordinary names only.\<close>

definition below :: "string \<Rightarrow> string \<Rightarrow> bool" where
  "below dest p \<longleftrightarrow>
     p = go_clean dest \<or>
     (\<exists>rest. p = go_clean dest @ CHR ''/'' # rest \<and> (\<forall>c \<in> set (go_split (CHR ''/'') rest). plain_name c))"

definition no_dotdot :: "string \<Rightarrow> bool" where
  "no_dotdot dest \<longleftrightarrow> ''..'' \<notin> set (go_split (CHR ''/'') (go_clean dest))"

lemma go_clean_suffix_plain:
  assumes "go_clean q = pre @ CHR ''/'' # rest" and "''..'' \<notin> set (go_split (CHR ''/'') pre)" and "pre \<noteq> [] \<or> rest \<noteq> []"
  shows "\<forall>c \<in> set (go_split (CHR ''/'') rest). plain_name c"
proof -
  obtain cs where sh: "clean_shape (path_rooted q) cs"
    and eq: "go_split (CHR ''/'') (go_clean q) =
      (if path_rooted q then [] # (if cs = [] then [[]] else cs) else if cs = [] then [''.''] else cs)"
    by (rule go_clean_components)
  have sp: "go_split (CHR ''/'') pre @ go_split (CHR ''/'') rest =
      (if path_rooted q then [] # (if cs = [] then [[]] else cs) else if cs = [] then [''.''] else cs)"
    using eq by (simp add: assms(1) go_split_append_general)
  obtain h t where ht: "go_split (CHR ''/'') pre = h # t" by (metis go_split_nonempty neq_Nil_conv)
  from sh obtain k names where cs: "cs = replicate k ''..'' @ names" "\<forall>n \<in> set names. plain_name n"
      "path_rooted q \<longrightarrow> k = 0"
    by (auto simp: clean_shape_def)
  have rest: "go_split (CHR ''/'') rest \<noteq> []" by simp
  show ?thesis
  proof (cases "cs = []")
    case True
    with sp ht rest have "h = [] \<and> t = [] \<and> go_split (CHR ''/'') rest = [[]]"
      by (cases t) (auto split: if_splits)
    with ht have "pre = []" "rest = []"
      by (metis go_join_split go_join.simps(2))+
    with assms(3) show ?thesis by simp
  next
    case False
    have "k = 0"
    proof (cases "path_rooted q")
      case True
      with cs(3) show ?thesis by simp
    next
      case unrooted: False
      with sp ht False cs(1) have "h # t @ go_split (CHR ''/'') rest = replicate k ''..'' @ names" by simp
      moreover have "h \<noteq> ''..''" using assms(2) ht by auto
      ultimately show ?thesis by (cases k) auto
    qed
    with cs(1) have cn: "cs = names" by simp
    have "(h # t) @ go_split (CHR ''/'') rest = (if path_rooted q then [] # names else names)"
      using sp False by (simp add: ht cn)
    then have "set (go_split (CHR ''/'') rest) \<subseteq> set names"
      by (cases "path_rooted q") (auto simp del: append_Cons simp: append_eq_Cons_conv Cons_eq_append_conv)
    with cs(2) show ?thesis by blast
  qed
qed

lemma go_clean_nonempty: "go_clean p \<noteq> []"
proof
  assume *: "go_clean p = []"
  obtain cs where sh: "clean_shape (path_rooted p) cs"
    and eq: "go_split (CHR ''/'') (go_clean p) =
      (if path_rooted p then [] # (if cs = [] then [[]] else cs) else if cs = [] then [''.''] else cs)"
    by (rule go_clean_components)
  have "[] \<notin> set cs" by (rule clean_shape_nonempty [OF sh])
  moreover have "[[]] = (if path_rooted p then [] # (if cs = [] then [[]] else cs) else if cs = [] then [''.''] else cs)"
    using eq by (simp only: * go_split.simps)
  ultimately show False by (cases "cs = []"; cases "path_rooted p") (auto simp: neq_Nil_conv)
qed

lemma safeImagePath_below:
  assumes "safeImagePath dest n = Some p" and "no_dotdot dest"
  shows "below dest p"
proof -
  have p: "p = go_clean (dest @ ''/'' @ n)" and c: "p = go_clean dest \<or> go_has_prefix p (go_clean dest @ ''/'')"
    using assms(1) by (auto simp: safeImagePath_def Let_def split: if_splits)
  show ?thesis
  proof (cases "p = go_clean dest")
    case True
    then show ?thesis by (simp add: below_def)
  next
    case False
    with c obtain rest where r: "p = go_clean dest @ CHR ''/'' # rest"
      by (auto simp: go_has_prefix_iff)
    have "\<forall>c \<in> set (go_split (CHR ''/'') rest). plain_name c"
      using assms(2) by (intro go_clean_suffix_plain [of "dest @ ''/'' @ n" "go_clean dest" rest])
        (simp_all only: p [symmetric] r no_dotdot_def go_clean_nonempty simp_thms not_False_eq_True)
    with r show ?thesis by (auto simp: below_def)
  qed
qed

lemma tar_files_below:
  "tar_files p dest evs = Inr fs \<Longrightarrow> no_dotdot dest \<Longrightarrow> f \<in> set fs \<Longrightarrow> below dest (xf_Path f) \<and> xf_Perm f < 512"
proof (induction p dest evs arbitrary: fs rule: tar_files.induct)
  case (5 p dest n mode data es)
  from "5.prems"(1) obtain q d gs where q: "safeImagePath dest n = Some q" and d: "data = Some d"
    and gs: "tar_files p dest es = Inr gs"
    and fs: "fs = \<lparr> xf_Path = q, xf_Perm = nat (mode mod 512), xf_Data = d \<rparr> # gs"
    by (auto simp: bindE_Inr_iff split: option.splits)
  show ?case
  proof (cases "f \<in> set gs")
    case True
    with 5 q d gs show ?thesis by blast
  next
    case False
    with "5.prems"(3) fs have f: "f = \<lparr> xf_Path = q, xf_Perm = nat (mode mod 512), xf_Data = d \<rparr>" by simp
    have "nat (mode mod 512) < 512" by (simp add: nat_less_iff)
    with safeImagePath_below [OF q "5.prems"(2)] show ?thesis by (simp add: f)
  qed
qed auto

lemma extractLocalTarball_events:
  "extractLocalTarball h p dest = Inr fs \<Longrightarrow> \<exists>evs. tar_files p dest evs = Inr fs"
  by (auto simp: extractLocalTarball_def split: option.splits if_splits)


definition example_host :: host where
  "example_host = \<lparr> h_glob = (\<lambda>p. Some []), h_stat = (\<lambda>p. Some False), h_read = (\<lambda>p. Some ''bytes''),
     h_walk = (\<lambda>d. []), h_get = (\<lambda>u. Some (404, None)), h_gunzip = Some,
     h_untar = (\<lambda>b. [TarDir ''etc/'', TarReg ''etc/../bin/app'' 2541 (Some ''ELF'')]) \<rparr>"


lemma safeImagePath_root: "safeImagePath [] n = None"
proof -
  have r: "path_rooted (''/'' @ n)" by simp
  then have j: "go_clean ([] @ ''/'' @ n) = CHR ''/'' # go_join (clean_comps True [] (go_split (CHR ''/'') (''/'' @ n))) ''/''"
    by (simp add: go_clean_def Let_def)
  have p: "go_clean [] = ''.''" by (simp add: go_clean_def Let_def)
  show ?thesis
    unfolding safeImagePath_def Let_def j p by (simp add: go_has_prefix_def)
qed

lemma tar_files_root: "tar_files p [] evs = Inr fs \<Longrightarrow> fs = [] \<and> (\<forall>n mode d. TarReg n mode d \<notin> set evs)"
  by (induction p "[] :: string" evs arbitrary: fs rule: tar_files.induct) (auto simp: safeImagePath_root)

text \<open>
  An archive can never be unpacked at the root of the image: the cleaned empty
  destination is a dot, no path passes the check, and as soon as the archive holds a regular file
  before anything unreadable the ADD fails.
\<close>

theorem add_archive_to_root_fails:
  assumes "co_IsAdd c" and "\<not> co_IsURL c" and "isTarball (co_Src c)" and "co_Dest c = ''/''"
    and "\<And>b. h_untar h b = evs" and "TarReg n mode d \<in> set evs"
  shows "\<exists>e. resolve_copy h base c = Inl e"
proof -
  have dest: "copy_dest (co_Dest c) = []"
    by (simp add: assms(4) copy_dest_def go_trim_prefix_def go_trim_suffix_def go_has_prefix_def go_has_suffix_def)
  have "tar_files p [] evs \<noteq> Inr fs" for p fs
    using tar_files_root [of p evs fs] assms(6) by blast
  then have "extractLocalTarball h p [] \<noteq> Inr fs" for p fs
    by (auto simp: extractLocalTarball_def assms(5) split: option.splits if_splits)
  then have "\<exists>e. extractLocalTarball h p [] = Inl e" for p
    by (cases "extractLocalTarball h p []") auto
  then obtain e where "extractLocalTarball h (go_path_join [base, co_Src c]) [] = Inl e" by blast
  then show ?thesis
    using assms(1-3) by (simp add: resolve_copy_def dest)
qed

theorem add_archive_to_root_fails_witness:
  "let c = (\<lambda>dest. \<lparr> co_Src = ''a.tar'', co_Dest = dest, co_IsURL = False, co_IsAdd = True, co_Chmod = 0 \<rparr>) in
   (\<exists>e. resolve_copy example_host ''/src'' (c ''/'') = Inl e) \<and>
   resolve_copy example_host ''/src'' (c ''/opt/'') = Inr [\<lparr> xf_Path = ''opt/bin/app'', xf_Perm = 493, xf_Data = ''ELF'' \<rparr>]"
proof -
  let ?c = "\<lambda>dest. \<lparr> co_Src = ''a.tar'', co_Dest = dest, co_IsURL = False, co_IsAdd = True, co_Chmod = 0 \<rparr>"
  have t: "isTarball ''a.tar''" by code_simp
  have "\<exists>e. resolve_copy example_host ''/src'' (?c ''/'') = Inl e"
    by (rule add_archive_to_root_fails [where n = "''etc/../bin/app''" and mode = 2541 and d = "Some ''ELF''" and
        evs = "[TarDir ''etc/'', TarReg ''etc/../bin/app'' 2541 (Some ''ELF'')]"])
      (simp_all add: t example_host_def)
  moreover have "resolve_copy example_host ''/src'' (?c ''/opt/'') = Inr [\<lparr> xf_Path = ''opt/bin/app'', xf_Perm = 493, xf_Data = ''ELF'' \<rparr>]"
    by code_simp
  ultimately show ?thesis by (simp only: Let_def simp_thms)
qed

section \<open>Modes and order\<close>

lemma walk_files_perm: "walk_files h dir dest perm evs = Inr fs \<Longrightarrow> f \<in> set fs \<Longrightarrow> xf_Perm f = perm"
  by (induction h dir dest perm evs arbitrary: fs rule: walk_files.induct)
    (auto simp: bindE_Inr_iff split: if_splits option.splits)

lemma local_match_files_perm:
  "local_match_files h src dest perm b m = Inr fs \<Longrightarrow> f \<in> set fs \<Longrightarrow> xf_Perm f = perm"
  by (auto simp: local_match_files_def walkLocalDir_def dest: walk_files_perm split: option.splits if_splits)

lemma resolveLocalCopy_perm:
  assumes "resolveLocalCopy h base src dest perm b = Inr fs" and "f \<in> set fs"
  shows "xf_Perm f = perm"
proof -
  obtain ms fss where "mapE (local_match_files h src dest perm (1 < length ms \<or> b)) ms = Inr fss" and "fs = concat fss"
    using assms(1) by (auto simp: resolveLocalCopy_def bindE_Inr_iff)
  with assms(2) show ?thesis by (auto dest!: mapE_Inr_mem local_match_files_perm)
qed

definition copy_mode_ok :: "CopyOp \<Rightarrow> nat \<Rightarrow> bool" where
  "copy_mode_ok c m \<longleftrightarrow>
     (if co_Chmod c \<noteq> 0 then m = co_Chmod c
      else if co_IsAdd c \<and> \<not> co_IsURL c \<and> isTarball (co_Src c) then m < 512 else m = 493)"

lemma tar_files_mode: "tar_files p dest evs = Inr fs \<Longrightarrow> f \<in> set fs \<Longrightarrow> xf_Perm f < 512"
proof (induction p dest evs arbitrary: fs rule: tar_files.induct)
  case (5 p dest n mode data es)
  have "nat (mode mod 512) < 512" by (simp add: nat_less_iff)
  with 5 show ?case by (auto simp: bindE_Inr_iff split: option.splits)
qed auto

lemma resolve_copy_mode:
  assumes "resolve_copy h base c = Inr fs" and "f \<in> set fs"
  shows "copy_mode_ok c (xf_Perm f)"
proof (cases "co_IsAdd c \<and> \<not> co_IsURL c \<and> isTarball (co_Src c)")
  case True
  then obtain es where es: "extractLocalTarball h (go_path_join [base, co_Src c]) (copy_dest (co_Dest c)) = Inr es"
    and fs: "fs = (if co_Chmod c \<noteq> 0 then map (\<lambda>f. f \<lparr> xf_Perm := co_Chmod c \<rparr>) es else es)"
    using assms(1) by (auto simp: resolve_copy_def Let_def bindE_Inr_iff)
  from extractLocalTarball_events [OF es] obtain evs
    where "tar_files (go_path_join [base, co_Src c]) (copy_dest (co_Dest c)) evs = Inr es" by blast
  with tar_files_mode assms(2) show ?thesis
    using True by (auto simp: fs copy_mode_ok_def split: if_splits)
next
  case False
  with assms show ?thesis
    by (auto simp: resolve_copy_def Let_def bindE_Inr_iff copy_mode_ok_def copy_perm_def dest!: resolveLocalCopy_perm
        split: if_splits)
qed

text \<open>
  Every file that COPY and ADD place carries the right mode, and the files stand in
  the order of the directives: an explicit --chmod always wins, an archive entry otherwise keeps its nine
  permission bits, anything else is executable (755).
\<close>

theorem copies_modes:
  assumes "resolveCopies h hf = Inr files"
  shows "\<exists>groups. files = concat groups \<and>
    list_all2 (\<lambda>c fs. resolve_copy h (nf_BaseDir hf) c = Inr fs \<and> (\<forall>f \<in> set fs. copy_mode_ok c (xf_Perm f)))
      (nf_Copies hf) groups"
proof -
  obtain fss where m: "mapE (resolve_copy h (nf_BaseDir hf)) (nf_Copies hf) = Inr fss" and f: "files = concat fss"
    using assms by (auto simp: resolveCopies_def bindE_Inr_iff)
  from mapE_Inr_list_all2 [OF m]
  have "list_all2 (\<lambda>c fs. resolve_copy h (nf_BaseDir hf) c = Inr fs \<and> (\<forall>f \<in> set fs. copy_mode_ok c (xf_Perm f)))
      (nf_Copies hf) fss"
    by (rule list_all2_mono) (auto dest: resolve_copy_mode)
  with f show ?thesis by blast
qed

theorem copies_modes_witness:
  "let hf = default_nimbusfile ''/src'' \<lparr> nf_Copies :=
       [\<lparr> co_Src = ''app'', co_Dest = ''/usr/bin/app'', co_IsURL = False, co_IsAdd = False, co_Chmod = 420 \<rparr>,
        \<lparr> co_Src = ''a.tar'', co_Dest = ''/opt'', co_IsURL = False, co_IsAdd = True, co_Chmod = 0 \<rparr>] \<rparr>
   in map xf_Perm (projr (resolveCopies example_host hf)) = [420, 493] \<and>
      (\<exists>groups. projr (resolveCopies example_host hf) = concat groups \<and> length groups = 2)"
proof -
  let ?hf = "default_nimbusfile ''/src'' \<lparr> nf_Copies :=
       [\<lparr> co_Src = ''app'', co_Dest = ''/usr/bin/app'', co_IsURL = False, co_IsAdd = False, co_Chmod = 420 \<rparr>,
        \<lparr> co_Src = ''a.tar'', co_Dest = ''/opt'', co_IsURL = False, co_IsAdd = True, co_Chmod = 0 \<rparr>] \<rparr>"
  have r: "resolveCopies example_host ?hf = Inr
     [\<lparr> xf_Path = ''usr/bin/app'', xf_Perm = 420, xf_Data = ''bytes'' \<rparr>,
      \<lparr> xf_Path = ''opt/bin/app'', xf_Perm = 493, xf_Data = ''ELF'' \<rparr>]"
    by code_simp
  from copies_modes [OF r] obtain groups where g: "concat groups = projr (resolveCopies example_host ?hf)"
      "length groups = length (nf_Copies ?hf)"
    by (auto simp: r dest!: list_all2_lengthD)
  have "length groups = 2" by (simp add: g(2))
  with g(1) have "\<exists>groups. projr (resolveCopies example_host ?hf) = concat groups \<and> length groups = 2"
    by (intro exI [of _ groups]) (simp only: simp_thms)
  moreover have "map xf_Perm (projr (resolveCopies example_host ?hf)) = [420, 493]"
    unfolding r sum.sel by simp
  ultimately show ?thesis by (simp only: Let_def simp_thms)
qed

end
