(* ===== verification/Go_Bytes.thy ===== *)
theory Go_Bytes
  imports Go_Base Go_Strconv
begin

text \<open>
  Byte slices with their bounds, and the integers of \<^verbatim>\<open>encoding/binary\<close>: little and big endian,
  of any width. Every read or write outside the slice is the value None, where Go panics.
\<close>

section \<open>Slices\<close>

definition slice :: "nat \<Rightarrow> nat \<Rightarrow> string \<Rightarrow> string option" where
  "slice a b data = (if a \<le> b \<and> b \<le> length data then Some (take (b - a) (drop a data)) else None)"

definition overwrite :: "nat \<Rightarrow> string \<Rightarrow> string \<Rightarrow> string option" where
  "overwrite off bs data =
     (if off + length bs \<le> length data
      then Some (take off data @ bs @ drop (off + length bs) data) else None)"

section \<open>Integers\<close>

fun le_bytes :: "nat \<Rightarrow> nat \<Rightarrow> string" where
  "le_bytes 0 n = []"
| "le_bytes (Suc w) n = char_of (n mod 256) # le_bytes w (n div 256)"

fun le_val :: "string \<Rightarrow> nat" where
  "le_val [] = 0"
| "le_val (c # cs) = code c + 256 * le_val cs"

definition be_bytes :: "nat \<Rightarrow> nat \<Rightarrow> string" where
  "be_bytes w n = rev (le_bytes w n)"

definition be_val :: "string \<Rightarrow> nat" where
  "be_val s = le_val (rev s)"

definition get_le :: "nat \<Rightarrow> nat \<Rightarrow> string \<Rightarrow> nat option" where
  "get_le w off data = map_option le_val (slice off (off + w) data)"

definition put_le :: "nat \<Rightarrow> nat \<Rightarrow> nat \<Rightarrow> string \<Rightarrow> string option" where
  "put_le w off n data = overwrite off (le_bytes w n) data"

text \<open>The same without the bounds check, for offsets known to be inside.\<close>

definition le_at :: "nat \<Rightarrow> nat \<Rightarrow> string \<Rightarrow> nat" where
  "le_at w off data = le_val (take w (drop off data))"

definition set_at :: "nat \<Rightarrow> string \<Rightarrow> string \<Rightarrow> string" where
  "set_at off bs data = take off data @ bs @ drop (off + length bs) data"

section \<open>Lemmas\<close>

lemma length_le_bytes [simp]: "length (le_bytes w n) = w"
  by (induction w arbitrary: n) auto

lemma length_be_bytes [simp]: "length (be_bytes w n) = w"
  by (simp add: be_bytes_def)

lemma le_val_le_bytes: "le_val (le_bytes w n) = n mod 256 ^ w"
proof (induction w arbitrary: n)
  case 0
  then show ?case by simp
next
  case (Suc w)
  have "n mod 256 ^ Suc w = n mod 256 + 256 * (n div 256 mod 256 ^ w)"
    using mod_mult2_eq [of n 256 "256 ^ w"] by simp
  with Suc show ?case by simp
qed

lemma le_val_less: "le_val s < 256 ^ length s"
proof (induction s)
  case Nil
  then show ?case by simp
next
  case (Cons c s)
  have "code c + 256 * le_val s < 256 + 256 * le_val s" by simp
  also have "\<dots> = 256 * (le_val s + 1)" by simp
  also have "\<dots> \<le> 256 * 256 ^ length s" using Cons by (intro mult_le_mono2) simp
  finally show ?case by simp
qed

lemma le_bytes_le_val: "le_bytes (length s) (le_val s) = s"
proof (induction s)
  case Nil
  then show ?case by simp
next
  case (Cons c s)
  have "(code c + 256 * le_val s) mod 256 = code c" by simp
  moreover have "(code c + 256 * le_val s) div 256 = le_val s" by simp
  ultimately show ?case using Cons by simp
qed

lemma le_val_mod: "n < 256 ^ w \<Longrightarrow> le_val (le_bytes w n) = n"
  by (simp add: le_val_le_bytes)

lemma be_val_be_bytes: "be_val (be_bytes w n) = n mod 256 ^ w"
  by (simp add: be_val_def be_bytes_def le_val_le_bytes)

lemma slice_Some_iff:
  "slice a b data = Some s \<longleftrightarrow> a \<le> b \<and> b \<le> length data \<and> s = take (b - a) (drop a data)"
  by (auto simp: slice_def)

lemma get_le_Some_iff: "get_le w off data = Some v \<longleftrightarrow> off + w \<le> length data \<and> v = le_at w off data"
  by (auto simp: get_le_def slice_def le_at_def)

lemma get_le_in: "off + w \<le> length data \<Longrightarrow> get_le w off data = Some (le_at w off data)"
  by (simp add: get_le_Some_iff)

lemma put_le_Some_iff:
  "put_le w off n data = Some d \<longleftrightarrow> off + w \<le> length data \<and> d = set_at off (le_bytes w n) data"
  by (auto simp: put_le_def overwrite_def set_at_def)

lemma put_le_in: "off + w \<le> length data \<Longrightarrow> put_le w off n data = Some (set_at off (le_bytes w n) data)"
  by (simp add: put_le_Some_iff)

lemma overwrite_Some_iff:
  "overwrite off bs data = Some d \<longleftrightarrow> off + length bs \<le> length data \<and> d = set_at off bs data"
  by (auto simp: overwrite_def set_at_def)

lemma length_set_at [simp]: "off + length bs \<le> length data \<Longrightarrow> length (set_at off bs data) = length data"
  by (simp add: set_at_def)

text \<open>What a write leaves alone, and what it writes.\<close>

lemma take_drop_set_at_before:
  "off + length bs \<le> length data \<Longrightarrow> a + n \<le> off \<Longrightarrow> take n (drop a (set_at off bs data)) = take n (drop a data)"
  by (simp add: set_at_def take_drop min_def)

lemma take_drop_set_at_after:
  assumes "off + length bs \<le> length data" and "off + length bs \<le> a"
  shows "take n (drop a (set_at off bs data)) = take n (drop a data)"
proof -
  have "drop a (set_at off bs data) = drop a data"
    using assms by (simp add: set_at_def drop_append)
  then show ?thesis by simp
qed

lemma take_drop_set_at_same:
  "off + length bs \<le> length data \<Longrightarrow> take (length bs) (drop off (set_at off bs data)) = bs"
  by (simp add: set_at_def)

lemma le_at_set_at_other:
  "off + length bs \<le> length data \<Longrightarrow> a + w \<le> off \<or> off + length bs \<le> a \<Longrightarrow>
   le_at w a (set_at off bs data) = le_at w a data"
  unfolding le_at_def
  by (metis take_drop_set_at_before take_drop_set_at_after)

lemma le_at_set_at_same:
  "off + w \<le> length data \<Longrightarrow> le_at w off (set_at off (le_bytes w n) data) = n mod 256 ^ w"
  using take_drop_set_at_same [of off "le_bytes w n" data]
  by (simp add: le_at_def le_val_le_bytes)

lemma set_at_twice:
  "length a = length b \<Longrightarrow> off + length a \<le> length d \<Longrightarrow> set_at off a (set_at off b d) = set_at off a d"
  by (cases b) (auto simp: set_at_def min_def)

lemma take_drop_append: "a + n \<le> length d \<Longrightarrow> take n (drop a (d @ e)) = take n (drop a d)"
  by simp

lemma le_at_append: "a + w \<le> length d \<Longrightarrow> le_at w a (d @ e) = le_at w a d"
  by (simp add: le_at_def)

lemma le_at_take: "a + w \<le> n \<Longrightarrow> le_at w a (take n d) = le_at w a d"
  by (simp add: le_at_def take_drop min_def)

lemma le_at_less: "le_at w off data < 256 ^ w"
proof -
  have "le_at w off data < 256 ^ length (take w (drop off data))" unfolding le_at_def by (rule le_val_less)
  also have "\<dots> \<le> 256 ^ w" by (intro power_increasing) auto
  finally show ?thesis .
qed

text \<open>Fixed-width integers are a codec.\<close>

definition read_le :: "nat \<Rightarrow> string \<Rightarrow> (nat \<times> string) option" where
  "read_le w bs = (if length bs < w then None else Some (le_val (take w bs), drop w bs))"

interpretation le32: prefix_codec "le_bytes 4" "read_le 4" "\<lambda>n. n < 2 ^ 32"
  by unfold_locales (simp add: read_le_def le_val_le_bytes)

end
