(* ===== verification/Go_Calls.thy ===== *)
theory Go_Calls
  imports Go_Base
begin

text \<open>
  Sequences of calls on the outside world, each of which may fail. A predicate says which calls
  succeed; a run returns the calls that were made and succeeded, beside its result, and stops at
  the first failure.
\<close>

type_synonym ('op, 'e) run = "'op list \<times> ('e + unit)"

fun run_calls :: "('op \<Rightarrow> 'e) \<Rightarrow> ('op \<Rightarrow> bool) \<Rightarrow> 'op list \<Rightarrow> ('op, 'e) run" where
  "run_calls fail ok [] = ([], Inr ())"
| "run_calls fail ok (p # ps) =
     (if ok p then (let (done, r) = run_calls fail ok ps in (p # done, r)) else ([], Inl (fail p)))"

definition then_calls :: "('op, 'e) run \<Rightarrow> ('op, 'e) run \<Rightarrow> ('op, 'e) run" where
  "then_calls a b = (case snd a of Inl e \<Rightarrow> a | Inr _ \<Rightarrow> (fst a @ fst b, snd b))"

definition stop_with :: "'e \<Rightarrow> ('op, 'e) run" where
  "stop_with e = ([], Inl e)"

text \<open>A deferred call is made whatever the result.\<close>

definition finally_call :: "'op \<Rightarrow> ('op, 'e) run \<Rightarrow> ('op, 'e) run" where
  "finally_call p a = (fst a @ [p], snd a)"

lemma run_calls_Inr: "snd (run_calls fail ok ps) = Inr u \<longleftrightarrow> (\<forall>p \<in> set ps. ok p)"
  by (induction ps) (auto simp: case_prod_unfold Let_def)

lemma fst_run_calls: "snd (run_calls fail ok ps) = Inr () \<Longrightarrow> fst (run_calls fail ok ps) = ps"
  by (induction ps) (auto simp: case_prod_unfold Let_def split: if_splits)

lemma set_run_calls: "set (fst (run_calls fail ok ps)) \<subseteq> set ps"
  by (induction ps) (auto simp: case_prod_unfold Let_def)

lemma snd_then_calls: "snd (then_calls a b) = Inr u \<longleftrightarrow> snd a = Inr () \<and> snd b = Inr u"
  by (auto simp: then_calls_def split: sum.splits)

lemma fst_then_calls: "snd a = Inr () \<Longrightarrow> fst (then_calls a b) = fst a @ fst b"
  by (simp add: then_calls_def)

lemma set_then_calls: "set (fst (then_calls a b)) \<subseteq> set (fst a) \<union> set (fst b)"
  by (auto simp: then_calls_def split: sum.splits)

lemma then_calls_only: "list_all P (fst a) \<Longrightarrow> list_all P (fst b) \<Longrightarrow> list_all P (fst (then_calls a b))"
  by (auto simp: then_calls_def split: sum.splits)

lemma run_calls_only: "list_all P ps \<Longrightarrow> list_all P (fst (run_calls fail ok ps))"
  by (induction ps) (auto simp: case_prod_unfold Let_def)

lemma finally_call_simps [simp]:
  "snd (finally_call p a) = snd a"
  "fst (finally_call p a) = fst a @ [p]"
  by (simp_all add: finally_call_def)

lemma stop_with_simps [simp]: "fst (stop_with e) = []" "snd (stop_with e) = Inl e"
  by (simp_all add: stop_with_def)

lemma run_calls_all: "\<forall>p. ok p \<Longrightarrow> run_calls fail ok ps = (ps, Inr ())"
  by (induction ps) auto

lemma then_calls_pair: "then_calls (a, Inr ()) b = (a @ fst b, snd b)"
  by (simp add: then_calls_def)

text \<open>Facts about a run that succeeded.\<close>

lemmas succeeded = snd_then_calls fst_then_calls fst_run_calls

end
