(* ===== verification/Raw_Image.thy ===== *)
theory Raw_Image
  imports Go_Int Go_Bytes Go_Calls
begin

text \<open>
  The raw disk image (internal/rawimage/rawimage.go): where the EFI system partition and the root
  partition lie, how large the disk is made, and the calls on the disk library in their order. The
  library (go-diskfs) is the predicate \<^verbatim>\<open>ok\<close>, which says of each call whether it succeeds; a run
  returns the calls that were made and succeeded, beside its result.

  Sizes are \<^verbatim>\<open>int64\<close> values and sector numbers \<^verbatim>\<open>uint64\<close> values, kept as integers with the
  wrap-around written out.
\<close>

section \<open>Layout\<close>

record RawImage =
  ri_Arch :: string
  ri_Vmlinuz :: string
  ri_InitramfsImg :: string
  ri_SquashfsImgPath :: string

definition sectorSize :: int where "sectorSize = 512"
definition mibSectors :: int where "mibSectors = 2048"
definition espStartSector :: int where "espStartSector = 4096"
definition espSize :: int where "espSize = 209715200"
definition espContentHeadroom :: int where "espContentHeadroom = 16777216"
definition gptOverhead :: int where "gptOverhead = 3145728"

definition roundUpSectors :: "int \<Rightarrow> int" where
  "roundUpSectors n = u64 (tdiv (wrap64 (n + sectorSize - 1)) sectorSize)"

definition roundUpToMiB :: "int \<Rightarrow> int" where
  "roundUpToMiB sector =
     (let r = sector mod mibSectors in if r = 0 then sector else u64 (sector + (mibSectors - r)))"

definition raw_efiBootFileName :: "string \<Rightarrow> string option" where
  "raw_efiBootFileName a =
     (if a = ''amd64'' then Some ''BOOTX64.EFI'' else if a = ''arm64'' then Some ''BOOTAA64.EFI'' else None)"

record disk_layout =
  dl_espSectors :: int
  dl_rootStart :: int
  dl_rootSectors :: int
  dl_diskSize :: int

definition raw_layout :: "RawImage \<Rightarrow> int \<Rightarrow> disk_layout" where
  "raw_layout img squashfsSize =
     (let content = wrap64 (int (length (ri_Vmlinuz img)) + int (length (ri_InitramfsImg img)) + espContentHeadroom);
          thisEspSize = (if espSize < content then content else espSize);
          espSectors = roundUpSectors thisEspSize;
          rootStartSector = roundUpToMiB (u64 (espStartSector + espSectors));
          rs = roundUpSectors squashfsSize;
          rootSectors = (if rs = 0 then 1 else rs);
          size0 = wrap64 (wrap64 (wrap64 (u64 (rootStartSector + rootSectors)) * sectorSize) + gptOverhead);
          r = tmod size0 (1024 * 1024);
          diskSize = (if r \<noteq> 0 then wrap64 (size0 + (1024 * 1024 - r)) else size0)
      in \<lparr> dl_espSectors = espSectors, dl_rootStart = rootStartSector,
           dl_rootSectors = rootSectors, dl_diskSize = diskSize \<rparr>)"

section \<open>Writing the image\<close>

datatype part_type = EFISystemPartition | LinuxFilesystem

record gpt_partition =
  gp_Index :: nat
  gp_Start :: int
  gp_End :: int
  gp_Type :: part_type
  gp_Name :: string

datatype disk_op =
    RemoveOld string
  | CreateDisk string int
  | WriteGPT "gpt_partition list"
  | FormatESP
  | MkdirESP string
  | OpenESP string
  | WriteESP string string
  | CloseESP string
  | OpenRootSource string
  | OpenRootPartition int int
  | WriteRootAt int string
  | CloseDisk

datatype raw_error = RawArch string | RawStat string | RawFailed disk_op | RawRead string

abbreviation do_ops :: "(disk_op \<Rightarrow> bool) \<Rightarrow> disk_op list \<Rightarrow> (disk_op, raw_error) run" where
  "do_ops \<equiv> run_calls RawFailed"

definition writeESPFile :: "(disk_op \<Rightarrow> bool) \<Rightarrow> string \<Rightarrow> string \<Rightarrow> (disk_op, raw_error) run" where
  "writeESPFile ok pathname data = do_ops ok [OpenESP pathname, WriteESP pathname data, CloseESP pathname]"

text \<open>
  The source file is what its reads return: the chunks in turn, and whether the last read is the
  end of the file or an error. The \<^verbatim>\<open>n\<close> of a chunk is its length, so an empty one is not written.
\<close>

fun root_writes :: "int \<Rightarrow> string list \<Rightarrow> disk_op list" where
  "root_writes written [] = []"
| "root_writes written (c # cs) =
     (if c = [] then root_writes written cs
      else WriteRootAt written c # root_writes (written + int (length c)) cs)"

record source_file =
  sf_size :: int
  sf_chunks :: "string list"
  sf_read_ok :: bool

definition writeRootPartition ::
  "(disk_op \<Rightarrow> bool) \<Rightarrow> int \<Rightarrow> int \<Rightarrow> string \<Rightarrow> source_file \<Rightarrow> (disk_op, raw_error) run" where
  "writeRootPartition ok offset sz srcPath src =
     then_calls (do_ops ok (OpenRootSource srcPath # OpenRootPartition offset sz # root_writes 0 (sf_chunks src)))
       ([], if sf_read_ok src then Inr () else Inl (RawRead srcPath))"

definition raw_partitions :: "disk_layout \<Rightarrow> gpt_partition list" where
  "raw_partitions l =
     [\<lparr> gp_Index = 1, gp_Start = espStartSector, gp_End = u64 (espStartSector + dl_espSectors l - 1),
        gp_Type = EFISystemPartition, gp_Name = ''EFI System'' \<rparr>,
      \<lparr> gp_Index = 2, gp_Start = dl_rootStart l, gp_End = u64 (dl_rootStart l + dl_rootSectors l - 1),
        gp_Type = LinuxFilesystem, gp_Name = ''cnimbus-root'' \<rparr>]"

definition rawimage_Write ::
  "(disk_op \<Rightarrow> bool) \<Rightarrow> (string \<Rightarrow> source_file option) \<Rightarrow> string \<Rightarrow> RawImage \<Rightarrow>
   (disk_op, raw_error) run" where
  "rawimage_Write ok source path img =
     (case raw_efiBootFileName (ri_Arch img) of
        None \<Rightarrow> ([], Inl (RawArch (ri_Arch img)))
      | Some efiBootFile \<Rightarrow>
          (case source (ri_SquashfsImgPath img) of
             None \<Rightarrow> ([], Inl (RawStat (ri_SquashfsImgPath img)))
           | Some src \<Rightarrow>
               (let l = raw_layout img (sf_size src) in
                then_calls (do_ops ok [RemoveOld path, CreateDisk path (dl_diskSize l), WriteGPT (raw_partitions l),
                   FormatESP, MkdirESP ''/EFI'', MkdirESP ''/EFI/BOOT''])
                (then_calls (writeESPFile ok (''/EFI/BOOT/'' @ efiBootFile) (ri_Vmlinuz img))
                (then_calls (writeESPFile ok ''/EFI/BOOT/INITRD.IMG'' (ri_InitramfsImg img))
                (then_calls (writeRootPartition ok (wrap64 (dl_rootStart l * sectorSize)) (wrap64 (dl_rootSectors l * sectorSize))
                   (ri_SquashfsImgPath img) src)
                (do_ops ok [CloseDisk])))))))"

section \<open>The layout\<close>

lemma roundUpSectors_nonneg:
  assumes "0 \<le> n" and "n < 2 ^ 62"
  shows "roundUpSectors n = (n + 511) div 512"
proof -
  have w: "wrap64 (n + 512 - 1) = n + 511" using assms by (subst wrap64_id) auto
  have "0 \<le> (n + 511) div 512" "(n + 511) div 512 < 2 ^ 64" using assms by auto
  then show ?thesis
    using assms unfolding roundUpSectors_def sectorSize_def w by (simp add: tdiv_nonneg u64_id)
qed

lemma roundUpSectors_bounds:
  assumes "0 \<le> n" and "n < 2 ^ 62"
  shows "n \<le> roundUpSectors n * 512" and "roundUpSectors n * 512 < n + 512" and "0 \<le> roundUpSectors n"
  using roundUpSectors_nonneg [OF assms] assms by auto

lemma round_up_int:
  fixes s m :: int
  assumes "0 < m"
  defines "t \<equiv> if s mod m = 0 then s else s + (m - s mod m)"
  shows "s \<le> t" and "t < s + m" and "t mod m = 0"
proof -
  have r: "0 \<le> s mod m" "s mod m < m" using assms by auto
  then show "s \<le> t" "t < s + m" by (auto simp: t_def)
  have "s + (m - s mod m) = m * (s div m + 1)"
    using mult_div_mod_eq [of m s] by (simp add: algebra_simps)
  then have "(s + (m - s mod m)) mod m = 0" by (metis mod_mult_self1_is_0)
  then show "t mod m = 0" by (simp add: t_def)
qed

lemma roundUpToMiB_bounds:
  assumes "0 \<le> s" and "s < 2 ^ 62"
  shows "s \<le> roundUpToMiB s" and "roundUpToMiB s < s + 2048" and "roundUpToMiB s mod 2048 = 0"
proof -
  let ?r = "s mod 2048"
  have r: "0 \<le> ?r" "?r < 2048" by auto
  have "u64 (s + (2048 - ?r)) = s + (2048 - ?r)" using assms r by (intro u64_id) auto
  then have eq: "roundUpToMiB s = (if ?r = 0 then s else s + (2048 - ?r))"
    by (simp add: roundUpToMiB_def mibSectors_def Let_def)
  show "s \<le> roundUpToMiB s" "roundUpToMiB s < s + 2048" "roundUpToMiB s mod 2048 = 0"
    unfolding eq by (rule round_up_int; simp)+
qed

definition esp_bytes :: "RawImage \<Rightarrow> int" where
  "esp_bytes img = max espSize (int (length (ri_Vmlinuz img)) + int (length (ri_InitramfsImg img)) + espContentHeadroom)"

definition small_image :: "RawImage \<Rightarrow> bool" where
  "small_image img \<longleftrightarrow> int (length (ri_Vmlinuz img)) + int (length (ri_InitramfsImg img)) < 2 ^ 58"

lemma raw_layout_eq:
  assumes "small_image img" and "0 \<le> n" and "n < 2 ^ 58"
  defines "esp \<equiv> roundUpSectors (esp_bytes img)"
    and "rs \<equiv> (if roundUpSectors n = 0 then 1 else roundUpSectors n)"
  defines "start \<equiv> roundUpToMiB (4096 + esp)"
  defines "s0 \<equiv> (start + rs) * 512 + 3145728"
  shows "raw_layout img n = \<lparr> dl_espSectors = esp, dl_rootStart = start, dl_rootSectors = rs,
      dl_diskSize = (if s0 mod 1048576 = 0 then s0 else s0 + (1048576 - s0 mod 1048576)) \<rparr>"
    and "0 \<le> esp" and "esp < 2 ^ 51" and "4096 + esp \<le> start" and "start < 2 ^ 52"
    and "0 < rs" and "rs < 2 ^ 51"
proof -
  let ?c = "int (length (ri_Vmlinuz img)) + int (length (ri_InitramfsImg img)) + 16777216"
  have c: "wrap64 ?c = ?c" using assms(1) by (intro wrap64_id) (auto simp: small_image_def)
  have e: "(if espSize < wrap64 ?c then wrap64 ?c else espSize) = esp_bytes img"
    unfolding c by (simp add: esp_bytes_def espContentHeadroom_def max_def)
  have eb: "0 \<le> esp_bytes img" "esp_bytes img < 2 ^ 59"
    using assms(1) by (auto simp: esp_bytes_def small_image_def espSize_def espContentHeadroom_def)
  then have eb': "esp_bytes img < 2 ^ 62" by simp
  note esp = roundUpSectors_bounds [OF eb(1) eb', folded esp_def]
  show e0: "0 \<le> esp" by (rule esp(3))
  show e1: "esp < 2 ^ 51" using esp(2) eb by simp
  have n': "n < 2 ^ 62" using assms by simp
  note rsb = roundUpSectors_bounds [OF assms(2) n']
  show r0: "0 < rs" using rsb by (auto simp: rs_def)
  show r1: "rs < 2 ^ 51" using rsb assms by (auto simp: rs_def)
  have "0 \<le> 4096 + esp" "4096 + esp < 2 ^ 62" using e0 e1 by auto
  note st = roundUpToMiB_bounds [OF this, folded start_def]
  show s1: "4096 + esp \<le> start" by (rule st(1))
  show s2: "start < 2 ^ 52" using st(2) e1 by simp
  have u1: "u64 (4096 + esp) = 4096 + esp" using e0 e1 by (intro u64_id) auto
  have u2: "u64 (start + rs) = start + rs" using s1 s2 e0 r0 r1 by (intro u64_id) auto
  have w1: "wrap64 (start + rs) = start + rs" using s1 s2 e0 r0 r1 by (intro wrap64_id) auto
  have w2: "wrap64 ((start + rs) * 512) = (start + rs) * 512" using s1 s2 e0 r0 r1 by (intro wrap64_id) auto
  have pos: "0 \<le> s0" "s0 < 2 ^ 63 - 1048576" using s1 s2 e0 r0 r1 by (auto simp: s0_def)
  have w3: "wrap64 s0 = s0" using pos by (intro wrap64_id) auto
  have m: "tmod s0 1048576 = s0 mod 1048576" using pos by (intro tmod_nonneg) auto
  have mib: "(1024::int) * 1024 = 1048576" by simp
  have w4: "wrap64 (s0 + (1048576 - s0 mod 1048576)) = s0 + (1048576 - s0 mod 1048576)"
  proof (rule wrap64_id)
    have "0 \<le> s0 mod 1048576" "s0 mod 1048576 < 1048576" by auto
    then show "0 \<le> s0 + (1048576 - s0 mod 1048576)" "s0 + (1048576 - s0 mod 1048576) < 2 ^ 63"
      using pos by auto
  qed
  show "raw_layout img n = \<lparr> dl_espSectors = esp, dl_rootStart = start, dl_rootSectors = rs,
      dl_diskSize = (if s0 mod 1048576 = 0 then s0 else s0 + (1048576 - s0 mod 1048576)) \<rparr>"
    unfolding raw_layout_def espContentHeadroom_def Let_def e esp_def [symmetric] rs_def [symmetric]
      espStartSector_def u1 start_def [symmetric] u2 w1 sectorSize_def w2 gptOverhead_def
      s0_def [symmetric] w3 mib m
    by (simp add: w4)
qed

text \<open>
  The disk layout is sound: the EFI partition starts on a MiB boundary, holds the
  kernel, the initramfs and 16 MiB beside them and is never smaller than 200 MiB; the root partition starts
  on a MiB boundary after it and holds the whole SquashFS image with less than a sector to spare
  (one sector if the image is empty); and the disk is a whole number of MiB with 3 MiB beyond the
  root partition. Sizes below 2^58 bytes keep every computation within its width.
\<close>

theorem raw_layout_sound:
  assumes "small_image img" and "0 \<le> n" and "n < 2 ^ 58"
  shows "let l = raw_layout img n in
     espStartSector mod mibSectors = 0 \<and>
     int (length (ri_Vmlinuz img)) + int (length (ri_InitramfsImg img)) + espContentHeadroom
       \<le> dl_espSectors l * sectorSize \<and> espSize \<le> dl_espSectors l * sectorSize \<and>
     espStartSector + dl_espSectors l \<le> dl_rootStart l \<and> dl_rootStart l mod mibSectors = 0 \<and>
     n \<le> dl_rootSectors l * sectorSize \<and> dl_rootSectors l * sectorSize < n + sectorSize + (if n = 0 then 1 else 0) \<and>
     dl_diskSize l mod (1024 * 1024) = 0 \<and>
     (dl_rootStart l + dl_rootSectors l) * sectorSize + gptOverhead \<le> dl_diskSize l \<and> dl_diskSize l < 2 ^ 63"
proof -
  let ?esp = "roundUpSectors (esp_bytes img)"
  let ?rs = "if roundUpSectors n = 0 then 1 else roundUpSectors n"
  let ?start = "roundUpToMiB (4096 + ?esp)"
  let ?s0 = "(?start + ?rs) * 512 + 3145728"
  note lay = raw_layout_eq [OF assms]
  have eb: "0 \<le> esp_bytes img" "esp_bytes img < 2 ^ 62"
    using assms(1) by (auto simp: esp_bytes_def small_image_def espSize_def espContentHeadroom_def)
  note esp = roundUpSectors_bounds [OF eb]
  have n: "n < 2 ^ 62" using assms by simp
  note rsb = roundUpSectors_bounds [OF assms(2) n]
  have start: "?start mod 2048 = 0"
    using lay(2,3) by (intro roundUpToMiB_bounds(3)) auto
  have fit: "esp_bytes img \<le> ?esp * 512" by (rule esp(1))
  have eb2: "espSize \<le> esp_bytes img"
    "int (length (ri_Vmlinuz img)) + int (length (ri_InitramfsImg img)) + espContentHeadroom \<le> esp_bytes img"
    by (simp_all add: esp_bytes_def)
  have rsn: "n \<le> ?rs * 512" "?rs * 512 < n + 512 + (if n = 0 then 1 else 0)"
    using rsb assms(2) by (auto split: if_splits)
  have s0: "?s0 < 2 ^ 63 - 1048576" using lay(2-7) by simp
  have d: "dl_diskSize (raw_layout img n) = (if ?s0 mod 1048576 = 0 then ?s0 else ?s0 + (1048576 - ?s0 mod 1048576))"
    by (simp only: lay(1) disk_layout.select_convs)
  have "0 < (1048576 :: int)" by simp
  note ru = round_up_int [OF this, of ?s0, folded d]
  from ru(1,3) have size_ok: "?s0 \<le> dl_diskSize (raw_layout img n)" "dl_diskSize (raw_layout img n) mod 1048576 = 0"
    by this
  from ru(2) s0 have size_lt: "dl_diskSize (raw_layout img n) < 2 ^ 63" by simp
  have p: "dl_espSectors (raw_layout img n) = ?esp" "dl_rootSectors (raw_layout img n) = ?rs"
    "dl_rootStart (raw_layout img n) = ?start"
    by (simp_all only: lay(1) disk_layout.select_convs)
  note facts = fit [folded p(1)] eb2 rsn [folded p(2)] start [folded p(1,3)] lay(4) [folded p(1,3)]
  have s0_eq: "?s0 = (dl_rootStart (raw_layout img n) + dl_rootSectors (raw_layout img n)) * 512 + 3145728"
    by (simp only: p)
  show ?thesis
    using facts size_ok(1) [unfolded s0_eq] size_ok(2) size_lt
    unfolding Let_def espStartSector_def mibSectors_def sectorSize_def gptOverhead_def
    by simp
qed

definition raw_example :: RawImage where
  "raw_example = \<lparr> ri_Arch = ''amd64'', ri_Vmlinuz = ''MZkernel'', ri_InitramfsImg = ''070701'',
     ri_SquashfsImgPath = ''/tmp/root.sqfs'' \<rparr>"

theorem raw_layout_sound_witness:
  "dl_diskSize (raw_layout raw_example 4097) mod (1024 * 1024) = 0"
  by (rule raw_layout_sound [of raw_example 4097, unfolded Let_def, THEN conjunct2, THEN conjunct2, THEN conjunct2,
      THEN conjunct2, THEN conjunct2, THEN conjunct2, THEN conjunct2, THEN conjunct1])
     (simp_all add: small_image_def raw_example_def)

section \<open>What is written\<close>

text \<open>The bytes of the root partition after a call.\<close>

fun apply_root :: "string \<Rightarrow> disk_op \<Rightarrow> string" where
  "apply_root part (WriteRootAt off bs) = set_at (nat off) bs part"
| "apply_root part _ = part"

lemma root_writes_content:
  "length (concat cs) \<le> length rest \<Longrightarrow>
   foldl apply_root (pre @ rest) (root_writes (int (length pre)) cs) = pre @ concat cs @ drop (length (concat cs)) rest"
proof (induction cs arbitrary: pre rest)
  case Nil
  then show ?case by simp
next
  case (Cons c cs)
  show ?case
  proof (cases "c = []")
    case True
    with Cons show ?thesis by simp
  next
    case False
    have "set_at (length pre) c (pre @ rest) = (pre @ c) @ drop (length c) rest"
      by (simp add: set_at_def)
    moreover have "int (length pre) + int (length c) = int (length (pre @ c))" by simp
    moreover have "length (concat cs) \<le> length (drop (length c) rest)" using Cons.prems by simp
    ultimately show ?thesis
      using False Cons.IH [of "drop (length c) rest" "pre @ c"]
      by (simp only: root_writes.simps if_False foldl_Cons apply_root.simps nat_int) (simp add: add.commute)
  qed
qed

lemma writeRootPartition_ok:
  "snd (writeRootPartition ok off sz p src) = Inr () \<Longrightarrow>
   sf_read_ok src \<and>
   fst (writeRootPartition ok off sz p src) = OpenRootSource p # OpenRootPartition off sz # root_writes 0 (sf_chunks src)"
  by (simp add: writeRootPartition_def snd_then_calls fst_then_calls fst_run_calls del: run_calls.simps split: if_splits)

text \<open>A run that succeeds has made exactly these calls.\<close>

lemma rawimage_Write_calls:
  assumes "rawimage_Write ok source path img = (ops, Inr ())"
  obtains boot src where "raw_efiBootFileName (ri_Arch img) = Some boot"
    and "source (ri_SquashfsImgPath img) = Some src" and "sf_read_ok src"
    and "ops = (let l = raw_layout img (sf_size src) in
      [RemoveOld path, CreateDisk path (dl_diskSize l), WriteGPT (raw_partitions l), FormatESP, MkdirESP ''/EFI'',
       MkdirESP ''/EFI/BOOT''] @
      [OpenESP (''/EFI/BOOT/'' @ boot), WriteESP (''/EFI/BOOT/'' @ boot) (ri_Vmlinuz img), CloseESP (''/EFI/BOOT/'' @ boot)] @
      [OpenESP ''/EFI/BOOT/INITRD.IMG'', WriteESP ''/EFI/BOOT/INITRD.IMG'' (ri_InitramfsImg img),
       CloseESP ''/EFI/BOOT/INITRD.IMG''] @
      (OpenRootSource (ri_SquashfsImgPath img) #
       OpenRootPartition (wrap64 (dl_rootStart l * sectorSize)) (wrap64 (dl_rootSectors l * sectorSize)) #
       root_writes 0 (sf_chunks src)) @ [CloseDisk])"
proof -
  obtain boot where b: "raw_efiBootFileName (ri_Arch img) = Some boot"
    using assms by (auto simp: rawimage_Write_def split: option.splits)
  obtain src where s: "source (ri_SquashfsImgPath img) = Some src"
    using assms b by (auto simp: rawimage_Write_def split: option.splits)
  have r: "snd (rawimage_Write ok source path img) = Inr ()" and o: "ops = fst (rawimage_Write ok source path img)"
    using assms by simp_all
  note W = rawimage_Write_def b s option.case Let_def writeESPFile_def
  note r' = r [unfolded W snd_then_calls]
  note root = writeRootPartition_ok [OF r' [THEN conjunct2, THEN conjunct2, THEN conjunct2, THEN conjunct1]]
  show ?thesis
  proof (rule that [OF b s root [THEN conjunct1]])
    show "ops = (let l = raw_layout img (sf_size src) in
      [RemoveOld path, CreateDisk path (dl_diskSize l), WriteGPT (raw_partitions l), FormatESP, MkdirESP ''/EFI'',
       MkdirESP ''/EFI/BOOT''] @
      [OpenESP (''/EFI/BOOT/'' @ boot), WriteESP (''/EFI/BOOT/'' @ boot) (ri_Vmlinuz img), CloseESP (''/EFI/BOOT/'' @ boot)] @
      [OpenESP ''/EFI/BOOT/INITRD.IMG'', WriteESP ''/EFI/BOOT/INITRD.IMG'' (ri_InitramfsImg img),
       CloseESP ''/EFI/BOOT/INITRD.IMG''] @
      (OpenRootSource (ri_SquashfsImgPath img) #
       OpenRootPartition (wrap64 (dl_rootStart l * sectorSize)) (wrap64 (dl_rootSectors l * sectorSize)) #
       root_writes 0 (sf_chunks src)) @ [CloseDisk])"
      unfolding o W
      by (simp only: fst_then_calls snd_then_calls r' fst_run_calls root simp_thms)
  qed
qed

text \<open>
  A raw image that was written holds what it should: the kernel and the initramfs are
  files of the EFI partition under the names the firmware looks for, the partition table is the
  layout's, and the root partition begins with exactly the bytes of the SquashFS file, in order,
  whatever chunks the reads returned, the rest of it untouched.
\<close>

theorem raw_image_written:
  assumes "rawimage_Write ok source path img = (ops, Inr ())"
    and "source (ri_SquashfsImgPath img) = Some src"
    and "length (concat (sf_chunks src)) \<le> length part"
  shows "foldl apply_root part ops = concat (sf_chunks src) @ drop (length (concat (sf_chunks src))) part \<and>
    WriteESP ''/EFI/BOOT/INITRD.IMG'' (ri_InitramfsImg img) \<in> set ops \<and>
    (\<exists>boot. raw_efiBootFileName (ri_Arch img) = Some boot \<and> WriteESP (''/EFI/BOOT/'' @ boot) (ri_Vmlinuz img) \<in> set ops) \<and>
    WriteGPT (raw_partitions (raw_layout img (sf_size src))) \<in> set ops"
proof -
  from assms(1) show ?thesis
  proof (rule rawimage_Write_calls)
    fix boot src'
    assume b: "raw_efiBootFileName (ri_Arch img) = Some boot" and s: "source (ri_SquashfsImgPath img) = Some src'"
      and ops: "ops = (let l = raw_layout img (sf_size src') in
      [RemoveOld path, CreateDisk path (dl_diskSize l), WriteGPT (raw_partitions l), FormatESP, MkdirESP ''/EFI'',
       MkdirESP ''/EFI/BOOT''] @
      [OpenESP (''/EFI/BOOT/'' @ boot), WriteESP (''/EFI/BOOT/'' @ boot) (ri_Vmlinuz img), CloseESP (''/EFI/BOOT/'' @ boot)] @
      [OpenESP ''/EFI/BOOT/INITRD.IMG'', WriteESP ''/EFI/BOOT/INITRD.IMG'' (ri_InitramfsImg img),
       CloseESP ''/EFI/BOOT/INITRD.IMG''] @
      (OpenRootSource (ri_SquashfsImgPath img) #
       OpenRootPartition (wrap64 (dl_rootStart l * sectorSize)) (wrap64 (dl_rootSectors l * sectorSize)) #
       root_writes 0 (sf_chunks src')) @ [CloseDisk])"
    have src: "src' = src" using s assms(2) by simp
    have "foldl apply_root part (root_writes 0 (sf_chunks src)) =
        concat (sf_chunks src) @ drop (length (concat (sf_chunks src))) part"
      using root_writes_content [OF assms(3), of "[]"] by simp
    then show ?thesis
      unfolding ops src Let_def by (simp add: b)
  qed
qed

theorem raw_image_written_witness:
  "foldl apply_root ''........''
     (fst (rawimage_Write (\<lambda>p. True) (\<lambda>p. Some \<lparr> sf_size = 7, sf_chunks = [''hsqs'', [], ''end''], sf_read_ok = True \<rparr>)
        ''out.img'' raw_example)) = ''hsqsend.''"
proof -
  let ?src = "\<lparr> sf_size = 7, sf_chunks = [''hsqs'', [], ''end''], sf_read_ok = True \<rparr>"
  let ?w = "rawimage_Write (\<lambda>p. True) (\<lambda>p. Some ?src) ''out.img'' raw_example"
  have "snd ?w = Inr ()"
    by (simp add: rawimage_Write_def raw_example_def raw_efiBootFileName_def Let_def snd_then_calls run_calls_Inr
        writeESPFile_def writeRootPartition_def)
  then have w: "?w = (fst ?w, Inr ())" by (metis prod.collapse)
  show ?thesis
    using raw_image_written [OF w, where src = ?src and part = "''........''"] by (simp add: numeral_eq_Suc)
qed

end
