(* ===== verification/Vhd.thy ===== *)
theory Vhd
  imports Go_Bytes Go_Strconv
begin

text \<open>
  The virtual disk wrappers (cmd/cnimbus/run_vhd.go and run_vmdk.go): the footer of a fixed VHD
  with its geometry and checksum, and the VMDK descriptor of a flat disk. The clock and the random
  identifier of the footer are arguments.
\<close>

section \<open>The geometry\<close>

definition vhdMaxSectors :: nat where
  "vhdMaxSectors = 65535 * 16 * 255"

text \<open>The result of the integer computation, before the conversions to narrow integers.\<close>

definition chs_wide :: "nat \<Rightarrow> nat \<times> nat \<times> nat" where
  "chs_wide totalSectors0 =
     (let totalSectors = (if vhdMaxSectors < totalSectors0 then vhdMaxSectors else totalSectors0) in
      if 65535 * 16 * 63 \<le> totalSectors then (totalSectors div 255, 16, 255)
      else
        let cth1 = totalSectors div 17;
            h0 = (cth1 + 1023) div 1024;
            h1 = (if h0 < 4 then 4 else h0);
            (cth2, h2, s2) =
              (if h1 * 1024 \<le> cth1 \<or> 16 < h1 then (totalSectors div 31, 16, 31) else (cth1, h1, 17))
        in if h2 * 1024 \<le> cth2 then (totalSectors div 63, 16, 63) else (cth2, h2, s2))"

definition vhdCHSGeometry :: "nat \<Rightarrow> nat \<times> nat \<times> nat" where
  "vhdCHSGeometry totalSectors =
     (case chs_wide totalSectors of (cth, h, s) \<Rightarrow> ((cth div h) mod 65536, h mod 256, s mod 256))"

section \<open>The footer\<close>

definition vhdCookie :: string where
  "vhdCookie = ''conectix''"

definition byte_sum :: "string \<Rightarrow> nat" where
  "byte_sum bs = sum_list (map code bs)"

definition vhd_fields :: "nat \<Rightarrow> string \<Rightarrow> nat \<Rightarrow> nat \<Rightarrow> string" where
  "vhd_fields stamp uuid diskSizeBytes checksum =
     (case vhdCHSGeometry (diskSizeBytes div 512) of (cylinders, heads, sectorsPerTrack) \<Rightarrow>
      vhdCookie @ be_bytes 4 2 @ be_bytes 4 65536 @ be_bytes 8 (2 ^ 64 - 1) @ be_bytes 4 stamp @
      ''cnim'' @ be_bytes 4 65536 @ ''Wi2k'' @ be_bytes 8 diskSizeBytes @ be_bytes 8 diskSizeBytes @
      be_bytes 2 cylinders @ be_bytes 1 heads @ be_bytes 1 sectorsPerTrack @ be_bytes 4 2 @
      be_bytes 4 checksum @ uuid @ replicate 428 (CHR 0x00))"

datatype vhd_error = VhdSize int | VhdUUID | VhdStat string | VhdOpen string | VhdCreate string | VhdCopy string | VhdAppend string

definition vhdFooter :: "nat \<Rightarrow> string option \<Rightarrow> int \<Rightarrow> vhd_error + string" where
  "vhdFooter stamp uuid diskSizeBytes =
     (if diskSizeBytes \<le> 0 \<or> diskSizeBytes mod 512 \<noteq> 0 then Inl (VhdSize diskSizeBytes)
      else (case uuid of
              None \<Rightarrow> Inl VhdUUID
            | Some i \<Rightarrow>
                let s = byte_sum (vhd_fields stamp i (nat diskSizeBytes) 0) mod 2 ^ 32
                in Inr (vhd_fields stamp i (nat diskSizeBytes) (2 ^ 32 - 1 - s))))"

text \<open>
  Writing the file: what the copy and the final write do is the argument, \<^verbatim>\<open>None\<close> standing for a
  step that fails. The new file's content is returned when every step succeeds.
\<close>

record vhd_io =
  vi_stat :: "string \<Rightarrow> int option"
  vi_open :: "string \<Rightarrow> string option"
  vi_create_ok :: bool
  vi_copy_ok :: bool
  vi_append_ok :: bool

definition writeFixedVHD :: "vhd_io \<Rightarrow> nat \<Rightarrow> string option \<Rightarrow> string \<Rightarrow> string \<Rightarrow> vhd_error + string" where
  "writeFixedVHD io stamp uuid vhdPath rawPath =
     (case vi_stat io rawPath of
        None \<Rightarrow> Inl (VhdStat rawPath)
      | Some n \<Rightarrow>
          bindE (vhdFooter stamp uuid n) (\<lambda>footer.
          case vi_open io rawPath of
            None \<Rightarrow> Inl (VhdOpen rawPath)
          | Some data \<Rightarrow>
              bindE (guardE (vi_create_ok io) (VhdCreate vhdPath)) (\<lambda>_.
              bindE (guardE (vi_copy_ok io) (VhdCopy vhdPath)) (\<lambda>_.
              bindE (guardE (vi_append_ok io) (VhdAppend vhdPath)) (\<lambda>_.
              Inr (data @ footer))))))"

section \<open>The VMDK descriptor\<close>

datatype vmdk_error = VmdkStat string | VmdkSize string int | VmdkWrite string

definition LFv :: string where "LFv = [CHR 0x0A]"
definition QQv :: string where "QQv = [CHR 0x22]"

definition vmdk_cylinders :: "nat \<Rightarrow> nat" where
  "vmdk_cylinders sectors = (let c = sectors div (16 * 63) in if c = 0 then 1 else c)"

definition vmdk_descriptor :: "nat \<Rightarrow> string \<Rightarrow> string" where
  "vmdk_descriptor sectors rawPath = concat
     [''# Disk DescriptorFile'', LFv, ''version=1'', LFv, ''CID=fffffffe'', LFv, ''parentCID=ffffffff'', LFv,
      ''createType='', QQv, ''monolithicFlat'', QQv, LFv, LFv,
      ''# Extent description'', LFv, ''RW '', nat_dec sectors, '' FLAT '', QQv, rawPath, QQv, '' 0'', LFv, LFv,
      ''# The Disk Data Base'', LFv, ''#DDB'', LFv, LFv,
      ''ddb.virtualHWVersion = '', QQv, ''19'', QQv, LFv,
      ''ddb.geometry.cylinders = '', QQv, nat_dec (vmdk_cylinders sectors), QQv, LFv,
      ''ddb.geometry.heads = '', QQv, ''16'', QQv, LFv,
      ''ddb.geometry.sectors = '', QQv, ''63'', QQv, LFv,
      ''ddb.adapterType = '', QQv, ''ide'', QQv, LFv]"

definition writeFlatVMDK :: "(string \<Rightarrow> nat option) \<Rightarrow> bool \<Rightarrow> string \<Rightarrow> string \<Rightarrow> vmdk_error + string" where
  "writeFlatVMDK stat write_ok vmdkPath rawPath =
     (case stat rawPath of
        None \<Rightarrow> Inl (VmdkStat rawPath)
      | Some n \<Rightarrow>
          if n mod 512 \<noteq> 0 then Inl (VmdkSize rawPath (int n))
          else if write_ok then Inr (vmdk_descriptor (n div 512) rawPath)
          else Inl (VmdkWrite vmdkPath))"

section \<open>The geometry fits\<close>

lemma chs_wide_cases:
  fixes t :: nat
  assumes "chs_wide t = (cth, h, s)"
  defines "m \<equiv> min t vhdMaxSectors"
  shows "cth = m div s" and "4 \<le> h" and "h \<le> 16" and "s \<in> {17, 31, 63, 255}"
    and "cth < h * 65536"
proof -
  have m: "(if vhdMaxSectors < t then vhdMaxSectors else t) = m" by (simp add: m_def min_def)
  have le: "m \<le> 267382800" by (simp add: m_def vhdMaxSectors_def)
  note d = assms(1) [unfolded chs_wide_def m Let_def]
  have "cth = m div s \<and> 4 \<le> h \<and> h \<le> 16 \<and> s \<in> {17, 31, 63, 255} \<and> cth < h * 65536"
    using d le by (auto split: if_splits prod.splits)
  then show "cth = m div s" "4 \<le> h" "h \<le> 16" "s \<in> {17, 31, 63, 255}" "cth < h * 65536" by blast+
qed

text \<open>
  The geometry of a VHD: nothing is cut off by the conversions to narrow integers,
  heads and sectors per track are in range, the geometry never claims more sectors than the disk has,
  and below the format's maximum it leaves less than one cylinder of it unaddressed.
\<close>

theorem vhd_geometry_fits:
  assumes "vhdCHSGeometry t = (c, h, s)"
  shows "c \<le> 65535 \<and> 4 \<le> h \<and> h \<le> 16 \<and> s \<in> {17, 31, 63, 255} \<and> c * h * s \<le> t \<and>
    (t \<le> vhdMaxSectors \<longrightarrow> t < (c + 1) * h * s)"
proof -
  obtain cth h' s' where w: "chs_wide t = (cth, h', s')" by (metis prod_cases3)
  note f = chs_wide_cases [OF w]
  have div: "cth div h' < 65536" using f(2,5) by (simp add: div_less_iff_less_mult mult.commute)
  have eqs: "c = cth div h'" "h = h'" "s = s'"
    using assms w f(2-4) div by (auto simp: vhdCHSGeometry_def)
  have "c * h \<le> cth" by (simp add: eqs)
  then have "c * h * s \<le> cth * s'" by (simp add: eqs)
  also have "cth * s' \<le> min t vhdMaxSectors" unfolding f(1) by (rule div_times_less_eq_dividend)
  finally have le: "c * h * s \<le> t" by simp
  have lt: "t < (c + 1) * h * s" if "t \<le> vhdMaxSectors"
  proof -
    have cth: "cth = t div s'" using f(1) that by (simp add: min_def)
    have s0: "0 < s'" using f(4) by auto
    have "t div s' < (c + 1) * h" using f(2) by (simp add: eqs cth) (metis add.commute dividend_less_div_times less_le_trans mult.commute not_numeral_le_zero zero_less_iff_neq_zero)
    then show ?thesis using s0 by (simp add: eqs div_less_iff_less_mult)
  qed
  show ?thesis using div f(2-4) le lt by (simp add: eqs)
qed

theorem vhd_geometry_fits_witness: "vhdCHSGeometry 614400 = (609, 16, 63) \<and> 614400 < (609 + 1) * 16 * (63 :: nat)"
proof -
  have g: "vhdCHSGeometry 614400 = (609, 16, 63)"
    by (simp add: vhdCHSGeometry_def chs_wide_def vhdMaxSectors_def)
  from g vhd_geometry_fits [OF g] show ?thesis by (simp add: vhdMaxSectors_def)
qed

section \<open>The footer verifies\<close>

lemma byte_sum_append [simp]: "byte_sum (a @ b) = byte_sum a + byte_sum b"
  by (simp add: byte_sum_def)

lemma byte_sum_le_bytes_0: "byte_sum (le_bytes w 0) = 0"
  by (induction w) (auto simp: byte_sum_def)

lemma byte_sum_be_bytes_0 [simp]: "byte_sum (be_bytes w 0) = 0"
  using byte_sum_le_bytes_0 [of w] by (simp add: be_bytes_def byte_sum_def rev_map [symmetric])

text \<open>The fields before the checksum, and those after it.\<close>

lemma vhd_fields_split:
  obtains pre where "length pre = 64" and "\<forall>c. vhd_fields stamp uuid n c = pre @ be_bytes 4 c @ uuid @ replicate 428 (CHR 0x00)"
    and "take 8 pre = vhdCookie" and "take 8 (drop 40 pre) = be_bytes 8 n" and "take 8 (drop 48 pre) = be_bytes 8 n"
    and "take 4 (drop 60 pre) = be_bytes 4 2"
proof -
  obtain cy h s where g: "vhdCHSGeometry (n div 512) = (cy, h, s)" by (metis prod_cases3)
  let ?pre = "vhdCookie @ be_bytes 4 2 @ be_bytes 4 65536 @ be_bytes 8 (2 ^ 64 - 1) @ be_bytes 4 stamp @
      ''cnim'' @ be_bytes 4 65536 @ ''Wi2k'' @ be_bytes 8 n @ be_bytes 8 n @
      be_bytes 2 cy @ be_bytes 1 h @ be_bytes 1 s @ be_bytes 4 2"
  have len: "length vhdCookie = 8" by (simp add: vhdCookie_def)
  show ?thesis
  proof (rule that [of ?pre])
    show "length ?pre = 64" by (simp add: len)
    show "\<forall>c. vhd_fields stamp uuid n c = ?pre @ be_bytes 4 c @ uuid @ replicate 428 (CHR 0x00)"
      by (simp add: vhd_fields_def g)
    show "take 8 ?pre = vhdCookie" by (simp add: len)
    show "take 8 (drop 40 ?pre) = be_bytes 8 n" by (simp add: len)
    show "take 8 (drop 48 ?pre) = be_bytes 8 n" by (simp add: len)
    show "take 4 (drop 60 ?pre) = be_bytes 4 2" by (simp add: len)
  qed
qed

text \<open>
  A reader of the footer accepts it: it is 512 bytes with the cookie in front, both
  sizes and the disk type read back, and the stored checksum is the ones complement of the sum of
  all bytes taken with the checksum field zero.
\<close>

theorem vhd_footer_verifies:
  assumes "vhdFooter stamp (Some uuid) n = Inr f" and "length uuid = 16" and "n < 2 ^ 63"
  shows "length f = 512 \<and> take 8 f = vhdCookie \<and>
    be_val (take 8 (drop 40 f)) = nat n \<and> be_val (take 8 (drop 48 f)) = nat n \<and> be_val (take 4 (drop 60 f)) = 2 \<and>
    be_val (take 4 (drop 64 f)) = 2 ^ 32 - 1 - byte_sum (set_at 64 (be_bytes 4 0) f) mod 2 ^ 32"
proof -
  obtain pre where pre: "length pre = 64"
      "\<forall>c. vhd_fields stamp uuid (nat n) c = pre @ be_bytes 4 c @ uuid @ replicate 428 (CHR 0x00)"
      "take 8 pre = vhdCookie" "take 8 (drop 40 pre) = be_bytes 8 (nat n)" "take 8 (drop 48 pre) = be_bytes 8 (nat n)"
      "take 4 (drop 60 pre) = be_bytes 4 2"
    by (rule vhd_fields_split [of stamp uuid "nat n"])
  let ?s = "byte_sum (vhd_fields stamp uuid (nat n) 0) mod 2 ^ 32"
  have n: "0 < n" and f: "f = vhd_fields stamp uuid (nat n) (2 ^ 32 - 1 - ?s)"
    using assms(1) by (auto simp: vhdFooter_def Let_def split: if_splits)
  have nv: "nat n < 256 ^ 8" using assms(3) by simp
  have zero: "set_at 64 (be_bytes 4 0) f = vhd_fields stamp uuid (nat n) 0"
    by (simp add: f set_at_def pre(1,2))
  have "be_val (take 4 (drop 64 f)) = 2 ^ 32 - 1 - ?s"
    by (simp add: f pre(1,2) be_val_be_bytes)
  moreover have "length f = 512" by (simp add: f pre(1,2) assms(2))
  moreover have "take 8 f = vhdCookie" by (simp add: f pre(1-3))
  moreover have "be_val (take 8 (drop 40 f)) = nat n" "be_val (take 8 (drop 48 f)) = nat n"
    using nv by (simp_all add: f pre(1,2,4,5) be_val_be_bytes)
  moreover have "be_val (take 4 (drop 60 f)) = 2" by (simp add: f pre(1,2,6) be_val_be_bytes)
  ultimately show ?thesis by (simp only: zero simp_thms)
qed

theorem vhd_footer_verifies_witness:
  "take 8 (projr (vhdFooter 0 (Some ''0123456789abcdef'') 1048576)) = ''conectix''"
proof -
  obtain f where f: "vhdFooter 0 (Some ''0123456789abcdef'') 1048576 = Inr f"
    by (simp add: vhdFooter_def Let_def)
  have "take 8 f = vhdCookie"
    using vhd_footer_verifies [OF f] by simp
  with f show ?thesis by (simp add: vhdCookie_def)
qed

text \<open>
  The VMDK descriptor names a geometry the flat extent really has, as long as the disk
  holds at least one cylinder; the descriptor is refused for a size that is not whole sectors.
\<close>

theorem vmdk_geometry:
  "writeFlatVMDK stat True vmdkPath rawPath = Inr d \<longleftrightarrow>
     (\<exists>n. stat rawPath = Some n \<and> n mod 512 = 0 \<and> d = vmdk_descriptor (n div 512) rawPath \<and>
        (16 * 63 \<le> n div 512 \<longrightarrow> vmdk_cylinders (n div 512) * 16 * 63 \<le> n div 512 \<and>
           n div 512 < (vmdk_cylinders (n div 512) + 1) * 16 * 63))"
proof -
  have g: "1008 \<le> m \<Longrightarrow> 1008 * vmdk_cylinders m \<le> m" "m < 1008 + 1008 * vmdk_cylinders m" for m
    using div_times_less_eq_dividend [of m 1008] dividend_less_div_times [of 1008 m]
    by (auto simp: vmdk_cylinders_def Let_def)
  show ?thesis
    by (auto simp: writeFlatVMDK_def g split: option.splits if_splits)
qed

end
