(* ===== verification/Iso_Image.thy ===== *)
theory Iso_Image
  imports Go_Calls Go_Path
begin

text \<open>
  The ISO image (internal/isoimage/isoimage.go): the files laid out in the workspace, the FAT image
  of the EFI boot entry, the El Torito size check and the boot catalog. The libraries (go-diskfs)
  and the file system are the predicate \<^verbatim>\<open>ok\<close>, which says of each call whether it succeeds.
\<close>

record IsoImage =
  ii_VolumeLabel :: string
  ii_Arch :: string
  ii_IsolinuxBin :: string
  ii_LdlinuxC32 :: string
  ii_IsolinuxCfg :: string
  ii_Vmlinuz :: string
  ii_InitramfsImg :: string
  ii_Metadata :: string
  ii_SquashfsImgPath :: string
  ii_TmpDir :: string

datatype platform = BIOS | EFI

record boot_entry =
  be_Platform :: platform
  be_BootFile :: string
  be_BootTable :: bool
  be_LoadSize :: nat

datatype iso_op =
    MkdirAll string
  | WriteWs string string
  | OpenSource string
  | CreateWs string
  | CopyWs string string
  | CreateFat string
  | FatCreate int
  | FatTruncate int
  | FatMkdir string
  | FatOpen string
  | FatWrite string string
  | FatClose string
  | CloseFat
  | CreateOut string
  | IsoCreate string
  | Finalize string string "boot_entry list"
  | CloseOut
  | RemoveAll string

datatype iso_error = IsoWorkspace | IsoFailed iso_op | IsoStat string | EFIPayloadTooLarge int

type_synonym iso_run = "(iso_op, iso_error) run"

abbreviation iso_calls :: "(iso_op \<Rightarrow> bool) \<Rightarrow> iso_op list \<Rightarrow> iso_run" where
  "iso_calls \<equiv> run_calls IsoFailed"

definition iso_efiBootFileName :: "string \<Rightarrow> string" where
  "iso_efiBootFileName a = (if a = ''arm64'' then ''BOOTAA64.EFI'' else ''BOOTX64.EFI'')"

definition iso_writeFile :: "(iso_op \<Rightarrow> bool) \<Rightarrow> string \<Rightarrow> string \<Rightarrow> string \<Rightarrow> iso_run" where
  "iso_writeFile ok workspace relPath data =
     (let full = go_path_join [workspace, relPath] in iso_calls ok [MkdirAll (go_dir full), WriteWs full data])"

definition writeFileFromPath :: "(iso_op \<Rightarrow> bool) \<Rightarrow> string \<Rightarrow> string \<Rightarrow> string \<Rightarrow> iso_run" where
  "writeFileFromPath ok workspace relPath srcPath =
     (let full = go_path_join [workspace, relPath]
      in iso_calls ok [MkdirAll (go_dir full), OpenSource srcPath, CreateWs full, CopyWs srcPath full])"

section \<open>The EFI boot image\<close>

definition efi_image_size :: "string \<Rightarrow> string \<Rightarrow> int" where
  "efi_image_size vmlinuz initramfs =
     (let n = 8 * 1024 * 1024 + int (length vmlinuz) + int (length initramfs);
          minFAT16Size = 3 * 1024 * 1024
      in if n < minFAT16Size then minFAT16Size else n)"

definition writeFATFile :: "(iso_op \<Rightarrow> bool) \<Rightarrow> string \<Rightarrow> string \<Rightarrow> iso_run" where
  "writeFATFile ok pathname data = iso_calls ok [FatOpen pathname, FatWrite pathname data, FatClose pathname]"

definition buildEFIBootImage :: "(iso_op \<Rightarrow> bool) \<Rightarrow> string \<Rightarrow> string \<Rightarrow> string \<Rightarrow> string \<Rightarrow> iso_run" where
  "buildEFIBootImage ok outPath efiBootFile vmlinuz initramfs =
     (let n = efi_image_size vmlinuz initramfs in
      then_calls (iso_calls ok [CreateFat outPath, FatCreate n, FatTruncate n, FatMkdir ''/EFI'', FatMkdir ''/EFI/BOOT''])
      (then_calls (writeFATFile ok (''/EFI/BOOT/'' @ efiBootFile) vmlinuz)
      (then_calls (writeFATFile ok ''/EFI/BOOT/INITRD.IMG'' initramfs)
      (iso_calls ok [CloseFat]))))"

section \<open>The boot catalog\<close>

definition boot_entries :: "string \<Rightarrow> nat \<Rightarrow> boot_entry list" where
  "boot_entries a loadSectors =
     (let efiEntry = \<lparr> be_Platform = EFI, be_BootFile = ''/EFIBOOT.IMG'', be_BootTable = False, be_LoadSize = loadSectors \<rparr>
      in if a = ''amd64''
         then [\<lparr> be_Platform = BIOS, be_BootFile = ''/ISOLINUX/ISOLINUX.BIN'', be_BootTable = True, be_LoadSize = 0 \<rparr>, efiEntry]
         else [efiEntry])"

definition boot_catalog :: "string \<Rightarrow> string" where
  "boot_catalog a = (if a = ''amd64'' then ''/ISOLINUX/BOOT.CAT'' else ''/EFIBOOT.CAT'')"

section \<open>Write\<close>

definition iso_defaults :: "IsoImage \<Rightarrow> IsoImage" where
  "iso_defaults img0 =
     (let img = (if ii_VolumeLabel img0 = [] then img0 \<lparr> ii_VolumeLabel := ''CNIMBUS'' \<rparr> else img0)
      in if ii_Arch img = [] then img \<lparr> ii_Arch := ''amd64'' \<rparr> else img)"

definition iso_tree :: "(iso_op \<Rightarrow> bool) \<Rightarrow> string \<Rightarrow> IsoImage \<Rightarrow> iso_run" where
  "iso_tree ok workspace img =
     then_calls
       (if ii_Arch img = ''amd64''
        then then_calls (iso_writeFile ok workspace ''ISOLINUX/ISOLINUX.BIN'' (ii_IsolinuxBin img))
             (then_calls (iso_writeFile ok workspace ''ISOLINUX/LDLINUX.C32'' (ii_LdlinuxC32 img))
               (iso_writeFile ok workspace ''ISOLINUX/ISOLINUX.CFG'' (ii_IsolinuxCfg img)))
        else iso_calls ok [])
     (then_calls (writeFileFromPath ok workspace ''SQUASHFS.IMG'' (ii_SquashfsImgPath img))
     (then_calls
       (if 0 < length (ii_Metadata img) then iso_writeFile ok workspace ''CNIMBUS.CFG'' (ii_Metadata img) else iso_calls ok [])
     (then_calls (iso_writeFile ok workspace (''EFI/BOOT/'' @ iso_efiBootFileName (ii_Arch img)) (ii_Vmlinuz img))
       (iso_writeFile ok workspace ''EFI/BOOT/INITRD.IMG'' (ii_InitramfsImg img)))))"

definition iso_finish :: "(iso_op \<Rightarrow> bool) \<Rightarrow> int \<Rightarrow> string \<Rightarrow> string \<Rightarrow> IsoImage \<Rightarrow> iso_run" where
  "iso_finish ok efiImgSize path workspace img =
     (let efiLoadSectors = (efiImgSize + 511) div 512 in
      if 65535 < efiLoadSectors then stop_with (EFIPayloadTooLarge efiLoadSectors)
      else iso_calls ok [CreateOut path, IsoCreate workspace,
             Finalize (ii_VolumeLabel img) (boot_catalog (ii_Arch img))
               (boot_entries (ii_Arch img) (nat efiLoadSectors mod 65536)),
             CloseOut])"

text \<open>
  \<^verbatim>\<open>mkdirTemp\<close> is the new workspace under a directory, \<^verbatim>\<open>stat\<close> the size of a file.
\<close>

definition isoimage_Write ::
  "(iso_op \<Rightarrow> bool) \<Rightarrow> (string \<Rightarrow> string option) \<Rightarrow> (string \<Rightarrow> int option) \<Rightarrow> string \<Rightarrow> IsoImage \<Rightarrow> iso_run" where
  "isoimage_Write ok mkdirTemp stat path img0 =
     (let img = iso_defaults img0; efiBootFile = iso_efiBootFileName (ii_Arch img) in
      case mkdirTemp (ii_TmpDir img) of
        None \<Rightarrow> stop_with IsoWorkspace
      | Some workspace \<Rightarrow>
          let efiImgPath = go_path_join [workspace, ''EFIBOOT.IMG''] in
          finally_call (RemoveAll workspace)
            (then_calls (iso_tree ok workspace img)
            (then_calls (buildEFIBootImage ok efiImgPath efiBootFile (ii_Vmlinuz img) (ii_InitramfsImg img))
            (case stat efiImgPath of
               None \<Rightarrow> stop_with (IsoStat efiImgPath)
             | Some n \<Rightarrow> iso_finish ok n path workspace img))))"

section \<open>Lemmas\<close>

lemma efi_image_size_eq: "efi_image_size v i = 8388608 + int (length v) + int (length i)"
  by (simp add: efi_image_size_def Let_def)

lemma iso_finish_ok:
  "snd (iso_finish ok n path ws img) = Inr () \<Longrightarrow>
   (n + 511) div 512 \<le> 65535 \<and>
   Finalize (ii_VolumeLabel img) (boot_catalog (ii_Arch img))
     (boot_entries (ii_Arch img) (nat ((n + 511) div 512))) \<in> set (fst (iso_finish ok n path ws img))"
  by (auto simp: iso_finish_def Let_def fst_run_calls run_calls_Inr split: if_splits)

text \<open>What each stage of a successful run contributes.\<close>

lemma iso_writeFile_ok:
  "snd (iso_writeFile ok ws rel data) = Inr () \<Longrightarrow>
   WriteWs (go_path_join [ws, rel]) data \<in> set (fst (iso_writeFile ok ws rel data))"
  by (simp add: iso_writeFile_def Let_def fst_run_calls del: run_calls.simps)

lemma iso_tree_ok:
  "snd (iso_tree ok ws img) = Inr () \<Longrightarrow>
   WriteWs (go_path_join [ws, ''EFI/BOOT/'' @ iso_efiBootFileName (ii_Arch img)]) (ii_Vmlinuz img) \<in> set (fst (iso_tree ok ws img)) \<and>
   WriteWs (go_path_join [ws, ''EFI/BOOT/INITRD.IMG'']) (ii_InitramfsImg img) \<in> set (fst (iso_tree ok ws img)) \<and>
   CopyWs (ii_SquashfsImgPath img) (go_path_join [ws, ''SQUASHFS.IMG'']) \<in> set (fst (iso_tree ok ws img))"
  unfolding iso_tree_def writeFileFromPath_def Let_def snd_then_calls
  by (simp add: snd_then_calls fst_then_calls iso_writeFile_ok fst_run_calls del: run_calls.simps)

lemma buildEFIBootImage_ok:
  "snd (buildEFIBootImage ok p boot v i) = Inr () \<Longrightarrow>
   FatWrite (''/EFI/BOOT/'' @ boot) v \<in> set (fst (buildEFIBootImage ok p boot v i)) \<and>
   FatWrite ''/EFI/BOOT/INITRD.IMG'' i \<in> set (fst (buildEFIBootImage ok p boot v i)) \<and>
   FatTruncate (efi_image_size v i) \<in> set (fst (buildEFIBootImage ok p boot v i))"
  unfolding buildEFIBootImage_def writeFATFile_def Let_def snd_then_calls
  by (simp add: snd_then_calls fst_then_calls fst_run_calls del: run_calls.simps)

lemma load_size:
  fixes n :: int
  assumes "0 \<le> n"
  shows "n \<le> int (nat ((n + 511) div 512)) * 512 \<and> int (nat ((n + 511) div 512)) * 512 < n + 512"
proof -
  have "0 \<le> (n + 511) div 512" using assms by simp
  then have "int (nat ((n + 511) div 512)) = (n + 511) div 512" by simp
  moreover have "n \<le> (n + 511) div 512 * 512" "(n + 511) div 512 * 512 < n + 512" by linarith+
  ultimately show ?thesis by simp
qed


lemma iso_stages_all:
  assumes "\<forall>p. ok p"
  shows "snd (iso_tree ok ws img) = Inr ()" and "snd (buildEFIBootImage ok p boot v i) = Inr ()"
  unfolding iso_tree_def buildEFIBootImage_def writeFATFile_def iso_writeFile_def writeFileFromPath_def Let_def
    run_calls_all [OF assms] snd_then_calls
  by (simp_all add: snd_then_calls)

text \<open>Neither stage touches the output file.\<close>

lemma iso_writeFile_inside: "list_all (\<lambda>p. p \<noteq> CreateOut path) (fst (iso_writeFile ok ws rel data))"
  unfolding iso_writeFile_def Let_def by (intro run_calls_only) simp

lemma iso_stages_inside:
  shows "list_all (\<lambda>p. p \<noteq> CreateOut path) (fst (iso_tree ok ws img))"
    and "list_all (\<lambda>p. p \<noteq> CreateOut path) (fst (buildEFIBootImage ok p boot v i))"
proof -
  have "list_all (\<lambda>p. p \<noteq> CreateOut path) (fst (writeFileFromPath ok ws rel src))" for rel src
    unfolding writeFileFromPath_def Let_def by (intro run_calls_only) simp
  then show "list_all (\<lambda>p. p \<noteq> CreateOut path) (fst (iso_tree ok ws img))"
    unfolding iso_tree_def by (auto intro!: then_calls_only run_calls_only iso_writeFile_inside)
  show "list_all (\<lambda>p. p \<noteq> CreateOut path) (fst (buildEFIBootImage ok p boot v i))"
    unfolding buildEFIBootImage_def writeFATFile_def Let_def
    by (intro then_calls_only run_calls_only) simp_all
qed

text \<open>
  The size check is exact and early: with every call succeeding, the write is refused
  precisely when the kernel and the initramfs together exceed 25165312 bytes, and then the
  output file is never created and the workspace is removed.
\<close>

theorem iso_size_limit:
  assumes "\<forall>p. ok p" and "img = iso_defaults img0" and "mkdirTemp (ii_TmpDir img) = Some ws"
    and "stat (go_path_join [ws, ''EFIBOOT.IMG'']) = Some (efi_image_size (ii_Vmlinuz img) (ii_InitramfsImg img))"
  shows "(if length (ii_Vmlinuz img) + length (ii_InitramfsImg img) \<le> 25165312
    then snd (isoimage_Write ok mkdirTemp stat path img0) = Inr ()
    else (\<exists>k. snd (isoimage_Write ok mkdirTemp stat path img0) = Inl (EFIPayloadTooLarge k)) \<and>
      CreateOut path \<notin> set (fst (isoimage_Write ok mkdirTemp stat path img0)) \<and>
      RemoveAll ws \<in> set (fst (isoimage_Write ok mkdirTemp stat path img0)))"
proof -
  let ?p = "go_path_join [ws, ''EFIBOOT.IMG'']"
  let ?n = "efi_image_size (ii_Vmlinuz img) (ii_InitramfsImg img)"
  let ?fat = "buildEFIBootImage ok ?p (iso_efiBootFileName (ii_Arch img)) (ii_Vmlinuz img) (ii_InitramfsImg img)"
  let ?w = "isoimage_Write ok mkdirTemp stat path img0"
  note all = run_calls_all [OF assms(1)]
  have W: "?w = finally_call (RemoveAll ws)
      (then_calls (iso_tree ok ws img) (then_calls ?fat (iso_finish ok ?n path ws img)))"
    using assms(3,4) by (simp add: isoimage_Write_def assms(2) [symmetric])
  have tree: "snd (iso_tree ok ws img) = Inr ()" and fat: "snd ?fat = Inr ()"
    using iso_stages_all [OF assms(1)] by auto
  have w: "snd ?w = snd (iso_finish ok ?n path ws img)"
    "fst ?w = fst (iso_tree ok ws img) @ fst ?fat @ fst (iso_finish ok ?n path ws img) @ [RemoveAll ws]"
    unfolding W by (simp_all add: tree fat then_calls_def)
  have lim: "65535 < (?n + 511) div 512 \<longleftrightarrow> \<not> length (ii_Vmlinuz img) + length (ii_InitramfsImg img) \<le> 25165312"
    unfolding efi_image_size_eq by linarith
  show ?thesis
  proof (cases "length (ii_Vmlinuz img) + length (ii_InitramfsImg img) \<le> 25165312")
    case True
    with lim show ?thesis by (simp add: w(1) iso_finish_def Let_def run_calls_Inr assms(1) del: run_calls.simps)
  next
    case False
    then have f: "iso_finish ok ?n path ws img = stop_with (EFIPayloadTooLarge ((?n + 511) div 512))"
      using lim by (simp add: iso_finish_def Let_def)
    have "list_all (\<lambda>p. p \<noteq> CreateOut path) (fst (iso_tree ok ws img))" "list_all (\<lambda>p. p \<noteq> CreateOut path) (fst ?fat)"
      using iso_stages_inside by auto
    then have "CreateOut path \<notin> set (fst (iso_tree ok ws img) @ fst ?fat @ [RemoveAll ws])"
      by (auto simp: list_all_iff)
    with False show ?thesis by (simp add: w f)
  qed
qed

definition iso_example :: IsoImage where
  "iso_example = \<lparr> ii_VolumeLabel = ''WEB'', ii_Arch = [], ii_IsolinuxBin = ''B'', ii_LdlinuxC32 = ''L'',
     ii_IsolinuxCfg = ''C'', ii_Vmlinuz = ''MZ'', ii_InitramfsImg = ''0707'', ii_Metadata = [],
     ii_SquashfsImgPath = ''/tmp/r'', ii_TmpDir = ''/o'' \<rparr>"

lemma iso_example_defaults: "iso_defaults iso_example = iso_example \<lparr> ii_Arch := ''amd64'' \<rparr>"
  by (simp add: iso_defaults_def iso_example_def)

theorem iso_size_limit_witness:
  "snd (isoimage_Write (\<lambda>p. True) (\<lambda>d. Some (d @ ''/ws'')) (\<lambda>p. Some 8388614) ''web.iso'' iso_example) = Inr ()"
  using iso_size_limit [where ok = "\<lambda>p. True" and img = "iso_defaults iso_example" and ?img0.0 = iso_example
      and mkdirTemp = "\<lambda>d. Some (d @ ''/ws'')" and ws = "''/o/ws''" and stat = "\<lambda>p. Some 8388614"]
  by (simp add: iso_example_defaults) (simp add: iso_example_def efi_image_size_eq)


end
