(* ===== verification/Pecoff.thy ===== *)
theory Pecoff
  imports Go_Bytes
begin

text \<open>
  PE/COFF images (internal/secureboot/pecoff.go): the layout parser, the Authenticode digest, the
  image checksum and the section appender. An index outside a slice, where Go panics, is the error
  \<^verbatim>\<open>PePanic\<close>.
\<close>

section \<open>Layout\<close>

record peLayout =
  pl_ntHeaderOffset :: nat
  pl_fileHeaderOffset :: nat
  pl_optionalHeaderOffset :: nat
  pl_sectionHeaderOffset :: nat
  pl_numberOfSections :: nat
  pl_sizeOfOptionalHeader :: nat
  pl_isPE32Plus :: bool
  pl_sectionAlignment :: nat
  pl_fileAlignment :: nat
  pl_sizeOfImageOff :: nat
  pl_sizeOfHeadersOff :: nat
  pl_checksumOff :: nat
  pl_dataDirOff :: nat
  pl_numRvaSizesOff :: nat

datatype pe_error = NotPE | NotPEMagic nat | NotPEDirectory | NotPEHeaders | NameTooLong string | NoRoom nat nat | PePanic

definition orPanic :: "'a option \<Rightarrow> pe_error + 'a" where
  "orPanic x = (case x of None \<Rightarrow> Inl PePanic | Some v \<Rightarrow> Inr v)"

definition pe_signature :: string where
  "pe_signature = ''PE'' @ [CHR 0x00, CHR 0x00]"

text \<open>The fields whose place depends on where the optional header starts (lines 152 to 170).\<close>

definition peFields :: "nat \<Rightarrow> nat \<Rightarrow> nat \<Rightarrow> bool \<Rightarrow> nat \<Rightarrow> nat \<Rightarrow> peLayout" where
  "peFields nt nsec szopt p64 sa fa =
     (let oh = nt + 4 + 20; postImageBase = (if p64 then 24 + 8 else 28 + 4);
          checksumOff = oh + postImageBase + 32;
          numRva = checksumOff + 4 + 2 + 2 + 4 * 8 + 4 in
      \<lparr> pl_ntHeaderOffset = nt, pl_fileHeaderOffset = nt + 4, pl_optionalHeaderOffset = oh,
        pl_sectionHeaderOffset = oh + szopt, pl_numberOfSections = nsec,
        pl_sizeOfOptionalHeader = szopt, pl_isPE32Plus = p64,
        pl_sectionAlignment = sa, pl_fileAlignment = (if fa = 0 then 512 else fa),
        pl_sizeOfImageOff = oh + postImageBase + 24, pl_sizeOfHeadersOff = oh + postImageBase + 28,
        pl_checksumOff = checksumOff, pl_dataDirOff = numRva + 4, pl_numRvaSizesOff = numRva \<rparr>)"

definition parsePELayout :: "string \<Rightarrow> pe_error + peLayout" where
  "parsePELayout data =
     (if length data < 64 \<or> take 2 data \<noteq> ''MZ'' then Inl NotPE
      else bindE (orPanic (get_le 4 60 data)) (\<lambda>nt.
      if nt = 0 \<or> length data < nt + 4 + 20 then Inl NotPE
      else if take 4 (drop nt data) \<noteq> pe_signature then Inl NotPE
      else bindE (orPanic (get_le 2 (nt + 4 + 2) data)) (\<lambda>nsec.
      bindE (orPanic (get_le 2 (nt + 4 + 16) data)) (\<lambda>szopt.
      let oh = nt + 4 + 20 in
      if length data < oh + szopt \<or> length data < oh + 2 then Inl NotPEHeaders
      else bindE (orPanic (get_le 2 oh data)) (\<lambda>magic.
      if magic \<noteq> 0x20B \<and> magic \<noteq> 0x10B then Inl (NotPEMagic magic)
      else let p64 = (magic = 0x20B); postImageBase = (if p64 then 24 + 8 else 28 + 4) in
      bindE (orPanic (get_le 4 (oh + postImageBase + 4) data)) (\<lambda>sa.
      bindE (orPanic (get_le 4 (oh + postImageBase + 8) data)) (\<lambda>fa.
      let l = peFields nt nsec szopt p64 sa fa in
      if length data < pl_dataDirOff l + 8 * 5 then Inl NotPEDirectory else Inr l)))))))"

definition pe_align :: "nat \<Rightarrow> nat \<Rightarrow> nat" where
  "pe_align n alignment = (if alignment = 0 then n else (n + alignment - 1) div alignment * alignment)"

text \<open>The certificate table's directory entry.\<close>

definition securityOff :: "peLayout \<Rightarrow> nat" where
  "securityOff l = pl_dataDirOff l + 4 * 8"

definition securityDataDirectory :: "peLayout \<Rightarrow> string \<Rightarrow> (nat \<times> nat) option" where
  "securityDataDirectory l data =
     (case (get_le 4 (securityOff l) data, get_le 4 (securityOff l + 4) data) of
        (Some off, Some sz) \<Rightarrow> Some (off, sz) | _ \<Rightarrow> None)"

definition setSecurityDataDirectory :: "peLayout \<Rightarrow> string \<Rightarrow> nat \<Rightarrow> nat \<Rightarrow> string option" where
  "setSecurityDataDirectory l data off sz =
     Option.bind (put_le 4 (securityOff l) off data) (\<lambda>d. put_le 4 (securityOff l + 4) sz d)"

section \<open>The Authenticode digest\<close>

definition image_end :: "nat \<Rightarrow> string \<Rightarrow> nat" where
  "image_end secOff data = (if secOff \<noteq> 0 \<and> secOff < length data then secOff else length data)"

definition authenticodeDigest :: "(string \<Rightarrow> string) \<Rightarrow> string \<Rightarrow> peLayout \<Rightarrow> string option" where
  "authenticodeDigest hashFn data l =
     Option.bind (securityDataDirectory l data) (\<lambda>(secOff, _).
     Option.bind (slice 0 (pl_checksumOff l) data) (\<lambda>a.
     Option.bind (slice (pl_checksumOff l + 4) (securityOff l) data) (\<lambda>b.
     Option.bind (slice (securityOff l + 8) (image_end secOff data) data) (\<lambda>c.
     Some (hashFn (a @ b @ c))))))"

section \<open>The checksum\<close>

definition fold16 :: "nat \<Rightarrow> nat" where
  "fold16 s = s mod 65536 + s div 65536"

fun checksum_loop :: "nat \<Rightarrow> nat \<Rightarrow> nat \<Rightarrow> string \<Rightarrow> nat" where
  "checksum_loop off i s [] = s"
| "checksum_loop off i s [c] = (if i = off \<or> i = off + 2 then s else fold16 (s + code c))"
| "checksum_loop off i s (c # d # r) =
     checksum_loop off (i + 2) (if i = off \<or> i = off + 2 then s else fold16 (s + (code c + 256 * code d))) r"

definition peChecksum :: "string \<Rightarrow> nat \<Rightarrow> nat" where
  "peChecksum data off = (fold16 (fold16 (checksum_loop off 0 0 data)) + length data) mod 2 ^ 32"

definition recomputeChecksum :: "string \<Rightarrow> peLayout \<Rightarrow> string option" where
  "recomputeChecksum data l =
     Option.bind (put_le 4 (pl_checksumOff l) 0 data)
       (\<lambda>d. put_le 4 (pl_checksumOff l) (peChecksum d (pl_checksumOff l)) d)"

section \<open>Appending a section\<close>

definition section_header :: "string \<Rightarrow> nat \<Rightarrow> nat \<Rightarrow> nat \<Rightarrow> nat \<Rightarrow> string" where
  "section_header name vsize vma rawSize rawOffset =
     name @ replicate (8 - length name) (CHR 0x00) @
     le_bytes 4 vsize @ le_bytes 4 vma @ le_bytes 4 rawSize @ le_bytes 4 rawOffset @
     replicate 12 (CHR 0x00) @ le_bytes 4 0x40000040"

definition appended :: "string \<Rightarrow> string \<Rightarrow> peLayout \<Rightarrow> string" where
  "appended pe sectionData l =
     (let rawSize = pe_align (length sectionData) (pl_fileAlignment l);
          rawOffset = pe_align (length pe) (pl_fileAlignment l)
      in pe @ sectionData @ replicate (rawOffset - length pe + rawSize - length sectionData) (CHR 0x00))"

definition new_header :: "string \<Rightarrow> string \<Rightarrow> string \<Rightarrow> nat \<Rightarrow> peLayout \<Rightarrow> string" where
  "new_header pe name sectionData vma l =
     section_header name (length sectionData) vma (pe_align (length sectionData) (pl_fileAlignment l))
       (pe_align (length pe) (pl_fileAlignment l))"

definition write_section :: "peLayout \<Rightarrow> string \<Rightarrow> string \<Rightarrow> string \<Rightarrow> nat \<Rightarrow> pe_error + string" where
  "write_section l pe name sectionData vma =
     bindE (orPanic (overwrite (pl_sectionHeaderOffset l + pl_numberOfSections l * 40)
        (new_header pe name sectionData vma l) (appended pe sectionData l))) (\<lambda>out1.
     bindE (orPanic (put_le 2 (pl_fileHeaderOffset l + 2) (pl_numberOfSections l + 1) out1)) (\<lambda>out2.
     bindE (orPanic (get_le 4 (pl_sizeOfImageOff l) out2)) (\<lambda>cur.
     let wanted = pe_align (vma + length sectionData) (pl_sectionAlignment l) in
     bindE (orPanic (put_le 4 (pl_sizeOfImageOff l) (if wanted < cur then cur else wanted) out2)) (\<lambda>out3.
     bindE (parsePELayout out3) (\<lambda>l2. orPanic (recomputeChecksum out3 l2))))))"

definition appendSection :: "string \<Rightarrow> string \<Rightarrow> string \<Rightarrow> nat \<Rightarrow> pe_error + string" where
  "appendSection pe name sectionData vma =
     (if 8 < length name then Inl (NameTooLong name)
      else bindE (parsePELayout pe) (\<lambda>l.
      let newHeaderEnd = pl_sectionHeaderOffset l + (pl_numberOfSections l + 1) * 40 in
      bindE (orPanic (get_le 4 (pl_sizeOfHeadersOff l) pe)) (\<lambda>sizeOfHeaders.
      if sizeOfHeaders < newHeaderEnd then Inl (NoRoom newHeaderEnd sizeOfHeaders)
      else write_section l pe name sectionData vma)))"

section \<open>What the parser guarantees\<close>

lemma orPanic_iff [simp]: "orPanic x = Inr v \<longleftrightarrow> x = Some v" "orPanic x = Inl e \<longleftrightarrow> x = None \<and> e = PePanic"
  by (auto simp: orPanic_def split: option.splits)

definition pe_header_at :: "string \<Rightarrow> nat" where
  "pe_header_at data = le_at 4 60 data + 24"

lemma parsePELayout_Inr:
  assumes "parsePELayout data = Inr l"
  shows "pl_optionalHeaderOffset l = pe_header_at data \<and>
    pl_fileHeaderOffset l + 20 = pe_header_at data \<and> 24 < pe_header_at data \<and>
    pl_numberOfSections l = le_at 2 (pe_header_at data - 18) data \<and>
    pl_sectionHeaderOffset l = pe_header_at data + le_at 2 (pe_header_at data - 4) data \<and>
    pl_sectionAlignment l = le_at 4 (pe_header_at data + 36) data \<and>
    pl_fileAlignment l = (let fa = le_at 4 (pe_header_at data + 40) data in if fa = 0 then 512 else fa) \<and>
    pl_sizeOfImageOff l = pe_header_at data + 56 \<and>
    pl_sizeOfHeadersOff l = pe_header_at data + 60 \<and>
    pl_checksumOff l = pe_header_at data + 64 \<and>
    pl_dataDirOff l = pe_header_at data + 112 \<and>
    pe_header_at data + 152 \<le> length data \<and>
    pl_sectionHeaderOffset l \<le> length data"
proof -
  from assms obtain nt nsec szopt p64 sa fa where
    "get_le 4 60 data = Some nt" "nt \<noteq> 0" "get_le 2 (nt + 4 + 2) data = Some nsec"
    "get_le 2 (nt + 4 + 16) data = Some szopt"
    "get_le 4 (nt + 24 + 36) data = Some sa" "get_le 4 (nt + 24 + 40) data = Some fa"
    and l: "l = peFields nt nsec szopt p64 sa fa" and len: "pl_dataDirOff l + 40 \<le> length data"
    and sec: "nt + 24 + szopt \<le> length data"
    unfolding parsePELayout_def Let_def
    by (auto simp: bindE_Inr_iff not_less split: if_splits)
  then show ?thesis
    unfolding l peFields_def Let_def
    by (auto simp: get_le_Some_iff pe_header_at_def split: if_splits)
qed


section \<open>The checksum is a ones' complement sum\<close>

fun pe_words :: "nat \<Rightarrow> nat \<Rightarrow> string \<Rightarrow> nat list" where
  "pe_words off i [] = []"
| "pe_words off i [c] = (if i = off \<or> i = off + 2 then [] else [code c])"
| "pe_words off i (c # d # r) =
     (if i = off \<or> i = off + 2 then [] else [code c + 256 * code d]) @ pe_words off (i + 2) r"

definition ones_sum :: "nat list \<Rightarrow> nat" where
  "ones_sum ws = (if sum_list ws = 0 then 0 else (sum_list ws - 1) mod 65535 + 1)"

text \<open>The two facts that pin down a ones' complement sum.\<close>

definition folds_to :: "nat \<Rightarrow> nat \<Rightarrow> bool" where
  "folds_to s tot \<longleftrightarrow> s \<le> 65535 \<and> s mod 65535 = tot mod 65535 \<and> (s = 0 \<longleftrightarrow> tot = 0)"

lemma fold16_small [simp]: "s \<le> 65535 \<Longrightarrow> fold16 s = s"
  by (simp add: fold16_def)

lemma fold16_mod: "fold16 s mod 65535 = s mod 65535"
proof -
  have "s = 65536 * (s div 65536) + s mod 65536" by simp
  then have "s = fold16 s + 65535 * (s div 65536)" by (simp add: fold16_def)
  then show ?thesis by (metis mod_mult_self2)
qed

lemma fold16_zero [simp]: "fold16 s = 0 \<longleftrightarrow> s = 0"
  by (auto simp: fold16_def)

lemma fold16_bound: "s \<le> 131070 \<Longrightarrow> fold16 s \<le> 65535"
proof -
  assume s: "s \<le> 131070"
  consider "s < 65536" | "65536 \<le> s" by linarith
  then show ?thesis
  proof cases
    case 1
    then show ?thesis by (simp add: fold16_def)
  next
    case 2
    then have "s div 65536 = 1" using s by (intro div_nat_eqI) auto
    moreover have "s mod 65536 = s - 65536" using 2 s by (simp add: mod_if)
    ultimately show ?thesis using s by (simp add: fold16_def)
  qed
qed

lemma folds_to_step:
  assumes "folds_to s tot" and "w \<le> 65535"
  shows "folds_to (fold16 (s + w)) (tot + w)"
proof -
  have "fold16 (s + w) mod 65535 = (tot + w) mod 65535"
    using assms(1) by (simp add: fold16_mod folds_to_def) (metis mod_add_left_eq)
  moreover have "fold16 (s + w) \<le> 65535"
    using assms by (intro fold16_bound) (simp add: folds_to_def)
  ultimately show ?thesis using assms by (simp add: folds_to_def)
qed

lemma code_le_255: "code c \<le> 255"
  using code_less_256 [of c] by linarith

lemma word_le: "code c + 256 * code d \<le> 65535"
  using code_le_255 [of c] code_le_255 [of d] by linarith

lemma checksum_loop_folds:
  "folds_to s tot \<Longrightarrow> folds_to (checksum_loop off i s data) (tot + sum_list (pe_words off i data))"
proof (induction off i s data arbitrary: tot rule: checksum_loop.induct)
  case (1 off i s)
  then show ?case by simp
next
  case (2 off i s c)
  have "code c \<le> 65535" using code_le_255 [of c] by linarith
  with 2 show ?case by (auto intro: folds_to_step)
next
  case (3 off i s c d r)
  show ?case
  proof (cases "i = off \<or> i = off + 2")
    case True
    with 3 show ?thesis by auto
  next
    case False
    have "folds_to (fold16 (s + (code c + 256 * code d))) (tot + (code c + 256 * code d))"
      using 3(2) word_le by (rule folds_to_step)
    from 3(1) [of "tot + (code c + 256 * code d)"] this False show ?thesis
      by (simp add: add.assoc)
  qed
qed

lemma folds_to_unique:
  assumes "folds_to s (sum_list ws)"
  shows "s = ones_sum ws"
proof (cases "sum_list ws = 0")
  case True
  with assms show ?thesis by (simp add: folds_to_def ones_sum_def)
next
  case False
  let ?t = "sum_list ws"
  from False assms have s: "0 < s" "s \<le> 65535" "s mod 65535 = ?t mod 65535"
    by (auto simp: folds_to_def)
  have le: "s \<le> ?t"
  proof (rule ccontr)
    assume "\<not> s \<le> ?t"
    then have "65535 dvd s - ?t" using s(3) by (simp add: mod_eq_dvd_iff_nat)
    moreover have "0 < s - ?t" and "s - ?t < 65535"
      using \<open>\<not> s \<le> ?t\<close> s(2) False by linarith+
    ultimately show False by (meson nat_dvd_not_less)
  qed
  have "65535 dvd ?t - s" using mod_eq_dvd_iff_nat [OF le, of 65535] s(3) by metis
  then obtain k where "?t - s = 65535 * k" by blast
  with le s(1) have "?t - 1 = (s - 1) + 65535 * k" by linarith
  then have "(?t - 1) mod 65535 = (s - 1) mod 65535" by (simp only: mod_mult_self2)
  also have "\<dots> = s - 1" using s by (intro mod_less) linarith
  finally have "(?t - 1) mod 65535 = s - 1" .
  with s(1) False show ?thesis by (simp add: ones_sum_def)
qed

lemma peChecksum_ones:
  "peChecksum data off = (ones_sum (pe_words off 0 data) + length data) mod 2 ^ 32"
proof -
  let ?s = "checksum_loop off 0 0 data"
  have "folds_to ?s (0 + sum_list (pe_words off 0 data))"
    by (rule checksum_loop_folds) (simp add: folds_to_def)
  then have f: "folds_to ?s (sum_list (pe_words off 0 data))" by simp
  then have "?s = ones_sum (pe_words off 0 data)" by (rule folds_to_unique)
  moreover have "?s \<le> 65535" using f by (simp add: folds_to_def)
  ultimately show ?thesis by (simp add: peChecksum_def)
qed

lemma pe_words_append:
  "even (length a) \<Longrightarrow> pe_words off i (a @ b) = pe_words off i a @ pe_words off (i + length a) b"
proof (induction off i a rule: pe_words.induct)
  case (3 off i c d r)
  then show ?case by (simp add: add.assoc add.commute [of 2])
qed simp_all

lemma pe_words_skip_field: "length f = 4 \<Longrightarrow> pe_words off off (f @ b) = pe_words off (off + 4) b"
proof -
  assume "length f = 4"
  then obtain a1 a2 a3 a4 where "f = [a1, a2, a3, a4]"
    by (auto simp: numeral_eq_Suc length_Suc_conv)
  then show ?thesis by (simp add: numeral_eq_Suc)
qed

lemma peChecksum_field_independent:
  assumes "even off" and "off + 4 \<le> length data" and "length f = 4"
  shows "peChecksum (set_at off f data) off = peChecksum data off"
proof -
  have ev: "even (length (take off data))" using assms by simp
  have d: "data = take off data @ take 4 (drop off data) @ drop (off + 4) data"
    by (metis add.commute append_take_drop_id drop_drop)
  have "pe_words off 0 (set_at off f data) =
      pe_words off 0 (take off data) @ pe_words off (off + 4) (drop (off + 4) data)"
    using assms pe_words_skip_field [of f off] by (simp add: set_at_def pe_words_append [OF ev] min_def)
  also have "\<dots> = pe_words off 0 data"
  proof -
    have "length (take 4 (drop off data)) = 4" using assms by simp
    from pe_words_skip_field [OF this, of off] show ?thesis
      using assms by (subst (3) d) (simp add: pe_words_append [OF ev] min_def)
  qed
  finally show ?thesis using assms by (simp add: peChecksum_ones)
qed

text \<open>
  Property C34. The checksum the code computes is the PE checksum: the ones' complement sum of the
  image's 16-bit words, an odd last byte counted as a word and the words of the CheckSum field
  left out, plus the image's length, as an unsigned 32-bit number.
\<close>

theorem peChecksum_is_ones_complement:
  "peChecksum data off = (ones_sum (pe_words off 0 data) + length data) mod 2 ^ 32"
  by (rule peChecksum_ones)

section \<open>A recomputed checksum verifies\<close>

lemma recomputeChecksum_Some:
  "recomputeChecksum data l = Some out \<longleftrightarrow>
   pl_checksumOff l + 4 \<le> length data \<and>
   out = set_at (pl_checksumOff l)
     (le_bytes 4 (peChecksum (set_at (pl_checksumOff l) (le_bytes 4 0) data) (pl_checksumOff l))) data"
  by (auto simp: recomputeChecksum_def put_le_Some_iff set_at_twice Option.bind_eq_Some_conv)

lemma peChecksum_less: "peChecksum data off < 2 ^ 32"
  by (simp add: peChecksum_def)

text \<open>
  A rewritten checksum is right: after \<^verbatim>\<open>recomputeChecksum\<close> the CheckSum field
  holds the checksum of the image as it now is, and no other byte has changed, whatever the field
  held before (the field being at an even offset, as PE headers are).
\<close>

theorem recomputed_checksum_verifies:
  assumes "recomputeChecksum data l = Some out" and "even (pl_checksumOff l)"
  shows "le_at 4 (pl_checksumOff l) out = peChecksum out (pl_checksumOff l) \<and>
    length out = length data \<and>
    take (pl_checksumOff l) out = take (pl_checksumOff l) data \<and>
    drop (pl_checksumOff l + 4) out = drop (pl_checksumOff l + 4) data"
proof -
  let ?off = "pl_checksumOff l"
  let ?v = "peChecksum (set_at ?off (le_bytes 4 0) data) ?off"
  from assms(1) have len: "?off + 4 \<le> length data" and out: "out = set_at ?off (le_bytes 4 ?v) data"
    by (auto simp: recomputeChecksum_Some)
  have "le_at 4 ?off out = ?v"
    using len peChecksum_less [of "set_at ?off (le_bytes 4 0) data" ?off]
    by (simp add: out le_at_set_at_same)
  moreover have "peChecksum out ?off = peChecksum data ?off"
    unfolding out using assms(2) len by (intro peChecksum_field_independent) auto
  moreover have "?v = peChecksum data ?off"
    using assms(2) len by (intro peChecksum_field_independent) auto
  ultimately show ?thesis
    using len by (simp add: out) (simp add: set_at_def)
qed

theorem recomputed_checksum_verifies_witness:
  "\<exists>out. recomputeChecksum (replicate 200 (CHR 0x07)) (peFields 2 0 0 True 0 0) = Some out \<and>
     le_at 4 90 out = peChecksum out 90"
proof -
  have off: "pl_checksumOff (peFields 2 0 0 True 0 0) = 90" by (simp add: peFields_def)
  then obtain out where out: "recomputeChecksum (replicate 200 (CHR 0x07)) (peFields 2 0 0 True 0 0) = Some out"
    by (simp add: recomputeChecksum_Some)
  from recomputed_checksum_verifies [OF this] off out show ?thesis by simp
qed

section \<open>Where the appended section is\<close>

record pe_section =
  sec_name :: string
  sec_vsize :: nat
  sec_vma :: nat
  sec_rawsize :: nat
  sec_pointer :: nat

text \<open>How a loader reads the section table, and the bytes a section maps.\<close>

definition read_section :: "peLayout \<Rightarrow> nat \<Rightarrow> string \<Rightarrow> pe_section" where
  "read_section l k data =
     (let at = pl_sectionHeaderOffset l + k * 40 in
      \<lparr> sec_name = take 8 (drop at data), sec_vsize = le_at 4 (at + 8) data,
        sec_vma = le_at 4 (at + 12) data, sec_rawsize = le_at 4 (at + 16) data,
        sec_pointer = le_at 4 (at + 20) data \<rparr>)"

definition section_bytes :: "pe_section \<Rightarrow> string \<Rightarrow> string" where
  "section_bytes s data = take (sec_vsize s) (drop (sec_pointer s) data)"

text \<open>A well-formed image: headers in the usual order, room for the table inside the file.\<close>

definition pe_wellformed :: "string \<Rightarrow> peLayout \<Rightarrow> bool" where
  "pe_wellformed pe l \<longleftrightarrow> parsePELayout pe = Inr l \<and> 88 \<le> pe_header_at pe \<and>
     pl_dataDirOff l + 40 \<le> pl_sectionHeaderOffset l \<and>
     le_at 4 (pl_sizeOfHeadersOff l) pe \<le> length pe \<and> pl_numberOfSections l < 65535"

lemma length_section_header: "length name \<le> 8 \<Longrightarrow> length (section_header name a b c d) = 40"
  by (simp add: section_header_def)

lemma length_new_header: "length name \<le> 8 \<Longrightarrow> length (new_header pe name sectionData vma l) = 40"
  by (simp add: new_header_def length_section_header)

lemma appendSection_room:
  assumes "appendSection pe name sectionData vma = Inr out" and "parsePELayout pe = Inr l"
  shows "length name \<le> 8 \<and> write_section l pe name sectionData vma = Inr out \<and>
    pl_sectionHeaderOffset l + pl_numberOfSections l * 40 + 40 \<le> le_at 4 (pl_sizeOfHeadersOff l) pe"
  using assms unfolding appendSection_def Let_def
  by (auto simp: bindE_Inr_iff get_le_Some_iff split: if_splits)

lemma write_section_writes:
  assumes "write_section l pe name sectionData vma = Inr out"
  obtains img l2 where
    "recomputeChecksum (set_at (pl_sizeOfImageOff l) (le_bytes 4 img)
       (set_at (pl_fileHeaderOffset l + 2) (le_bytes 2 (pl_numberOfSections l + 1))
         (set_at (pl_sectionHeaderOffset l + pl_numberOfSections l * 40)
            (new_header pe name sectionData vma l) (appended pe sectionData l)))) l2 = Some out"
    "parsePELayout (set_at (pl_sizeOfImageOff l) (le_bytes 4 img)
       (set_at (pl_fileHeaderOffset l + 2) (le_bytes 2 (pl_numberOfSections l + 1))
         (set_at (pl_sectionHeaderOffset l + pl_numberOfSections l * 40)
            (new_header pe name sectionData vma l) (appended pe sectionData l)))) = Inr l2"
  using assms unfolding write_section_def Let_def
  by (simp only: bindE_Inr_iff orPanic_iff overwrite_Some_iff put_le_Some_iff get_le_Some_iff) blast

definition header_slot :: "peLayout \<Rightarrow> nat" where
  "header_slot l = pl_sectionHeaderOffset l + pl_numberOfSections l * 40"

lemma appendSection_writes:
  assumes app: "appendSection pe name sectionData vma = Inr out" and wf: "pe_wellformed pe l"
  obtains img sum where
    "out = set_at (pe_header_at pe + 64) (le_bytes 4 sum)
       (set_at (pe_header_at pe + 56) (le_bytes 4 img)
         (set_at (pe_header_at pe - 18) (le_bytes 2 (pl_numberOfSections l + 1))
           (set_at (header_slot l) (new_header pe name sectionData vma l) (appended pe sectionData l))))"
    and "pe_header_at pe + 152 \<le> header_slot l" and "header_slot l + 40 \<le> length pe"
    and "length name \<le> 8"
proof -
  have l: "parsePELayout pe = Inr l" and H: "88 \<le> pe_header_at pe"
    and table: "pl_dataDirOff l + 40 \<le> pl_sectionHeaderOffset l"
    and hdrs: "le_at 4 (pl_sizeOfHeadersOff l) pe \<le> length pe"
    using wf by (auto simp: pe_wellformed_def)
  note offs = parsePELayout_Inr [OF l]
  from appendSection_room [OF app l] hdrs have name: "length name \<le> 8"
    and ws: "write_section l pe name sectionData vma = Inr out"
    and slot: "header_slot l + 40 \<le> length pe"
    by (auto simp: header_slot_def)
  have slot2: "pe_header_at pe + 152 \<le> header_slot l"
    using offs table by (auto simp: header_slot_def)
  have fh: "pl_fileHeaderOffset l + 2 = pe_header_at pe - 18" using offs by auto
  have app_len: "length pe \<le> length (appended pe sectionData l)"
    by (simp add: appended_def Let_def)
  let ?o1 = "set_at (header_slot l) (new_header pe name sectionData vma l) (appended pe sectionData l)"
  let ?o2 = "set_at (pe_header_at pe - 18) (le_bytes 2 (pl_numberOfSections l + 1)) ?o1"
  from write_section_writes [OF ws] obtain img l2 where
    sum: "recomputeChecksum (set_at (pe_header_at pe + 56) (le_bytes 4 img) ?o2) l2 = Some out"
    and l2: "parsePELayout (set_at (pe_header_at pe + 56) (le_bytes 4 img) ?o2) = Inr l2"
    using offs fh unfolding header_slot_def by metis
  let ?o3 = "set_at (pe_header_at pe + 56) (le_bytes 4 img) ?o2"
  have len1: "length ?o1 = length (appended pe sectionData l)"
    using slot app_len length_new_header [OF name] by simp
  have end_le: "pe_header_at pe + 152 \<le> length pe" using offs by blast
  have len2: "length ?o2 = length (appended pe sectionData l)"
    using len1 end_le app_len by (subst length_set_at) auto
  have "le_at 4 60 ?o3 = le_at 4 60 ?o2"
    using len2 end_le app_len H by (intro le_at_set_at_other) auto
  also have "\<dots> = le_at 4 60 ?o1"
    using len1 end_le app_len H by (intro le_at_set_at_other) auto
  also have "\<dots> = le_at 4 60 (appended pe sectionData l)"
    using slot slot2 app_len length_new_header [OF name] H by (intro le_at_set_at_other) auto
  also have "\<dots> = le_at 4 60 pe"
    using offs H by (simp add: appended_def Let_def le_at_append)
  finally have "pe_header_at ?o3 = pe_header_at pe" by (simp add: pe_header_at_def)
  with parsePELayout_Inr [OF l2] have "pl_checksumOff l2 = pe_header_at pe + 64" by simp
  with sum show thesis
    using that slot slot2 name by (simp add: recomputeChecksum_Some)
qed

text \<open>Away from the three header fields, the result is the extended image with the new header.\<close>

lemma appendSection_elsewhere:
  assumes "appendSection pe name sectionData vma = Inr out" and "pe_wellformed pe l"
    and "a + n \<le> pe_header_at pe - 18 \<or> pe_header_at pe - 16 \<le> a"
    and "a + n \<le> pe_header_at pe + 56 \<or> pe_header_at pe + 60 \<le> a"
    and "a + n \<le> pe_header_at pe + 64 \<or> pe_header_at pe + 68 \<le> a"
  shows "take n (drop a out) =
    take n (drop a (set_at (header_slot l) (new_header pe name sectionData vma l) (appended pe sectionData l)))"
proof -
  have H: "88 \<le> pe_header_at pe" using assms(2) by (simp add: pe_wellformed_def)
  have other: "take n (drop a (set_at off bs d)) = take n (drop a d)"
    if "off + length bs \<le> length d" "a + n \<le> off \<or> off + length bs \<le> a" for off bs d
    using that take_drop_set_at_before take_drop_set_at_after by metis
  let ?hdr = "new_header pe name sectionData vma l"
  let ?o1 = "set_at (header_slot l) ?hdr (appended pe sectionData l)"
  let ?o2 = "set_at (pe_header_at pe - 18) (le_bytes 2 (pl_numberOfSections l + 1)) ?o1"
  from appendSection_writes [OF assms(1,2)] obtain img sum where
    out: "out = set_at (pe_header_at pe + 64) (le_bytes 4 sum) (set_at (pe_header_at pe + 56) (le_bytes 4 img) ?o2)"
    and slot: "pe_header_at pe + 152 \<le> header_slot l" "header_slot l + 40 \<le> length pe" "length name \<le> 8" .
  let ?o3 = "set_at (pe_header_at pe + 56) (le_bytes 4 img) ?o2"
  have app_len: "length pe \<le> length (appended pe sectionData l)" by (simp add: appended_def Let_def)
  have lens: "length ?o1 = length (appended pe sectionData l)"
    using slot app_len length_new_header [OF slot(3)] by (subst length_set_at) auto
  then have lens2: "length ?o2 = length (appended pe sectionData l)"
    using slot app_len by (subst length_set_at) auto
  then have lens3: "length ?o3 = length (appended pe sectionData l)"
    using slot app_len by (subst length_set_at) auto
  have "take n (drop a out) = take n (drop a ?o3)"
    unfolding out using lens3 slot app_len assms(5) by (intro other) auto
  also have "\<dots> = take n (drop a ?o2)"
    using lens2 slot app_len assms(4) by (intro other) auto
  also have "\<dots> = take n (drop a ?o1)"
    using lens slot app_len assms(3) H by (intro other) auto
  finally show ?thesis .
qed

lemma appendSection_slot:
  assumes "appendSection pe name sectionData vma = Inr out" and "pe_wellformed pe l"
  shows "pe_header_at pe + 152 \<le> header_slot l \<and> header_slot l + 40 \<le> length pe \<and> length name \<le> 8"
  by (rule appendSection_writes [OF assms]) simp

lemma appendSection_unchanged:
  assumes app: "appendSection pe name sectionData vma = Inr out" "pe_wellformed pe l"
    and range: "a + n \<le> length pe" "a + n \<le> header_slot l \<or> header_slot l + 40 \<le> a"
    and fields: "a + n \<le> pe_header_at pe - 18 \<or> pe_header_at pe - 16 \<le> a"
      "a + n \<le> pe_header_at pe + 56 \<or> pe_header_at pe + 60 \<le> a"
      "a + n \<le> pe_header_at pe + 64 \<or> pe_header_at pe + 68 \<le> a"
  shows "take n (drop a out) = take n (drop a pe)"
proof -
  note slot = appendSection_slot [OF app]
  let ?hdr = "new_header pe name sectionData vma l"
  have hdr: "length ?hdr = 40" using slot by (simp add: length_new_header)
  have fits: "header_slot l + length ?hdr \<le> length (appended pe sectionData l)"
    using slot hdr by (simp add: appended_def Let_def)
  have "take n (drop a (set_at (header_slot l) ?hdr (appended pe sectionData l))) =
      take n (drop a (appended pe sectionData l))"
    using range(2) take_drop_set_at_before [OF fits, of a n] take_drop_set_at_after [OF fits, of a n] hdr
    by metis
  also have "\<dots> = take n (drop a pe)" using range(1) by (simp add: appended_def Let_def)
  finally show ?thesis using appendSection_elsewhere [OF app fields] by simp
qed

lemma appendSection_tail:
  assumes app: "appendSection pe name sectionData vma = Inr out" "pe_wellformed pe l" and "length pe \<le> a"
  shows "take n (drop a out) = take n (drop a (appended pe sectionData l))"
proof -
  note slot = appendSection_slot [OF app]
  let ?hdr = "new_header pe name sectionData vma l"
  have hdr: "length ?hdr = 40" using slot by (simp add: length_new_header)
  have fits: "header_slot l + length ?hdr \<le> length (appended pe sectionData l)"
    using slot hdr by (simp add: appended_def Let_def)
  have "take n (drop a (set_at (header_slot l) ?hdr (appended pe sectionData l))) =
      take n (drop a (appended pe sectionData l))"
    using take_drop_set_at_after [OF fits, of a n] hdr slot assms(3) by simp
  moreover have "take n (drop a out) = take n (drop a (set_at (header_slot l) ?hdr (appended pe sectionData l)))"
    using slot assms(3) by (intro appendSection_elsewhere [OF app]) auto
  ultimately show ?thesis by simp
qed

lemma appendSection_header:
  assumes app: "appendSection pe name sectionData vma = Inr out" "pe_wellformed pe l"
  shows "take 40 (drop (header_slot l) out) = new_header pe name sectionData vma l"
proof -
  note slot = appendSection_slot [OF app]
  let ?hdr = "new_header pe name sectionData vma l"
  have hdr: "length ?hdr = 40" using slot by (simp add: length_new_header)
  have "take 40 (drop (header_slot l) out) =
      take 40 (drop (header_slot l) (set_at (header_slot l) ?hdr (appended pe sectionData l)))"
    using slot by (intro appendSection_elsewhere [OF app]) auto
  also have "\<dots> = ?hdr"
    using slot take_drop_set_at_same [of "header_slot l" ?hdr "appended pe sectionData l"]
    by (simp add: hdr appended_def Let_def)
  finally show ?thesis .
qed

lemma section_header_fields:
  assumes "length name \<le> 8"
  shows "take 8 (section_header name a b c d) = name @ replicate (8 - length name) (CHR 0x00)"
    and "take 4 (drop 8 (section_header name a b c d)) = le_bytes 4 a"
    and "take 4 (drop 12 (section_header name a b c d)) = le_bytes 4 b"
    and "take 4 (drop 16 (section_header name a b c d)) = le_bytes 4 c"
    and "take 4 (drop 20 (section_header name a b c d)) = le_bytes 4 d"
  using assms by (simp_all add: section_header_def)

lemma pe_align_exact:
  assumes "0 < k" and "k dvd n"
  shows "pe_align n k = n"
proof -
  from assms(2) obtain m where n: "n = m * k" by (metis dvdE mult.commute)
  have "n + k - 1 = (k - 1) + m * k" using assms(1) n by simp
  then have "(n + k - 1) div k = m" using assms(1) by (simp only: div_mult_self1) simp
  with assms(1) n show ?thesis by (simp add: pe_align_def)
qed

lemma pe_align_ge: "0 < k \<Longrightarrow> n \<le> pe_align n k"
proof -
  assume k: "0 < k"
  have "n + k - 1 < ((n + k - 1) div k + 1) * k"
    using k by (metis add.commute dividend_less_div_times mult.commute mult_Suc plus_1_eq_Suc)
  with k show ?thesis by (simp add: pe_align_def add_mult_distrib)
qed

lemma appendSection_section:
  assumes app: "appendSection pe name sectionData vma = Inr out" and wf: "pe_wellformed pe l"
    and small: "vma < 2 ^ 32" "pe_align (length pe) (pl_fileAlignment l) < 2 ^ 32" "length sectionData < 2 ^ 32"
  shows "let s = read_section l (pl_numberOfSections l) out; ptr = pe_align (length pe) (pl_fileAlignment l) in
    sec_name s = name @ replicate (8 - length name) (CHR 0x00) \<and> sec_vma s = vma \<and>
    sec_vsize s = length sectionData \<and> sec_pointer s = ptr \<and>
    section_bytes s out = take (length sectionData) (drop ptr (appended pe sectionData l)) \<and>
    le_at 2 (pl_fileHeaderOffset l + 2) out = pl_numberOfSections l + 1 \<and>
    (\<forall>k < pl_numberOfSections l. read_section l k out = read_section l k pe)"
proof -
  have l: "parsePELayout pe = Inr l" and nsec: "pl_numberOfSections l < 65535"
    using wf by (auto simp: pe_wellformed_def)
  note offs = parsePELayout_Inr [OF l]
  note slot = appendSection_slot [OF app wf]
  then have name: "length name \<le> 8" by blast
  have fa: "0 < pl_fileAlignment l" using offs by (auto simp: Let_def split: if_splits)
  let ?ptr = "pe_align (length pe) (pl_fileAlignment l)"
  have piece: "take w (drop (header_slot l + k) out) = take w (drop k (new_header pe name sectionData vma l))"
    if "k + w \<le> 40" for k w
  proof -
    have "take w (drop k (take 40 (drop (header_slot l) out))) = take w (drop (header_slot l + k) out)"
      using that by (simp add: drop_take min_def add.commute)
    then show ?thesis using appendSection_header [OF app wf] by simp
  qed
  have sname: "take 8 (drop (header_slot l) out) = name @ replicate (8 - length name) (CHR 0x00)"
    using piece [of 0 8] section_header_fields(1) [OF name] by (simp add: new_header_def)
  have vsize: "le_at 4 (header_slot l + 8) out = length sectionData"
    using piece [of 8 4] section_header_fields(2) [OF name] small
    by (simp add: le_at_def new_header_def le_val_le_bytes)
  have svma: "le_at 4 (header_slot l + 12) out = vma"
    using piece [of 12 4] section_header_fields(3) [OF name] small
    by (simp add: le_at_def new_header_def le_val_le_bytes)
  have pointer: "le_at 4 (header_slot l + 20) out = ?ptr"
    using piece [of 20 4] section_header_fields(5) [OF name] small
    by (simp add: le_at_def new_header_def le_val_le_bytes)
  have bytes: "take (length sectionData) (drop ?ptr out) = take (length sectionData) (drop ?ptr (appended pe sectionData l))"
    using pe_align_ge [OF fa] by (rule appendSection_tail [OF app wf])
  have earlier: "read_section l k out = read_section l k pe" if k: "k < pl_numberOfSections l" for k
  proof -
    have "pl_sectionHeaderOffset l + k * 40 + 40 \<le> header_slot l"
      using k by (simp add: header_slot_def)
    then have "take w (drop (pl_sectionHeaderOffset l + k * 40 + j) out) =
        take w (drop (pl_sectionHeaderOffset l + k * 40 + j) pe)" if "j + w \<le> 40" for j w
      using that slot wf offs
      by (intro appendSection_unchanged [OF app wf]) (auto simp: pe_wellformed_def)
    from this [of 0 8] this [of 8 4] this [of 12 4] this [of 16 4] this [of 20 4] show ?thesis
      by (simp add: read_section_def Let_def le_at_def)
  qed
  have count: "le_at 2 (pl_fileHeaderOffset l + 2) out = pl_numberOfSections l + 1"
  proof -
    from appendSection_writes [OF app wf] obtain img sum where
      out: "out = set_at (pe_header_at pe + 64) (le_bytes 4 sum)
       (set_at (pe_header_at pe + 56) (le_bytes 4 img)
         (set_at (pe_header_at pe - 18) (le_bytes 2 (pl_numberOfSections l + 1))
           (set_at (header_slot l) (new_header pe name sectionData vma l) (appended pe sectionData l))))" .
    let ?o1 = "set_at (header_slot l) (new_header pe name sectionData vma l) (appended pe sectionData l)"
    let ?o2 = "set_at (pe_header_at pe - 18) (le_bytes 2 (pl_numberOfSections l + 1)) ?o1"
    have len1: "length pe \<le> length ?o1"
      using slot length_new_header [OF name] by (subst length_set_at) (auto simp: appended_def Let_def)
    then have len2: "length pe \<le> length ?o2" using slot by (subst length_set_at) auto
    then have len3: "length pe \<le> length (set_at (pe_header_at pe + 56) (le_bytes 4 img) ?o2)"
      using slot by (subst length_set_at) auto
    have at: "pl_fileHeaderOffset l + 2 = pe_header_at pe - 18" using offs by auto
    have "le_at 2 (pe_header_at pe - 18) out = le_at 2 (pe_header_at pe - 18) (set_at (pe_header_at pe + 56) (le_bytes 4 img) ?o2)"
      unfolding out using len3 slot by (intro le_at_set_at_other) auto
    also have "\<dots> = le_at 2 (pe_header_at pe - 18) ?o2"
      using len2 slot by (intro le_at_set_at_other) auto
    also have "\<dots> = (pl_numberOfSections l + 1) mod 256 ^ 2"
      using len1 slot by (intro le_at_set_at_same) auto
    finally show ?thesis using nsec at by simp
  qed
  show ?thesis
    using sname svma pointer bytes vsize count earlier
    by (simp add: read_section_def section_bytes_def Let_def header_slot_def)
qed

lemma fileAlignment_pos: "parsePELayout pe = Inr l \<Longrightarrow> 0 < pl_fileAlignment l"
  using parsePELayout_Inr [of pe l] by (auto simp: Let_def split: if_splits)


section \<open>The appender returns\<close>

definition fields_of :: "string \<Rightarrow> peLayout" where
  "fields_of data = (let nt = le_at 4 60 data in
     peFields nt (le_at 2 (nt + 4 + 2) data) (le_at 2 (nt + 4 + 16) data) (le_at 2 (nt + 4 + 20) data = 0x20B)
       (le_at 4 (nt + 4 + 20 + 32 + 4) data) (le_at 4 (nt + 4 + 20 + 32 + 8) data))"

lemma parsePELayout_eq:
  assumes "take 2 data = ''MZ''" and "0 < le_at 4 60 data"
    and "take 4 (drop (le_at 4 60 data) data) = pe_signature"
    and "le_at 2 (pe_header_at data) data = 0x20B \<or> le_at 2 (pe_header_at data) data = 0x10B"
    and "pe_header_at data + le_at 2 (pe_header_at data - 4) data \<le> length data"
    and "pe_header_at data + 152 \<le> length data"
  shows "parsePELayout data = Inr (fields_of data)"
proof -
  let ?nt = "le_at 4 60 data"
  have len: "?nt + 176 \<le> length data" using assms(6) by (simp add: pe_header_at_def)
  then have gets: "get_le 4 60 data = Some ?nt" "get_le 2 (?nt + 4 + 2) data = Some (le_at 2 (?nt + 4 + 2) data)"
    "get_le 2 (?nt + 4 + 16) data = Some (le_at 2 (?nt + 4 + 16) data)"
    "get_le 2 (?nt + 4 + 20) data = Some (le_at 2 (?nt + 4 + 20) data)"
    "get_le 4 (?nt + 4 + 20 + 32 + 4) data = Some (le_at 4 (?nt + 4 + 20 + 32 + 4) data)"
    "get_le 4 (?nt + 4 + 20 + 32 + 8) data = Some (le_at 4 (?nt + 4 + 20 + 32 + 8) data)"
    by (simp_all add: get_le_in)
  have dir: "pl_dataDirOff (peFields ?nt a b c d e) + 8 * 5 \<le> length data" for a b c d e
    using len by (simp add: peFields_def Let_def)
  have opt: "?nt + 4 + 20 + le_at 2 (?nt + 4 + 16) data \<le> length data"
    using assms(5) by (simp add: pe_header_at_def)
  have pib: "(if p then 24 + 8 else 28 + 4) = (32::nat)" for p by simp
  have magic: "\<not> (le_at 2 (?nt + 4 + 20) data \<noteq> 0x20B \<and> le_at 2 (?nt + 4 + 20) data \<noteq> 0x10B)"
    using assms(4) by (simp add: pe_header_at_def add.commute)
  have c1: "\<not> (length data < 64 \<or> take 2 data \<noteq> ''MZ'')" using len assms(1,2) by auto
  have c2: "\<not> (?nt = 0 \<or> length data < ?nt + 4 + 20)" using len assms(2) by auto
  have c3: "\<not> take 4 (drop ?nt data) \<noteq> pe_signature" using assms(3) by simp
  have c4: "\<not> (length data < ?nt + 4 + 20 + le_at 2 (?nt + 4 + 16) data \<or> length data < ?nt + 4 + 20 + 2)"
    using len opt by auto
  have c5: "\<not> length data < pl_dataDirOff (peFields ?nt a b c d e) + 8 * 5" for a b c d e
    using dir by (simp only: not_less)
  have some: "orPanic (Some v) = Inr v" for v :: 'x by (simp add: orPanic_def)
  show ?thesis
    unfolding parsePELayout_def fields_of_def Let_def
    by (simp only: c1 c2 c3 c4 c5 gets magic pib if_False some bindE_simps)
qed

lemma parsePELayout_ok:
  assumes "take 2 data = ''MZ''" and "0 < le_at 4 60 data"
    and "take 4 (drop (le_at 4 60 data) data) = pe_signature"
    and "le_at 2 (pe_header_at data) data = 0x20B \<or> le_at 2 (pe_header_at data) data = 0x10B"
    and "pe_header_at data + le_at 2 (pe_header_at data - 4) data \<le> length data"
    and "pe_header_at data + 152 \<le> length data"
  shows "\<exists>l. parsePELayout data = Inr l"
  using parsePELayout_eq [OF assms] by blast

lemma parsePELayout_signature:
  assumes "parsePELayout data = Inr l"
  shows "take 2 data = ''MZ'' \<and> take 4 (drop (le_at 4 60 data) data) = pe_signature \<and>
    (le_at 2 (pe_header_at data) data = 0x20B \<or> le_at 2 (pe_header_at data) data = 0x10B)"
proof -
  from assms obtain nt magic where
    "get_le 4 60 data = Some nt" "take 2 data = ''MZ''" "take 4 (drop nt data) = pe_signature"
    "get_le 2 (nt + 4 + 20) data = Some magic" "magic = 0x20B \<or> magic = 0x10B"
    unfolding parsePELayout_def Let_def
    by (auto simp: bindE_Inr_iff split: if_splits)
  then show ?thesis by (auto simp: get_le_Some_iff pe_header_at_def add.commute)
qed

lemma parsePELayout_fields:
  assumes "parsePELayout data = Inr l"
  shows "l = fields_of data"
proof -
  note offs = parsePELayout_Inr [OF assms] and sig = parsePELayout_signature [OF assms]
  have "parsePELayout data = Inr (fields_of data)"
    using offs sig by (intro parsePELayout_eq) (auto simp: pe_header_at_def)
  with assms show ?thesis by simp
qed

lemma appendSection_succeeds:
  assumes wf: "pe_wellformed pe l" and name: "length name \<le> 8"
    and room: "header_slot l + 40 \<le> le_at 4 (pl_sizeOfHeadersOff l) pe"
  shows "\<exists>out. appendSection pe name sectionData vma = Inr out"
proof -
  have l: "parsePELayout pe = Inr l" and H: "88 \<le> pe_header_at pe"
    and table: "pl_dataDirOff l + 40 \<le> pl_sectionHeaderOffset l"
    and slot: "header_slot l + 40 \<le> length pe"
    using wf room by (auto simp: pe_wellformed_def)
  note offs = parsePELayout_Inr [OF l]
  note sig = parsePELayout_signature [OF l]
  let ?H = "pe_header_at pe"
  have slot2: "?H + 152 \<le> header_slot l" using offs table by (auto simp: header_slot_def)
  have H_end: "?H + 152 \<le> length pe" using slot slot2 by simp
  let ?hdr = "new_header pe name sectionData vma l"
  have hdr: "length ?hdr = 40" using name by (rule length_new_header)
  let ?app = "appended pe sectionData l"
  have app_len: "length pe \<le> length ?app" by (simp add: appended_def Let_def)
  let ?o1 = "set_at (header_slot l) ?hdr ?app"
  have len1: "length ?o1 = length ?app" using slot app_len hdr by (subst length_set_at) auto
  let ?o2 = "set_at (?H - 18) (le_bytes 2 (pl_numberOfSections l + 1)) ?o1"
  have len2: "length ?o2 = length ?app" using len1 app_len H_end by (subst length_set_at) auto
  define img where "img = (let cur = le_at 4 (?H + 56) ?o2; wanted = pe_align (vma + length sectionData) (pl_sectionAlignment l)
    in if wanted < cur then cur else wanted)"
  let ?o3 = "set_at (?H + 56) (le_bytes 4 img) ?o2"
  have len3: "length ?o3 = length ?app" using len2 app_len H_end by (subst length_set_at) auto
  have same: "take n (drop a ?o3) = take n (drop a pe)"
    if "a + n \<le> header_slot l" "a + n \<le> ?H - 18 \<or> ?H - 16 \<le> a" "a + n \<le> ?H + 56 \<or> ?H + 60 \<le> a" for a n
  proof -
    have other: "take n (drop a (set_at off bs d)) = take n (drop a d)"
      if "off + length bs \<le> length d" "a + n \<le> off \<or> off + length bs \<le> a" for off bs d
      using that take_drop_set_at_before take_drop_set_at_after by metis
    have "take n (drop a ?o3) = take n (drop a ?o2)"
      using that len2 app_len H_end by (intro other) auto
    also have "\<dots> = take n (drop a ?o1)" using that len1 app_len H_end H by (intro other) auto
    also have "\<dots> = take n (drop a ?app)" using that slot app_len hdr by (intro other) auto
    also have "\<dots> = take n (drop a pe)" using that slot by (simp add: appended_def Let_def)
    finally show ?thesis .
  qed
  have at: "le_at n a ?o3 = le_at n a pe"
    if "a + n \<le> header_slot l" "a + n \<le> ?H - 18 \<or> ?H - 16 \<le> a" "a + n \<le> ?H + 56 \<or> ?H + 60 \<le> a" for a n
    using same [OF that] by (simp add: le_at_def)
  have nt: "le_at 4 60 ?o3 = le_at 4 60 pe" using slot2 H by (intro at) auto
  then have H3: "pe_header_at ?o3 = ?H" by (simp add: pe_header_at_def)
  have "\<exists>l2. parsePELayout ?o3 = Inr l2"
  proof (rule parsePELayout_ok)
    show "take 2 ?o3 = ''MZ''" using same [of 0 2] sig slot2 H by simp
    show "0 < le_at 4 60 ?o3" using nt offs by (simp add: pe_header_at_def)
    have "take 4 (drop (le_at 4 60 pe) ?o3) = take 4 (drop (le_at 4 60 pe) pe)"
      using slot2 H by (intro same) (auto simp: pe_header_at_def)
    then show "take 4 (drop (le_at 4 60 ?o3) ?o3) = pe_signature" using sig nt by simp
    have "le_at 2 ?H ?o3 = le_at 2 ?H pe" using slot2 H by (intro at) auto
    then show "le_at 2 (pe_header_at ?o3) ?o3 = 523 \<or> le_at 2 (pe_header_at ?o3) ?o3 = 267"
      using sig H3 by simp
    have "le_at 2 (?H - 4) ?o3 = le_at 2 (?H - 4) pe" using slot2 H by (intro at) auto
    then show "pe_header_at ?o3 + le_at 2 (pe_header_at ?o3 - 4) ?o3 \<le> length ?o3"
      using H3 offs len3 app_len by simp
    show "pe_header_at ?o3 + 152 \<le> length ?o3" using H3 len3 app_len H_end by simp
  qed
  then obtain l2 where l2: "parsePELayout ?o3 = Inr l2" by blast
  have "pl_checksumOff l2 + 4 \<le> length ?o3"
    using parsePELayout_Inr [OF l2] by (auto simp: H3)
  then have sum: "\<exists>out. recomputeChecksum ?o3 l2 = Some out" by (simp add: recomputeChecksum_Some)
  have some: "orPanic (Some v) = Inr v" for v :: 'x by (simp add: orPanic_def)
  have fh: "pl_fileHeaderOffset l + 2 = ?H - 18" using offs by auto
  have w1: "overwrite (header_slot l) ?hdr ?app = Some ?o1"
    using slot app_len hdr by (simp add: overwrite_Some_iff)
  have w2: "put_le 2 (?H - 18) (pl_numberOfSections l + 1) ?o1 = Some ?o2"
    using len1 app_len H_end by (intro put_le_in) auto
  have r2: "get_le 4 (?H + 56) ?o2 = Some (le_at 4 (?H + 56) ?o2)"
    using len2 app_len H_end by (intro get_le_in) auto
  have w3: "put_le 4 (?H + 56) img ?o2 = Some ?o3"
    using len2 app_len H_end by (intro put_le_in) auto
  have soi: "pl_sizeOfImageOff l = ?H + 56" using offs by blast
  have "write_section l pe name sectionData vma = orPanic (recomputeChecksum ?o3 l2)"
    unfolding write_section_def fh soi header_slot_def [symmetric]
    by (simp only: w1 w2 r2 some bindE_simps Let_def img_def [unfolded Let_def, symmetric] w3 l2)
  with sum have ws: "\<exists>out. write_section l pe name sectionData vma = Inr out" by (auto simp: some)
  have soh: "get_le 4 (pl_sizeOfHeadersOff l) pe = Some (le_at 4 (pl_sizeOfHeadersOff l) pe)"
    using offs by (intro get_le_in) auto
  have "appendSection pe name sectionData vma = write_section l pe name sectionData vma"
    using name room by (simp add: appendSection_def l soh some Let_def header_slot_def)
  with ws show ?thesis by simp
qed

text \<open>A smallest image: headers only, a file alignment of 16 where the parser reads it.\<close>

definition pe_image :: "nat \<Rightarrow> nat \<Rightarrow> string" where
  "pe_image magic len =
     set_at 0 ''MZ'' (set_at 60 (le_bytes 4 64) (set_at 64 pe_signature (set_at 84 (le_bytes 2 152)
       (set_at 88 (le_bytes 2 magic) (set_at 120 (le_bytes 4 4096) (set_at 124 (le_bytes 4 512)
         (set_at 128 (le_bytes 4 16) (set_at 148 (le_bytes 4 280)
           (replicate len (CHR 0x00))))))))))"

definition pe_example :: string where
  "pe_example = pe_image 0x20B 288"

definition parsed :: "pe_error + 'a \<Rightarrow> 'a" where
  "parsed r = (case r of Inr x \<Rightarrow> x | Inl e \<Rightarrow> undefined e)"

lemma Inr_parsed: "\<not> isl r \<Longrightarrow> r = Inr (parsed r)"
  by (cases r) (auto simp: parsed_def)

lemma pe_signature_length [simp]: "length pe_signature = 4"
  by (simp add: pe_signature_def)

lemma le_val_zeros: "le_val (replicate n (CHR 0x00)) = 0"
  by (induction n) auto

lemma le_at_zeros: "le_at w a (replicate n (CHR 0x00)) = 0"
  by (simp add: le_at_def le_val_zeros)

lemma set_at_4_8:
  "off + 4 \<le> length d \<Longrightarrow> le_at 4 off (set_at off (le_bytes 4 n) d) = n mod 2 ^ 32"
  "off + 2 \<le> length d \<Longrightarrow> le_at 2 off (set_at off (le_bytes 2 n) d) = n mod 2 ^ 16"
  by (simp_all add: le_at_set_at_same)

lemma pe_image_fields:
  assumes "280 \<le> len" and "magic < 2 ^ 16"
  shows "pe_header_at (pe_image magic len) = 88" "le_at 4 148 (pe_image magic len) = 280"
    "le_at 2 70 (pe_image magic len) = 0" "le_at 2 84 (pe_image magic len) = 152"
    "le_at 4 128 (pe_image magic len) = 16" "le_at 2 88 (pe_image magic len) = magic"
    "le_at 4 60 (pe_image magic len) = 64" "le_at 4 124 (pe_image magic len) = 512"
    "length (pe_image magic len) = len"
  using assms
  by (simp_all add: pe_header_at_def pe_image_def le_at_set_at_other set_at_4_8 le_at_zeros)

lemma pe_image_marks:
  assumes "280 \<le> len"
  shows "take 2 (pe_image magic len) = ''MZ''" and "take 4 (drop 64 (pe_image magic len)) = pe_signature"
proof -
  show "take 2 (pe_image magic len) = ''MZ''" by (simp add: pe_image_def set_at_def [of 0])
  show "take 4 (drop 64 (pe_image magic len)) = pe_signature"
    using assms take_drop_set_at_same [of 64 pe_signature, unfolded pe_signature_length]
    by (simp add: pe_image_def take_drop_set_at_after)
qed

lemmas pe_image_facts = pe_image_fields [of 288 "0x20B", simplified, folded pe_example_def]
  pe_image_marks [of 288 "0x20B", simplified, folded pe_example_def]

lemma pe_example_length: "length pe_example = 288"
  by (simp add: pe_example_def pe_image_fields)

lemma pe_example_parses:
  "\<exists>l. parsePELayout pe_example = Inr l \<and> pl_numberOfSections l = 0 \<and> pl_fileAlignment l = 16 \<and>
     pe_wellformed pe_example l \<and> header_slot l + 40 \<le> le_at 4 (pl_sizeOfHeadersOff l) pe_example"
proof -
  have "\<exists>l. parsePELayout pe_example = Inr l"
    by (rule parsePELayout_ok) (simp_all add: pe_image_facts pe_example_length)
  then obtain l where l: "parsePELayout pe_example = Inr l" by blast
  from parsePELayout_Inr [OF l] show ?thesis
    using l by (auto simp: pe_image_facts pe_example_length pe_wellformed_def header_slot_def)
qed


lemma pe_align_dvd: "0 < k \<Longrightarrow> k dvd pe_align n k"
  by (simp add: pe_align_def)

text \<open>
  Where it is not: for an image whose length is no multiple of the file alignment the
  bytes are written directly after the image, but the header points to the next multiple. The
  section a loader sees lacks its first bytes and ends in zeros.
\<close>

theorem appendSection_misplaced:
  assumes app: "appendSection pe name sectionData vma = Inr out" and wf: "pe_wellformed pe l"
    and unaligned: "\<not> pl_fileAlignment l dvd length pe"
    and small: "vma < 2 ^ 32" "pe_align (length pe) (pl_fileAlignment l) < 2 ^ 32" "length sectionData < 2 ^ 32"
  shows "let s = read_section l (pl_numberOfSections l) out;
      gap = pe_align (length pe) (pl_fileAlignment l) - length pe in
    0 < gap \<and> sec_pointer s = length pe + gap \<and>
    section_bytes s out = take (length sectionData) (drop gap sectionData @ replicate gap (CHR 0x00))"
proof -
  let ?fa = "pl_fileAlignment l"
  let ?gap = "pe_align (length pe) ?fa - length pe"
  have fa: "0 < ?fa" using wf by (auto simp: pe_wellformed_def intro: fileAlignment_pos)
  have ge: "length pe \<le> pe_align (length pe) ?fa" "length sectionData \<le> pe_align (length sectionData) ?fa"
    using fa by (simp_all add: pe_align_ge)
  have "pe_align (length pe) ?fa \<noteq> length pe" using unaligned pe_align_dvd [OF fa] by metis
  with ge have gap: "0 < ?gap" "length pe + ?gap = pe_align (length pe) ?fa" by simp_all
  let ?k = "?gap + pe_align (length sectionData) ?fa - length sectionData"
  have "drop (length pe + ?gap) (appended pe sectionData l) = drop ?gap (sectionData @ replicate ?k (CHR 0x00))"
    by (simp add: appended_def Let_def)
  then have "take (length sectionData) (drop (length pe + ?gap) (appended pe sectionData l)) =
      take (length sectionData) (drop ?gap sectionData @ replicate ?gap (CHR 0x00))"
    using ge(2) by (auto simp: drop_append min_def)
  with appendSection_section [OF app wf small] gap show ?thesis by (simp add: Let_def)
qed

theorem appendSection_misplaced_witness:
  "\<exists>l out. appendSection (pe_example @ [CHR 0x00]) ''.initrd'' ''data'' 4096 = Inr out \<and>
     section_bytes (read_section l 0 out) out = [CHR 0x00, CHR 0x00, CHR 0x00, CHR 0x00]"
proof -
  let ?pe = "pe_example @ [CHR 0x00]"
  have "\<exists>l. parsePELayout ?pe = Inr l"
    by (rule parsePELayout_ok) (simp_all add: pe_image_facts pe_example_length le_at_append pe_header_at_def)
  then obtain l where l: "parsePELayout ?pe = Inr l" by blast
  have H: "pe_header_at ?pe = 88" using pe_image_facts(1) by (simp add: pe_header_at_def le_at_append pe_example_length)
  note offs = parsePELayout_Inr [OF l, unfolded H]
  have facts: "pl_numberOfSections l = 0" "pl_fileAlignment l = 16" "pl_sectionHeaderOffset l = 240"
    "le_at 4 (pl_sizeOfHeadersOff l) ?pe = 280" "pl_dataDirOff l = 200"
    using offs by (simp_all add: le_at_append pe_image_facts pe_example_length)
  have wf: "pe_wellformed ?pe l" using l H facts by (simp add: pe_wellformed_def pe_example_length)
  have "\<exists>out. appendSection ?pe ''.initrd'' ''data'' 4096 = Inr out"
    using wf by (rule appendSection_succeeds) (simp_all add: header_slot_def facts)
  then obtain out where out: "appendSection ?pe ''.initrd'' ''data'' 4096 = Inr out" by blast
  have align: "pe_align 289 16 = 304" by (simp add: pe_align_def)
  have "\<not> pl_fileAlignment l dvd length ?pe" by (simp add: facts pe_example_length)
  from appendSection_misplaced [OF out wf this] have "section_bytes (read_section l 0 out) out = [CHR 0x00, CHR 0x00, CHR 0x00, CHR 0x00]"
    by (simp add: facts pe_example_length align Let_def)
  with out show ?thesis by blast
qed

text \<open>
  The layout reads two alignments four bytes too far: what it takes for the section
  alignment is the header's FileAlignment field (offset 36), what it takes for the file alignment
  is the operating system version (offset 40), and for a PE32 header it looks for the data
  directories 16 bytes past where they are (offset 96).
\<close>

theorem layout_offsets:
  assumes "parsePELayout data = Inr l"
  shows "pl_sectionAlignment l = le_at 4 (pl_optionalHeaderOffset l + 36) data \<and>
    (pl_fileAlignment l = le_at 4 (pl_optionalHeaderOffset l + 40) data \<or> pl_fileAlignment l = 512) \<and>
    pl_checksumOff l = pl_optionalHeaderOffset l + 64 \<and>
    pl_dataDirOff l = pl_optionalHeaderOffset l + 112"
  using parsePELayout_Inr [OF assms] by (auto simp: Let_def)

theorem layout_offsets_witness:
  "\<exists>l. parsePELayout (pe_image 0x10B 288) = Inr l \<and> pl_optionalHeaderOffset l = 88 \<and>
     le_at 4 124 (pe_image 0x10B 288) = 512 \<and> pl_sectionAlignment l = 512 \<and> pl_dataDirOff l = 200"
proof -
  have facts: "pe_header_at (pe_image 0x10B 288) = 88" "le_at 4 124 (pe_image 0x10B 288) = 512"
    by (simp_all add: pe_image_fields)
  have "\<exists>l. parsePELayout (pe_image 0x10B 288) = Inr l"
    by (rule parsePELayout_ok) (simp_all add: pe_image_fields pe_image_marks)
  then obtain l where l: "parsePELayout (pe_image 0x10B 288) = Inr l" by blast
  have "pl_optionalHeaderOffset l = 88" using parsePELayout_Inr [OF l] facts by simp
  with layout_offsets [OF l] facts l show ?thesis by simp
qed

text \<open>
  A truncated optional header is not rejected but indexed: on a file that ends right
  after the optional header's magic number the parser panics.
\<close>

theorem parsePELayout_panics:
  "parsePELayout (set_at 84 (le_bytes 2 2) (take 90 (pe_image 0x20B 288))) = Inl PePanic"
  by code_simp

text \<open>
  Property C40. The appender never panics and never fails to re-parse its result: for a well-formed
  image with room for one more header and a name of at most eight bytes it returns an image.
\<close>

theorem appendSection_returns:
  "pe_wellformed pe l \<Longrightarrow> length name \<le> 8 \<Longrightarrow> header_slot l + 40 \<le> le_at 4 (pl_sizeOfHeadersOff l) pe \<Longrightarrow>
   \<exists>out. appendSection pe name sectionData vma = Inr out"
  by (rule appendSection_succeeds)

theorem appendSection_returns_witness: "\<exists>out. appendSection pe_example ''.initrd'' ''data'' 4096 = Inr out"
proof -
  from pe_example_parses obtain l where "pe_wellformed pe_example l"
    "header_slot l + 40 \<le> le_at 4 (pl_sizeOfHeadersOff l) pe_example" by blast
  then show ?thesis using appendSection_returns [of pe_example l "''.initrd''"] by simp
qed

end
