(* ===== verification/Authenticode.thy ===== *)
theory Authenticode
  imports Pecoff
begin

text \<open>
  Authenticode signatures (internal/secureboot/authenticode.go): the DER helpers, the
  PKCS#7 structure and the certificate table entry, with what a verifier reads back from them. The
  hash function is a parameter.
\<close>

section \<open>DER\<close>

text \<open>The loop over the bytes of a length: big endian, no leading zero byte.\<close>

fun der_length_bytes :: "nat \<Rightarrow> string" where
  "der_length_bytes n = (if n = 0 then [] else der_length_bytes (n div 256) @ [char_of (n mod 256)])"

declare der_length_bytes.simps [simp del]

definition derTLV :: "nat \<Rightarrow> string \<Rightarrow> string" where
  "derTLV tag content =
     (let n = length content in
      [char_of tag] @
      (if n < 128 then [char_of n]
       else (let lb = der_length_bytes n in char_of (128 + length lb) # lb)) @ content)"

definition setOf :: "string list \<Rightarrow> string" where
  "setOf elements = derTLV 0x31 (concat elements)"

text \<open>\<^verbatim>\<open>asn1.Marshal\<close> of the values the code marshals: object identifiers and octet strings.\<close>

fun base128_more :: "nat \<Rightarrow> string" where
  "base128_more n = (if n = 0 then [] else base128_more (n div 128) @ [char_of (128 + n mod 128)])"

declare base128_more.simps [simp del]

definition base128 :: "nat \<Rightarrow> string" where
  "base128 n = base128_more (n div 128) @ [char_of (n mod 128)]"

definition oid_der :: "nat list \<Rightarrow> string" where
  "oid_der arcs =
     derTLV 0x06 (case arcs of a # b # rest \<Rightarrow> base128 (40 * a + b) @ concat (map base128 rest) | _ \<Rightarrow> [])"

definition octets_der :: "string \<Rightarrow> string" where
  "octets_der bs = derTLV 0x04 bs"

definition oidSPCIndirectDataContent :: "nat list" where
  "oidSPCIndirectDataContent = [1, 3, 6, 1, 4, 1, 311, 2, 1, 4]"

definition oidSPCPEImageData :: "nat list" where
  "oidSPCPEImageData = [1, 3, 6, 1, 4, 1, 311, 2, 1, 15]"

definition oidPKCS7SignedData :: "nat list" where
  "oidPKCS7SignedData = [1, 2, 840, 113549, 1, 7, 2]"

definition oidPKCS9ContentType :: "nat list" where
  "oidPKCS9ContentType = [1, 2, 840, 113549, 1, 9, 3]"

definition oidPKCS9MessageDigest :: "nat list" where
  "oidPKCS9MessageDigest = [1, 2, 840, 113549, 1, 9, 4]"

definition oidSHA256 :: "nat list" where
  "oidSHA256 = [2, 16, 840, 1, 101, 3, 4, 2, 1]"

definition oidRSAEncryption :: "nat list" where
  "oidRSAEncryption = [1, 2, 840, 113549, 1, 1, 1]"

definition algorithmIdentifierDER :: "nat list \<Rightarrow> string" where
  "algorithmIdentifierDER oid = derTLV 0x30 (oid_der oid @ [CHR 0x05, CHR 0x00])"

section \<open>The signed content\<close>

definition utf16be :: "string \<Rightarrow> string" where
  "utf16be s = concat (map (\<lambda>c. [CHR 0x00, c]) s)"

definition spcPEImageDataFlagsAndFile :: string where
  "spcPEImageDataFlagsAndFile =
     [CHR 0x03, CHR 0x01, CHR 0x00, CHR 0xA0, CHR 0x20, CHR 0xA2, CHR 0x1E, CHR 0x80, CHR 0x1C] @
     utf16be ''<<<Obsolete>>>''"

definition spcIndirectDataContentInner :: "string \<Rightarrow> string" where
  "spcIndirectDataContentInner peDigest =
     derTLV 0x30 (oid_der oidSPCPEImageData @ derTLV 0x30 spcPEImageDataFlagsAndFile) @
     derTLV 0x30 (algorithmIdentifierDER oidSHA256 @ octets_der peDigest)"

record certificate =
  cert_RawIssuer :: string
  cert_Serial :: string
  cert_Raw :: string

definition auth_attributes :: "string \<Rightarrow> string" where
  "auth_attributes contentDigest =
     derTLV 0x30 (oid_der oidPKCS9ContentType @ setOf [oid_der oidSPCIndirectDataContent]) @
     derTLV 0x30 (oid_der oidPKCS9MessageDigest @ setOf [octets_der contentDigest])"

definition signer_info :: "certificate \<Rightarrow> string \<Rightarrow> string \<Rightarrow> string" where
  "signer_info cert attrs sig =
     derTLV 0x30 (derTLV 0x02 [CHR 0x01] @
       derTLV 0x30 (cert_RawIssuer cert @ cert_Serial cert) @
       algorithmIdentifierDER oidSHA256 @ derTLV 0xA0 attrs @
       algorithmIdentifierDER oidRSAEncryption @ octets_der sig)"

definition pkcs7 :: "certificate \<Rightarrow> string \<Rightarrow> string \<Rightarrow> string \<Rightarrow> string" where
  "pkcs7 cert eContent attrs sig =
     derTLV 0x30 (oid_der oidPKCS7SignedData @
       derTLV 0xA0 (derTLV 0x30 (derTLV 0x02 [CHR 0x01] @ setOf [algorithmIdentifierDER oidSHA256] @
         derTLV 0x30 (oid_der oidSPCIndirectDataContent @ derTLV 0xA0 eContent) @
         derTLV 0xA0 (cert_Raw cert) @ setOf [signer_info cert attrs sig])))"

section \<open>The certificate table\<close>

definition cert_entry :: "string \<Rightarrow> string" where
  "cert_entry certData = le_bytes 4 (8 + length certData) @ le_bytes 2 0x0200 @ le_bytes 2 0x0002 @ certData"

definition image_base :: "string \<Rightarrow> nat \<Rightarrow> string" where
  "image_base pe secOff = (if secOff \<noteq> 0 \<and> secOff < length pe then take secOff pe else pe)"

definition embedWinCertificate :: "string \<Rightarrow> peLayout \<Rightarrow> string \<Rightarrow> pe_error + string" where
  "embedWinCertificate pe l certData =
     bindE (orPanic (securityDataDirectory l pe)) (\<lambda>(secOff, _).
     let base = image_base pe secOff; entry = cert_entry certData;
         paddedLen = pe_align (length entry) 8;
         out = base @ entry @ replicate (paddedLen - length entry) (CHR 0x00) in
     bindE (orPanic (setSecurityDataDirectory l out (length base) paddedLen)) (\<lambda>out1.
     orPanic (recomputeChecksum out1 l)))"

section \<open>DER is a codec\<close>

definition read_der :: "string \<Rightarrow> ((nat \<times> string) \<times> string) option" where
  "read_der bs =
     (case bs of t # l0 # rest \<Rightarrow>
        (if code l0 < 128 then
           (if length rest < code l0 then None
            else Some ((code t, take (code l0) rest), drop (code l0) rest))
         else
           (let k = code l0 - 128; n = be_val (take k rest); body = drop k rest in
            if length rest < k \<or> length body < n then None
            else Some ((code t, take n body), drop n body)))
      | _ \<Rightarrow> None)"

lemma be_val_snoc: "be_val (s @ [c]) = 256 * be_val s + code c"
  by (simp add: be_val_def)

lemma be_val_der_length: "be_val (der_length_bytes n) = n"
proof (induction n rule: der_length_bytes.induct)
  case (1 n)
  show ?case
  proof (cases "n = 0")
    case True
    then show ?thesis by (simp add: der_length_bytes.simps be_val_def)
  next
    case False
    with 1 have "be_val (der_length_bytes n) = 256 * (n div 256) + n mod 256"
      by (subst der_length_bytes.simps) (simp add: be_val_snoc)
    then show ?thesis by simp
  qed
qed

lemma der_length_small: "n < 256 ^ k \<Longrightarrow> length (der_length_bytes n) \<le> k"
proof (induction k arbitrary: n)
  case 0
  then show ?case by (simp add: der_length_bytes.simps)
next
  case (Suc k)
  then have "n div 256 < 256 ^ k" by (simp add: less_mult_imp_div_less mult.commute)
  with Suc.IH show ?case by (subst der_length_bytes.simps) simp
qed

definition der_ok :: "nat \<times> string \<Rightarrow> bool" where
  "der_ok = (\<lambda>(tag, content). tag < 256 \<and> length content < 2 ^ 64)"

interpretation der: prefix_codec "\<lambda>(tag, content). derTLV tag content" read_der der_ok
proof unfold_locales
  fix x :: "nat \<times> string" and rest :: string
  assume ok: "der_ok x"
  obtain tag content where x: "x = (tag, content)" by fastforce
  let ?n = "length content"
  have tag: "tag < 256" and n: "?n < 256 ^ 8" using ok by (auto simp: x der_ok_def)
  have k: "length (der_length_bytes ?n) \<le> 8" using n by (rule der_length_small)
  show "read_der ((case x of (tag, content) \<Rightarrow> derTLV tag content) @ rest) = Some (x, rest)"
  proof (cases "?n < 128")
    case True
    with tag show ?thesis by (simp add: x derTLV_def read_der_def Let_def)
  next
    case False
    with tag k show ?thesis
      by (simp add: x derTLV_def read_der_def Let_def be_val_der_length)
  qed
qed

section \<open>What a verifier sees\<close>

lemma cert_entry_length: "length (cert_entry c) = 8 + length c"
  by (simp add: cert_entry_def)

lemma image_base_end: "image_base pe secOff = take (image_end secOff pe) pe"
  by (simp add: image_base_def image_end_def)

text \<open>The written image, as one expression.\<close>

lemma embed_writes:
  assumes "embedWinCertificate pe l certData = Inr out"
    and "securityDataDirectory l pe = Some (secOff, sz)"
  obtains sum where
    "out = set_at (pl_checksumOff l) (le_bytes 4 sum)
       (set_at (securityOff l + 4) (le_bytes 4 (pe_align (8 + length certData) 8))
         (set_at (securityOff l) (le_bytes 4 (length (image_base pe secOff)))
           (image_base pe secOff @ cert_entry certData @
              replicate (pe_align (8 + length certData) 8 - (8 + length certData)) (CHR 0x00))))"
  using assms unfolding embedWinCertificate_def Let_def setSecurityDataDirectory_def
  by (auto simp: bindE_Inr_iff put_le_Some_iff recomputeChecksum_Some Option.bind_eq_Some_conv cert_entry_length)

definition cert_span :: "string \<Rightarrow> nat" where
  "cert_span certData = pe_align (8 + length certData) 8"

lemma cert_span_ge: "8 + length certData \<le> cert_span certData"
  unfolding cert_span_def by (rule pe_align_ge) simp

text \<open>The three writes into the header, on the image without a certificate table.\<close>

definition signed_header :: "peLayout \<Rightarrow> nat \<Rightarrow> nat \<Rightarrow> nat \<Rightarrow> string \<Rightarrow> string" where
  "signed_header l cs off span base =
     set_at (pl_checksumOff l) (le_bytes 4 cs)
       (set_at (securityOff l + 4) (le_bytes 4 span) (set_at (securityOff l) (le_bytes 4 off) base))"

lemma set_at_append: "off + length bs \<le> length a \<Longrightarrow> set_at off bs (a @ b) = set_at off bs a @ b"
  by (simp add: set_at_def)

lemma nth_set_at:
  assumes "off + length bs \<le> length d" and "i < length d"
  shows "set_at off bs d ! i = (if i < off \<or> off + length bs \<le> i then d ! i else bs ! (i - off))"
  using assms by (auto simp: set_at_def nth_append not_less)

lemma set_at_commute:
  assumes "off + length bs \<le> off'" and "off' + length bs' \<le> length d"
  shows "set_at off bs (set_at off' bs' d) = set_at off' bs' (set_at off bs d)"
  using assms by (intro nth_equalityI) (auto simp: nth_set_at)

lemma signed_header_length:
  "pl_checksumOff l + 4 \<le> length base \<Longrightarrow> securityOff l + 8 \<le> length base \<Longrightarrow>
   length (signed_header l cs off span base) = length base"
  by (simp add: signed_header_def)

lemma signed_header_append:
  "pl_checksumOff l + 4 \<le> length base \<Longrightarrow> securityOff l + 8 \<le> length base \<Longrightarrow>
   signed_header l cs off span (base @ t) = signed_header l cs off span base @ t"
  by (simp add: signed_header_def set_at_append)

lemma signed_header_elsewhere:
  assumes "pl_checksumOff l + 4 \<le> length base" "securityOff l + 8 \<le> length base"
    and "a + n \<le> pl_checksumOff l \<or> pl_checksumOff l + 4 \<le> a"
    and "a + n \<le> securityOff l \<or> securityOff l + 8 \<le> a"
  shows "take n (drop a (signed_header l cs off span base)) = take n (drop a base)"
proof -
  have other: "take n (drop a (set_at off bs d)) = take n (drop a d)"
    if "off + length bs \<le> length d" "a + n \<le> off \<or> off + length bs \<le> a" for off bs d
    using that take_drop_set_at_before take_drop_set_at_after by metis
  let ?o1 = "set_at (securityOff l) (le_bytes 4 off) base"
  let ?o2 = "set_at (securityOff l + 4) (le_bytes 4 span) ?o1"
  have "take n (drop a (signed_header l cs off span base)) = take n (drop a ?o2)"
    unfolding signed_header_def using assms by (intro other) auto
  also have "\<dots> = take n (drop a ?o1)" using assms by (intro other) auto
  also have "\<dots> = take n (drop a base)" using assms by (intro other) auto
  finally show ?thesis .
qed

lemma signed_header_directory:
  assumes "pl_checksumOff l + 4 \<le> securityOff l" "securityOff l + 8 \<le> length base" "off < 2 ^ 32" "span < 2 ^ 32"
  shows "securityDataDirectory l (signed_header l cs off span base) = Some (off, span)"
proof -
  let ?o1 = "set_at (securityOff l) (le_bytes 4 off) base"
  let ?o2 = "set_at (securityOff l + 4) (le_bytes 4 span) ?o1"
  have "le_at 4 (securityOff l) (signed_header l cs off span base) = le_at 4 (securityOff l) ?o2"
    unfolding signed_header_def using assms by (intro le_at_set_at_other) auto
  also have "\<dots> = le_at 4 (securityOff l) ?o1" using assms by (intro le_at_set_at_other) auto
  also have "\<dots> = off" using assms by (simp add: le_at_set_at_same)
  finally have d1: "le_at 4 (securityOff l) (signed_header l cs off span base) = off" .
  have "le_at 4 (securityOff l + 4) (signed_header l cs off span base) = le_at 4 (securityOff l + 4) ?o2"
    unfolding signed_header_def using assms by (intro le_at_set_at_other) auto
  also have "\<dots> = span" using assms by (simp add: le_at_set_at_same)
  finally have d2: "le_at 4 (securityOff l + 4) (signed_header l cs off span base) = span" .
  show ?thesis
    using assms d1 d2 by (simp add: securityDataDirectory_def get_le_in signed_header_length)
qed

text \<open>A second signing's writes replace the first one's.\<close>

lemma signed_header_twice:
  assumes "pl_checksumOff l + 4 \<le> securityOff l" "securityOff l + 8 \<le> length base"
  shows "signed_header l s2 o2 p2 (signed_header l s1 o1 p1 base) = signed_header l s2 o2 p2 base"
proof -
  let ?c = "pl_checksumOff l" and ?s = "securityOff l"
  let ?b1 = "set_at ?s (le_bytes 4 o1) base"
  have "signed_header l s2 o2 p2 (signed_header l s1 o1 p1 base) =
      set_at ?c (le_bytes 4 s2) (set_at (?s + 4) (le_bytes 4 p2) (set_at ?c (le_bytes 4 s1)
        (set_at ?s (le_bytes 4 o2) (set_at (?s + 4) (le_bytes 4 p1) ?b1))))"
    unfolding signed_header_def using assms by (subst set_at_commute [symmetric, of ?c _ ?s]) auto
  also have "\<dots> = set_at ?c (le_bytes 4 s2) (set_at ?c (le_bytes 4 s1) (set_at (?s + 4) (le_bytes 4 p2)
        (set_at (?s + 4) (le_bytes 4 p1) (set_at ?s (le_bytes 4 o2) ?b1))))"
    using assms by (subst (2) set_at_commute [of ?c _ "?s + 4"], simp, simp, subst (3) set_at_commute) auto
  also have "\<dots> = signed_header l s2 o2 p2 base"
    using assms by (simp add: set_at_twice signed_header_def)
  finally show ?thesis .
qed

lemma embed_form:
  assumes emb: "embedWinCertificate pe l certData = Inr out"
    and dir: "securityDataDirectory l pe = Some (secOff, sz)"
    and order: "pl_checksumOff l + 4 \<le> securityOff l"
    and fits: "securityOff l + 8 \<le> image_end secOff pe"
  obtains cs where
    "out = signed_header l cs (image_end secOff pe) (cert_span certData) (image_base pe secOff) @
       cert_entry certData @ replicate (cert_span certData - (8 + length certData)) (CHR 0x00)"
proof -
  have "length (image_base pe secOff) = image_end secOff pe" by (auto simp: image_base_def image_end_def)
  with embed_writes [OF emb dir] order fits that show thesis
    by (auto simp: signed_header_def [symmetric] signed_header_append cert_span_def [symmetric])
qed

section \<open>The signed image\<close>

lemma image_base_length: "length (image_base pe secOff) = image_end secOff pe"
  by (auto simp: image_base_def image_end_def)

lemma image_end_le: "image_end secOff pe \<le> length pe"
  by (simp add: image_end_def)

lemma embed_length:
  assumes "embedWinCertificate pe l certData = Inr out" "securityDataDirectory l pe = Some (secOff, sz)"
    "pl_checksumOff l + 4 \<le> securityOff l" "securityOff l + 8 \<le> image_end secOff pe"
  shows "length out = image_end secOff pe + cert_span certData"
proof -
  from embed_form [OF assms] obtain cs where
    "out = signed_header l cs (image_end secOff pe) (cert_span certData) (image_base pe secOff) @
       cert_entry certData @ replicate (cert_span certData - (8 + length certData)) (CHR 0x00)" .
  then show ?thesis
    using assms(3,4) cert_span_ge [of certData]
    by (simp add: signed_header_length image_base_length cert_entry_length)
qed

lemma embed_elsewhere:
  assumes "embedWinCertificate pe l certData = Inr out" "securityDataDirectory l pe = Some (secOff, sz)"
    "pl_checksumOff l + 4 \<le> securityOff l" "securityOff l + 8 \<le> image_end secOff pe"
    and "a + n \<le> pl_checksumOff l \<or> pl_checksumOff l + 4 \<le> a"
    and "a + n \<le> securityOff l \<or> securityOff l + 8 \<le> a" and "a + n \<le> image_end secOff pe"
  shows "take n (drop a out) = take n (drop a pe)"
proof -
  let ?b = "image_base pe secOff"
  from embed_form [OF assms(1-4)] obtain cs where
    out: "out = signed_header l cs (image_end secOff pe) (cert_span certData) ?b @
       cert_entry certData @ replicate (cert_span certData - (8 + length certData)) (CHR 0x00)" .
  have "take n (drop a out) = take n (drop a (signed_header l cs (image_end secOff pe) (cert_span certData) ?b))"
    unfolding out using assms(3,4,7) by (intro take_drop_append) (simp add: signed_header_length image_base_length)
  also have "\<dots> = take n (drop a ?b)"
    using assms(3-6) by (intro signed_header_elsewhere) (simp_all add: image_base_length)
  also have "\<dots> = take n (drop a pe)"
    using assms(7) by (simp add: image_base_end drop_take min_def)
  finally show ?thesis .
qed

lemma embed_directory:
  assumes "embedWinCertificate pe l certData = Inr out" "securityDataDirectory l pe = Some (secOff, sz)"
    "pl_checksumOff l + 4 \<le> securityOff l" "securityOff l + 8 \<le> image_end secOff pe" "length out < 2 ^ 32"
  shows "securityDataDirectory l out = Some (image_end secOff pe, cert_span certData)"
proof -
  let ?b = "image_base pe secOff"
  from embed_form [OF assms(1-4)] obtain cs where
    out: "out = signed_header l cs (image_end secOff pe) (cert_span certData) ?b @
       cert_entry certData @ replicate (cert_span certData - (8 + length certData)) (CHR 0x00)" .
  have "length out = image_end secOff pe + cert_span certData" by (rule embed_length [OF assms(1-4)])
  with assms have dir: "securityDataDirectory l (signed_header l cs (image_end secOff pe) (cert_span certData) ?b)
      = Some (image_end secOff pe, cert_span certData)"
    by (intro signed_header_directory) (simp_all add: image_base_length)
  then show ?thesis
    using assms(3,4) unfolding out securityDataDirectory_def
    by (simp add: get_le_in signed_header_length image_base_length le_at_append)
qed

lemma embed_entry:
  assumes "embedWinCertificate pe l certData = Inr out" "securityDataDirectory l pe = Some (secOff, sz)"
    "pl_checksumOff l + 4 \<le> securityOff l" "securityOff l + 8 \<le> image_end secOff pe"
  shows "take (8 + length certData) (drop (image_end secOff pe) out) = cert_entry certData"
proof -
  let ?b = "image_base pe secOff"
  from embed_form [OF assms] obtain cs where
    out: "out = signed_header l cs (image_end secOff pe) (cert_span certData) ?b @
       cert_entry certData @ replicate (cert_span certData - (8 + length certData)) (CHR 0x00)" .
  have "length (signed_header l cs (image_end secOff pe) (cert_span certData) ?b) = image_end secOff pe"
    using assms(3,4) by (simp add: signed_header_length image_base_length)
  then show ?thesis using cert_entry_length [of certData] by (simp add: out)
qed

lemma parsePELayout_order: "parsePELayout pe = Inr l \<Longrightarrow> pl_checksumOff l + 4 \<le> securityOff l"
  using parsePELayout_Inr [of pe l] by (simp add: securityOff_def)

lemma digest_fits:
  assumes "authenticodeDigest h pe l = Some d" "securityDataDirectory l pe = Some (secOff, sz)"
  shows "securityOff l + 8 \<le> image_end secOff pe"
  using assms by (auto simp: authenticodeDigest_def Option.bind_eq_Some_conv slice_Some_iff)

lemma embed_parses:
  assumes emb: "embedWinCertificate pe l certData = Inr out" and l: "parsePELayout pe = Inr l"
    and dir: "securityDataDirectory l pe = Some (secOff, sz)"
    and fits: "securityOff l + 8 \<le> image_end secOff pe" "pl_sectionHeaderOffset l \<le> image_end secOff pe"
  shows "parsePELayout out = Inr l"
proof -
  note offs = parsePELayout_Inr [OF l] and sig = parsePELayout_signature [OF l]
  note order = parsePELayout_order [OF l]
  let ?H = "pe_header_at pe"
  have pos: "pl_checksumOff l = ?H + 64" "securityOff l = ?H + 144" "24 < ?H" using offs by (simp_all add: securityOff_def)
  have same: "take n (drop a out) = take n (drop a pe)" if "a + n \<le> ?H + 64 \<and> a + n \<le> ?H + 144" for a n
    using that fits pos by (intro embed_elsewhere [OF emb dir order fits(1)]) auto
  have at: "le_at n a out = le_at n a pe" if "a + n \<le> ?H + 64" for a n
    using same [of a n] that by (simp add: le_at_def)
  have nt: "le_at 4 60 out = le_at 4 60 pe" using pos by (intro at) simp
  then have H: "pe_header_at out = ?H" by (simp add: pe_header_at_def)
  have ntH: "le_at 4 60 pe + 24 = ?H" by (simp add: pe_header_at_def)
  have len: "length out = image_end secOff pe + cert_span certData" by (rule embed_length [OF emb dir order fits(1)])
  have "parsePELayout out = Inr (fields_of out)"
  proof (rule parsePELayout_eq)
    show "take 2 out = ''MZ''" using same [of 0 2] sig pos by simp
    show "0 < le_at 4 60 out" using nt ntH pos by simp
    have "take 4 (drop (le_at 4 60 pe) out) = take 4 (drop (le_at 4 60 pe) pe)" using ntH by (intro same) simp
    then show "take 4 (drop (le_at 4 60 out) out) = pe_signature" using sig nt by simp
    show "le_at 2 (pe_header_at out) out = 0x20B \<or> le_at 2 (pe_header_at out) out = 0x10B"
      using sig at [of ?H 2] by (simp add: H)
    show "pe_header_at out + le_at 2 (pe_header_at out - 4) out \<le> length out"
      using fits(2) offs at [of "?H - 4" 2] pos by (simp add: H len)
    show "pe_header_at out + 152 \<le> length out" using fits(1) pos by (simp add: H len)
  qed
  moreover have "fields_of out = fields_of pe"
    using ntH by (simp add: fields_of_def Let_def nt at)
  ultimately show ?thesis using parsePELayout_fields [OF l] by simp
qed

lemma digest_by_ranges:
  assumes "securityDataDirectory l out = Some (e, sz')" "0 < e" "e < length out"
    and "securityDataDirectory l pe = Some (secOff, sz)" "image_end secOff pe = e"
    and "authenticodeDigest h pe l = Some d"
    and "\<And>a n. a + n \<le> pl_checksumOff l \<or> pl_checksumOff l + 4 \<le> a \<Longrightarrow>
      a + n \<le> securityOff l \<or> securityOff l + 8 \<le> a \<Longrightarrow> a + n \<le> e \<Longrightarrow> take n (drop a out) = take n (drop a pe)"
  shows "authenticodeDigest h out l = Some d"
proof -
  have e: "image_end e out = e" using assms by (simp add: image_end_def)
  from assms(4-6) have o: "pl_checksumOff l + 4 \<le> securityOff l" "securityOff l + 8 \<le> e"
    and d: "d = h (take (pl_checksumOff l) pe @ take (securityOff l - (pl_checksumOff l + 4)) (drop (pl_checksumOff l + 4) pe) @
        take (e - (securityOff l + 8)) (drop (securityOff l + 8) pe))"
    by (auto simp: authenticodeDigest_def Option.bind_eq_Some_conv slice_Some_iff)
  have "take (pl_checksumOff l) out = take (pl_checksumOff l) pe"
    using assms(7) [of 0 "pl_checksumOff l"] o by simp
  moreover have "take (securityOff l - (pl_checksumOff l + 4)) (drop (pl_checksumOff l + 4) out) =
      take (securityOff l - (pl_checksumOff l + 4)) (drop (pl_checksumOff l + 4) pe)"
    using o by (intro assms(7)) auto
  moreover have "take (e - (securityOff l + 8)) (drop (securityOff l + 8) out) =
      take (e - (securityOff l + 8)) (drop (securityOff l + 8) pe)"
    using o by (intro assms(7)) auto
  ultimately show ?thesis using o assms(1,3) e by (simp add: authenticodeDigest_def slice_def d)
qed

lemma embed_digest:
  assumes emb: "embedWinCertificate pe l certData = Inr out" and l: "parsePELayout pe = Inr l"
    and dir: "securityDataDirectory l pe = Some (secOff, sz)"
    and dig: "authenticodeDigest h pe l = Some d" and small: "length out < 2 ^ 32"
  shows "authenticodeDigest h out l = Some d"
proof -
  note order = parsePELayout_order [OF l] and fits = digest_fits [OF dig dir]
  have "length out = image_end secOff pe + cert_span certData" by (rule embed_length [OF emb dir order fits])
  with cert_span_ge [of certData] fits show ?thesis
    by (intro digest_by_ranges [OF embed_directory [OF emb dir order fits small] _ _ dir refl dig]
        embed_elsewhere [OF emb dir order fits]) simp_all
qed

text \<open>
  Signing does not disturb what is signed: the signed image parses to the same layout
  and has the Authenticode digest the image had before, and its directory entry points to a
  certificate table that fills the rest of the file and starts with the entry that was embedded.
\<close>

theorem embed_keeps_digest:
  assumes "embedWinCertificate pe l certData = Inr out" and "parsePELayout pe = Inr l"
    and "authenticodeDigest h pe l = Some d" and "securityDataDirectory l pe = Some (secOff, sz)"
    and "pl_sectionHeaderOffset l \<le> image_end secOff pe" and "length out < 2 ^ 32"
  shows "parsePELayout out = Inr l \<and> authenticodeDigest h out l = Some d \<and>
    securityDataDirectory l out = Some (image_end secOff pe, length out - image_end secOff pe) \<and>
    take (8 + length certData) (drop (image_end secOff pe) out) = cert_entry certData"
proof -
  note order = parsePELayout_order [OF assms(2)] and fits = digest_fits [OF assms(3,4)]
  have "length out = image_end secOff pe + cert_span certData" by (rule embed_length [OF assms(1,4) order fits])
  then show ?thesis
    using embed_parses [OF assms(1,2,4) fits assms(5)] embed_digest [OF assms(1,2,4,3,6)]
      embed_directory [OF assms(1,4) order fits assms(6)] embed_entry [OF assms(1,4) order fits]
    by simp
qed

lemma embed_returns:
  assumes "parsePELayout pe = Inr l" "securityDataDirectory l pe = Some (secOff, sz)"
    "securityOff l + 8 \<le> image_end secOff pe"
  shows "\<exists>out. embedWinCertificate pe l certData = Inr out"
proof -
  note order = parsePELayout_order [OF assms(1)]
  have "length (image_base pe secOff) = image_end secOff pe" by (rule image_base_length)
  with order assms show ?thesis
    by (simp add: embedWinCertificate_def Let_def bindE_Inr_iff setSecurityDataDirectory_def put_le_Some_iff
        recomputeChecksum_Some Option.bind_eq_Some_conv)
qed

lemma pe_example_unsigned: "le_at 4 232 pe_example = 0" "le_at 4 236 pe_example = 0"
  by (simp_all add: pe_example_def pe_image_def le_at_set_at_other le_at_zeros)

theorem embed_keeps_digest_witness:
  "\<exists>l out. embedWinCertificate pe_example l ''cert'' = Inr out \<and> parsePELayout out = Inr l \<and>
     authenticodeDigest id out l = authenticodeDigest id pe_example l \<and>
     securityDataDirectory l out = Some (288, 16)"
proof -
  from pe_example_parses obtain l where l: "parsePELayout pe_example = Inr l" by blast
  note offs = parsePELayout_Inr [OF l]
  have sec: "securityOff l = 232" using offs by (simp add: securityOff_def pe_image_facts)
  have dir: "securityDataDirectory l pe_example = Some (0, 0)"
    by (simp add: securityDataDirectory_def get_le_in sec pe_example_length pe_example_unsigned)
  have e: "image_end 0 pe_example = 288" by (simp add: image_end_def pe_example_length)
  have "\<exists>out. embedWinCertificate pe_example l ''cert'' = Inr out"
    using l dir by (rule embed_returns) (simp add: sec e)
  then obtain out where out: "embedWinCertificate pe_example l ''cert'' = Inr out" by blast
  have "length out = 304"
    using embed_length [OF out dir parsePELayout_order [OF l]] by (simp add: sec e cert_span_def pe_align_def)
  moreover obtain d where d: "authenticodeDigest id pe_example l = Some d"
    using parsePELayout_order [OF l] dir
    by (auto simp: authenticodeDigest_def slice_def sec e pe_example_length Option.bind_eq_Some_conv)
  ultimately show ?thesis
    using embed_keeps_digest [OF out l d dir] offs out d by (simp add: e pe_image_facts) metis
qed

text \<open>The result as a function of the image without its certificate table.\<close>

definition with_entry :: "string \<Rightarrow> nat \<Rightarrow> string \<Rightarrow> string" where
  "with_entry pe secOff certData = image_base pe secOff @ cert_entry certData @
     replicate (cert_span certData - (8 + length certData)) (CHR 0x00)"

lemma embed_eq:
  assumes dir: "securityDataDirectory l pe = Some (secOff, sz)"
    and order: "pl_checksumOff l + 4 \<le> securityOff l"
    and fits: "securityOff l + 8 \<le> image_end secOff pe"
  shows "embedWinCertificate pe l certData =
    Inr (signed_header l (peChecksum (signed_header l 0 (image_end secOff pe) (cert_span certData)
        (with_entry pe secOff certData)) (pl_checksumOff l))
      (image_end secOff pe) (cert_span certData) (with_entry pe secOff certData))"
proof -
  let ?e = "image_end secOff pe" and ?img = "with_entry pe secOff certData"
  have len: "length (image_base pe secOff) = ?e" by (rule image_base_length)
  have big: "?e \<le> length ?img" by (simp add: with_entry_def len)
  let ?d2 = "set_at (securityOff l + 4) (le_bytes 4 (cert_span certData)) (set_at (securityOff l) (le_bytes 4 ?e) ?img)"
  have set: "setSecurityDataDirectory l ?img ?e (cert_span certData) = Some ?d2"
    using fits big by (simp add: setSecurityDataDirectory_def put_le_in)
  have "length ?d2 = length ?img" using fits big by (simp add: length_set_at)
  then have sum: "recomputeChecksum ?d2 l = Some (set_at (pl_checksumOff l)
      (le_bytes 4 (peChecksum (set_at (pl_checksumOff l) (le_bytes 4 0) ?d2) (pl_checksumOff l))) ?d2)"
    using order fits big by (simp add: recomputeChecksum_Some)
  have img: "image_base pe secOff @ cert_entry certData @
      replicate (pe_align (length (cert_entry certData)) 8 - length (cert_entry certData)) (CHR 0x00) = ?img"
    by (simp add: with_entry_def cert_entry_length cert_span_def)
  have span: "pe_align (length (cert_entry certData)) 8 = cert_span certData"
    by (simp add: cert_entry_length cert_span_def)
  show ?thesis
    unfolding embedWinCertificate_def Let_def dir orPanic_def option.case bindE_simps prod.case
    unfolding img len unfolding span set option.case bindE_simps sum
    by (simp add: signed_header_def)
qed

text \<open>
  Signing again replaces the signature: embedding a second certificate in a signed
  image gives exactly what embedding it in the original image gives.
\<close>

theorem embed_replaces:
  assumes "embedWinCertificate pe l c1 = Inr out" and "embedWinCertificate out l c2 = Inr out2"
    and "parsePELayout pe = Inr l" and "securityDataDirectory l pe = Some (secOff, sz)"
    and "securityOff l + 8 \<le> image_end secOff pe" and "length out < 2 ^ 32"
  shows "embedWinCertificate pe l c2 = Inr out2"
proof -
  let ?e = "image_end secOff pe" and ?b = "image_base pe secOff"
  note order = parsePELayout_order [OF assms(3)]
  from embed_form [OF assms(1,4) order assms(5)] obtain cs where
    out: "out = signed_header l cs ?e (cert_span c1) ?b @
       cert_entry c1 @ replicate (cert_span c1 - (8 + length c1)) (CHR 0x00)" .
  have len: "length out = ?e + cert_span c1" by (rule embed_length [OF assms(1,4) order assms(5)])
  have dir: "securityDataDirectory l out = Some (?e, cert_span c1)"
    by (rule embed_directory [OF assms(1,4) order assms(5,6)])
  let ?s = "signed_header l cs ?e (cert_span c1) ?b"
  have slen: "length ?s = ?e" using order assms(5) by (simp add: signed_header_length image_base_length)
  have "0 < ?e" "?e < length out" using assms(5) len cert_span_ge [of c1] by simp_all
  then have "image_base out ?e = take ?e out" by (simp add: image_base_def)
  also have "\<dots> = ?s" using slen by (simp add: out)
  finally have base: "image_base out ?e = ?s" .
  have fits2: "securityOff l + 8 \<le> image_end ?e out"
    using assms(5) \<open>0 < ?e\<close> \<open>?e < length out\<close> by (simp add: image_end_def)
  have twice: "signed_header l v o2 p2 (?s @ t) = signed_header l v o2 p2 (?b @ t)" for v o2 p2 t
    using order assms(5) slen signed_header_twice [of l ?b v o2 p2 cs ?e "cert_span c1"]
    by (simp add: signed_header_append image_base_length)
  have "image_end ?e out = ?e" using \<open>0 < ?e\<close> \<open>?e < length out\<close> by (simp add: image_end_def)
  then show ?thesis
    using assms(2) embed_eq [OF dir order fits2, of c2] embed_eq [OF assms(4) order assms(5), of c2]
    by (simp add: with_entry_def base twice)
qed

text \<open>
  A SET is read back element by element: whatever follows it, a reader recovers the
  SET and then from its content exactly the elements put in, each with its tag and content.
\<close>

theorem setOf_roundtrip:
  assumes "\<forall>x \<in> set xs. der_ok x" and "length (concat (map (\<lambda>(t, c). derTLV t c) xs)) < 2 ^ 64"
  shows "\<exists>body. read_der (setOf (map (\<lambda>(t, c). derTLV t c) xs) @ rest) = Some ((0x31, body), rest) \<and>
    der.dec_n (length xs) body = Some (xs, [])"
proof -
  let ?body = "concat (map (\<lambda>(t, c). derTLV t c) xs)"
  have "der_ok (0x31, ?body)" using assms(2) by (simp add: der_ok_def)
  from der.dec_enc [OF this, of rest] have
    "read_der (setOf (map (\<lambda>(t, c). derTLV t c) xs) @ rest) = Some ((0x31, ?body), rest)"
    by (simp add: setOf_def)
  moreover have "der.dec_n (length xs) ?body = Some (xs, [])"
    using der.dec_n_concat [of xs "[]"] assms(1) by simp
  ultimately show ?thesis by blast
qed

theorem setOf_roundtrip_witness:
  "\<exists>body. read_der (setOf (map (\<lambda>(t, c). derTLV t c) [(2, ''a''), (4, replicate 300 (CHR 0x01))]) @ ''rest'') =
     Some ((0x31, body), ''rest'') \<and>
     der.dec_n 2 body = Some ([(2, ''a''), (4, replicate 300 (CHR 0x01))], [])"
proof -
  let ?xs = "[(2, ''a''), (4, replicate 300 (CHR 0x01))]"
  have small: "length (concat (map (\<lambda>(t, c). derTLV t c) ?xs)) < 2 ^ 64"
    by (simp add: derTLV_def Let_def der_length_bytes.simps)
  have ok: "\<forall>x \<in> set ?xs. der_ok x" by (simp add: der_ok_def)
  have two: "length ?xs = 2" by simp
  show ?thesis using setOf_roundtrip [OF ok small, of "''rest''"] unfolding two .
qed

theorem embed_replaces_witness:
  "\<exists>l out out2. embedWinCertificate pe_example l ''one'' = Inr out \<and> embedWinCertificate out l ''other'' = Inr out2 \<and>
     embedWinCertificate pe_example l ''other'' = Inr out2"
proof -
  from pe_example_parses obtain l where l: "parsePELayout pe_example = Inr l" by blast
  note offs = parsePELayout_Inr [OF l]
  have sec: "securityOff l = 232" using offs by (simp add: securityOff_def pe_image_facts)
  have dir: "securityDataDirectory l pe_example = Some (0, 0)"
    by (simp add: securityDataDirectory_def get_le_in sec pe_example_length pe_example_unsigned)
  have e: "image_end 0 pe_example = 288" by (simp add: image_end_def pe_example_length)
  have "\<exists>out. embedWinCertificate pe_example l ''one'' = Inr out"
    using l dir by (rule embed_returns) (simp add: sec e)
  then obtain out where out: "embedWinCertificate pe_example l ''one'' = Inr out" by blast
  have f: "securityOff l + 8 \<le> image_end 0 pe_example" by (simp add: sec e)
  have len: "length out = 304"
    using embed_length [OF out dir parsePELayout_order [OF l] f] by (simp add: e cert_span_def pe_align_def)
  then have dir2: "securityDataDirectory l out = Some (288, 16)"
    using embed_directory [OF out dir parsePELayout_order [OF l] f] by (simp add: e cert_span_def pe_align_def)
  have l2: "parsePELayout out = Inr l"
    using offs f by (intro embed_parses [OF out l dir]) (simp_all add: e pe_image_facts)
  have "\<exists>out2. embedWinCertificate out l ''other'' = Inr out2"
    using l2 dir2 by (rule embed_returns) (simp add: sec image_end_def len)
  then obtain out2 where out2: "embedWinCertificate out l ''other'' = Inr out2" by blast
  from embed_replaces [OF out out2 l dir f] len out out2 show ?thesis by auto
qed

end
