(* ===== verification/Signing.thy ===== *)
theory Signing
  imports Authenticode
begin

text \<open>
  Signing a PE image and assembling a unified kernel image (\<^verbatim>\<open>signPE\<close> of
  internal/secureboot/authenticode.go and all of sign.go). SHA-256, RSA signing and the parsing of
  PEM keys belong to the standard library's crypto packages and are parameters.
\<close>

section \<open>Signing\<close>

datatype sign_error = SignPE pe_error | BadKeypair | RsaFailed

definition signPE ::
  "(string \<Rightarrow> string) \<Rightarrow> ('kp \<Rightarrow> (certificate \<times> 'key) option) \<Rightarrow> ('key \<Rightarrow> string \<Rightarrow> string option) \<Rightarrow>
   string \<Rightarrow> 'kp \<Rightarrow> sign_error + string" where
  "signPE sha256 parseKeypair rsaSign pe kp =
     bindE (wrapE SignPE (parsePELayout pe)) (\<lambda>l.
     case parseKeypair kp of None \<Rightarrow> Inl BadKeypair | Some (cert, key) \<Rightarrow>
     bindE (wrapE SignPE (orPanic (authenticodeDigest sha256 pe l))) (\<lambda>peDigest.
     let inner = spcIndirectDataContentInner peDigest;
         attrs = auth_attributes (sha256 inner);
         toSign = derTLV 0x31 attrs in
     case rsaSign key (sha256 toSign) of None \<Rightarrow> Inl RsaFailed | Some sig \<Rightarrow>
     wrapE SignPE (embedWinCertificate pe l (pkcs7 cert (derTLV 0x30 inner) attrs sig))))"

definition cmdlineVMA :: nat where "cmdlineVMA = 0x1000000"
definition initrdVMA :: nat where "initrdVMA = 0x4000000"

definition BuildAndSignUKI ::
  "(string \<Rightarrow> string) \<Rightarrow> ('kp \<Rightarrow> (certificate \<times> 'key) option) \<Rightarrow> ('key \<Rightarrow> string \<Rightarrow> string option) \<Rightarrow>
   string \<Rightarrow> string \<Rightarrow> string \<Rightarrow> 'kp \<Rightarrow> sign_error + string" where
  "BuildAndSignUKI sha256 parseKeypair rsaSign vmlinuz initramfs cmdline kp =
     bindE (wrapE SignPE (if cmdline \<noteq> [] then appendSection vmlinuz ''.cmdline'' cmdline cmdlineVMA
                          else Inr vmlinuz)) (\<lambda>stub.
     bindE (wrapE SignPE (appendSection stub ''.initrd'' initramfs initrdVMA)) (\<lambda>stub2.
     signPE sha256 parseKeypair rsaSign stub2 kp))"

section \<open>A signed image verifies\<close>

text \<open>The certificate a verifier finds through the image's directory entry.\<close>

definition win_certificate :: "peLayout \<Rightarrow> string \<Rightarrow> string option" where
  "win_certificate l img =
     Option.bind (securityDataDirectory l img) (\<lambda>(off, _).
     Option.bind (get_le 4 off img) (\<lambda>n. slice (off + 8) (off + n) img))"

text \<open>What is signed: the DER of the attributes that bind the content holding the digest d.\<close>

definition signed_attributes :: "(string \<Rightarrow> string) \<Rightarrow> string \<Rightarrow> string" where
  "signed_attributes sha256 d = auth_attributes (sha256 (spcIndirectDataContentInner d))"

definition signature_blob :: "(string \<Rightarrow> string) \<Rightarrow> certificate \<Rightarrow> string \<Rightarrow> string \<Rightarrow> string" where
  "signature_blob sha256 cert d sig =
     pkcs7 cert (derTLV 0x30 (spcIndirectDataContentInner d)) (signed_attributes sha256 d) sig"

lemma signPE_Inr:
  assumes "signPE sha256 parseKeypair rsaSign pe kp = Inr out"
  obtains l cert key d sig where "parsePELayout pe = Inr l" "parseKeypair kp = Some (cert, key)"
    "authenticodeDigest sha256 pe l = Some d"
    "rsaSign key (sha256 (derTLV 0x31 (signed_attributes sha256 d))) = Some sig"
    "embedWinCertificate pe l (signature_blob sha256 cert d sig) = Inr out"
  using assms unfolding signPE_def Let_def signature_blob_def signed_attributes_def
  by (auto simp: bindE_Inr_iff split: option.splits)

lemma win_certificate_entry:
  assumes "securityDataDirectory l out = Some (e, sz)"
    and "take (8 + length c) (drop e out) = cert_entry c" and "length out < 2 ^ 32"
  shows "win_certificate l out = Some c"
proof -
  have "length (take (8 + length c) (drop e out)) = 8 + length c"
    unfolding assms(2) by (rule cert_entry_length)
  then have len: "e + (8 + length c) \<le> length out" by (simp split: nat_diff_split)
  have "le_at 4 e out = 8 + length c"
  proof -
    have "le_at 4 e out = le_val (take 4 (take (8 + length c) (drop e out)))" by (simp add: le_at_def min_def)
    also have "\<dots> = (8 + length c) mod 256 ^ 4" unfolding assms(2) by (simp add: cert_entry_def le_val_le_bytes)
    finally show ?thesis using len assms(3) by simp
  qed
  moreover have "take (length c) (drop (e + 8) out) = c"
  proof -
    have "take (length c) (drop (e + 8) out) = drop 8 (take (8 + length c) (drop e out))"
      by (simp add: drop_take add.commute)
    then show ?thesis unfolding assms(2) by (simp add: cert_entry_def)
  qed
  ultimately show ?thesis
    using assms(1) len by (simp add: win_certificate_def get_le_in slice_def)
qed

text \<open>
  Property C13. A signed image carries its own signature: a verifier that parses the result and
  recomputes its Authenticode digest d finds through the directory the signature structure for
  exactly that d, made with the key pair's certificate, and the signature in it is the key's
  signature over the SET of attributes that contain the hash of the content holding d.
\<close>

theorem signed_image_verifies:
  assumes "signPE sha256 parseKeypair rsaSign pe kp = Inr out" and "parsePELayout pe = Inr l"
    and "securityDataDirectory l pe = Some (secOff, sz)"
    and "pl_sectionHeaderOffset l \<le> image_end secOff pe" and "length out < 2 ^ 32"
  shows "\<exists>cert key d sig. parsePELayout out = Inr l \<and> authenticodeDigest sha256 out l = Some d \<and>
    parseKeypair kp = Some (cert, key) \<and> win_certificate l out = Some (signature_blob sha256 cert d sig) \<and>
    rsaSign key (sha256 (derTLV 0x31 (signed_attributes sha256 d))) = Some sig"
proof -
  from signPE_Inr [OF assms(1)] assms(2) obtain cert key d sig where
    kp: "parseKeypair kp = Some (cert, key)" and d: "authenticodeDigest sha256 pe l = Some d"
    and sig: "rsaSign key (sha256 (derTLV 0x31 (signed_attributes sha256 d))) = Some sig"
    and emb: "embedWinCertificate pe l (signature_blob sha256 cert d sig) = Inr out"
    by (metis sum.inject(2))
  note order = parsePELayout_order [OF assms(2)] and fits = digest_fits [OF d assms(3)]
  show ?thesis
    using kp sig embed_parses [OF emb assms(2,3) fits assms(4)] embed_digest [OF emb assms(2,3) d assms(5)]
      win_certificate_entry [OF embed_directory [OF emb assms(3) order fits assms(5)]
        embed_entry [OF emb assms(3) order fits] assms(5)]
    by blast
qed

section \<open>The unified kernel image\<close>

lemma appendSection_length:
  assumes "appendSection pe name sectionData vma = Inr out" "pe_wellformed pe l"
  shows "length out = length (appended pe sectionData l)"
proof -
  from appendSection_writes [OF assms] obtain img cs where
    out: "out = set_at (pe_header_at pe + 64) (le_bytes 4 cs)
       (set_at (pe_header_at pe + 56) (le_bytes 4 img)
         (set_at (pe_header_at pe - 18) (le_bytes 2 (pl_numberOfSections l + 1))
           (set_at (header_slot l) (new_header pe name sectionData vma l) (appended pe sectionData l))))"
    and slot: "pe_header_at pe + 152 \<le> header_slot l" "header_slot l + 40 \<le> length pe" "length name \<le> 8" .
  let ?o1 = "set_at (header_slot l) (new_header pe name sectionData vma l) (appended pe sectionData l)"
  have app_len: "length pe \<le> length (appended pe sectionData l)" by (simp add: appended_def Let_def)
  have "length ?o1 = length (appended pe sectionData l)"
    using slot app_len length_new_header [OF slot(3)] by (subst length_set_at) auto
  then show ?thesis using slot app_len by (simp add: out)
qed

lemma appendSection_layout:
  assumes app: "appendSection pe name sectionData vma = Inr out" and wf: "pe_wellformed pe l"
    and l2: "parsePELayout out = Inr l2"
  shows "pl_sectionHeaderOffset l2 = pl_sectionHeaderOffset l \<and> pe_header_at out = pe_header_at pe \<and>
    securityOff l2 = securityOff l \<and> securityDataDirectory l2 out = securityDataDirectory l pe"
proof -
  have l: "parsePELayout pe = Inr l" and H: "88 \<le> pe_header_at pe" using wf by (auto simp: pe_wellformed_def)
  have offs: "pl_sectionHeaderOffset l = pe_header_at pe + le_at 2 (pe_header_at pe - 4) pe"
    "pl_dataDirOff l = pe_header_at pe + 112" using parsePELayout_Inr [OF l] by blast+
  have offs2: "pl_sectionHeaderOffset l2 = pe_header_at out + le_at 2 (pe_header_at out - 4) out"
    "pl_dataDirOff l2 = pe_header_at out + 112" using parsePELayout_Inr [OF l2] by blast+
  note slot = appendSection_slot [OF app wf]
  have at: "le_at n a out = le_at n a pe"
    if "a + n \<le> header_slot l \<and> (a + n \<le> pe_header_at pe - 18 \<or> pe_header_at pe - 16 \<le> a) \<and>
      (a + n \<le> pe_header_at pe + 56 \<or> pe_header_at pe + 68 \<le> a)" for a n
    using that slot unfolding le_at_def
    by (intro arg_cong [where f = le_val] appendSection_unchanged [OF app wf]) auto
  have "le_at 4 60 out = le_at 4 60 pe" using slot H by (intro at) auto
  then have H2: "pe_header_at out = pe_header_at pe" by (simp add: pe_header_at_def)
  have "le_at 2 (pe_header_at pe - 4) out = le_at 2 (pe_header_at pe - 4) pe" using slot H by (intro at) auto
  then have sh: "pl_sectionHeaderOffset l2 = pl_sectionHeaderOffset l" by (simp only: offs offs2 H2)
  have so: "securityOff l2 = pe_header_at pe + 144" "securityOff l = pe_header_at pe + 144"
    by (simp_all add: securityOff_def offs(2) offs2(2) H2)
  have "le_at 4 (pe_header_at pe + 144) out = le_at 4 (pe_header_at pe + 144) pe"
    "le_at 4 (pe_header_at pe + 148) out = le_at 4 (pe_header_at pe + 148) pe"
    using slot by (auto intro!: at)
  moreover have "length pe \<le> length out"
    using appendSection_length [OF app wf] by (simp add: appended_def Let_def)
  ultimately have "securityDataDirectory l2 out = securityDataDirectory l pe"
    using so slot by (simp add: securityDataDirectory_def get_le_in add.assoc)
  with sh H2 so show ?thesis by simp
qed

text \<open>Signing keeps what lies before the certificate table.\<close>

lemma signPE_keeps:
  assumes "signPE sha256 parseKeypair rsaSign pe kp = Inr out" and "parsePELayout pe = Inr l"
    and "securityDataDirectory l pe = Some (secOff, sz)"
    and "a + n \<le> pl_checksumOff l \<or> pl_checksumOff l + 4 \<le> a"
    and "a + n \<le> securityOff l \<or> securityOff l + 8 \<le> a" and "a + n \<le> image_end secOff pe"
  shows "take n (drop a out) = take n (drop a pe)"
proof -
  from signPE_Inr [OF assms(1)] assms(2) obtain cert d sig where
    d: "authenticodeDigest sha256 pe l = Some d"
    and emb: "embedWinCertificate pe l (signature_blob sha256 cert d sig) = Inr out"
    by (metis sum.inject(2))
  show ?thesis
    by (rule embed_elsewhere [OF emb assms(3) parsePELayout_order [OF assms(2)] digest_fits [OF d assms(3)] assms(4-6)])
qed

lemma signPE_directory:
  assumes "signPE sha256 parseKeypair rsaSign pe kp = Inr out" and "parsePELayout pe = Inr l"
    and "securityDataDirectory l pe = Some (secOff, sz)" and "length out < 2 ^ 32"
  shows "le_at 4 (securityOff l) out = image_end secOff pe \<and> image_end secOff pe < length out \<and>
    securityOff l + 8 \<le> image_end secOff pe"
proof -
  from signPE_Inr [OF assms(1)] assms(2) obtain cert d sig where
    d: "authenticodeDigest sha256 pe l = Some d"
    and emb: "embedWinCertificate pe l (signature_blob sha256 cert d sig) = Inr out"
    by (metis sum.inject(2))
  note order = parsePELayout_order [OF assms(2)] and fits = digest_fits [OF d assms(3)]
  have "length out = image_end secOff pe + cert_span (signature_blob sha256 cert d sig)"
    by (rule embed_length [OF emb assms(3) order fits])
  then show ?thesis
    using embed_directory [OF emb assms(3) order fits assms(4)] fits cert_span_ge [of "signature_blob sha256 cert d sig"]
    by (auto simp: securityDataDirectory_def get_le_Some_iff split: option.splits)
qed

text \<open>The two steps of an assembly without a command line, and the section read from the result.\<close>

lemma uki_steps:
  assumes "BuildAndSignUKI sha256 parseKeypair rsaSign vmlinuz initramfs [] kp = Inr out"
    and wf: "pe_wellformed vmlinuz l" and dir: "securityDataDirectory l vmlinuz = Some (secOff, sz)"
  obtains stub l2 where "appendSection vmlinuz ''.initrd'' initramfs initrdVMA = Inr stub"
    "signPE sha256 parseKeypair rsaSign stub kp = Inr out" "parsePELayout stub = Inr l2"
    "pl_sectionHeaderOffset l2 = pl_sectionHeaderOffset l" "securityOff l2 = securityOff l"
    "pl_checksumOff l2 + 4 \<le> securityOff l" "securityOff l + 8 \<le> header_slot l"
    "securityDataDirectory l2 stub = Some (secOff, sz)" "length stub = length (appended vmlinuz initramfs l)"
proof -
  from assms(1) obtain stub where stub: "appendSection vmlinuz ''.initrd'' initramfs initrdVMA = Inr stub"
    and sign: "signPE sha256 parseKeypair rsaSign stub kp = Inr out"
    by (auto simp: BuildAndSignUKI_def bindE_Inr_iff)
  from signPE_Inr [OF sign] obtain l2 where l2: "parsePELayout stub = Inr l2" by metis
  note lay = appendSection_layout [OF stub wf l2]
  have "pl_checksumOff l2 + 4 \<le> securityOff l" using parsePELayout_order [OF l2] lay by simp
  moreover have "securityOff l + 8 \<le> header_slot l"
    using wf by (simp add: pe_wellformed_def securityOff_def header_slot_def)
  ultimately show thesis
    using that stub sign l2 lay dir appendSection_length [OF stub wf] by metis
qed

lemma read_section_cong:
  assumes "take 40 (drop (pl_sectionHeaderOffset l + k * 40) a) = take 40 (drop (pl_sectionHeaderOffset l + k * 40) b)"
  shows "read_section l k a = read_section l k b"
proof -
  let ?at = "pl_sectionHeaderOffset l + k * 40"
  have part: "take w (drop (?at + j) x) = take w (drop j (take 40 (drop ?at x)))" if "j + w \<le> 40" for w j and x :: string
    using that by (simp add: drop_take min_def add.commute)
  have same: "take w (drop (?at + j) a) = take w (drop (?at + j) b)" if "j + w \<le> 40" for w j
    using part [OF that, of a] part [OF that, of b] assms by simp
  show ?thesis
    using same [of 0 8] same [of 8 4] same [of 12 4] same [of 16 4] same [of 20 4]
    by (simp add: read_section_def Let_def le_at_def)
qed

lemma signed_section:
  assumes sign: "signPE sha256 parseKeypair rsaSign stub kp = Inr out" and l2: "parsePELayout stub = Inr l2"
    and dir: "securityDataDirectory l2 stub = Some (secOff, sz)"
    and lay: "pl_checksumOff l2 + 4 \<le> securityOff l" "securityOff l2 = securityOff l" "securityOff l + 8 \<le> header_slot l"
    and inside: "header_slot l + 40 \<le> image_end secOff stub"
  shows "read_section l (pl_numberOfSections l) out = read_section l (pl_numberOfSections l) stub"
proof (rule read_section_cong)
  show "take 40 (drop (pl_sectionHeaderOffset l + pl_numberOfSections l * 40) out) =
      take 40 (drop (pl_sectionHeaderOffset l + pl_numberOfSections l * 40) stub)"
    using lay inside unfolding header_slot_def [symmetric]
    by (intro signPE_keeps [OF sign l2 dir]) auto
qed

text \<open>
  Property C32. The signed unified kernel image carries the initramfs: built from an unsigned kernel
  whose length is a multiple of its file alignment, the section a loader finds behind the kernel's
  own has the name .initrd, the fixed address and exactly the initramfs as its bytes, and it lies
  before the certificate table, so the signature covers it.
\<close>

theorem uki_carries_initramfs:
  assumes uki: "BuildAndSignUKI sha256 parseKeypair rsaSign vmlinuz initramfs [] kp = Inr out"
    and wf: "pe_wellformed vmlinuz l" and unsigned: "securityDataDirectory l vmlinuz = Some (0, sz)"
    and aligned: "pl_fileAlignment l dvd length vmlinuz" and small: "length out < 2 ^ 32"
  shows "let s = read_section l (pl_numberOfSections l) out in
    sec_name s = ''.initrd'' @ [CHR 0x00] \<and> sec_vma s = initrdVMA \<and> section_bytes s out = initramfs \<and>
    sec_pointer s + length initramfs \<le> le_at 4 (securityOff l) out"
proof -
  from uki_steps [OF uki wf unsigned] obtain stub l2 where
    stub: "appendSection vmlinuz ''.initrd'' initramfs initrdVMA = Inr stub"
    and sign: "signPE sha256 parseKeypair rsaSign stub kp = Inr out" and l2: "parsePELayout stub = Inr l2"
    and lay: "pl_checksumOff l2 + 4 \<le> securityOff l" "securityOff l2 = securityOff l" "securityOff l + 8 \<le> header_slot l"
    and dir: "securityDataDirectory l2 stub = Some (0, sz)" and len: "length stub = length (appended vmlinuz initramfs l)" .
  have e: "image_end 0 stub = length stub" by (simp add: image_end_def)
  have fa: "0 < pl_fileAlignment l" using wf by (auto simp: pe_wellformed_def intro: fileAlignment_pos)
  then have ptr: "pe_align (length vmlinuz) (pl_fileAlignment l) = length vmlinuz"
    using aligned by (rule pe_align_exact)
  have big: "length vmlinuz + length initramfs \<le> length stub" by (simp add: len appended_def Let_def)
  note out = signPE_directory [OF sign l2 dir small, unfolded e]
  have vma: "initrdVMA < 2 ^ 32" by (simp add: initrdVMA_def)
  have bytes: "take (length initramfs) (drop (length vmlinuz) (appended vmlinuz initramfs l)) = initramfs"
    by (simp add: appended_def Let_def)
  note slot = appendSection_slot [OF stub wf]
  have sec: "read_section l (pl_numberOfSections l) out = read_section l (pl_numberOfSections l) stub"
    using slot big by (intro signed_section [OF sign l2 dir lay]) (simp add: e)
  let ?s = "read_section l (pl_numberOfSections l) stub"
  have at: "sec_name ?s = ''.initrd'' @ [CHR 0x00]" "sec_vma ?s = initrdVMA" "sec_vsize ?s = length initramfs"
    "sec_pointer ?s = length vmlinuz" "section_bytes ?s stub = initramfs"
    using appendSection_section [OF stub wf vma] big out small ptr bytes by (simp_all add: Let_def)
  have "section_bytes ?s out = section_bytes ?s stub"
    unfolding section_bytes_def at using lay slot big
    by (intro signPE_keeps [OF sign l2 dir]) (auto simp: e)
  then show ?thesis using at sec out big lay by (simp add: Let_def)
qed

text \<open>
  Built from a kernel that is already signed, the image loses the initramfs: the
  section header stays, but signing cuts the file at the kernel's old certificate table, and the
  header points behind it, into or past the new certificate.
\<close>

theorem uki_of_signed_kernel:
  assumes uki: "BuildAndSignUKI sha256 parseKeypair rsaSign vmlinuz initramfs [] kp = Inr out"
    and wf: "pe_wellformed vmlinuz l" and signed: "securityDataDirectory l vmlinuz = Some (secOff, sz)"
    and inside: "header_slot l + 40 \<le> secOff" "secOff < length vmlinuz"
    and small: "length out < 2 ^ 32" "pe_align (length vmlinuz) (pl_fileAlignment l) < 2 ^ 32" "length initramfs < 2 ^ 32"
  shows "let s = read_section l (pl_numberOfSections l) out in
    sec_name s = ''.initrd'' @ [CHR 0x00] \<and> sec_vsize s = length initramfs \<and>
    le_at 4 (securityOff l) out = secOff \<and> secOff < sec_pointer s"
proof -
  from uki_steps [OF uki wf signed] obtain stub l2 where
    stub: "appendSection vmlinuz ''.initrd'' initramfs initrdVMA = Inr stub"
    and sign: "signPE sha256 parseKeypair rsaSign stub kp = Inr out" and l2: "parsePELayout stub = Inr l2"
    and lay: "pl_checksumOff l2 + 4 \<le> securityOff l" "securityOff l2 = securityOff l" "securityOff l + 8 \<le> header_slot l"
    and dir: "securityDataDirectory l2 stub = Some (secOff, sz)" and len: "length stub = length (appended vmlinuz initramfs l)" .
  have "length vmlinuz \<le> length stub" by (simp add: len appended_def Let_def)
  then have e: "image_end secOff stub = secOff" using inside by (simp add: image_end_def)
  have fa: "0 < pl_fileAlignment l" using wf by (auto simp: pe_wellformed_def intro: fileAlignment_pos)
  have vma: "initrdVMA < 2 ^ 32" by (simp add: initrdVMA_def)
  have sec: "read_section l (pl_numberOfSections l) out = read_section l (pl_numberOfSections l) stub"
    using inside by (intro signed_section [OF sign l2 dir lay]) (simp add: e)
  show ?thesis
    using appendSection_section [OF stub wf vma small(2,3)] sec signPE_directory [OF sign l2 dir small(1)] lay
      pe_align_ge [OF fa, of "length vmlinuz"] inside
    by (simp add: Let_def e)
qed

lemma appendSection_parses:
  assumes app: "appendSection pe name sectionData vma = Inr out" and wf: "pe_wellformed pe l"
  shows "\<exists>l2. parsePELayout out = Inr l2"
proof -
  have l: "parsePELayout pe = Inr l" and H: "88 \<le> pe_header_at pe" using wf by (auto simp: pe_wellformed_def)
  note offs = parsePELayout_Inr [OF l] and sig = parsePELayout_signature [OF l] and slot = appendSection_slot [OF app wf]
  let ?H = "pe_header_at pe"
  have same: "take n (drop a out) = take n (drop a pe)"
    if "a + n \<le> ?H + 56 \<and> (a + n \<le> ?H - 18 \<or> ?H - 16 \<le> a)" for a n
    using that slot by (intro appendSection_unchanged [OF app wf]) auto
  have at: "le_at n a out = le_at n a pe" if "a + n \<le> ?H + 56 \<and> (a + n \<le> ?H - 18 \<or> ?H - 16 \<le> a)" for a n
    using same [OF that] by (simp add: le_at_def)
  have nt: "le_at 4 60 out = le_at 4 60 pe" using H by (intro at) auto
  then have H2: "pe_header_at out = ?H" by (simp add: pe_header_at_def)
  have ntH: "le_at 4 60 pe + 24 = ?H" by (simp add: pe_header_at_def)
  have len: "length pe \<le> length out"
    using appendSection_length [OF app wf] by (simp add: appended_def Let_def)
  show ?thesis
  proof (rule parsePELayout_ok)
    show "take 2 out = ''MZ''" using same [of 0 2] sig H by simp
    show "0 < le_at 4 60 out" using nt ntH H by simp
    have "take 4 (drop (le_at 4 60 pe) out) = take 4 (drop (le_at 4 60 pe) pe)" using ntH by (intro same) auto
    then show "take 4 (drop (le_at 4 60 out) out) = pe_signature" using sig nt by simp
    show "le_at 2 (pe_header_at out) out = 0x20B \<or> le_at 2 (pe_header_at out) out = 0x10B"
      using sig at [of ?H 2] by (simp add: H2)
    have "le_at 2 (?H - 4) out = le_at 2 (?H - 4) pe" using H by (intro at) auto
    then show "pe_header_at out + le_at 2 (pe_header_at out - 4) out \<le> length out"
      using offs len by (simp add: H2)
    show "pe_header_at out + 152 \<le> length out" using offs len by (simp add: H2)
  qed
qed

section \<open>Concrete runs\<close>

text \<open>A constant hash and a signer that always answers, to evaluate the theorems above.\<close>

definition const_hash :: "string \<Rightarrow> string" where
  "const_hash _ = replicate 32 (CHR 0x2A)"

definition example_keys :: "string \<Rightarrow> (certificate \<times> nat) option" where
  "example_keys _ = Some (\<lparr> cert_RawIssuer = ''i'', cert_Serial = [CHR 0x02, CHR 0x01, CHR 0x07], cert_Raw = ''c'' \<rparr>, 3)"

definition example_signer :: "nat \<Rightarrow> string \<Rightarrow> string option" where
  "example_signer _ h = Some ''sig''"

definition example_blob :: string where
  "example_blob = signature_blob const_hash (fst (the (example_keys ''''))) (const_hash '''') ''sig''"

lemma length_derTLV:
  "length (derTLV t c) = (let n = length c in (if n < 128 then 2 + n else 2 + length (der_length_bytes n) + n))"
  by (simp add: derTLV_def Let_def)

lemma example_blob_length: "length example_blob < 1000"
  by (simp add: example_blob_def signature_blob_def signed_attributes_def pkcs7_def signer_info_def auth_attributes_def
      spcIndirectDataContentInner_def algorithmIdentifierDER_def setOf_def oid_der_def octets_der_def base128_def
      base128_more.simps length_derTLV der_length_bytes.simps const_hash_def example_keys_def utf16be_def
      spcPEImageDataFlagsAndFile_def oidSPCIndirectDataContent_def oidSPCPEImageData_def oidPKCS7SignedData_def
      oidPKCS9ContentType_def oidPKCS9MessageDigest_def oidSHA256_def oidRSAEncryption_def)

lemma example_signPE:
  assumes l: "parsePELayout pe = Inr l" and dir: "securityDataDirectory l pe = Some (secOff, sz)"
    and fits: "securityOff l + 8 \<le> image_end secOff pe"
  shows "\<exists>out. signPE const_hash example_keys example_signer pe ''kp'' = Inr out \<and>
    embedWinCertificate pe l example_blob = Inr out \<and> length out = image_end secOff pe + cert_span example_blob"
proof -
  note order = parsePELayout_order [OF l]
  have d: "authenticodeDigest const_hash pe l = Some (const_hash '''')"
    using order dir fits image_end_le [of secOff pe]
    by (auto simp: authenticodeDigest_def slice_def Option.bind_eq_Some_conv const_hash_def)
  from embed_returns [OF l dir fits, of example_blob] obtain out where out: "embedWinCertificate pe l example_blob = Inr out" by blast
  then have "signPE const_hash example_keys example_signer pe ''kp'' = Inr out"
    using l d by (simp add: signPE_def wrapE_def orPanic_def example_keys_def example_signer_def Let_def
        example_blob_def signature_blob_def signed_attributes_def)
  with out embed_length [OF out dir order fits] show ?thesis by blast
qed

lemma cert_span_le: "cert_span c \<le> length c + 15"
proof -
  have "(8 + length c + 8 - 1) div 8 * 8 \<le> 8 + length c + 8 - 1" by (rule div_times_less_eq_dividend)
  then show ?thesis by (simp add: cert_span_def pe_align_def)
qed

lemma pe_example_layout:
  obtains l where "parsePELayout pe_example = Inr l" "pe_wellformed pe_example l" "pl_fileAlignment l = 16"
    "securityOff l = 232" "header_slot l = 240" "pl_numberOfSections l = 0" "pl_sectionHeaderOffset l = 240"
    "pl_sizeOfHeadersOff l = 148" "le_at 4 148 pe_example = 280" "securityDataDirectory l pe_example = Some (0, 0)"
proof -
  from pe_example_parses obtain l where l: "parsePELayout pe_example = Inr l" "pe_wellformed pe_example l" by blast
  note offs = parsePELayout_Inr [OF l(1)]
  have sec: "securityOff l = 232" using offs by (simp add: securityOff_def pe_image_facts)
  have dir: "securityDataDirectory l pe_example = Some (0, 0)"
    by (simp add: securityDataDirectory_def get_le_in sec pe_example_length pe_example_unsigned)
  show thesis
    using l sec dir offs by (intro that [of l]) (simp_all add: header_slot_def pe_image_facts)
qed

theorem signed_image_verifies_witness:
  "\<exists>l out. signPE const_hash example_keys example_signer pe_example ''kp'' = Inr out \<and>
     parsePELayout out = Inr l \<and> authenticodeDigest const_hash out l \<noteq> None \<and> win_certificate l out \<noteq> None"
proof -
  obtain l where l: "parsePELayout pe_example = Inr l" "securityOff l = 232" "pl_sectionHeaderOffset l = 240"
    "securityDataDirectory l pe_example = Some (0, 0)" by (rule pe_example_layout)
  have e: "image_end 0 pe_example = 288" by (simp add: image_end_def pe_example_length)
  from example_signPE [OF l(1,4)] obtain out where
    out: "signPE const_hash example_keys example_signer pe_example ''kp'' = Inr out"
    and len: "length out = 288 + cert_span example_blob" by (auto simp: e l)
  have "length out < 2 ^ 32" using len cert_span_le [of example_blob] example_blob_length by simp
  from signed_image_verifies [OF out l(1,4) _ this] out show ?thesis by (auto simp: e l)
qed

lemma example_uki:
  assumes wf: "pe_wellformed pe l" and dir: "securityDataDirectory l pe = Some (secOff, sz)"
    and room: "header_slot l + 40 \<le> le_at 4 (pl_sizeOfHeadersOff l) pe"
    and off: "secOff = 0 \<or> header_slot l \<le> secOff"
  shows "\<exists>out. BuildAndSignUKI const_hash example_keys example_signer pe initramfs [] ''kp'' = Inr out \<and>
    length out \<le> length (appended pe initramfs l) + cert_span example_blob"
proof -
  have "\<exists>stub. appendSection pe ''.initrd'' initramfs initrdVMA = Inr stub"
    using wf _ room by (rule appendSection_succeeds) simp
  then obtain stub where stub: "appendSection pe ''.initrd'' initramfs initrdVMA = Inr stub" by blast
  note slot = appendSection_slot [OF stub wf]
  have len: "length stub = length (appended pe initramfs l)" by (rule appendSection_length [OF stub wf])
  from appendSection_parses [OF stub wf] obtain l2 where l2: "parsePELayout stub = Inr l2" by blast
  note lay = appendSection_layout [OF stub wf l2]
  have "securityOff l + 8 \<le> header_slot l"
    using wf by (simp add: pe_wellformed_def securityOff_def header_slot_def)
  moreover have "length pe \<le> length stub" by (simp add: len appended_def Let_def)
  ultimately have fits: "securityOff l2 + 8 \<le> image_end secOff stub"
    using lay slot off by (auto simp: image_end_def)
  have dir2: "securityDataDirectory l2 stub = Some (secOff, sz)" using lay dir by simp
  from example_signPE [OF l2 dir2 fits] obtain out where
    "signPE const_hash example_keys example_signer stub ''kp'' = Inr out"
    "length out = image_end secOff stub + cert_span example_blob" by blast
  then show ?thesis
    using stub image_end_le [of secOff stub] len by (simp add: BuildAndSignUKI_def wrapE_def)
qed

theorem uki_carries_initramfs_witness:
  "\<exists>l out. BuildAndSignUKI const_hash example_keys example_signer pe_example ''initramfs'' [] ''kp'' = Inr out \<and>
     section_bytes (read_section l 0 out) out = ''initramfs''"
proof -
  obtain l where l: "pe_wellformed pe_example l" "pl_fileAlignment l = 16" "header_slot l = 240"
    "pl_numberOfSections l = 0" "pl_sizeOfHeadersOff l = 148" "le_at 4 148 pe_example = 280"
    "securityDataDirectory l pe_example = Some (0, 0)" by (rule pe_example_layout)
  from example_uki [OF l(1,7)] obtain out where
    out: "BuildAndSignUKI const_hash example_keys example_signer pe_example ''initramfs'' [] ''kp'' = Inr out"
    and len: "length out \<le> length (appended pe_example ''initramfs'' l) + cert_span example_blob"
    by (auto simp: l)
  have small: "length out < 2 ^ 32"
    using len cert_span_le [of example_blob] example_blob_length
    by (simp add: appended_def Let_def pe_align_def l(2) pe_example_length)
  have "pl_fileAlignment l dvd length pe_example" by (simp add: l(2) pe_example_length)
  from uki_carries_initramfs [OF out l(1,7) this small] out l(4) show ?thesis by (auto simp: Let_def)
qed

text \<open>The example image with a signature.\<close>

lemma pe_example_signed:
  "\<exists>l pe2. pe_wellformed pe2 l \<and> pl_fileAlignment l = 16 \<and> header_slot l = 240 \<and> pl_numberOfSections l = 0 \<and>
     le_at 4 (pl_sizeOfHeadersOff l) pe2 = 280 \<and> securityDataDirectory l pe2 = Some (288, 16) \<and> length pe2 = 304"
proof -
  obtain l where l: "parsePELayout pe_example = Inr l" "pe_wellformed pe_example l" "pl_fileAlignment l = 16"
    "securityOff l = 232" "header_slot l = 240" "pl_numberOfSections l = 0" "pl_sectionHeaderOffset l = 240"
    "pl_sizeOfHeadersOff l = 148" "le_at 4 148 pe_example = 280" "securityDataDirectory l pe_example = Some (0, 0)"
    by (rule pe_example_layout)
  have e: "image_end 0 pe_example = 288" by (simp add: image_end_def pe_example_length)
  have cs: "pl_checksumOff l = 152" using parsePELayout_Inr [OF l(1)] by (simp add: pe_image_facts)
  have "\<exists>out. embedWinCertificate pe_example l ''cert'' = Inr out"
    using l(1,10) by (rule embed_returns) (simp add: e l)
  then obtain out where out: "embedWinCertificate pe_example l ''cert'' = Inr out" by blast
  note facts = out l(10) parsePELayout_order [OF l(1)]
  have fits: "securityOff l + 8 \<le> image_end 0 pe_example" by (simp add: e l)
  have len: "length out = 304" using embed_length [OF facts fits] by (simp add: e cert_span_def pe_align_def)
  have dir: "securityDataDirectory l out = Some (288, 16)"
    using embed_directory [OF facts fits] len by (simp add: e cert_span_def pe_align_def)
  have parse: "parsePELayout out = Inr l"
    using fits by (intro embed_parses [OF out l(1,10)]) (simp_all add: e l)
  have same: "le_at 4 a out = le_at 4 a pe_example" if "a + 4 \<le> 152" for a
    using that cs unfolding le_at_def
    by (intro arg_cong [where f = le_val] embed_elsewhere [OF facts fits]) (simp_all add: l e)
  have "pe_header_at out = pe_header_at pe_example" using same [of 60] by (simp add: pe_header_at_def)
  then have "pe_wellformed out l" using l(2,8,9) same [of 148] parse len by (simp add: pe_wellformed_def)
  with l(3,5,6,8,9) same [of 148] dir len show ?thesis by (intro exI [of _ l] exI [of _ out]) simp
qed

theorem uki_of_signed_kernel_witness:
  "\<exists>l pe2 out. BuildAndSignUKI const_hash example_keys example_signer pe2 ''initramfs'' [] ''kp'' = Inr out \<and>
     le_at 4 (securityOff l) out = 288 \<and> 288 < sec_pointer (read_section l 0 out)"
proof -
  from pe_example_signed obtain l pe2 where l: "pe_wellformed pe2 l" "pl_fileAlignment l = 16" "header_slot l = 240"
    "pl_numberOfSections l = 0" "le_at 4 (pl_sizeOfHeadersOff l) pe2 = 280"
    "securityDataDirectory l pe2 = Some (288, 16)" "length pe2 = 304" by blast
  from example_uki [OF l(1,6)] obtain out where
    out: "BuildAndSignUKI const_hash example_keys example_signer pe2 ''initramfs'' [] ''kp'' = Inr out"
    and len: "length out \<le> length (appended pe2 ''initramfs'' l) + cert_span example_blob"
    by (auto simp: l)
  have small: "length out < 2 ^ 32"
    using len cert_span_le [of example_blob] example_blob_length
    by (simp add: appended_def Let_def pe_align_def l)
  have "pe_align (length pe2) (pl_fileAlignment l) < 2 ^ 32" by (simp add: l pe_align_def)
  from uki_of_signed_kernel [OF out l(1,6) _ _ small this] out l show ?thesis by (auto simp: Let_def)
qed

end
