(* ===== verification/Pieces.thy ===== *)
theory Pieces
  imports Go_Path Go_Strconv
begin

text \<open>
  Fetching the prebuilt pieces (internal/pieces/pieces.go and sign.go): the hash manifest and its
  signature, the pieces themselves, the local cache of an HTTP source, and what is refused.

  The network and the file system are a record of two functions, what a GET of an URL and what a
  read of a path answers. SHA-256, Ed25519 and the decoding of pieces.json belong to the standard
  library and are parameters; a Go map iterated in some order is an association list.
\<close>

section \<open>The outside\<close>

datatype http_reply = HttpFailed | HttpReply nat string bool
datatype file_reply = FileData string | FileMissing | FileError

record host_world =
  w_get :: "string \<Rightarrow> http_reply"
  w_read :: "string \<Rightarrow> file_reply"

text \<open>\<^verbatim>\<open>HttpReply status body complete\<close>: a body may break off, and then what arrived is returned with an error.\<close>

record Applet =
  applet_Path :: string
  applet_Target :: string

record Provenance =
  prov_Arch :: string
  prov_VGA :: bool
  prov_BootProfile :: string
  prov_WifiFirmware :: "string list"
  prov_EthernetFirmware :: "string list"

record PieceSet =
  set_Vmlinuz :: string
  set_BusyboxBinary :: string
  set_BusyboxApplets :: "Applet list"
  set_BusyboxManifest :: string
  set_Iptables :: "string option"
  set_Supplicant :: "string option"
  set_WifiFirmware :: "(string \<times> string) list option"
  set_EthernetFirmware :: "(string \<times> string) list option"
  set_HashesVerified :: bool
  set_Provenance :: "Provenance option"

record 'key ResolveOptions =
  ro_AllowInsecureHTTP :: bool
  ro_CacheDir :: string
  ro_RequireVerifiedPieces :: bool
  ro_VerifyKey :: "'key option"

datatype fetch_error =
    InsecureHTTP string
  | FetchFailed string
  | FetchStatus string nat
  | ReadFailed string
  | MalformedHashes string
  | NothingPublished string
  | SignatureInvalid
  | MalformedManifest string
  | BadProvenance
  | HashMissing string
  | HashMismatch string

section \<open>Reading pieces\<close>

definition is_http :: "string \<Rightarrow> bool" where
  "is_http source \<longleftrightarrow> go_has_prefix source ''http://'' \<or> go_has_prefix source ''https://''"

definition piece_url :: "string \<Rightarrow> string \<Rightarrow> string" where
  "piece_url source name = go_trim_suffix source ''/'' @ ''/'' @ name"

text \<open>The data a read returns beside its error: an incomplete body comes with both.\<close>

definition http_body :: "string \<Rightarrow> string \<Rightarrow> bool \<Rightarrow> string option \<times> fetch_error option" where
  "http_body url body complete = (Some body, if complete then None else Some (FetchFailed url))"

definition readPiece :: "host_world \<Rightarrow> string \<Rightarrow> string \<Rightarrow> string option \<times> fetch_error option" where
  "readPiece w source name =
     (if is_http source then
        (let url = piece_url source name in
         case w_get w url of
           HttpFailed \<Rightarrow> (None, Some (FetchFailed url))
         | HttpReply status body complete \<Rightarrow>
             if status \<noteq> 200 then (None, Some (FetchStatus url status)) else http_body url body complete)
      else
        (let path = go_path_join [source, name] in
         case w_read w path of FileData d \<Rightarrow> (Some d, None) | _ \<Rightarrow> (None, Some (ReadFailed path))))"

definition readOptionalPiece :: "host_world \<Rightarrow> string \<Rightarrow> string \<Rightarrow> string option \<times> fetch_error option" where
  "readOptionalPiece w source name =
     (if is_http source then
        (let url = piece_url source name in
         case w_get w url of
           HttpFailed \<Rightarrow> (None, Some (FetchFailed url))
         | HttpReply status body complete \<Rightarrow>
             if status = 404 then (None, None)
             else if status \<noteq> 200 then (None, Some (FetchStatus url status)) else http_body url body complete)
      else
        (let path = go_path_join [source, name] in
         case w_read w path of FileData d \<Rightarrow> (Some d, None) | FileMissing \<Rightarrow> (None, None)
         | FileError \<Rightarrow> (None, Some (ReadFailed path))))"

text \<open>Returning at an error, going on with the data otherwise.\<close>

definition okE :: "'a \<times> 'e option \<Rightarrow> 'e + 'a" where
  "okE r = (case snd r of Some e \<Rightarrow> Inl e | None \<Rightarrow> Inr (fst r))"

definition must_have :: "string option \<times> fetch_error option \<Rightarrow> fetch_error + string" where
  "must_have r = bindE (okE r) (\<lambda>d. Inr (case d of Some s \<Rightarrow> s | None \<Rightarrow> []))"

section \<open>The two manifests\<close>

definition parse_hash_line :: "(string \<Rightarrow> string option) \<Rightarrow> string \<Rightarrow> fetch_error + (string \<Rightarrow> string option)" where
  "parse_hash_line hashes line0 =
     (let line = go_trim_space line0 in
      if line = [] then Inr hashes
      else (case go_fields line of
              [digest, name] \<Rightarrow> Inr (hashes(name \<mapsto> go_to_lower digest))
            | _ \<Rightarrow> Inl (MalformedHashes line)))"

definition parseHashes :: "string \<Rightarrow> fetch_error + (string \<Rightarrow> string option)" where
  "parseHashes data = foldE parse_hash_line Map.empty (go_split (CHR 0x0A) (go_trim_space data))"

definition parse_applet_line :: "Applet list \<Rightarrow> string \<Rightarrow> fetch_error + Applet list" where
  "parse_applet_line applets line0 =
     (let line = go_trim_right line0 [CHR 0x0D] in
      if line = [] then Inr applets
      else (case go_cut line [CHR 0x09] of
              (path, target, True) \<Rightarrow> Inr (applets @ [\<lparr> applet_Path = path, applet_Target = target \<rparr>])
            | (_, _, False) \<Rightarrow> Inl (MalformedManifest line)))"

definition parseManifest :: "string \<Rightarrow> fetch_error + Applet list" where
  "parseManifest data = foldE parse_applet_line [] (go_split (CHR 0x0A) data)"

definition checkHash ::
  "(string \<Rightarrow> string) \<Rightarrow> (string \<Rightarrow> string option) \<Rightarrow> string \<Rightarrow> string \<Rightarrow> fetch_error + unit" where
  "checkHash sha256 hashes name data =
     (case hashes name of
        None \<Rightarrow> Inl (HashMissing name)
      | Some want \<Rightarrow> guardE (go_hex_encode (sha256 data) = want) (HashMismatch name))"

section \<open>Keys and signatures\<close>

datatype key_error = BadHex | WrongLength nat

definition hex_key :: "nat \<Rightarrow> string \<Rightarrow> key_error + string" where
  "hex_key want s =
     (case go_hex_decode s of None \<Rightarrow> Inl BadHex
      | Some raw \<Rightarrow> bindE (guardE (length raw = want) (WrongLength (length raw))) (\<lambda>_. Inr raw))"

definition ParsePublicKeyHex :: "string \<Rightarrow> key_error + string" where
  "ParsePublicKeyHex s = hex_key 32 s"

definition ParsePrivateKeyHex :: "(string \<Rightarrow> 'sk) \<Rightarrow> string \<Rightarrow> key_error + 'sk" where
  "ParsePrivateKeyHex newKeyFromSeed s = bindE (hex_key 32 s) (\<lambda>raw. Inr (newKeyFromSeed raw))"

definition SignHashes :: "('sk \<Rightarrow> string \<Rightarrow> string) \<Rightarrow> 'sk \<Rightarrow> string \<Rightarrow> string" where
  "SignHashes ed25519Sign key hashData = go_hex_encode (ed25519Sign key hashData)"

definition verifySignature ::
  "('key \<Rightarrow> string \<Rightarrow> string \<Rightarrow> bool) \<Rightarrow> 'key \<Rightarrow> string \<Rightarrow> string \<Rightarrow> fetch_error + unit" where
  "verifySignature verify pubKey hashData sigHex =
     (case go_hex_decode sigHex of None \<Rightarrow> Inl SignatureInvalid
      | Some sig \<Rightarrow> guardE (verify pubKey hashData sig) SignatureInvalid)"

section \<open>The cache\<close>

definition cacheDirFor :: "(string \<Rightarrow> string) \<Rightarrow> string \<Rightarrow> string \<Rightarrow> string" where
  "cacheDirFor sha256 base source = go_path_join [base, go_hex_encode (sha256 source)]"

definition cached :: "host_world \<Rightarrow> string \<Rightarrow> string \<Rightarrow> string option" where
  "cached w dir name = (case w_read w (go_path_join [dir, name]) of FileData d \<Rightarrow> Some d | _ \<Rightarrow> None)"

definition optE :: "fetch_error + 'a \<Rightarrow> 'a option" where
  "optE r = (case r of Inl _ \<Rightarrow> None | Inr x \<Rightarrow> Some x)"

text \<open>A file that may be missing from the cache, but if there must have the right hash.\<close>

definition cached_checked ::
  "(string \<Rightarrow> string) \<Rightarrow> host_world \<Rightarrow> string \<Rightarrow> (string \<Rightarrow> string option) \<Rightarrow> string \<Rightarrow> string option option" where
  "cached_checked sha256 w dir hashes name =
     (case cached w dir name of None \<Rightarrow> Some None
      | Some d \<Rightarrow> map_option (\<lambda>_. Some d) (optE (checkHash sha256 hashes name d)))"

definition loadFromCache ::
  "(string \<Rightarrow> string) \<Rightarrow> (string \<Rightarrow> Provenance option) \<Rightarrow> host_world \<Rightarrow> string \<Rightarrow> (string \<Rightarrow> string option) \<Rightarrow>
   PieceSet option" where
  "loadFromCache sha256 parseProv w dir hashes =
     Option.bind (cached w dir ''vmlinuz'') (\<lambda>vmlinuz.
     Option.bind (cached w dir ''busybox'') (\<lambda>busybox.
     Option.bind (cached w dir ''busybox-manifest.tsv'') (\<lambda>manifest.
     Option.bind (optE (checkHash sha256 hashes ''vmlinuz'' vmlinuz)) (\<lambda>_.
     Option.bind (optE (checkHash sha256 hashes ''busybox'' busybox)) (\<lambda>_.
     Option.bind (optE (checkHash sha256 hashes ''busybox-manifest.tsv'' manifest)) (\<lambda>_.
     Option.bind (optE (parseManifest manifest)) (\<lambda>applets.
     Option.bind (cached_checked sha256 w dir hashes ''iptables'') (\<lambda>iptables.
     Option.bind (cached_checked sha256 w dir hashes ''pieces.json'') (\<lambda>provData.
     Some \<lparr> set_Vmlinuz = vmlinuz, set_BusyboxBinary = busybox, set_BusyboxApplets = applets,
            set_BusyboxManifest = manifest, set_Iptables = iptables, set_Supplicant = None,
            set_WifiFirmware = None, set_EthernetFirmware = None, set_HashesVerified = True,
            set_Provenance = Option.bind provData parseProv \<rparr>)))))))))"

datatype fs_op = MkdirAll string | WriteFile string string | Rename string string

definition cache_files ::
  "string \<Rightarrow> string \<Rightarrow> string \<Rightarrow> string option \<Rightarrow> string option \<Rightarrow> (string \<times> string) list" where
  "cache_files vmlinuz busybox manifest iptables provData =
     [(''vmlinuz'', vmlinuz), (''busybox'', busybox), (''busybox-manifest.tsv'', manifest)] @
     (case iptables of None \<Rightarrow> [] | Some d \<Rightarrow> [(''iptables'', d)]) @
     (case provData of None \<Rightarrow> [] | Some d \<Rightarrow> [(''pieces.json'', d)])"

definition save_file :: "string \<Rightarrow> string \<times> string \<Rightarrow> fs_op list" where
  "save_file dir = (\<lambda>(name, data).
     (let dst = go_path_join [dir, name]; tmp = dst @ ''.tmp'' in [WriteFile tmp data, Rename tmp dst]))"

definition saveToCache :: "string \<Rightarrow> (string \<times> string) list \<Rightarrow> fs_op list" where
  "saveToCache dir files = MkdirAll dir # concat (map (save_file dir) files)"

section \<open>Resolving\<close>

definition pieces_hasWifiDriver :: "string \<Rightarrow> bool" where
  "pieces_hasWifiDriver profile \<longleftrightarrow> profile = ''wifi'' \<or> profile = ''eth+wifi''"

definition arch_source :: "string \<Rightarrow> string \<Rightarrow> string" where
  "arch_source source arch = go_trim_suffix source ''/'' @ ''/'' @ arch"

text \<open>The hash manifest, fetched first: its bytes and what they say.\<close>

definition resolve_hashes ::
  "host_world \<Rightarrow> string \<Rightarrow> bool \<Rightarrow> fetch_error + (string \<times> (string \<Rightarrow> string option)) option" where
  "resolve_hashes w source require =
     bindE (okE (readOptionalPiece w source ''pieces.sha256'')) (\<lambda>hashData.
     case hashData of
       Some d \<Rightarrow> bindE (parseHashes d) (\<lambda>hashes. Inr (Some (d, hashes)))
     | None \<Rightarrow> if is_http source \<and> require then Inl (NothingPublished source) else Inr None)"

definition resolve_signature ::
  "('key \<Rightarrow> string \<Rightarrow> string \<Rightarrow> bool) \<Rightarrow> host_world \<Rightarrow> string \<Rightarrow> string option \<Rightarrow> 'key option \<Rightarrow> fetch_error + unit" where
  "resolve_signature verify w source hashData verifyKey =
     (case verifyKey of None \<Rightarrow> Inr ()
      | Some key \<Rightarrow>
          (case hashData of None \<Rightarrow> Inl SignatureInvalid
           | Some d \<Rightarrow>
               bindE (okE (readOptionalPiece w source ''pieces.sha256.sig'')) (\<lambda>sigData.
               case sigData of None \<Rightarrow> Inl SignatureInvalid
               | Some s \<Rightarrow> verifySignature verify key d (go_trim_space s))))"

text \<open>An entry of a Go map set by key, and the loop over a firmware list of pieces.json.\<close>

fun put_entry :: "(string \<times> string) list \<Rightarrow> string \<Rightarrow> string \<Rightarrow> (string \<times> string) list" where
  "put_entry [] k v = [(k, v)]"
| "put_entry ((k', v') # m) k v = (if k' = k then (k, v) # m else (k', v') # put_entry m k v)"

definition fetch_firmware ::
  "host_world \<Rightarrow> string \<Rightarrow> (string \<times> string) list \<Rightarrow> string \<Rightarrow> fetch_error + (string \<times> string) list" where
  "fetch_firmware w source m path =
     bindE (must_have (readPiece w source (''firmware/'' @ path))) (\<lambda>d. Inr (put_entry m path d))"

definition resolve_firmware ::
  "host_world \<Rightarrow> string \<Rightarrow> string list \<Rightarrow> fetch_error + (string \<times> string) list option" where
  "resolve_firmware w source paths =
     (if paths = [] then Inr None
      else bindE (foldE (fetch_firmware w source) [] paths) (\<lambda>m. Inr (Some m)))"

definition resolve_provenance ::
  "(string \<Rightarrow> Provenance option) \<Rightarrow> string option \<Rightarrow> fetch_error + Provenance option" where
  "resolve_provenance parseProv provData =
     (case provData of None \<Rightarrow> Inr None
      | Some d \<Rightarrow> (case parseProv d of None \<Rightarrow> Inl BadProvenance | Some p \<Rightarrow> Inr (Some p)))"

definition resolve_supplicant :: "host_world \<Rightarrow> string \<Rightarrow> Provenance option \<Rightarrow> string option" where
  "resolve_supplicant w source prov =
     (case prov of None \<Rightarrow> None
      | Some p \<Rightarrow>
          (if pieces_hasWifiDriver (prov_BootProfile p)
           then (case readPiece w source ''wpa_supplicant'' of (d, None) \<Rightarrow> d | (_, Some _) \<Rightarrow> None)
           else None))"

definition opt_entry :: "string \<Rightarrow> string option \<Rightarrow> (string \<times> string) list" where
  "opt_entry name d = (case d of None \<Rightarrow> [] | Some s \<Rightarrow> [(name, s)])"

definition firmware_entries :: "(string \<times> string) list option \<Rightarrow> (string \<times> string) list" where
  "firmware_entries m = (case m of None \<Rightarrow> [] | Some es \<Rightarrow> map (\<lambda>(path, d). (''firmware/'' @ path, d)) es)"

text \<open>Every file whose hash is checked, by the name it has in the manifest, in the order of the checks.\<close>

definition checked_files ::
  "string \<Rightarrow> string \<Rightarrow> string \<Rightarrow> string option \<Rightarrow> string option \<Rightarrow> (string \<times> string) list option \<Rightarrow>
   (string \<times> string) list option \<Rightarrow> string option \<Rightarrow> (string \<times> string) list" where
  "checked_files vmlinuz busybox manifest iptables supplicant wifi ethernet provData =
     [(''vmlinuz'', vmlinuz), (''busybox'', busybox), (''busybox-manifest.tsv'', manifest)] @
     opt_entry ''iptables'' iptables @ opt_entry ''wpa_supplicant'' supplicant @
     firmware_entries wifi @ firmware_entries ethernet @ opt_entry ''pieces.json'' provData"

definition check_files ::
  "(string \<Rightarrow> string) \<Rightarrow> (string \<Rightarrow> string option) option \<Rightarrow> (string \<times> string) list \<Rightarrow> fetch_error + bool" where
  "check_files sha256 hashes files =
     (case hashes of None \<Rightarrow> Inr False
      | Some h \<Rightarrow> bindE (foldE (\<lambda>_ (name, d). checkHash sha256 h name d) () files) (\<lambda>_. Inr True))"

text \<open>What follows a cache miss; the second component is what is written to the cache.\<close>

definition fetch_pieces ::
  "(string \<Rightarrow> string) \<Rightarrow> (string \<Rightarrow> Provenance option) \<Rightarrow> host_world \<Rightarrow> string \<Rightarrow> string \<Rightarrow>
   (string \<Rightarrow> string option) option \<Rightarrow> fetch_error + PieceSet \<times> fs_op list" where
  "fetch_pieces sha256 parseProv w source cacheDir hashes =
     bindE (must_have (readPiece w source ''vmlinuz'')) (\<lambda>vmlinuz.
     bindE (must_have (readPiece w source ''busybox'')) (\<lambda>busybox.
     bindE (must_have (readPiece w source ''busybox-manifest.tsv'')) (\<lambda>manifest.
     bindE (parseManifest manifest) (\<lambda>applets.
     let (iptablesBin, iptablesErr) = readPiece w source ''iptables'';
         iptables = (if iptablesErr = None then iptablesBin else None) in
     bindE (okE (readOptionalPiece w source ''pieces.json'')) (\<lambda>provData.
     bindE (resolve_provenance parseProv provData) (\<lambda>prov.
     let supplicant = resolve_supplicant w source prov in
     bindE (resolve_firmware w source (case prov of None \<Rightarrow> [] | Some p \<Rightarrow> prov_WifiFirmware p)) (\<lambda>wifi.
     bindE (resolve_firmware w source (case prov of None \<Rightarrow> [] | Some p \<Rightarrow> prov_EthernetFirmware p)) (\<lambda>ethernet.
     bindE (check_files sha256 hashes
              (checked_files vmlinuz busybox manifest iptables supplicant wifi ethernet provData)) (\<lambda>verified.
     Inr (\<lparr> set_Vmlinuz = vmlinuz, set_BusyboxBinary = busybox, set_BusyboxApplets = applets,
            set_BusyboxManifest = manifest, set_Iptables = iptables, set_Supplicant = supplicant,
            set_WifiFirmware = wifi, set_EthernetFirmware = ethernet, set_HashesVerified = verified,
            set_Provenance = prov \<rparr>,
          if is_http source \<and> cacheDir \<noteq> [] \<and> verified
          then saveToCache (cacheDirFor sha256 cacheDir source)
                 (cache_files vmlinuz busybox manifest iptablesBin provData) else []))))))))))"

definition Resolve ::
  "(string \<Rightarrow> string) \<Rightarrow> ('key \<Rightarrow> string \<Rightarrow> string \<Rightarrow> bool) \<Rightarrow> (string \<Rightarrow> Provenance option) \<Rightarrow> host_world \<Rightarrow>
   string \<Rightarrow> string \<Rightarrow> 'key ResolveOptions \<Rightarrow> fetch_error + PieceSet \<times> fs_op list" where
  "Resolve sha256 verify parseProv w source0 arch opts =
     (let source = arch_source source0 arch in
      if go_has_prefix source ''http://'' \<and> \<not> ro_AllowInsecureHTTP opts then Inl (InsecureHTTP source)
      else bindE (resolve_hashes w source (ro_RequireVerifiedPieces opts)) (\<lambda>published.
      bindE (resolve_signature verify w source (map_option fst published) (ro_VerifyKey opts)) (\<lambda>_.
      let hashes = map_option snd published;
          hit = (if is_http source \<and> ro_CacheDir opts \<noteq> []
                 then Option.bind hashes (loadFromCache sha256 parseProv w (cacheDirFor sha256 (ro_CacheDir opts) source))
                 else None) in
      case hit of Some s \<Rightarrow> Inr (s, [])
      | None \<Rightarrow> fetch_pieces sha256 parseProv w source (ro_CacheDir opts) hashes)))"

end
