(* ===== verification/Pieces_Trust.thy ===== *)
theory Pieces_Trust
  imports Pieces
begin

text \<open>
  What can be relied on after \<^verbatim>\<open>Resolve\<close> (internal/pieces/pieces.go): every file of the set is covered
  by the hash manifest and the manifest by the signature, which options make that sure, what the
  cache keeps and loses, and what a crash while it is written leaves behind.
\<close>

section \<open>Verified sets\<close>

text \<open>The files of a set, by the names they have in the hash manifest.\<close>

definition set_files :: "PieceSet \<Rightarrow> (string \<times> string) list" where
  "set_files s =
     [(''vmlinuz'', set_Vmlinuz s), (''busybox'', set_BusyboxBinary s),
      (''busybox-manifest.tsv'', set_BusyboxManifest s)] @
     opt_entry ''iptables'' (set_Iptables s) @ opt_entry ''wpa_supplicant'' (set_Supplicant s) @
     firmware_entries (set_WifiFirmware s) @ firmware_entries (set_EthernetFirmware s)"

definition covered :: "(string \<Rightarrow> string) \<Rightarrow> (string \<Rightarrow> string option) \<Rightarrow> (string \<times> string) list \<Rightarrow> bool" where
  "covered sha256 hashes files \<longleftrightarrow> (\<forall>(name, d) \<in> set files. hashes name = Some (go_hex_encode (sha256 d)))"

lemma checkHash_iff: "checkHash sha256 hashes name d = Inr u \<longleftrightarrow> hashes name = Some (go_hex_encode (sha256 d))"
  by (auto simp: checkHash_def split: option.splits)

lemma foldE_checks:
  "foldE (\<lambda>_ (name, d). checkHash sha256 h name d) () files = Inr u \<longleftrightarrow> covered sha256 h files"
  by (induction files) (auto simp: covered_def bindE_Inr_iff checkHash_iff split: prod.splits)

lemma check_files_iff:
  "check_files sha256 hashes files = Inr b \<longleftrightarrow>
   (case hashes of None \<Rightarrow> \<not> b | Some h \<Rightarrow> b \<and> covered sha256 h files)"
  by (auto simp: check_files_def bindE_Inr_iff foldE_checks split: option.splits)

lemma covered_simps [simp]:
  "covered sha256 h []"
  "covered sha256 h ((n, d) # fs) \<longleftrightarrow> h n = Some (go_hex_encode (sha256 d)) \<and> covered sha256 h fs"
  "covered sha256 h (fs @ gs) \<longleftrightarrow> covered sha256 h fs \<and> covered sha256 h gs"
  by (auto simp: covered_def)

lemma optE_iff [simp]: "optE r = Some x \<longleftrightarrow> r = Inr x"
  by (cases r) (auto simp: optE_def)

lemma optE_simps [simp]: "optE (Inr x) = Some x" "optE (Inl e) = None"
  by (simp_all add: optE_def)

lemma cached_checked_covered:
  "cached_checked sha256 w dir h name = Some d \<Longrightarrow> covered sha256 h (opt_entry name d) \<and> cached w dir name = d"
  by (auto simp: cached_checked_def opt_entry_def checkHash_iff split: option.splits)

lemma loadFromCache_covered:
  assumes "loadFromCache sha256 parseProv w dir h = Some s"
  shows "set_HashesVerified s \<and> covered sha256 h (set_files s) \<and> set_Supplicant s = None \<and>
    set_WifiFirmware s = None \<and> set_EthernetFirmware s = None"
proof -
  from assms obtain vmlinuz busybox manifest applets iptables provData where
    "optE (checkHash sha256 h ''vmlinuz'' vmlinuz) = Some ()" "optE (checkHash sha256 h ''busybox'' busybox) = Some ()"
    "optE (checkHash sha256 h ''busybox-manifest.tsv'' manifest) = Some ()"
    "cached_checked sha256 w dir h ''iptables'' = Some iptables"
    "s = \<lparr> set_Vmlinuz = vmlinuz, set_BusyboxBinary = busybox, set_BusyboxApplets = applets,
            set_BusyboxManifest = manifest, set_Iptables = iptables, set_Supplicant = None,
            set_WifiFirmware = None, set_EthernetFirmware = None, set_HashesVerified = True,
            set_Provenance = Option.bind provData parseProv \<rparr>"
    unfolding loadFromCache_def by (auto simp: Option.bind_eq_Some_conv)
  then show ?thesis
    using cached_checked_covered [of sha256 w dir h "''iptables''" iptables]
    by (simp add: set_files_def checkHash_iff firmware_entries_def opt_entry_def)
qed

definition fetched_set ::
  "string \<Rightarrow> string \<Rightarrow> string \<Rightarrow> Applet list \<Rightarrow> string option \<Rightarrow> string option \<Rightarrow> (string \<times> string) list option \<Rightarrow>
   (string \<times> string) list option \<Rightarrow> bool \<Rightarrow> Provenance option \<Rightarrow> PieceSet" where
  "fetched_set vmlinuz busybox manifest applets iptables supplicant wifi ethernet verified prov =
     \<lparr> set_Vmlinuz = vmlinuz, set_BusyboxBinary = busybox, set_BusyboxApplets = applets,
       set_BusyboxManifest = manifest, set_Iptables = iptables, set_Supplicant = supplicant,
       set_WifiFirmware = wifi, set_EthernetFirmware = ethernet, set_HashesVerified = verified,
       set_Provenance = prov \<rparr>"

definition wifi_paths :: "Provenance option \<Rightarrow> string list" where
  "wifi_paths prov = (case prov of None \<Rightarrow> [] | Some p \<Rightarrow> prov_WifiFirmware p)"

definition ethernet_paths :: "Provenance option \<Rightarrow> string list" where
  "ethernet_paths prov = (case prov of None \<Rightarrow> [] | Some p \<Rightarrow> prov_EthernetFirmware p)"

text \<open>A successful fetch, step by step.\<close>

lemma fetch_pieces_iff:
  assumes "readPiece w source ''iptables'' = (ib, ie)"
  shows "fetch_pieces sha256 parseProv w source dir hashes = Inr r \<longleftrightarrow>
    (\<exists>vmlinuz busybox manifest applets provData prov wifi ethernet verified.
       must_have (readPiece w source ''vmlinuz'') = Inr vmlinuz \<and>
       must_have (readPiece w source ''busybox'') = Inr busybox \<and>
       must_have (readPiece w source ''busybox-manifest.tsv'') = Inr manifest \<and>
       parseManifest manifest = Inr applets \<and>
       okE (readOptionalPiece w source ''pieces.json'') = Inr provData \<and>
       resolve_provenance parseProv provData = Inr prov \<and>
       resolve_firmware w source (wifi_paths prov) = Inr wifi \<and>
       resolve_firmware w source (ethernet_paths prov) = Inr ethernet \<and>
       check_files sha256 hashes (checked_files vmlinuz busybox manifest (if ie = None then ib else None)
         (resolve_supplicant w source prov) wifi ethernet provData) = Inr verified \<and>
       r = (fetched_set vmlinuz busybox manifest applets (if ie = None then ib else None)
              (resolve_supplicant w source prov) wifi ethernet verified prov,
            if is_http source \<and> dir \<noteq> [] \<and> verified
            then saveToCache (cacheDirFor sha256 dir source) (cache_files vmlinuz busybox manifest ib provData)
            else []))"
  unfolding fetch_pieces_def Let_def assms prod.case wifi_paths_def [symmetric] ethernet_paths_def [symmetric]
    fetched_set_def [symmetric]
  by (simp only: bindE_Inr_iff sum.inject(2) eq_commute [of "(_, _)" r]) blast

lemma fetch_pieces_covered:
  assumes "fetch_pieces sha256 parseProv w source dir hashes = Inr (s, ops)"
  shows "case hashes of None \<Rightarrow> \<not> set_HashesVerified s
    | Some h \<Rightarrow> set_HashesVerified s \<and> covered sha256 h (set_files s)"
proof -
  obtain ib ie where "readPiece w source ''iptables'' = (ib, ie)" by fastforce
  with assms obtain vmlinuz busybox manifest applets iptables supplicant wifi ethernet verified provData prov where
    "check_files sha256 hashes (checked_files vmlinuz busybox manifest iptables supplicant wifi ethernet provData) = Inr verified"
    "s = fetched_set vmlinuz busybox manifest applets iptables supplicant wifi ethernet verified prov"
    by (simp only: fetch_pieces_iff prod.inject) blast
  then show ?thesis
    by (auto simp: check_files_iff checked_files_def set_files_def fetched_set_def split: option.splits)
qed

text \<open>A signature over the manifest's bytes, found where the source publishes it.\<close>

definition signed_by ::
  "('key \<Rightarrow> string \<Rightarrow> string \<Rightarrow> bool) \<Rightarrow> host_world \<Rightarrow> string \<Rightarrow> 'key \<Rightarrow> string \<Rightarrow> bool" where
  "signed_by verify w source key d \<longleftrightarrow>
     (\<exists>t sig. readOptionalPiece w source ''pieces.sha256.sig'' = (Some t, None) \<and>
        go_hex_decode (go_trim_space t) = Some sig \<and> verify key d sig)"

lemma okE_iff: "okE r = Inr x \<longleftrightarrow> r = (x, None)"
  by (cases r) (auto simp: okE_def split: option.splits)

lemma resolve_signature_Inr:
  assumes "resolve_signature verify w source hashData (Some key) = Inr u"
  shows "\<exists>d. hashData = Some d \<and> signed_by verify w source key d"
  using assms
  by (auto simp: resolve_signature_def signed_by_def bindE_Inr_iff okE_iff verifySignature_def split: option.splits)

lemma Resolve_Inr:
  assumes "Resolve sha256 verify parseProv w source0 arch opts = Inr (s, ops)"
  defines "source \<equiv> arch_source source0 arch"
  obtains published where
    "resolve_hashes w source (ro_RequireVerifiedPieces opts) = Inr published"
    "resolve_signature verify w source (map_option fst published) (ro_VerifyKey opts) = Inr ()"
    "(\<exists>d h. published = Some (d, h) \<and> is_http source \<and> ro_CacheDir opts \<noteq> [] \<and>
        loadFromCache sha256 parseProv w (cacheDirFor sha256 (ro_CacheDir opts) source) h = Some s \<and> ops = []) \<or>
     fetch_pieces sha256 parseProv w source (ro_CacheDir opts) (map_option snd published) = Inr (s, ops)"
  using assms unfolding Resolve_def Let_def
  by (auto simp: bindE_Inr_iff Option.bind_eq_Some_conv split: if_splits option.splits)

lemma resolve_hashes_Some:
  "resolve_hashes w source req = Inr (Some (d, h)) \<Longrightarrow>
   readOptionalPiece w source ''pieces.sha256'' = (Some d, None) \<and> parseHashes d = Inr h"
  by (auto simp: resolve_hashes_def bindE_Inr_iff okE_iff split: option.splits if_splits)

lemma resolved_set_verified:
  assumes "Resolve sha256 verify parseProv w source0 arch opts = Inr (s, ops)"
    and "ro_VerifyKey opts \<noteq> None \<or> is_http (arch_source source0 arch) \<and> ro_RequireVerifiedPieces opts"
  shows "\<exists>d h. readOptionalPiece w (arch_source source0 arch) ''pieces.sha256'' = (Some d, None) \<and>
    parseHashes d = Inr h \<and> set_HashesVerified s \<and>
    (\<forall>(name, data) \<in> set (set_files s). h name = Some (go_hex_encode (sha256 data))) \<and>
    (\<forall>key. ro_VerifyKey opts = Some key \<longrightarrow> signed_by verify w (arch_source source0 arch) key d)"
proof -
  let ?source = "arch_source source0 arch"
  from Resolve_Inr [OF assms(1)] obtain published where
    pub: "resolve_hashes w ?source (ro_RequireVerifiedPieces opts) = Inr published"
    and sig: "resolve_signature verify w ?source (map_option fst published) (ro_VerifyKey opts) = Inr ()"
    and got: "(\<exists>d h. published = Some (d, h) \<and> is_http ?source \<and> ro_CacheDir opts \<noteq> [] \<and>
        loadFromCache sha256 parseProv w (cacheDirFor sha256 (ro_CacheDir opts) ?source) h = Some s \<and> ops = []) \<or>
     fetch_pieces sha256 parseProv w ?source (ro_CacheDir opts) (map_option snd published) = Inr (s, ops)" .
  have "published \<noteq> None"
  proof (cases "ro_VerifyKey opts")
    case None
    then show ?thesis using assms(2) pub
      by (auto simp: resolve_hashes_def bindE_Inr_iff split: option.splits if_splits)
  next
    case (Some key)
    with resolve_signature_Inr [of verify w ?source "map_option fst published" key "()"] sig show ?thesis by auto
  qed
  then obtain d h where d: "published = Some (d, h)" by auto
  have cov: "set_HashesVerified s \<and> covered sha256 h (set_files s)"
    using got
  proof
    assume "\<exists>d h. published = Some (d, h) \<and> is_http ?source \<and> ro_CacheDir opts \<noteq> [] \<and>
        loadFromCache sha256 parseProv w (cacheDirFor sha256 (ro_CacheDir opts) ?source) h = Some s \<and> ops = []"
    then show ?thesis using d loadFromCache_covered by fastforce
  next
    assume "fetch_pieces sha256 parseProv w ?source (ro_CacheDir opts) (map_option snd published) = Inr (s, ops)"
    then show ?thesis using fetch_pieces_covered d by fastforce
  qed
  have key: "signed_by verify w ?source key d" if "ro_VerifyKey opts = Some key" for key
    using resolve_signature_Inr [of verify w ?source "map_option fst published" key "()"] sig that d by auto
  from resolve_hashes_Some [of w ?source _ d h] pub d cov key show ?thesis
    by (auto simp: covered_def)
qed


section \<open>A broken request for an optional piece\<close>

text \<open>The same source, but for one file whose request fails.\<close>

definition blocked :: "host_world \<Rightarrow> string \<Rightarrow> string \<Rightarrow> host_world" where
  "blocked w source name = w \<lparr> w_get := (w_get w)(piece_url source name := HttpFailed) \<rparr>"

lemma piece_url_inj [simp]: "piece_url source a = piece_url source b \<longleftrightarrow> a = b"
  by (simp add: piece_url_def)

lemma blocked_other:
  "is_http source \<Longrightarrow> name \<noteq> blk \<Longrightarrow> readPiece (blocked w source blk) source name = readPiece w source name"
  "is_http source \<Longrightarrow> name \<noteq> blk \<Longrightarrow> readOptionalPiece (blocked w source blk) source name = readOptionalPiece w source name"
  by (simp_all add: readPiece_def readOptionalPiece_def blocked_def Let_def)

lemma blocked_self: "is_http source \<Longrightarrow> readPiece (blocked w source name) source name = (None, Some (FetchFailed (piece_url source name)))"
  by (simp add: readPiece_def blocked_def Let_def)

lemma blocked_firmware:
  assumes "is_http source" and "\<forall>x. ''firmware/'' @ x \<noteq> blk"
  shows "resolve_firmware (blocked w source blk) source paths = resolve_firmware w source paths"
proof -
  have "fetch_firmware (blocked w source blk) source = fetch_firmware w source"
    using assms by (intro ext) (simp add: fetch_firmware_def blocked_other)
  then show ?thesis by (simp add: resolve_firmware_def)
qed

lemma resolve_supplicant_blocked:
  "is_http source \<Longrightarrow> blk \<noteq> ''wpa_supplicant'' \<Longrightarrow>
   resolve_supplicant (blocked w source blk) source prov = resolve_supplicant w source prov"
  by (simp add: resolve_supplicant_def blocked_other split: option.splits)

lemma fetch_pieces_blocked:
  assumes http: "is_http source" and ok: "fetch_pieces sha256 parseProv w source [] hashes = Inr (s, ops)"
  shows "fetch_pieces sha256 parseProv (blocked w source ''iptables'') source [] hashes = Inr (s \<lparr> set_Iptables := None \<rparr>, [])"
proof -
  let ?w = "blocked w source ''iptables''"
  obtain ib ie where ib: "readPiece w source ''iptables'' = (ib, ie)" by fastforce
  from ok obtain vmlinuz busybox manifest applets provData prov wifi ethernet verified where
    steps: "must_have (readPiece w source ''vmlinuz'') = Inr vmlinuz"
      "must_have (readPiece w source ''busybox'') = Inr busybox"
      "must_have (readPiece w source ''busybox-manifest.tsv'') = Inr manifest"
      "parseManifest manifest = Inr applets" "okE (readOptionalPiece w source ''pieces.json'') = Inr provData"
      "resolve_provenance parseProv provData = Inr prov" "resolve_firmware w source (wifi_paths prov) = Inr wifi"
      "resolve_firmware w source (ethernet_paths prov) = Inr ethernet"
    and check: "check_files sha256 hashes (checked_files vmlinuz busybox manifest (if ie = None then ib else None)
         (resolve_supplicant w source prov) wifi ethernet provData) = Inr verified"
    and s: "s = fetched_set vmlinuz busybox manifest applets (if ie = None then ib else None)
              (resolve_supplicant w source prov) wifi ethernet verified prov"
    by (simp only: fetch_pieces_iff [OF ib] prod.inject) blast
  have check': "check_files sha256 hashes (checked_files vmlinuz busybox manifest None
         (resolve_supplicant ?w source prov) wifi ethernet provData) = Inr verified"
    using check http
    by (auto simp: check_files_iff checked_files_def resolve_supplicant_blocked opt_entry_def split: option.splits)
  show ?thesis
    unfolding fetch_pieces_iff [OF blocked_self [OF http]]
    using http steps check' s
    by (intro exI [of _ vmlinuz] exI [of _ busybox] exI [of _ manifest] exI [of _ applets] exI [of _ provData]
        exI [of _ prov] exI [of _ wifi] exI [of _ ethernet] exI [of _ verified])
      (simp add: blocked_other blocked_firmware resolve_supplicant_blocked fetched_set_def)
qed

text \<open>
  Verification does not notice a piece that is kept back: whoever makes the single
  request for the iptables binary fail gets the same set without it, still marked as verified. The
  hash manifest lists the file, but only files that arrived are checked.
\<close>

theorem iptables_can_be_withheld:
  assumes "Resolve sha256 verify parseProv w source0 arch opts = Inr (s, ops)"
    and "is_http (arch_source source0 arch)" and "ro_CacheDir opts = []"
  shows "Resolve sha256 verify parseProv (blocked w (arch_source source0 arch) ''iptables'') source0 arch opts =
    Inr (s \<lparr> set_Iptables := None \<rparr>, [])"
proof -
  let ?source = "arch_source source0 arch"
  let ?w = "blocked w ?source ''iptables''"
  have h: "resolve_hashes ?w ?source req = resolve_hashes w ?source req" for req
    using assms(2) by (simp add: resolve_hashes_def blocked_other)
  have sg: "resolve_signature verify ?w ?source d k = resolve_signature verify w ?source d k" for d k
    using assms(2) by (simp add: resolve_signature_def blocked_other split: option.splits)
  show ?thesis
    using assms fetch_pieces_blocked [OF assms(2), of sha256 parseProv w]
    by (auto simp: Resolve_def Let_def h sg bindE_Inr_iff split: if_splits)
qed

section \<open>The cache\<close>

definition fs_step :: "host_world \<Rightarrow> fs_op \<Rightarrow> host_world" where
  "fs_step w op =
     (case op of MkdirAll d \<Rightarrow> w
      | WriteFile p d \<Rightarrow> w \<lparr> w_read := (w_read w)(p := FileData d) \<rparr>
      | Rename a b \<Rightarrow> w \<lparr> w_read := (w_read w)(b := w_read w a, a := FileMissing) \<rparr>)"

definition run_ops :: "fs_op list \<Rightarrow> host_world \<Rightarrow> host_world" where
  "run_ops ops w = foldl fs_step w ops"

text \<open>
  A crash after k whole operations and, if the next one is a write, with the first n of its bytes
  on the disk.
\<close>

definition crash_ops :: "fs_op list \<Rightarrow> nat \<Rightarrow> nat \<Rightarrow> fs_op list" where
  "crash_ops ops k n = take k ops @ (case drop k ops of WriteFile p d # _ \<Rightarrow> [WriteFile p (take n d)] | _ \<Rightarrow> [])"

definition cache_names :: "string list" where
  "cache_names = [''vmlinuz'', ''busybox'', ''busybox-manifest.tsv'', ''iptables'', ''pieces.json'']"

lemma cache_name_plain: "n \<in> set cache_names \<Longrightarrow> plain_name n"
  by (auto simp: cache_names_def plain_name_def)

lemma cache_name_tmp: "n \<in> set cache_names \<Longrightarrow> m \<in> set cache_names \<Longrightarrow> n \<noteq> m @ ''.tmp''"
  by (auto simp: cache_names_def)

lemma cache_paths:
  assumes "n \<in> set cache_names" "m \<in> set cache_names"
  shows "go_path_join [dir, n] = go_path_join [dir, m] \<longleftrightarrow> n = m"
    and "go_path_join [dir, n] \<noteq> go_path_join [dir, m] @ ''.tmp''"
  using assms cache_name_tmp [OF assms] by (simp_all add: go_path_join_plain cache_name_plain)

lemma run_ops_simps [simp]:
  "run_ops [] w = w" "run_ops (op # ops) w = run_ops ops (fs_step w op)"
  "run_ops (ops @ ops') w = run_ops ops' (run_ops ops w)"
  by (simp_all add: run_ops_def)

text \<open>Writing one file: before the rename nothing under its name changes, after it the file is whole.\<close>

lemma save_file_run:
  assumes "n \<in> set cache_names" "m \<in> set cache_names"
  shows "cached (run_ops (save_file dir (m, d)) w) dir n = (if n = m then Some d else cached w dir n)"
  using cache_paths [OF assms, of dir] cache_paths [OF assms(2,1), of dir]
  by (auto simp: save_file_def cached_def Let_def fs_step_def)

lemma save_files_run:
  assumes "n \<in> set cache_names" "fst ` set files \<subseteq> set cache_names" "distinct (map fst files)"
  shows "cached (run_ops (concat (map (save_file dir) files)) w) dir n =
    (case map_of files n of Some d \<Rightarrow> Some d | None \<Rightarrow> cached w dir n)"
  using assms(2,3)
proof (induction files arbitrary: w)
  case Nil
  then show ?case by simp
next
  case (Cons f files)
  obtain m d where f: "f = (m, d)" by fastforce
  have "cached (run_ops (save_file dir (m, d)) w) dir n = (if n = m then Some d else cached w dir n)"
    using Cons.prems assms(1) f by (intro save_file_run) auto
  moreover have "map_of files m = None" using Cons.prems f by (simp add: map_of_eq_None_iff)
  ultimately show ?case
    using Cons f by (cases "n = m") (auto split: option.splits)
qed

lemma save_files_crash:
  assumes "n \<in> set cache_names" "fst ` set files \<subseteq> set cache_names"
  shows "cached (run_ops (crash_ops (concat (map (save_file dir) files)) k j) w) dir n = cached w dir n \<or>
    (\<exists>d. (n, d) \<in> set files \<and> cached (run_ops (crash_ops (concat (map (save_file dir) files)) k j) w) dir n = Some d)"
  using assms(2)
proof (induction files arbitrary: w k)
  case Nil
  then show ?case by (simp add: crash_ops_def)
next
  case (Cons f files)
  obtain m d where f: "f = (m, d)" by fastforce
  have m: "m \<in> set cache_names" using Cons.prems f by simp
  let ?dst = "go_path_join [dir, m]" and ?rest = "concat (map (save_file dir) files)"
  have ops: "concat (map (save_file dir) (f # files)) = WriteFile (?dst @ ''.tmp'') d # Rename (?dst @ ''.tmp'') ?dst # ?rest"
    by (simp add: f save_file_def Let_def)
  have temp: "cached (fs_step w (WriteFile (?dst @ ''.tmp'') x)) dir n = cached w dir n" for x
    using cache_paths(2) [OF assms(1) m, of dir] by (simp add: cached_def fs_step_def)
  consider "k = 0" | "k = 1" | k' where "k = Suc (Suc k')" by (cases k rule: nat.exhaust; metis One_nat_def not0_implies_Suc)
  then show ?case
  proof cases
    case 1
    then show ?thesis unfolding ops by (simp add: crash_ops_def temp)
  next
    case 2
    then show ?thesis unfolding ops by (simp add: crash_ops_def temp)
  next
    case 3
    let ?w = "run_ops (save_file dir (m, d)) w"
    have "cached ?w dir n = (if n = m then Some d else cached w dir n)" by (rule save_file_run [OF assms(1) m])
    moreover have "run_ops (crash_ops (concat (map (save_file dir) (f # files))) k j) w = run_ops (crash_ops ?rest k' j) ?w"
      unfolding ops by (simp add: 3 crash_ops_def save_file_def Let_def)
    ultimately show ?thesis using Cons.IH [where w = ?w and k = k'] Cons.prems f by (auto split: if_splits)
  qed
qed

lemma cache_files_names: "fst ` set (cache_files a b c i p) \<subseteq> set cache_names \<and> distinct (map fst (cache_files a b c i p))"
  by (auto simp: cache_files_def cache_names_def split: option.splits)

text \<open>
  Property C38. A cached file is never torn: wherever writing the cache is cut off, between two
  operations or in the middle of a write, every file of the cache is what it was before or the
  complete new one.
\<close>

theorem cache_crash_safe:
  assumes "name \<in> set cache_names"
  shows "cached (run_ops (crash_ops (saveToCache dir (cache_files vmlinuz busybox manifest iptables provData)) k n) w) dir name \<in>
    {cached w dir name} \<union> Some ` {d. (name, d) \<in> set (cache_files vmlinuz busybox manifest iptables provData)}"
proof (cases k)
  case 0
  then show ?thesis by (simp add: crash_ops_def saveToCache_def)
next
  case (Suc k')
  let ?files = "cache_files vmlinuz busybox manifest iptables provData"
  have "run_ops (crash_ops (saveToCache dir ?files) k n) w =
      run_ops (crash_ops (concat (map (save_file dir) ?files)) k' n) w"
    by (simp add: Suc crash_ops_def saveToCache_def fs_step_def)
  moreover have "fst ` set ?files \<subseteq> set cache_names" using cache_files_names by blast
  ultimately show ?thesis using save_files_crash [OF assms, of ?files dir k' n w] by auto
qed

theorem cache_crash_safe_witness:
  "cached (run_ops (crash_ops (saveToCache ''cache'' (cache_files ''kernel'' ''box'' ''m'' None None)) 3 2)
       \<lparr> w_get = \<lambda>_. HttpFailed, w_read = \<lambda>_. FileData ''old'' \<rparr>) ''cache'' ''busybox'' \<in> {Some ''old'', Some ''box''}"
proof -
  let ?w = "\<lparr> w_get = \<lambda>_. HttpFailed, w_read = \<lambda>_. FileData ''old'' \<rparr>"
  have "cached ?w ''cache'' ''busybox'' = Some ''old''" by (simp add: cached_def)
  then show ?thesis
    using cache_crash_safe [where name = "''busybox''" and dir = "''cache''" and vmlinuz = "''kernel''" and busybox = "''box''"
        and manifest = "''m''" and iptables = None and provData = None and k = 3 and n = 2 and w = ?w]
    by (auto simp: cache_names_def cache_files_def)
qed

lemma cache_saved:
  assumes "name \<in> set cache_names"
  shows "cached (run_ops (saveToCache dir (cache_files vmlinuz busybox manifest iptables provData)) w) dir name =
    (case map_of (cache_files vmlinuz busybox manifest iptables provData) name of
       Some d \<Rightarrow> Some d | None \<Rightarrow> cached w dir name)"
  using save_files_run [OF assms, of "cache_files vmlinuz busybox manifest iptables provData" dir w] cache_files_names
  by (simp add: saveToCache_def fs_step_def)

lemma run_ops_get [simp]: "w_get (run_ops ops w) = w_get w"
proof (induction ops arbitrary: w)
  case (Cons op ops)
  then show ?case by (cases op) (simp_all add: fs_step_def)
qed simp

lemma http_reads [simp]:
  "is_http source \<Longrightarrow> readPiece (run_ops ops w) source name = readPiece w source name"
  "is_http source \<Longrightarrow> readOptionalPiece (run_ops ops w) source name = readOptionalPiece w source name"
  by (simp_all add: readPiece_def readOptionalPiece_def)

lemma cached_checked_eq:
  "cached w dir name = d \<Longrightarrow> covered sha256 h (opt_entry name d) \<Longrightarrow> cached_checked sha256 w dir h name = Some d"
  by (auto simp: cached_checked_def opt_entry_def checkHash_def optE_def guardE_def split: option.splits)

lemma loadFromCache_eq:
  assumes "cached w dir ''vmlinuz'' = Some vmlinuz" "cached w dir ''busybox'' = Some busybox"
    "cached w dir ''busybox-manifest.tsv'' = Some manifest" "parseManifest manifest = Inr applets"
    "cached w dir ''iptables'' = iptables" "cached w dir ''pieces.json'' = provData"
    and "covered sha256 h (checked_files vmlinuz busybox manifest iptables None None None provData)"
  shows "loadFromCache sha256 parseProv w dir h =
    Some (fetched_set vmlinuz busybox manifest applets iptables None None None True (Option.bind provData parseProv))"
proof -
  have hit: "optE (checkHash sha256 h name d) = Some ()" if "h name = Some (go_hex_encode (sha256 d))" for name d
    using that by (simp add: checkHash_iff)
  show ?thesis
    using assms cached_checked_eq [of w dir "''iptables''" iptables sha256 h]
      cached_checked_eq [of w dir "''pieces.json''" provData sha256 h]
    by (simp add: loadFromCache_def hit checked_files_def fetched_set_def)
qed

text \<open>
  What the cache keeps: resolving again after a run that filled an empty cache gives
  the kernel, BusyBox, the applets, iptables and the provenance of the first run, verified against
  the manifest as it is now, without writing anything. But the WiFi supplicant and all firmware
  are gone, although the source still has them and the provenance still lists them.
\<close>

theorem cache_hit_loses_firmware:
  assumes first: "Resolve sha256 verify parseProv w source0 arch opts = Inr (s, ops)" and "ops \<noteq> []"
    and empty: "\<forall>n. cached w (cacheDirFor sha256 (ro_CacheDir opts) (arch_source source0 arch)) n = None"
    and whole: "fst (readPiece w (arch_source source0 arch) ''iptables'') = set_Iptables s"
  shows "Resolve sha256 verify parseProv (run_ops ops w) source0 arch opts =
    Inr (s \<lparr> set_Supplicant := None, set_WifiFirmware := None, set_EthernetFirmware := None \<rparr>, [])"
proof -
  let ?source = "arch_source source0 arch"
  let ?dir = "cacheDirFor sha256 (ro_CacheDir opts) ?source"
  from Resolve_Inr [OF first] obtain published where
    pub: "resolve_hashes w ?source (ro_RequireVerifiedPieces opts) = Inr published"
    and sig: "resolve_signature verify w ?source (map_option fst published) (ro_VerifyKey opts) = Inr ()"
    and got: "fetch_pieces sha256 parseProv w ?source (ro_CacheDir opts) (map_option snd published) = Inr (s, ops)"
    using assms(2) by metis
  obtain ib ie where ib: "readPiece w ?source ''iptables'' = (ib, ie)" by fastforce
  from got obtain vmlinuz busybox manifest applets provData prov wifi ethernet verified supplicant where
    app: "parseManifest manifest = Inr applets"
    and prov: "resolve_provenance parseProv provData = Inr prov"
    and check: "check_files sha256 (map_option snd published) (checked_files vmlinuz busybox manifest
       (if ie = None then ib else None) supplicant wifi ethernet provData) = Inr verified"
    and s: "s = fetched_set vmlinuz busybox manifest applets (if ie = None then ib else None) supplicant wifi ethernet verified prov"
    and ops: "ops = (if is_http ?source \<and> ro_CacheDir opts \<noteq> [] \<and> verified
            then saveToCache ?dir (cache_files vmlinuz busybox manifest ib provData) else [])"
    by (simp only: fetch_pieces_iff [OF ib] prod.inject) blast
  have http: "is_http ?source" "ro_CacheDir opts \<noteq> []" verified
    and ops': "ops = saveToCache ?dir (cache_files vmlinuz busybox manifest ib provData)"
    using ops assms(2) by (auto split: if_splits)
  have ipt: "(if ie = None then ib else None) = ib" using whole ib s by (simp add: fetched_set_def)
  from check http(3) obtain d h where dh: "published = Some (d, h)"
    and cov: "covered sha256 h (checked_files vmlinuz busybox manifest ib supplicant wifi ethernet provData)"
    by (auto simp: check_files_iff ipt split: option.splits)
  let ?w = "run_ops ops w"
  have c: "cached ?w ?dir name = (case map_of (cache_files vmlinuz busybox manifest ib provData) name of
       Some d \<Rightarrow> Some d | None \<Rightarrow> None)" if "name \<in> set cache_names" for name
    using cache_saved [OF that, of ?dir vmlinuz busybox manifest ib provData w] empty unfolding ops' by (simp split: option.splits)
  have "loadFromCache sha256 parseProv ?w ?dir h =
      Some (fetched_set vmlinuz busybox manifest applets ib None None None True (Option.bind provData parseProv))"
    using cov app
    by (intro loadFromCache_eq)
      (auto simp: c cache_names_def cache_files_def checked_files_def opt_entry_def firmware_entries_def split: option.splits)
  moreover have "Option.bind provData parseProv = prov"
    using prov by (auto simp: resolve_provenance_def split: option.splits)
  moreover have "s \<lparr> set_Supplicant := None, set_WifiFirmware := None, set_EthernetFirmware := None \<rparr> =
      fetched_set vmlinuz busybox manifest applets ib None None None True prov"
    using s http(3) ipt by (simp add: fetched_set_def)
  moreover have "resolve_hashes ?w ?source req = resolve_hashes w ?source req" for req
    using http(1) by (simp add: resolve_hashes_def)
  moreover have "resolve_signature verify ?w ?source dd k = resolve_signature verify w ?source dd k" for dd k
    using http(1) by (simp add: resolve_signature_def split: option.splits)
  moreover have "\<not> (go_has_prefix ?source ''http://'' \<and> \<not> ro_AllowInsecureHTTP opts)"
    using first unfolding Resolve_def Let_def by (auto split: if_splits)
  ultimately show ?thesis
    using http pub sig dh by (simp add: Resolve_def Let_def)
qed

section \<open>A concrete source\<close>

text \<open>A source with a signed manifest, a WiFi profile and one firmware file; hash and signature are constant.\<close>


definition ex_sha :: "string \<Rightarrow> string" where "ex_sha _ = [CHR 0xAB]"

definition ex_verify :: "nat \<Rightarrow> string \<Rightarrow> string \<Rightarrow> bool" where "ex_verify k d sig \<longleftrightarrow> k = 7 \<and> sig = ''x''"

definition ex_prov :: "string \<Rightarrow> Provenance option" where
  "ex_prov _ = Some \<lparr> prov_Arch = ''amd64'', prov_VGA = False, prov_BootProfile = ''wifi'',
     prov_WifiFirmware = [''a.fw''], prov_EthernetFirmware = [] \<rparr>"

definition ex_manifest :: string where
  "ex_manifest = concat (map (\<lambda>n. ''ab  '' @ n @ [CHR 0x0A])
     [''vmlinuz'', ''busybox'', ''busybox-manifest.tsv'', ''iptables'', ''wpa_supplicant'', ''firmware/a.fw'', ''pieces.json''])"

definition ex_files :: "(string \<times> string) list" where
  "ex_files = [(''pieces.sha256'', ex_manifest), (''pieces.sha256.sig'', ''78'' @ [CHR 0x0A]),
     (''vmlinuz'', ''k''), (''busybox'', ''b''), (''busybox-manifest.tsv'', ''bin/ls'' @ [CHR 0x09] @ ''busybox''),
     (''iptables'', ''i''), (''pieces.json'', ''{}''), (''wpa_supplicant'', ''s''), (''firmware/a.fw'', ''f'')]"

definition ex_world :: host_world where
  "ex_world = \<lparr> w_get = (\<lambda>url. case map_of (map (\<lambda>(n, d). (''https://p/amd64/'' @ n, d)) ex_files) url of
      None \<Rightarrow> HttpReply 404 [] True | Some d \<Rightarrow> HttpReply 200 d True), w_read = \<lambda>_. FileMissing \<rparr>"

definition ex_opts :: "string \<Rightarrow> nat ResolveOptions" where
  "ex_opts cache = \<lparr> ro_AllowInsecureHTTP = False, ro_CacheDir = cache, ro_RequireVerifiedPieces = True, ro_VerifyKey = Some 7 \<rparr>"

definition ex_set :: PieceSet where
  "ex_set = fetched_set ''k'' ''b'' (''bin/ls'' @ [CHR 0x09] @ ''busybox'')
     [\<lparr> applet_Path = ''bin/ls'', applet_Target = ''busybox'' \<rparr>] (Some ''i'') (Some ''s'') (Some [(''a.fw'', ''f'')]) None True (ex_prov [])"

lemma ex_resolves: "Resolve ex_sha ex_verify ex_prov ex_world ''https://p'' ''amd64'' (ex_opts []) = Inr (ex_set, [])"
  by code_simp

lemma ex_resolves_cached: "\<exists>ops. Resolve ex_sha ex_verify ex_prov ex_world ''https://p'' ''amd64'' (ex_opts ''/c'') = Inr (ex_set, ops) \<and> ops \<noteq> []"
proof -
  have "(case Resolve ex_sha ex_verify ex_prov ex_world ''https://p'' ''amd64'' (ex_opts ''/c'') of
     Inr (s, ops) \<Rightarrow> s = ex_set \<and> ops \<noteq> [] | _ \<Rightarrow> False)" by code_simp
  then show ?thesis by (auto split: sum.splits prod.splits)
qed


theorem iptables_can_be_withheld_witness:
  "set_Iptables ex_set = Some ''i'' \<and>
   Resolve ex_sha ex_verify ex_prov (blocked ex_world ''https://p/amd64'' ''iptables'') ''https://p'' ''amd64'' (ex_opts []) =
     Inr (ex_set \<lparr> set_Iptables := None \<rparr>, [])"
proof -
  have src: "arch_source ''https://p'' ''amd64'' = ''https://p/amd64''" by code_simp
  have "is_http ''https://p/amd64''" by code_simp
  with iptables_can_be_withheld [OF ex_resolves] show ?thesis
    by (simp add: src ex_opts_def ex_set_def fetched_set_def)
qed

theorem cache_hit_loses_firmware_witness:
  "\<exists>ops. Resolve ex_sha ex_verify ex_prov ex_world ''https://p'' ''amd64'' (ex_opts ''/c'') = Inr (ex_set, ops) \<and>
     set_WifiFirmware ex_set \<noteq> None \<and>
     (\<exists>s. Resolve ex_sha ex_verify ex_prov (run_ops ops ex_world) ''https://p'' ''amd64'' (ex_opts ''/c'') = Inr (s, []) \<and>
        set_Vmlinuz s = ''k'' \<and> set_WifiFirmware s = None)"
proof -
  from ex_resolves_cached obtain ops where
    ops: "Resolve ex_sha ex_verify ex_prov ex_world ''https://p'' ''amd64'' (ex_opts ''/c'') = Inr (ex_set, ops)" "ops \<noteq> []"
    by blast
  have src: "arch_source ''https://p'' ''amd64'' = ''https://p/amd64''" by code_simp
  have ipt: "fst (readPiece ex_world ''https://p/amd64'' ''iptables'') = set_Iptables ex_set" by code_simp
  have "cached ex_world dir n = None" for dir n by (simp add: cached_def ex_world_def)
  with cache_hit_loses_firmware [OF ops] ipt ops(1) show ?thesis
    by (auto simp: src ex_set_def fetched_set_def)
qed

end
