(* ===== verification/Publish.thy ===== *)
theory Publish
  imports Pieces_Trust "HOL-Library.List_Lexorder" "HOL-Library.Char_ord"
begin

text \<open>
  Publishing pieces (\<^verbatim>\<open>writePiecesHashes\<close>, \<^verbatim>\<open>signPiecesHashes\<close> of cmd/cnimbus/prepare.go and
  \<^verbatim>\<open>writeFileAtomic\<close> of cmd/cnimbus/atomicwrite.go), and that what is published this way is what
  \<^verbatim>\<open>Resolve\<close> accepts.
\<close>

section \<open>Writing a file atomically\<close>

text \<open>Where the write fails, if it does; a failing write has put some bytes into the temporary file.\<close>

datatype write_fault = NoFault | CreateFails | WriteFails nat | SyncFails | CloseFails | RenameFails

definition put_file :: "host_world \<Rightarrow> string \<Rightarrow> file_reply \<Rightarrow> host_world" where
  "put_file w path r = w \<lparr> w_read := (w_read w)(path := r) \<rparr>"

definition writeFileAtomic :: "write_fault \<Rightarrow> string \<Rightarrow> string \<Rightarrow> host_world \<Rightarrow> host_world \<times> bool" where
  "writeFileAtomic fault path data w =
     (let tmp = path @ ''.tmp'' in
      case fault of
        CreateFails \<Rightarrow> (w, False)
      | WriteFails n \<Rightarrow> (put_file (put_file w tmp (FileData (take n data))) tmp FileMissing, False)
      | SyncFails \<Rightarrow> (put_file (put_file w tmp (FileData data)) tmp FileMissing, False)
      | CloseFails \<Rightarrow> (put_file (put_file w tmp (FileData data)) tmp FileMissing, False)
      | RenameFails \<Rightarrow> (put_file (put_file w tmp (FileData data)) tmp FileMissing, False)
      | NoFault \<Rightarrow> (put_file (put_file (put_file w tmp (FileData data)) path (FileData data)) tmp FileMissing, True))"

section \<open>The manifest and its signature\<close>

definition hash_line :: "(string \<Rightarrow> string) \<Rightarrow> string \<times> string \<Rightarrow> string" where
  "hash_line sha256 = (\<lambda>(name, d). go_hex_encode (sha256 d) @ ''  '' @ name @ [CHR 0x0A])"

definition read_in :: "host_world \<Rightarrow> string \<Rightarrow> string \<Rightarrow> fetch_error + string \<times> string" where
  "read_in w dir name =
     (case w_read w (go_path_join [dir, name]) of FileData d \<Rightarrow> Inr (name, d)
      | _ \<Rightarrow> Inl (ReadFailed (go_path_join [dir, name])))"

definition fixed_names :: "string list" where
  "fixed_names = [''vmlinuz'', ''busybox'', ''busybox-manifest.tsv'', ''iptables'', ''pieces.json'']"

text \<open>
  The text of pieces.sha256. The last argument is what walking \<^verbatim>\<open>dir/firmware\<close> finds, paths relative
  to dir with slashes, or None when there is no such directory.
\<close>

definition writePiecesHashes ::
  "(string \<Rightarrow> string) \<Rightarrow> host_world \<Rightarrow> string \<Rightarrow> string list option \<Rightarrow> fetch_error + string" where
  "writePiecesHashes sha256 w dir walked =
     bindE (mapE (read_in w dir) fixed_names) (\<lambda>fixed.
     bindE (case w_read w (go_path_join [dir, ''wpa_supplicant'']) of
              FileData d \<Rightarrow> Inr [(''wpa_supplicant'', d)] | FileMissing \<Rightarrow> Inr []
            | FileError \<Rightarrow> Inl (ReadFailed (go_path_join [dir, ''wpa_supplicant'']))) (\<lambda>supplicant.
     bindE (case walked of None \<Rightarrow> Inr [] | Some paths \<Rightarrow> mapE (read_in w dir) (sort paths)) (\<lambda>firmware.
     Inr (concat (map (hash_line sha256) (fixed @ supplicant @ firmware))))))"

definition signPiecesHashes ::
  "(string \<Rightarrow> 'sk) \<Rightarrow> ('sk \<Rightarrow> string \<Rightarrow> string) \<Rightarrow> host_world \<Rightarrow> string \<Rightarrow> string \<Rightarrow> (fetch_error + key_error) + string" where
  "signPiecesHashes newKeyFromSeed ed25519Sign w dir keyPath =
     (case w_read w keyPath of
        FileData keyHex \<Rightarrow>
          bindE (wrapE Inr (ParsePrivateKeyHex newKeyFromSeed (go_trim_space keyHex))) (\<lambda>key.
          bindE (wrapE Inl (read_in w dir ''pieces.sha256'')) (\<lambda>(_, hashData).
          Inr (SignHashes ed25519Sign key hashData @ [CHR 0x0A])))
      | _ \<Rightarrow> Inl (Inl (ReadFailed keyPath)))"

section \<open>An interrupted write\<close>

text \<open>
  An atomic write is all or nothing: whatever step fails, the file keeps what it held,
  no temporary file is left and the failure is reported; without a fault it holds exactly the new
  bytes. No other path changes either way.
\<close>

theorem writeFileAtomic_all_or_nothing:
  "writeFileAtomic fault path data w = (w', ok) \<Longrightarrow>
   (ok \<longleftrightarrow> fault = NoFault) \<and> w_read w' path = (if ok then FileData data else w_read w path) \<and>
   (fault \<noteq> CreateFails \<longrightarrow> w_read w' (path @ ''.tmp'') = FileMissing) \<and>
   (\<forall>p. p \<noteq> path \<and> p \<noteq> path @ ''.tmp'' \<longrightarrow> w_read w' p = w_read w p)"
  by (cases fault) (auto simp: writeFileAtomic_def put_file_def Let_def)

theorem writeFileAtomic_all_or_nothing_witness:
  "\<exists>w'. writeFileAtomic (WriteFails 2) ''f'' ''data'' ex_world = (w', False) \<and> w_read w' ''f'' = w_read ex_world ''f''"
proof -
  obtain w' ok where w': "writeFileAtomic (WriteFails 2) ''f'' ''data'' ex_world = (w', ok)" by fastforce
  from writeFileAtomic_all_or_nothing [OF this] w' show ?thesis by auto
qed

section \<open>Reading back a manifest\<close>

text \<open>Printable bytes without white space.\<close>

definition graphic :: "char \<Rightarrow> bool" where
  "graphic c \<longleftrightarrow> 33 \<le> (of_char c :: nat) \<and> (of_char c :: nat) \<le> 126"

lemma graphic_not_ascii_space: "graphic c \<Longrightarrow> \<not> ascii_space c"
  by (auto simp: graphic_def ascii_space_def)

lemma graphic_ascii:
  assumes "graphic c"
  shows "c \<noteq> CHR 0xC2" "c \<noteq> CHR 0x85" "c \<noteq> CHR 0xA0" "\<not> space3 c a b" "\<not> space3 a b c"
proof -
  have ne: "c \<noteq> d" if "128 \<le> (of_char d :: nat)" for d using assms that by (auto simp: graphic_def)
  show "c \<noteq> CHR 0xC2" "c \<noteq> CHR 0x85" "c \<noteq> CHR 0xA0" by (simp_all add: ne)
  show "\<not> space3 c a b" by (simp add: space3_def ne)
  have "\<not> 128 \<le> (of_char c :: nat)" using assms by (simp add: graphic_def)
  then show "\<not> space3 a b c" by (simp add: space3_def ne)
qed

lemma graphic_space_len [simp]: "graphic c \<Longrightarrow> space_len (c # s) = 0"
  by (cases s; simp add: space_len_def graphic_not_ascii_space graphic_ascii split: list.splits)

lemma graphic_space_len_rev [simp]: "graphic c \<Longrightarrow> space_len_rev (c # s) = 0"
  by (cases s; simp add: space_len_rev_def graphic_not_ascii_space graphic_ascii split: list.splits)

lemma trim_left_graphic [simp]: "graphic c \<Longrightarrow> trim_left_space (c # s) = c # s"
  by (subst trim_left_space.simps) simp

lemma trim_left_rev_graphic [simp]: "graphic c \<Longrightarrow> trim_left_space_rev (c # s) = c # s"
  by (subst trim_left_space_rev.simps) simp

lemma trim_left_rev_newline [simp]: "trim_left_space_rev (CHR 0x0A # s) = trim_left_space_rev s"
  by (subst trim_left_space_rev.simps) (simp add: space_len_rev_def ascii_space_def)

lemma go_trim_space_graphic:
  assumes "graphic a" and "graphic z"
  shows "go_trim_space (a # s @ [z]) = a # s @ [z]" and "go_trim_space (a # s @ [z, CHR 0x0A]) = a # s @ [z]"
  using assms by (simp_all add: go_trim_space_def)

lemma fields_aux_graphic: "list_all graphic word \<Longrightarrow> fields_aux (word @ s) acc = fields_aux s (rev word @ acc)"
proof (induction word arbitrary: acc)
  case (Cons c word)
  then show ?case by (subst fields_aux.simps) simp
qed simp

lemma fields_aux_blank: "fields_aux (CHR '' '' # s) acc = (if acc = [] then [] else [rev acc]) @ fields_aux s []"
  by (subst fields_aux.simps) (simp add: space_len_def ascii_space_def)

lemma fields_aux_Nil [simp]: "fields_aux [] acc = (if acc = [] then [] else [rev acc])"
  by (subst fields_aux.simps) simp

lemma go_fields_two:
  assumes "list_all graphic a" "list_all graphic b" "a \<noteq> []" "b \<noteq> []"
  shows "go_fields (a @ ''  '' @ b) = [a, b]"
  using assms fields_aux_graphic [of a "''  '' @ b" "[]"] fields_aux_graphic [of b "[]" "[]"]
  by (simp add: go_fields_def fields_aux_blank)

definition lower_hex :: "char \<Rightarrow> bool" where
  "lower_hex c \<longleftrightarrow> (48 \<le> (of_char c :: nat) \<and> (of_char c :: nat) \<le> 57) \<or> (97 \<le> (of_char c :: nat) \<and> (of_char c :: nat) \<le> 102)"

lemma lower_hex_graphic: "lower_hex c \<Longrightarrow> graphic c"
  by (auto simp: lower_hex_def graphic_def)

lemma lower_hex_lower: "lower_hex c \<Longrightarrow> lower_char c = c \<and> c \<noteq> CHR 0xC4 \<and> c \<noteq> CHR 0xE2"
  by (auto simp: lower_hex_def lower_char_def Let_def)

lemma go_to_lower_hex: "list_all lower_hex s \<Longrightarrow> go_to_lower s = s"
  by (induction s rule: go_to_lower.induct) (auto simp: lower_hex_lower)

lemma hex_digit_lower: "n < 16 \<Longrightarrow> lower_hex (hex_digit n)"
  by (auto simp: hex_digit_def lower_hex_def)

lemma go_hex_encode_lower: "list_all lower_hex (go_hex_encode s)"
proof (induction s)
  case (Cons c s)
  have "code c div 16 < 16" "code c mod 16 < 16"
    using code_less_256 [of c] by (auto simp: less_mult_imp_div_less)
  with Cons show ?case by (simp add: go_hex_encode_def hex_digit_lower)
qed (simp add: go_hex_encode_def)

lemma go_hex_encode_Nil_iff: "go_hex_encode s = [] \<longleftrightarrow> s = []"
  by (cases s) (simp_all add: go_hex_encode_def)

definition bare_line :: "(string \<Rightarrow> string) \<Rightarrow> string \<times> string \<Rightarrow> string" where
  "bare_line sha256 = (\<lambda>(name, d). go_hex_encode (sha256 d) @ ''  '' @ name)"

definition graphic_name :: "string \<Rightarrow> bool" where
  "graphic_name n \<longleftrightarrow> n \<noteq> [] \<and> list_all graphic n"

lemma hash_line_bare: "hash_line sha256 e = bare_line sha256 e @ [CHR 0x0A]"
  by (cases e) (simp add: hash_line_def bare_line_def)

lemma concat_lines: "es \<noteq> [] \<Longrightarrow> concat (map (\<lambda>e. f e @ [c]) es) = go_join (map f es) [c] @ [c]"
proof (induction es)
  case (Cons e es)
  then show ?case by (cases es) simp_all
qed simp

lemma go_trim_space_ends:
  assumes "t \<noteq> []" "graphic (hd t)" "graphic (last t)"
  shows "go_trim_space t = t" and "go_trim_space (t @ [CHR 0x0A]) = t"
proof -
  obtain a s where t: "t = a # s" using assms(1) by (cases t) auto
  obtain r z where r: "t = r @ [z]" using assms(1) by (cases t rule: rev_cases) auto
  have left: "trim_left_space (t @ u) = t @ u" for u using assms(2) by (simp add: t)
  have right: "trim_left_space_rev (rev t) = rev t" using assms(3) by (simp add: r)
  show "go_trim_space t = t" using left [of "[]"] right by (simp add: go_trim_space_def)
  show "go_trim_space (t @ [CHR 0x0A]) = t" using left right by (simp add: go_trim_space_def)
qed

lemma bare_line_ends:
  assumes "graphic_name n" and "sha256 d \<noteq> []"
  shows "bare_line sha256 (n, d) \<noteq> []" "graphic (hd (bare_line sha256 (n, d)))" "graphic (last (bare_line sha256 (n, d)))"
    "CHR 0x0A \<notin> set (bare_line sha256 (n, d))"
proof -
  let ?x = "go_hex_encode (sha256 d)"
  have x: "?x \<noteq> []" "list_all graphic ?x"
    using assms(2) go_hex_encode_lower [of "sha256 d"] lower_hex_graphic
    by (auto simp: go_hex_encode_Nil_iff list_all_iff)
  have n: "n \<noteq> []" "list_all graphic n" using assms(1) by (auto simp: graphic_name_def)
  show "bare_line sha256 (n, d) \<noteq> []" using x by (simp add: bare_line_def)
  show "graphic (hd (bare_line sha256 (n, d)))" using x by (cases ?x) (auto simp: bare_line_def)
  show "graphic (last (bare_line sha256 (n, d)))" using n by (simp add: bare_line_def list_all_iff)
  have "\<not> graphic (CHR 0x0A)" by (simp add: graphic_def)
  with x n show "CHR 0x0A \<notin> set (bare_line sha256 (n, d))" by (auto simp: bare_line_def list_all_iff)
qed

lemma parse_bare_line:
  assumes "graphic_name n" and "sha256 d \<noteq> []"
  shows "parse_hash_line h (bare_line sha256 (n, d)) = Inr (h(n \<mapsto> go_hex_encode (sha256 d)))"
proof -
  let ?x = "go_hex_encode (sha256 d)"
  note ends = bare_line_ends [of n sha256 d, OF assms]
  have x: "?x \<noteq> []" "list_all graphic ?x"
    using assms(2) go_hex_encode_lower [of "sha256 d"] lower_hex_graphic
    by (auto simp: go_hex_encode_Nil_iff list_all_iff)
  have "go_fields (bare_line sha256 (n, d)) = [?x, n]"
    using go_fields_two [of ?x n] x assms(1) by (simp add: bare_line_def graphic_name_def)
  then show ?thesis
    using go_trim_space_ends(1) [OF ends(1-3)] ends(1) go_to_lower_hex [OF go_hex_encode_lower]
    by (simp add: parse_hash_line_def Let_def)
qed

definition entries_map :: "(string \<Rightarrow> string) \<Rightarrow> (string \<Rightarrow> string option) \<Rightarrow> (string \<times> string) list \<Rightarrow> string \<Rightarrow> string option" where
  "entries_map sha256 = foldl (\<lambda>h (n, d). h(n \<mapsto> go_hex_encode (sha256 d)))"

lemma fold_bare_lines:
  assumes "\<forall>(n, d) \<in> set es. graphic_name n \<and> sha256 d \<noteq> []"
  shows "foldE parse_hash_line h (map (bare_line sha256) es) = Inr (entries_map sha256 h es)"
  using assms
proof (induction es arbitrary: h)
  case (Cons e es)
  then show ?case by (cases e) (simp add: parse_bare_line entries_map_def)
qed (simp add: entries_map_def)

lemma go_join_ends:
  assumes "ws \<noteq> []" "\<forall>w \<in> set ws. w \<noteq> [] \<and> P (hd w) \<and> P (last w)"
  shows "go_join ws sep \<noteq> [] \<and> P (hd (go_join ws sep)) \<and> P (last (go_join ws sep))"
  using assms by (induction ws sep rule: go_join.induct) auto

text \<open>The round trip of the manifest: what is written is read back, line by line.\<close>

lemma parseHashes_written:
  assumes "es \<noteq> []" and ok: "\<forall>(n, d) \<in> set es. graphic_name n \<and> sha256 d \<noteq> []"
  shows "parseHashes (concat (map (hash_line sha256) es)) = Inr (entries_map sha256 Map.empty es)"
proof -
  let ?ws = "map (bare_line sha256) es"
  have each: "w \<noteq> [] \<and> graphic (hd w) \<and> graphic (last w) \<and> CHR 0x0A \<notin> set w" if "w \<in> set ?ws" for w
  proof -
    from that ok obtain n d where "w = bare_line sha256 (n, d)" "graphic_name n" "sha256 d \<noteq> []" by auto
    then show ?thesis using bare_line_ends [of n sha256 d] by simp
  qed
  have lines: "concat (map (hash_line sha256) es) = go_join ?ws [CHR 0x0A] @ [CHR 0x0A]"
    unfolding hash_line_bare using assms(1) by (rule concat_lines)
  have "go_trim_space (concat (map (hash_line sha256) es)) = go_join ?ws [CHR 0x0A]"
    unfolding lines using go_join_ends [of ?ws graphic "[CHR 0x0A]"] assms(1) each
    by (intro go_trim_space_ends(2)) simp_all
  moreover have "go_split (CHR 0x0A) (go_join ?ws [CHR 0x0A]) = ?ws"
    using assms(1) each by (intro go_split_join) simp_all
  ultimately show ?thesis using fold_bare_lines [OF ok] by (simp add: parseHashes_def)
qed

lemma entries_map_lookup:
  assumes "\<forall>(n, d) \<in> set es. content n = d"
  shows "entries_map sha256 h es n = (if n \<in> fst ` set es then Some (go_hex_encode (sha256 (content n))) else h n)"
  using assms
proof (induction es arbitrary: h)
  case Nil
  then show ?case by (simp add: entries_map_def)
next
  case (Cons e es)
  then show ?case by (cases e) (auto simp: entries_map_def)
qed

section \<open>Published pieces are accepted\<close>

definition content :: "host_world \<Rightarrow> string \<Rightarrow> string \<Rightarrow> string" where
  "content w dir n = (case w_read w (go_path_join [dir, n]) of FileData d \<Rightarrow> d | _ \<Rightarrow> [])"

definition walked_names :: "string list option \<Rightarrow> string list" where
  "walked_names walked = (case walked of None \<Rightarrow> [] | Some paths \<Rightarrow> paths)"

text \<open>Every published file is readable, and the manifest states the hash of its content.\<close>

lemma read_in_iff: "read_in w dir n = Inr e \<longleftrightarrow> w_read w (go_path_join [dir, n]) = FileData (snd e) \<and> fst e = n"
  by (cases e) (auto simp: read_in_def split: file_reply.splits)

lemma mapE_read_in:
  assumes "mapE (read_in w dir) ns = Inr es"
  shows "fst ` set es = set ns \<and> (\<forall>(n, d) \<in> set es. w_read w (go_path_join [dir, n]) = FileData d)"
proof -
  from assms have l: "list_all2 (\<lambda>n e. read_in w dir n = Inr e) ns es" by (rule mapE_Inr_list_all2)
  then show ?thesis
    by (induction ns es rule: list_all2_induct) (auto simp: read_in_iff)
qed

lemma written_manifest:
  assumes wrote: "writePiecesHashes sha256 w dir walked = Inr t"
    and hash: "\<forall>d. sha256 d \<noteq> []" and names: "\<forall>n \<in> set (walked_names walked). graphic_name n"
  obtains h where "parseHashes t = Inr h"
    and "\<And>n. n \<in> set fixed_names \<union> set (walked_names walked) \<Longrightarrow>
      w_read w (go_path_join [dir, n]) = FileData (content w dir n) \<and> h n = Some (go_hex_encode (sha256 (content w dir n)))"
    and "w_read w (go_path_join [dir, ''wpa_supplicant'']) = FileMissing \<or>
      (w_read w (go_path_join [dir, ''wpa_supplicant'']) = FileData (content w dir ''wpa_supplicant'') \<and>
       h ''wpa_supplicant'' = Some (go_hex_encode (sha256 (content w dir ''wpa_supplicant''))))"
proof -
  let ?supp = "w_read w (go_path_join [dir, ''wpa_supplicant''])"
  from wrote obtain fixed supplicant firmware where
    fixed: "mapE (read_in w dir) fixed_names = Inr fixed"
    and supp: "(case ?supp of FileData d \<Rightarrow> Inr [(''wpa_supplicant'', d)] | FileMissing \<Rightarrow> Inr []
            | FileError \<Rightarrow> Inl (ReadFailed (go_path_join [dir, ''wpa_supplicant'']))) = Inr supplicant"
    and fw: "(case walked of None \<Rightarrow> Inr [] | Some paths \<Rightarrow> mapE (read_in w dir) (sort paths)) = Inr firmware"
    and t: "t = concat (map (hash_line sha256) (fixed @ supplicant @ firmware))"
    unfolding writePiecesHashes_def by (auto simp only: bindE_Inr_iff sum.inject)
  let ?es = "fixed @ supplicant @ firmware"
  note f = mapE_read_in [OF fixed]
  have fw': "fst ` set firmware = set (walked_names walked) \<and>
      (\<forall>(n, d) \<in> set firmware. w_read w (go_path_join [dir, n]) = FileData d)"
    using fw mapE_read_in [of w dir "sort (the walked)" firmware]
    by (auto simp: walked_names_def split: option.splits)
  have s: "\<forall>(n, d) \<in> set supplicant. n = ''wpa_supplicant'' \<and> w_read w (go_path_join [dir, n]) = FileData d"
    using supp by (auto split: file_reply.splits)
  have read: "\<forall>(n, d) \<in> set ?es. w_read w (go_path_join [dir, n]) = FileData d" using f fw' s by auto
  then have cont: "\<forall>(n, d) \<in> set ?es. content w dir n = d" by (fastforce simp: content_def)
  have gf: "\<forall>n \<in> set fixed_names. graphic_name n" by (simp add: fixed_names_def graphic_name_def graphic_def)
  have gw: "graphic_name ''wpa_supplicant''" by (simp add: graphic_name_def graphic_def)
  have "graphic_name (fst e)" if "e \<in> set ?es" for e
  proof -
    from that consider "e \<in> set fixed" | "e \<in> set supplicant" | "e \<in> set firmware" by auto
    then show ?thesis
    proof cases
      case 1
      then have "fst e \<in> set fixed_names" using f by blast
      with gf show ?thesis by blast
    next
      case 2
      then have "fst e = ''wpa_supplicant''" using s [unfolded case_prod_unfold] by blast
      then show ?thesis using gw by (simp only:)
    next
      case 3
      then have "fst e \<in> set (walked_names walked)" using fw' by blast
      with names show ?thesis by blast
    qed
  qed
  with hash have "\<forall>e \<in> set ?es. graphic_name (fst e) \<and> sha256 (snd e) \<noteq> []" by blast
  then have "\<forall>(n, d) \<in> set ?es. graphic_name n \<and> sha256 d \<noteq> []" by (simp only: case_prod_unfold)
  moreover have "fixed \<noteq> []" using mapE_length [OF fixed] by (auto simp: fixed_names_def)
  ultimately have p: "parseHashes t = Inr (entries_map sha256 Map.empty ?es)"
    unfolding t by (intro parseHashes_written) auto
  have look: "entries_map sha256 Map.empty ?es n = Some (go_hex_encode (sha256 (content w dir n)))"
    if "n \<in> fst ` set ?es" for n
    using that entries_map_lookup [OF cont] by simp
  have there: "w_read w (go_path_join [dir, n]) = FileData (content w dir n)" if "n \<in> fst ` set ?es" for n
    using that read cont by fastforce
  show thesis
  proof (rule that [OF p])
    show "w_read w (go_path_join [dir, n]) = FileData (content w dir n) \<and>
        entries_map sha256 Map.empty ?es n = Some (go_hex_encode (sha256 (content w dir n)))"
      if "n \<in> set fixed_names \<union> set (walked_names walked)" for n
    proof -
      have "n \<in> fst ` set ?es" using that f fw' by (auto simp: image_Un)
      then show ?thesis using look [of n] there [of n] by blast
    qed
    show "?supp = FileMissing \<or> (?supp = FileData (content w dir ''wpa_supplicant'') \<and>
       entries_map sha256 Map.empty ?es ''wpa_supplicant'' = Some (go_hex_encode (sha256 (content w dir ''wpa_supplicant''))))"
      using supp look [of "''wpa_supplicant''"] there [of "''wpa_supplicant''"] by (auto split: file_reply.splits)
  qed
qed

lemma set_put_entry: "set (put_entry m k v) \<subseteq> insert (k, v) (set m)"
  by (induction m) (auto split: if_splits)

lemma foldE_firmware:
  assumes "\<not> is_http dir"
    and "\<forall>p \<in> set paths. w_read w (go_path_join [dir, ''firmware/'' @ p]) = FileData (content w dir (''firmware/'' @ p))"
    and "\<forall>(p, d) \<in> set m. p \<in> A \<and> content w dir (''firmware/'' @ p) = d" and "set paths \<subseteq> A"
  shows "\<exists>m'. foldE (fetch_firmware w dir) m paths = Inr m' \<and>
    (\<forall>(p, d) \<in> set m'. p \<in> A \<and> content w dir (''firmware/'' @ p) = d)"
  using assms(2-4)
proof (induction paths arbitrary: m)
  case (Cons p paths)
  let ?c = "content w dir (''firmware/'' @ p)"
  have "fetch_firmware w dir m p = Inr (put_entry m p ?c)"
    using Cons.prems assms(1) by (simp add: fetch_firmware_def readPiece_def must_have_def okE_def Let_def)
  moreover have "\<forall>(q, d) \<in> set (put_entry m p ?c). q \<in> A \<and> content w dir (''firmware/'' @ q) = d"
    using Cons.prems set_put_entry [of m p ?c] by auto
  ultimately show ?case using Cons.IH [of "put_entry m p ?c"] Cons.prems by simp
qed simp

lemma resolve_firmware_local:
  assumes "\<not> is_http dir"
    and "\<forall>p \<in> set paths. w_read w (go_path_join [dir, ''firmware/'' @ p]) = FileData (content w dir (''firmware/'' @ p))"
  shows "\<exists>r. resolve_firmware w dir paths = Inr r \<and>
    (\<forall>(n, d) \<in> set (firmware_entries r). n \<in> (\<lambda>p. ''firmware/'' @ p) ` set paths \<and> content w dir n = d)"
proof (cases "paths = []")
  case True
  then show ?thesis by (simp add: resolve_firmware_def firmware_entries_def)
next
  case False
  from foldE_firmware [of dir paths w "[]" "set paths"] assms obtain m where
    "foldE (fetch_firmware w dir) [] paths = Inr m"
    "\<forall>(p, d) \<in> set m. p \<in> set paths \<and> content w dir (''firmware/'' @ p) = d" by auto
  then show ?thesis using False by (auto simp: resolve_firmware_def firmware_entries_def)
qed

lemma go_trim_space_hex_line: "go_trim_space (go_hex_encode s @ [CHR 0x0A]) = go_hex_encode s"
proof (cases "s = []")
  case True
  have "trim_left_space [CHR 0x0A] = []"
    by (subst trim_left_space.simps) (simp add: space_len_def ascii_space_def trim_left_space.simps)
  with True show ?thesis by (simp add: go_hex_encode_def go_trim_space_def trim_left_space_rev.simps)
next
  case False
  let ?x = "go_hex_encode s"
  have "?x \<noteq> []" "list_all graphic ?x"
    using False go_hex_encode_lower [of s] lower_hex_graphic by (auto simp: go_hex_encode_Nil_iff list_all_iff)
  then show ?thesis by (intro go_trim_space_ends(2)) (auto simp: list_all_iff)
qed

text \<open>
  Property C7. Publishing and fetching fit together: from a directory that holds what prepare wrote,
  with the manifest of \<^verbatim>\<open>writePiecesHashes\<close> and the signature of \<^verbatim>\<open>signPiecesHashes\<close>, build-disk with the
  matching public key gets a verified set whose every file is the file of the directory.
\<close>

theorem published_pieces_resolve:
  assumes wrote: "writePiecesHashes sha256 w (arch_source source arch) walked = Inr t"
    and stored: "w_read w (go_path_join [arch_source source arch, ''pieces.sha256'']) = FileData t"
    and signed: "signPiecesHashes newKeyFromSeed ed25519Sign w (arch_source source arch) keyPath = Inr sig"
      "w_read w (go_path_join [arch_source source arch, ''pieces.sha256.sig'']) = FileData sig"
    and local: "\<not> is_http (arch_source source arch)"
    and manifest: "parseManifest (content w (arch_source source arch) ''busybox-manifest.tsv'') = Inr applets"
    and json: "parseProv (content w (arch_source source arch) ''pieces.json'') = Some p"
    and listed: "\<forall>q \<in> set (prov_WifiFirmware p @ prov_EthernetFirmware p). ''firmware/'' @ q \<in> set (walked_names walked)"
    and names: "\<forall>n \<in> set (walked_names walked). graphic_name n"
    and hash: "\<forall>d. sha256 d \<noteq> []"
    and keys: "\<forall>sk m. verify (publicOf sk) m (ed25519Sign sk m)"
    and opts: "\<forall>sk seed. w_read w keyPath = FileData seed \<and>
        ParsePrivateKeyHex newKeyFromSeed (go_trim_space seed) = Inr sk \<longrightarrow> ro_VerifyKey opts = Some (publicOf sk)"
  shows "\<exists>s. Resolve sha256 verify parseProv w source arch opts = Inr (s, []) \<and> set_HashesVerified s \<and>
    set_Provenance s = Some p \<and> set_Iptables s = Some (content w (arch_source source arch) ''iptables'') \<and>
    (\<forall>(n, d) \<in> set (set_files s). content w (arch_source source arch) n = d)"
proof -
  let ?dir = "arch_source source arch"
  let ?c = "content w ?dir"
  from written_manifest [OF wrote hash names] obtain h where h: "parseHashes t = Inr h"
    and each: "\<And>n. n \<in> set fixed_names \<union> set (walked_names walked) \<Longrightarrow>
      w_read w (go_path_join [?dir, n]) = FileData (?c n) \<and> h n = Some (go_hex_encode (sha256 (?c n)))"
    and supp: "w_read w (go_path_join [?dir, ''wpa_supplicant'']) = FileMissing \<or>
      (w_read w (go_path_join [?dir, ''wpa_supplicant'']) = FileData (?c ''wpa_supplicant'') \<and>
       h ''wpa_supplicant'' = Some (go_hex_encode (sha256 (?c ''wpa_supplicant''))))" by blast
  have fixed: "w_read w (go_path_join [?dir, n]) = FileData (?c n) \<and> h n = Some (go_hex_encode (sha256 (?c n)))"
    if "n \<in> set fixed_names" for n using each [of n] that by blast
  have in_fixed: "''vmlinuz'' \<in> set fixed_names" "''busybox'' \<in> set fixed_names" "''busybox-manifest.tsv'' \<in> set fixed_names"
    "''iptables'' \<in> set fixed_names" "''pieces.json'' \<in> set fixed_names" by (simp_all add: fixed_names_def)
  note hashes = in_fixed [THEN fixed, THEN conjunct2]
  have piece: "readPiece w ?dir n = (Some (?c n), None)" if "n \<in> set fixed_names" for n
    using fixed [OF that] local by (simp add: readPiece_def Let_def)
  note pieces = in_fixed [THEN piece]
  have opt: "readOptionalPiece w ?dir ''pieces.json'' = (Some (?c ''pieces.json''), None)"
    using fixed [OF in_fixed(5)] local by (simp add: readOptionalPiece_def Let_def)
  have fw: "w_read w (go_path_join [?dir, ''firmware/'' @ q]) = FileData (?c (''firmware/'' @ q))"
    "h (''firmware/'' @ q) = Some (go_hex_encode (sha256 (?c (''firmware/'' @ q))))"
    if "q \<in> set (prov_WifiFirmware p @ prov_EthernetFirmware p)" for q
    using each [of "''firmware/'' @ q"] listed that by auto
  from resolve_firmware_local [OF local, of "prov_WifiFirmware p" w] fw(1) obtain wifi where
    wifi: "resolve_firmware w ?dir (prov_WifiFirmware p) = Inr wifi"
      "\<forall>(n, d) \<in> set (firmware_entries wifi). n \<in> (\<lambda>p. ''firmware/'' @ p) ` set (prov_WifiFirmware p) \<and> ?c n = d"
    by auto
  from resolve_firmware_local [OF local, of "prov_EthernetFirmware p" w] fw(1) obtain eth where
    eth: "resolve_firmware w ?dir (prov_EthernetFirmware p) = Inr eth"
      "\<forall>(n, d) \<in> set (firmware_entries eth). n \<in> (\<lambda>p. ''firmware/'' @ p) ` set (prov_EthernetFirmware p) \<and> ?c n = d"
    by auto
  let ?supp = "resolve_supplicant w ?dir (Some p)"
  have sup: "?supp = None \<or> (?supp = Some (?c ''wpa_supplicant'') \<and>
      h ''wpa_supplicant'' = Some (go_hex_encode (sha256 (?c ''wpa_supplicant''))))"
    using supp local by (auto simp: resolve_supplicant_def readPiece_def Let_def)
  have cov_fw: "covered sha256 h (firmware_entries wifi)" "covered sha256 h (firmware_entries eth)"
    using wifi(2) eth(2) fw(2) by (fastforce simp: covered_def)+
  define s where "s = fetched_set (?c ''vmlinuz'') (?c ''busybox'') (?c ''busybox-manifest.tsv'') applets
     (Some (?c ''iptables'')) ?supp wifi eth True (Some p)"
  have check: "check_files sha256 (Some h) (checked_files (?c ''vmlinuz'') (?c ''busybox'') (?c ''busybox-manifest.tsv'')
      (Some (?c ''iptables'')) ?supp wifi eth (Some (?c ''pieces.json''))) = Inr True"
    using cov_fw sup by (auto simp: check_files_iff checked_files_def opt_entry_def hashes)
  have "fetch_pieces sha256 parseProv w ?dir (ro_CacheDir opts) (Some h) = Inr (s, [])"
    unfolding fetch_pieces_iff [OF pieces(4)]
    using manifest json wifi(1) eth(1) check opt local
    by (intro exI [of _ "?c ''vmlinuz''"] exI [of _ "?c ''busybox''"] exI [of _ "?c ''busybox-manifest.tsv''"] exI [of _ applets]
        exI [of _ "Some (?c ''pieces.json'')"] exI [of _ "Some p"] exI [of _ wifi] exI [of _ eth] exI [of _ True])
      (simp add: must_have_def okE_def resolve_provenance_def wifi_paths_def ethernet_paths_def s_def pieces)
  moreover have "resolve_hashes w ?dir req = Inr (Some (t, h))" for req
    using stored local h by (simp add: resolve_hashes_def readOptionalPiece_def okE_def Let_def)
  moreover have "resolve_signature verify w ?dir (Some t) (ro_VerifyKey opts) = Inr ()"
  proof -
    from signed(1) obtain seed sk where sk: "w_read w keyPath = FileData seed"
      "ParsePrivateKeyHex newKeyFromSeed (go_trim_space seed) = Inr sk"
      and sig: "sig = SignHashes ed25519Sign sk t @ [CHR 0x0A]"
      unfolding signPiecesHashes_def using stored
      by (auto simp: bindE_Inr_iff read_in_def split: file_reply.splits)
    have "ro_VerifyKey opts = Some (publicOf sk)" using opts sk by blast
    then show ?thesis
      using signed(2) local keys sig
      by (simp add: resolve_signature_def readOptionalPiece_def okE_def Let_def SignHashes_def go_trim_space_hex_line
          verifySignature_def go_hex_decode_encode guardE_def)
  qed
  ultimately have "Resolve sha256 verify parseProv w source arch opts = Inr (s, [])"
    using local by (auto simp: Resolve_def Let_def is_http_def)
  moreover have "\<forall>(n, d) \<in> set (set_files s). ?c n = d"
    using wifi(2) eth(2) sup by (auto simp: set_files_def s_def fetched_set_def opt_entry_def)
  ultimately show ?thesis by (intro exI [of _ s]) (simp add: s_def fetched_set_def)
qed

section \<open>A concrete directory\<close>

definition pub_manifest :: string where
  "pub_manifest = concat (map (\<lambda>n. ''ab  '' @ n @ [CHR 0x0A])
     [''vmlinuz'', ''busybox'', ''busybox-manifest.tsv'', ''iptables'', ''pieces.json'', ''wpa_supplicant'', ''firmware/a.fw''])"

definition pub_seed :: string where
  "pub_seed = replicate 64 (CHR ''7'') @ [CHR 0x0A]"

definition pub_world :: host_world where
  "pub_world = \<lparr> w_get = (\<lambda>_. HttpFailed), w_read = (\<lambda>path.
     if path = ''/key'' then FileData pub_seed
     else case map_of (map (\<lambda>(n, d). (''/p/amd64/'' @ n, d)) ex_files) path of
       None \<Rightarrow> FileMissing
     | Some d \<Rightarrow> if path = ''/p/amd64/pieces.sha256'' then FileData pub_manifest
         else if path = ''/p/amd64/pieces.sha256.sig'' then FileData (''77'' @ [CHR 0x0A]) else FileData d) \<rparr>"

definition pub_opts :: "string ResolveOptions" where
  "pub_opts = \<lparr> ro_AllowInsecureHTTP = False, ro_CacheDir = [], ro_RequireVerifiedPieces = True, ro_VerifyKey = Some ''w'' \<rparr>"

text \<open>Keys of one byte, the first of the seed, which is also the signature.\<close>

definition pub_sign :: "string \<Rightarrow> string \<Rightarrow> string" where
  "pub_sign sk m = take 1 sk"

definition pub_verify :: "string \<Rightarrow> string \<Rightarrow> string \<Rightarrow> bool" where
  "pub_verify pk m sig \<longleftrightarrow> sig = pk"

lemma pub_facts:
  "arch_source ''/p'' ''amd64'' = ''/p/amd64''"
  "writePiecesHashes ex_sha pub_world ''/p/amd64'' (Some [''firmware/a.fw'']) = Inr pub_manifest"
  "w_read pub_world (go_path_join [''/p/amd64'', ''pieces.sha256'']) = FileData pub_manifest"
  "signPiecesHashes id pub_sign pub_world ''/p/amd64'' ''/key'' = Inr (''77'' @ [CHR 0x0A])"
  "w_read pub_world (go_path_join [''/p/amd64'', ''pieces.sha256.sig'']) = FileData (''77'' @ [CHR 0x0A])"
  "\<not> is_http ''/p/amd64''"
  "parseManifest (content pub_world ''/p/amd64'' ''busybox-manifest.tsv'') = Inr [\<lparr> applet_Path = ''bin/ls'', applet_Target = ''busybox'' \<rparr>]"
  "ParsePrivateKeyHex id (go_trim_space pub_seed) = Inr (replicate 32 (CHR ''w''))"
  "content pub_world ''/p/amd64'' ''vmlinuz'' = ''k''"
  by code_simp+

theorem published_pieces_resolve_witness:
  "\<exists>s. Resolve ex_sha pub_verify ex_prov pub_world ''/p'' ''amd64'' pub_opts = Inr (s, []) \<and> set_HashesVerified s \<and>
     set_Vmlinuz s = ''k''"
proof -
  have json: "ex_prov d = Some \<lparr> prov_Arch = ''amd64'', prov_VGA = False, prov_BootProfile = ''wifi'',
     prov_WifiFirmware = [''a.fw''], prov_EthernetFirmware = [] \<rparr>" for d by (simp add: ex_prov_def)
  have key: "w_read pub_world ''/key'' = FileData seed \<Longrightarrow> ParsePrivateKeyHex id (go_trim_space seed) = Inr sk \<Longrightarrow>
      ro_VerifyKey pub_opts = Some (take 1 sk)" for seed sk
    using pub_facts(8) by (auto simp: pub_world_def pub_opts_def numeral_eq_Suc)
  have names: "\<forall>n \<in> set (walked_names (Some [''firmware/a.fw''])). graphic_name n"
    by (simp add: walked_names_def graphic_name_def graphic_def)
  have "\<exists>s. Resolve ex_sha pub_verify ex_prov pub_world ''/p'' ''amd64'' pub_opts = Inr (s, []) \<and> set_HashesVerified s \<and>
    (\<forall>(n, d) \<in> set (set_files s). content pub_world ''/p/amd64'' n = d)"
    using published_pieces_resolve [of ex_sha pub_world "''/p''" "''amd64''" "Some [''firmware/a.fw'']" pub_manifest id
      pub_sign "''/key''" "''77'' @ [CHR 0x0A]" _ ex_prov _ pub_verify "take 1" pub_opts, unfolded pub_facts(1),
      OF pub_facts(2-7) json _ names] key
    by (auto simp: walked_names_def ex_sha_def pub_verify_def pub_sign_def)
  then show ?thesis using pub_facts(9) by (auto simp: set_files_def)
qed

end
