(* ===== verification/Keys.thy ===== *)
theory Keys
  imports Publish
begin

text \<open>
  The Secure Boot signing identity (internal/secureboot/keys.go and \<^verbatim>\<open>runKeygenSecureboot\<close> of
  cmd/cnimbus/keygen.go): loading a keypair, generating one when there is none, and saving it. Key
  and certificate generation belong to the standard library's crypto packages and are a parameter,
  the keypair they return or nothing.
\<close>

definition KeyPEMName :: string where "KeyPEMName = ''secureboot-key.pem''"
definition CertPEMName :: string where "CertPEMName = ''secureboot-cert.pem''"

record Keypair =
  kp_KeyPEM :: string
  kp_CertPEM :: string

datatype keys_error =
    NoDefaultKeypair
  | ReadKey string
  | ReadCert string
  | GenerateFailed
  | MkdirFailed
  | WriteKeyFailed
  | WriteCertFailed
  | AlreadyExists string

definition read_file :: "host_world \<Rightarrow> string \<Rightarrow> string option" where
  "read_file w path = (case w_read w path of FileData d \<Rightarrow> Some d | _ \<Rightarrow> None)"

definition Load :: "host_world \<Rightarrow> string \<Rightarrow> string \<Rightarrow> keys_error + Keypair" where
  "Load w keyPath certPath =
     (case read_file w keyPath of
        None \<Rightarrow> Inl (ReadKey keyPath)
      | Some keyPEM \<Rightarrow>
          (case read_file w certPath of
             None \<Rightarrow> Inl (ReadCert certPath)
           | Some certPEM \<Rightarrow> Inr \<lparr> kp_KeyPEM = keyPEM, kp_CertPEM = certPEM \<rparr>))"

definition LoadDefault :: "host_world \<Rightarrow> string \<Rightarrow> keys_error + Keypair" where
  "LoadDefault w dir =
     (let keyPath = go_path_join [dir, KeyPEMName]; certPath = go_path_join [dir, CertPEMName] in
      if w_read w keyPath = FileMissing \<and> w_read w certPath = FileMissing then Inl NoDefaultKeypair
      else Load w keyPath certPath)"

section \<open>Saving\<close>

text \<open>
  Where a write fails, if it does. A step that fails removes the temporary file again; a process
  killed while writing leaves it, with the bytes written so far.
\<close>

datatype atomic_fault = NoTrouble | TempFails | WriteStops nat | SyncStops | CloseStops | ChmodFails | RenameStops | Killed nat

definition atomicWriteFile :: "atomic_fault \<Rightarrow> string \<Rightarrow> string \<Rightarrow> string \<Rightarrow> host_world \<Rightarrow> host_world \<times> bool" where
  "atomicWriteFile fault tmp path data w =
     (let removed = (\<lambda>bytes. put_file (put_file w tmp (FileData bytes)) tmp FileMissing) in
      case fault of
        TempFails \<Rightarrow> (w, False)
      | WriteStops n \<Rightarrow> (removed (take n data), False)
      | SyncStops \<Rightarrow> (removed data, False)
      | CloseStops \<Rightarrow> (removed data, False)
      | ChmodFails \<Rightarrow> (removed data, False)
      | RenameStops \<Rightarrow> (removed data, False)
      | Killed n \<Rightarrow> (put_file w tmp (FileData (take n data)), False)
      | NoTrouble \<Rightarrow> (put_file (put_file (put_file w tmp (FileData data)) path (FileData data)) tmp FileMissing, True))"

record save_env =
  se_mkdir :: bool
  se_key_fault :: atomic_fault
  se_key_tmp :: string
  se_cert_fault :: atomic_fault
  se_cert_tmp :: string

definition Save :: "save_env \<Rightarrow> string \<Rightarrow> Keypair \<Rightarrow> host_world \<Rightarrow> host_world \<times> (keys_error + unit)" where
  "Save env dir kp w =
     (if \<not> se_mkdir env then (w, Inl MkdirFailed)
      else case atomicWriteFile (se_key_fault env) (se_key_tmp env) (go_path_join [dir, KeyPEMName]) (kp_KeyPEM kp) w of
             (w1, False) \<Rightarrow> (w1, Inl WriteKeyFailed)
           | (w1, True) \<Rightarrow>
               (case atomicWriteFile (se_cert_fault env) (se_cert_tmp env) (go_path_join [dir, CertPEMName]) (kp_CertPEM kp) w1 of
                  (w2, False) \<Rightarrow> (w2, Inl WriteCertFailed)
                | (w2, True) \<Rightarrow> (w2, Inr ())))"

definition LoadOrGenerate ::
  "Keypair option \<Rightarrow> save_env \<Rightarrow> string \<Rightarrow> host_world \<Rightarrow> host_world \<times> (keys_error + Keypair \<times> bool)" where
  "LoadOrGenerate generated env dir w =
     (case LoadDefault w dir of
        Inr kp \<Rightarrow> (w, Inr (kp, False))
      | Inl e \<Rightarrow>
          if e \<noteq> NoDefaultKeypair then (w, Inl e)
          else (case generated of
                  None \<Rightarrow> (w, Inl GenerateFailed)
                | Some kp \<Rightarrow>
                    (case Save env dir kp w of
                       (w', Inl e') \<Rightarrow> (w', Inl e')
                     | (w', Inr _) \<Rightarrow> (w', Inr (kp, True)))))"

definition runKeygenSecureboot ::
  "Keypair option \<Rightarrow> save_env \<Rightarrow> string \<Rightarrow> host_world \<Rightarrow> host_world \<times> (keys_error + unit)" where
  "runKeygenSecureboot generated env outDir w =
     (case LoadDefault w outDir of
        Inr _ \<Rightarrow> (w, Inl (AlreadyExists outDir))
      | Inl _ \<Rightarrow>
          (case generated of
             None \<Rightarrow> (w, Inl GenerateFailed)
           | Some kp \<Rightarrow> Save env outDir kp w))"

section \<open>Lemmas\<close>

lemma key_names: "plain_name KeyPEMName" "plain_name CertPEMName" "KeyPEMName \<noteq> CertPEMName"
  by (simp_all add: plain_name_def KeyPEMName_def CertPEMName_def)

lemma key_cert_paths [simp]: "go_path_join [dir, KeyPEMName] \<noteq> go_path_join [dir, CertPEMName]"
  by (simp add: go_path_join_inj key_names)

text \<open>The temporary names are fresh: neither of the two files.\<close>

definition fresh_temps :: "save_env \<Rightarrow> string \<Rightarrow> bool" where
  "fresh_temps env dir \<longleftrightarrow>
     {se_key_tmp env, se_cert_tmp env} \<inter> {go_path_join [dir, KeyPEMName], go_path_join [dir, CertPEMName]} = {}"

lemma put_file_read [simp]: "w_read (put_file w p r) q = (if q = p then r else w_read w q)"
  by (simp add: put_file_def)

lemma atomicWriteFile_other:
  "q \<noteq> tmp \<Longrightarrow> q \<noteq> path \<Longrightarrow> w_read (fst (atomicWriteFile fault tmp path data w)) q = w_read w q"
  by (cases fault) (auto simp: atomicWriteFile_def Let_def)

lemma atomicWriteFile_target:
  "tmp \<noteq> path \<Longrightarrow> w_read (fst (atomicWriteFile fault tmp path data w)) path =
     (if snd (atomicWriteFile fault tmp path data w) then FileData data else w_read w path)"
  by (cases fault) (auto simp: atomicWriteFile_def Let_def)

lemma Save_files:
  assumes "fresh_temps env dir" and "Save env dir kp w = (w', r)"
  shows "w_read w' (go_path_join [dir, KeyPEMName]) =
      (if r = Inl MkdirFailed \<or> r = Inl WriteKeyFailed then w_read w (go_path_join [dir, KeyPEMName]) else FileData (kp_KeyPEM kp))"
    and "w_read w' (go_path_join [dir, CertPEMName]) =
      (if r = Inr () then FileData (kp_CertPEM kp) else w_read w (go_path_join [dir, CertPEMName]))"
    and "r \<in> {Inr (), Inl MkdirFailed, Inl WriteKeyFailed, Inl WriteCertFailed}"
proof -
  let ?k = "go_path_join [dir, KeyPEMName]"
  let ?c = "go_path_join [dir, CertPEMName]"
  obtain w1 b1 where a1: "atomicWriteFile (se_key_fault env) (se_key_tmp env) ?k (kp_KeyPEM kp) w = (w1, b1)" by fastforce
  obtain w2 b2 where a2: "atomicWriteFile (se_cert_fault env) (se_cert_tmp env) ?c (kp_CertPEM kp) w1 = (w2, b2)" by fastforce
  have t: "se_key_tmp env \<noteq> ?k" "se_key_tmp env \<noteq> ?c" "se_cert_tmp env \<noteq> ?k" "se_cert_tmp env \<noteq> ?c"
    using assms(1) by (auto simp: fresh_temps_def)
  have r1: "w_read w1 ?k = (if b1 then FileData (kp_KeyPEM kp) else w_read w ?k)" "w_read w1 ?c = w_read w ?c"
    using atomicWriteFile_target [of "se_key_tmp env" ?k "se_key_fault env" "kp_KeyPEM kp" w]
      atomicWriteFile_other [of ?c "se_key_tmp env" ?k "se_key_fault env" "kp_KeyPEM kp" w] t
      key_cert_paths [of dir]
    by (auto simp: a1)
  have r2: "w_read w2 ?c = (if b2 then FileData (kp_CertPEM kp) else w_read w1 ?c)" "w_read w2 ?k = w_read w1 ?k"
    using atomicWriteFile_target [of "se_cert_tmp env" ?c "se_cert_fault env" "kp_CertPEM kp" w1]
      atomicWriteFile_other [of ?k "se_cert_tmp env" ?c "se_cert_fault env" "kp_CertPEM kp" w1] t
      key_cert_paths [of dir]
    by (auto simp: a2)
  have S: "(w', r) = (if \<not> se_mkdir env then (w, Inl MkdirFailed) else if b1 then if b2 then (w2, Inr ()) else (w2, Inl WriteCertFailed)
      else (w1, Inl WriteKeyFailed))"
    unfolding assms(2) [symmetric] Save_def a1 by (cases b1; cases b2) (simp_all add: a2)
  show "w_read w' ?k = (if r = Inl MkdirFailed \<or> r = Inl WriteKeyFailed then w_read w ?k else FileData (kp_KeyPEM kp))"
    "w_read w' ?c = (if r = Inr () then FileData (kp_CertPEM kp) else w_read w ?c)"
    "r \<in> {Inr (), Inl MkdirFailed, Inl WriteKeyFailed, Inl WriteCertFailed}"
    using S r1 r2 by (auto split: if_splits)
qed

lemma LoadDefault_saved:
  assumes "w_read w (go_path_join [dir, KeyPEMName]) = FileData k" and "w_read w (go_path_join [dir, CertPEMName]) = FileData c"
  shows "LoadDefault w dir = Inr \<lparr> kp_KeyPEM = k, kp_CertPEM = c \<rparr>"
  by (simp add: LoadDefault_def Load_def read_file_def assms)

text \<open>
  Property C31. The signing identity is generated once and then kept: after a call that returned a
  keypair, every later call returns the same one, marked as loaded, and changes nothing, whatever
  its own generator and its own faults; and a call never touches the disk if either file was there.
\<close>

theorem signing_identity_stable:
  assumes "LoadOrGenerate generated env dir w = (w1, r)" and "fresh_temps env dir"
  shows "(\<forall>kp b. r = Inr (kp, b) \<longrightarrow> LoadOrGenerate generated' env' dir w1 = (w1, Inr (kp, False))) \<and>
    (w_read w (go_path_join [dir, KeyPEMName]) \<noteq> FileMissing \<or> w_read w (go_path_join [dir, CertPEMName]) \<noteq> FileMissing \<longrightarrow>
       w1 = w \<and> (\<forall>kp b. r = Inr (kp, b) \<longrightarrow> \<not> b))"
proof (cases "LoadDefault w dir")
  case (Inr kp)
  with assms(1) have "w1 = w" "r = Inr (kp, False)" by (auto simp: LoadOrGenerate_def)
  with Inr show ?thesis by (simp add: LoadOrGenerate_def)
next
  case (Inl e)
  show ?thesis
  proof (cases "e = NoDefaultKeypair")
    case False
    with Inl assms(1) show ?thesis by (auto simp: LoadOrGenerate_def)
  next
    case True
    have gone: "w_read w (go_path_join [dir, KeyPEMName]) = FileMissing" "w_read w (go_path_join [dir, CertPEMName]) = FileMissing"
      using Inl True by (auto simp: LoadDefault_def Load_def Let_def split: if_splits option.splits)
    have "LoadOrGenerate generated' env' dir w1 = (w1, Inr (kp, False))" if r: "r = Inr (kp, b)" for kp b
    proof -
      obtain u where s: "Save env dir kp w = (w1, Inr u)"
        using assms(1) Inl True r by (auto simp: LoadOrGenerate_def split: option.splits prod.splits sum.splits)
      have "LoadDefault w1 dir = Inr kp"
        using LoadDefault_saved [of w1 dir "kp_KeyPEM kp" "kp_CertPEM kp"] Save_files [OF assms(2) s] by simp
      then show ?thesis by (simp add: LoadOrGenerate_def)
    qed
    with gone show ?thesis by blast
  qed
qed

definition empty_world :: host_world where
  "empty_world = \<lparr> w_get = (\<lambda>u. HttpFailed), w_read = (\<lambda>p. FileMissing) \<rparr>"

definition calm_env :: save_env where
  "calm_env = \<lparr> se_mkdir = True, se_key_fault = NoTrouble, se_key_tmp = ''kt'', se_cert_fault = NoTrouble, se_cert_tmp = ''ct'' \<rparr>"

lemma calm_env_fresh: "fresh_temps calm_env ''sb''"
proof -
  have "go_path_join [''sb'', KeyPEMName] = ''sb/secureboot-key.pem''" "go_path_join [''sb'', CertPEMName] = ''sb/secureboot-cert.pem''"
    by code_simp+
  then show ?thesis by (simp add: fresh_temps_def calm_env_def)
qed

theorem signing_identity_stable_witness:
  "let kp = \<lparr> kp_KeyPEM = ''K'', kp_CertPEM = ''C'' \<rparr>;
       w1 = fst (LoadOrGenerate (Some kp) calm_env ''sb'' empty_world)
   in snd (LoadOrGenerate (Some kp) calm_env ''sb'' empty_world) = Inr (kp, True) \<and>
      LoadOrGenerate None calm_env ''sb'' w1 = (w1, Inr (kp, False))"
proof -
  let ?kp = "\<lparr> kp_KeyPEM = ''K'', kp_CertPEM = ''C'' \<rparr>"
  let ?r = "LoadOrGenerate (Some ?kp) calm_env ''sb'' empty_world"
  have s: "snd ?r = Inr (?kp, True)"
    by (simp add: LoadOrGenerate_def LoadDefault_def empty_world_def Save_def calm_env_def atomicWriteFile_def Let_def)
  then have "?r = (fst ?r, Inr (?kp, True))" by (metis prod.collapse)
  from signing_identity_stable [OF this calm_env_fresh, of None calm_env]
  have "LoadOrGenerate None calm_env ''sb'' (fst ?r) = (fst ?r, Inr (?kp, False))" by blast
  with s show ?thesis by (simp only: Let_def simp_thms)
qed

text \<open>
  \<^verbatim>\<open>keygen --secureboot\<close> refuses only a complete keypair: with the private key in place and
  the certificate missing or unreadable, a run without faults replaces the key.
\<close>

theorem keygen_replaces_lone_key:
  assumes "read_file w (go_path_join [dir, KeyPEMName]) = Some old" and "read_file w (go_path_join [dir, CertPEMName]) = None"
    and "se_mkdir env" and "se_key_fault env = NoTrouble" and "se_cert_fault env = NoTrouble" and "fresh_temps env dir"
  shows "\<exists>w'. runKeygenSecureboot (Some kp) env dir w = (w', Inr ()) \<and>
    read_file w' (go_path_join [dir, KeyPEMName]) = Some (kp_KeyPEM kp)"
proof -
  have "LoadDefault w dir = Inl (ReadCert (go_path_join [dir, CertPEMName]))"
    using assms(1,2) by (auto simp: LoadDefault_def Load_def Let_def read_file_def)
  then have k: "runKeygenSecureboot (Some kp) env dir w = Save env dir kp w" by (simp add: runKeygenSecureboot_def)
  obtain w' r where s: "Save env dir kp w = (w', r)" by fastforce
  have "r = Inr ()"
    using s assms(3-5) by (auto simp: Save_def atomicWriteFile_def Let_def)
  with s Save_files [OF assms(6) s] k show ?thesis by (simp add: read_file_def)
qed

theorem keygen_replaces_lone_key_witness:
  "\<exists>w'. runKeygenSecureboot (Some \<lparr> kp_KeyPEM = ''NEW'', kp_CertPEM = ''C'' \<rparr>) calm_env ''sb''
       (put_file empty_world ''sb/secureboot-key.pem'' (FileData ''OLD'')) = (w', Inr ()) \<and>
     read_file w' ''sb/secureboot-key.pem'' = Some ''NEW''"
proof -
  have p: "go_path_join [''sb'', KeyPEMName] = ''sb/secureboot-key.pem''" "go_path_join [''sb'', CertPEMName] = ''sb/secureboot-cert.pem''"
    by code_simp+
  show ?thesis
    using keygen_replaces_lone_key [of "put_file empty_world ''sb/secureboot-key.pem'' (FileData ''OLD'')" "''sb''" "''OLD''" calm_env
        "\<lparr> kp_KeyPEM = ''NEW'', kp_CertPEM = ''C'' \<rparr>"] calm_env_fresh
    by (simp add: p read_file_def) (simp add: calm_env_def empty_world_def)
qed

end
