(* ===== verification/Build.thy ===== *)
theory Build
  imports Nimbus_Parse From_Pieces Copies Raw_Image Vhd Iso_Image Signing Keys
begin

text \<open>
  The build command (cmd/cnimbus/build.go and lockfile.go): from the manifest and the pieces to the
  image on disk. The values of the flags are a record; everything outside (the files and the
  network, the crypto packages, the disk libraries, the clock) is a second one. The state that the
  command changes is the file system.
\<close>

section \<open>Failing steps over the file system\<close>

datatype build_error =
    KeyWithoutCert
  | NoPiecesSource
  | Parsing nimbus_error
  | BadArch string
  | BadVerifyKey key_error
  | Resolving fetch_error
  | PiecesArch string string
  | PiecesVGA bool bool
  | PiecesProfile string string
  | Copying copy_error
  | BuildingImages pieces_error
  | LoadingKeys keys_error
  | Signing sign_error
  | WritingRaw raw_error
  | WritingVHD vhd_error
  | WritingISO iso_error "string option"
  | Renaming string
  | LockManifest string
  | LockImage string
  | LockWrite string

type_synonym 'a build = "host_world \<Rightarrow> host_world \<times> (build_error + 'a)"

definition andThen :: "'a build \<Rightarrow> ('a \<Rightarrow> 'b build) \<Rightarrow> 'b build" where
  "andThen m f w = (case m w of (w', Inl e) \<Rightarrow> (w', Inl e) | (w', Inr x) \<Rightarrow> f x w')"

definition pureB :: "build_error + 'a \<Rightarrow> 'a build" where
  "pureB r w = (w, r)"

lemma andThen_Inr:
  "andThen m f w = (w', Inr y) \<longleftrightarrow> (\<exists>w1 x. m w = (w1, Inr x) \<and> f x w1 = (w', Inr y))"
  by (auto simp: andThen_def split: prod.splits sum.splits)

lemma pureB_Inr: "pureB r w = (w', Inr y) \<longleftrightarrow> w' = w \<and> r = Inr y"
  by (auto simp: pureB_def)

section \<open>Flags and surroundings\<close>

record build_flags =
  bf_nimbusfile :: string
  bf_out :: string
  bf_pieces :: string
  bf_arch :: string
  bf_insecureHTTP :: bool
  bf_cacheDir :: string
  bf_noCache :: bool
  bf_allowUnverified :: bool
  bf_verifyKey :: string
  bf_buildArgs :: arg_values
  bf_noLockfile :: bool
  bf_tmpDir :: string
  bf_secureboot :: bool
  bf_uki :: bool
  bf_sbKey :: string
  bf_sbCert :: string
  bf_sbDir :: string

record BuildLock =
  bl_CnimbusVersion :: string
  bl_BuiltAt :: string
  bl_Nimbusfile :: string
  bl_NimbusfileSHA256 :: string
  bl_Arch :: string
  bl_Format :: string
  bl_PiecesSource :: string
  bl_VmlinuzSHA256 :: string
  bl_BusyboxSHA256 :: string
  bl_ManifestSHA256 :: string
  bl_IptablesSHA256 :: string
  bl_SupplicantSHA256 :: string
  bl_AgentSHA256 :: string
  bl_PiecesHashesVerified :: bool
  bl_OutputImage :: string
  bl_OutputImageSHA256 :: string

record build_env =
  en_host :: host
  en_defaultPieces :: bool
  en_sha256 :: "string \<Rightarrow> string"
  en_verify :: "string \<Rightarrow> string \<Rightarrow> string \<Rightarrow> bool"
  en_parseProv :: "string \<Rightarrow> Provenance option"
  en_gzip :: "string \<Rightarrow> string"
  en_squashfs :: "PiecesSpec \<Rightarrow> ExtraFile list \<Rightarrow> pieces_error + string"
  en_rootPath :: string
  en_rootFile :: "string \<Rightarrow> source_file"
  en_newKeypair :: "Keypair option"
  en_save :: save_env
  en_parseKeypair :: "Keypair \<Rightarrow> (certificate \<times> string) option"
  en_rsaSign :: "string \<Rightarrow> string \<Rightarrow> string option"
  en_agentAmd64 :: string
  en_agentArm64 :: string
  en_isolinux :: string
  en_ldlinux :: string
  en_toUpper :: "string \<Rightarrow> string"
  en_version :: string
  en_now :: string
  en_isoOk :: "iso_op \<Rightarrow> bool"
  en_mkdirTemp :: "string \<Rightarrow> string option"
  en_stat :: "string \<Rightarrow> int option"
  en_isoBytes :: "string \<Rightarrow> iso_op list \<Rightarrow> string"
  en_diskOk :: "disk_op \<Rightarrow> bool"
  en_diskBytes :: "disk_op list \<Rightarrow> string"
  en_stamp :: nat
  en_uuid :: "string option"
  en_createOk :: "string \<Rightarrow> bool"
  en_copyOk :: "string \<Rightarrow> bool"
  en_appendOk :: "string \<Rightarrow> bool"
  en_renameOk :: bool
  en_marshal :: "BuildLock \<Rightarrow> string option"
  en_lockFault :: write_fault

text \<open>
  \<^verbatim>\<open>en_rootFile\<close> says how a file with given bytes is read back in chunks, \<^verbatim>\<open>en_isoBytes\<close> and
  \<^verbatim>\<open>en_diskBytes\<close> what the disk libraries leave in the file after the given calls.
\<close>

section \<open>What the manifest says\<close>

definition defaultPiecesDir :: string where
  "defaultPiecesDir = ''./pieces''"

definition choose_pieces :: "build_env \<Rightarrow> build_flags \<Rightarrow> build_error + string" where
  "choose_pieces env fl =
     (let src = (if bf_pieces fl = [] \<and> en_defaultPieces env then defaultPiecesDir else bf_pieces fl)
      in if src = [] then Inl NoPiecesSource else Inr src)"

definition build_manifest :: "build_flags \<Rightarrow> host_world \<Rightarrow> build_error + Nimbusfile" where
  "build_manifest fl w =
     bindE (wrapE Parsing (Parse (bf_nimbusfile fl) (read_file w (bf_nimbusfile fl)) (bf_buildArgs fl))) (\<lambda>hf.
     if bf_arch fl = [] then Inr hf
     else if bf_arch fl \<noteq> ''amd64'' \<and> bf_arch fl \<noteq> ''arm64'' then Inl (BadArch (bf_arch fl))
     else Inr (hf \<lparr> nf_Arch := bf_arch fl \<rparr>))"

definition build_out :: "build_flags \<Rightarrow> Nimbusfile \<Rightarrow> string" where
  "build_out fl hf =
     (let ext = (if nf_Format hf = ''raw'' then ''.img'' else if nf_Format hf = ''vhd'' then ''.vhd'' else ''.iso'')
      in if bf_out fl = [] then nf_Hostname hf @ ext else bf_out fl)"

definition build_tmpDir :: "build_flags \<Rightarrow> string \<Rightarrow> string" where
  "build_tmpDir fl out = (if bf_tmpDir fl = [] then go_dir out else bf_tmpDir fl)"

definition build_verifyKey :: "build_flags \<Rightarrow> Nimbusfile \<Rightarrow> build_error + string option" where
  "build_verifyKey fl hf =
     (let hex = (if bf_verifyKey fl \<noteq> [] then bf_verifyKey fl else nf_PiecesKey hf)
      in if hex = [] then Inr None
         else bindE (wrapE BadVerifyKey (ParsePublicKeyHex hex)) (\<lambda>k. Inr (Some k)))"

definition build_options :: "build_flags \<Rightarrow> string option \<Rightarrow> string ResolveOptions" where
  "build_options fl key =
     \<lparr> ro_AllowInsecureHTTP = bf_insecureHTTP fl,
       ro_CacheDir = (if bf_noCache fl then [] else bf_cacheDir fl),
       ro_RequireVerifiedPieces = (\<not> bf_allowUnverified fl),
       ro_VerifyKey = key \<rparr>"

definition check_provenance :: "Nimbusfile \<Rightarrow> Provenance option \<Rightarrow> build_error + unit" where
  "check_provenance hf prov =
     (case prov of
        None \<Rightarrow> Inr ()
      | Some p \<Rightarrow>
          let profile = (if prov_BootProfile p = [] then ''none'' else prov_BootProfile p) in
          if prov_Arch p \<noteq> [] \<and> prov_Arch p \<noteq> nf_Arch hf then Inl (PiecesArch (prov_Arch p) (nf_Arch hf))
          else if prov_VGA p \<noteq> nf_VGA hf then Inl (PiecesVGA (prov_VGA p) (nf_VGA hf))
          else if profile \<noteq> nf_BootProfile hf then Inl (PiecesProfile profile (nf_BootProfile hf))
          else Inr ())"

section \<open>From the manifest to the image specification\<close>

definition NLb :: string where "NLb = [CHR 0x0A]"

definition build_services :: "Nimbusfile \<Rightarrow> Service list" where
  "build_services hf =
     (let argv = (if 0 < length (nf_Entrypoint hf) then nf_Entrypoint hf @ nf_Cmd hf
                  else if 0 < length (nf_Cmd hf) then nf_Cmd hf else [])
      in (if 0 < length argv
          then [\<lparr> svc_Name = ''entrypoint'', svc_Argv = argv, svc_Restart = nf_EntrypointRestart hf \<rparr>] else []) @
         map (\<lambda>s. \<lparr> svc_Name = svc_Name s, svc_Argv = svc_Argv s, svc_Restart = svc_Restart s \<rparr>) (nf_Services hf))"

definition build_agent :: "build_env \<Rightarrow> Nimbusfile \<Rightarrow> RAgent option" where
  "build_agent env hf =
     (case nf_Agent hf of
        None \<Rightarrow> None
      | Some a \<Rightarrow> Some \<lparr> ra_Kind = ag_Kind a, ra_URL = ag_URL a, ra_Interval = ag_Interval a, ra_Headers = ag_Headers a,
            ra_Binary = (if nf_Arch hf = ''arm64'' then en_agentArm64 env else en_agentAmd64 env) \<rparr>)"

definition build_volumes :: "Nimbusfile \<Rightarrow> Volume list" where
  "build_volumes hf =
     map (\<lambda>v. \<lparr> vol_Device = vol_Device v, vol_Mountpoint = vol_Mountpoint v, vol_FSType = vol_FSType v,
                vol_Required = vol_Required v \<rparr>) (nf_Volumes hf)"

definition build_healthcheck :: "Nimbusfile \<Rightarrow> Healthcheck option" where
  "build_healthcheck hf =
     (case nf_Healthcheck hf of
        None \<Rightarrow> None
      | Some h \<Rightarrow> Some \<lparr> hc_Argv = hc_Argv h, hc_Interval = hc_Interval h, hc_Retries = hc_Retries h \<rparr>)"

definition build_staticIP :: "Nimbusfile \<Rightarrow> StaticIP option" where
  "build_staticIP hf =
     (case nf_StaticIP hf of
        None \<Rightarrow> None
      | Some s \<Rightarrow> Some \<lparr> sip_Address = sip_Address s, sip_Netmask = sip_Netmask s, sip_Gateway = sip_Gateway s \<rparr>)"

definition envVars :: "Nimbusfile \<Rightarrow> EnvVar list" where
  "envVars hf = map (\<lambda>e. \<lparr> ev_Key = ev_Key e, ev_Value = ev_Value e \<rparr>) (nf_Env hf)"

definition releaseFile :: "build_env \<Rightarrow> Nimbusfile \<Rightarrow> ExtraFile" where
  "releaseFile env hf =
     \<lparr> xf_Path = ''etc/cnimbus-release'', xf_Perm = 420,
       xf_Data = ''CNIMBUS_VERSION='' @ en_version env @ NLb @ ''HOSTNAME='' @ nf_Hostname hf @ NLb @
         ''ARCH='' @ nf_Arch hf @ NLb @ ''FORMAT='' @ nf_Format hf @ NLb @
         concat (map (\<lambda>l. ev_Key l @ ''='' @ ev_Value l @ NLb) (nf_Labels hf)) @
         concat (map (\<lambda>e. ''EXPOSE='' @ int_dec (ep_Port e) @ ''/'' @ ep_Proto e @ NLb) (nf_Exposed hf)) \<rparr>"

definition cnimbusMetadataCfg :: "build_env \<Rightarrow> Nimbusfile \<Rightarrow> string" where
  "cnimbusMetadataCfg env hf =
     ''HOSTNAME='' @ nf_Hostname hf @ NLb @ ''ARCH='' @ nf_Arch hf @ NLb @ ''FORMAT='' @ nf_Format hf @ NLb @
     ''CNIMBUS_VERSION='' @ en_version env @ NLb"

definition bootQuirks :: string where
  "bootQuirks = ''no-vmw-sched-clock''"

definition isolinuxCfg :: "string \<Rightarrow> string" where
  "isolinuxCfg label =
     ''DEFAULT cnimbus'' @ NLb @ ''PROMPT 0'' @ NLb @ ''TIMEOUT 1'' @ NLb @ ''NOESCAPE 1'' @ NLb @
     ''ALLOWOPTIONS 0'' @ NLb @ ''LABEL cnimbus'' @ NLb @ ''  MENU LABEL '' @ label @ NLb @
     ''  KERNEL /EFI/BOOT/BOOTX64.EFI'' @ NLb @
     ''  APPEND initrd=/EFI/BOOT/INITRD.IMG console=tty0 console=ttyS0,115200n8 '' @
     ''panic=10 oops=panic '' @ bootQuirks @ NLb"

definition opt_string :: "string option \<Rightarrow> string" where
  "opt_string d = (case d of None \<Rightarrow> [] | Some s \<Rightarrow> s)"

definition opt_list :: "'a list option \<Rightarrow> 'a list" where
  "opt_list m = (case m of None \<Rightarrow> [] | Some xs \<Rightarrow> xs)"

definition build_spec :: "build_env \<Rightarrow> Nimbusfile \<Rightarrow> PieceSet \<Rightarrow> ExtraFile list \<Rightarrow> PiecesSpec" where
  "build_spec env hf s extraFiles =
     \<lparr> ps_BusyboxBinary = set_BusyboxBinary s,
       ps_BusyboxApplets = map (\<lambda>a. \<lparr> ba_Path = applet_Path a, ba_Target = applet_Target a \<rparr>) (set_BusyboxApplets s),
       ps_Hostname = nf_Hostname hf, ps_DHCP = nf_DHCP hf, ps_StaticIP = build_staticIP hf, ps_DNS = nf_DNS hf,
       ps_NTP = nf_NTP hf, ps_Volumes = build_volumes hf, ps_Firewall = nf_Firewall hf,
       ps_Firewall6 = nf_Firewall6 hf, ps_FirewallOnError = nf_FirewallOnError hf,
       ps_Iptables = opt_string (set_Iptables s), ps_Supplicant = opt_string (set_Supplicant s),
       ps_WifiFirmware = opt_list (set_WifiFirmware s), ps_EthernetFirmware = opt_list (set_EthernetFirmware s),
       ps_BootProfile = nf_BootProfile hf, ps_WifiSSID = nf_WiFiSSID hf, ps_WifiPSK = nf_WiFiPSK hf,
       ps_WifiCountry = nf_WiFiCountry hf, ps_Env = envVars hf, ps_User = nf_User hf,
       ps_ExtraFiles = extraFiles, ps_Services = build_services hf, ps_Agent = build_agent env hf,
       ps_Workdir = nf_Workdir hf, ps_Healthcheck = build_healthcheck hf, ps_TmpfsSize = nf_TmpfsSize hf,
       ps_StopGrace = nf_StopGrace hf, ps_VGA = nf_VGA hf \<rparr>"

section \<open>Signing, writing, locking\<close>

definition securebootKeypair :: "build_env \<Rightarrow> build_flags \<Rightarrow> Keypair build" where
  "securebootKeypair env fl w =
     (if bf_sbKey fl \<noteq> [] \<and> bf_sbCert fl \<noteq> []
      then (w, wrapE LoadingKeys (Load w (bf_sbKey fl) (bf_sbCert fl)))
      else case LoadOrGenerate (en_newKeypair env) (en_save env) (bf_sbDir fl) w of
             (w', r) \<Rightarrow> (w', wrapE LoadingKeys (bindE r (\<lambda>(kp, _). Inr kp))))"

definition applySecureboot :: "build_env \<Rightarrow> build_flags \<Rightarrow> string \<Rightarrow> string \<Rightarrow> string build" where
  "applySecureboot env fl vmlinuz initramfs =
     andThen (securebootKeypair env fl) (\<lambda>kp.
     pureB (wrapE Signing
       (if bf_uki fl
        then BuildAndSignUKI (en_sha256 env) (en_parseKeypair env) (en_rsaSign env) vmlinuz initramfs [] kp
        else signPE (en_sha256 env) (en_parseKeypair env) (en_rsaSign env) vmlinuz kp)))"

definition effective_vmlinuz :: "build_env \<Rightarrow> build_flags \<Rightarrow> string \<Rightarrow> string \<Rightarrow> string build" where
  "effective_vmlinuz env fl vmlinuz initramfs =
     (if bf_secureboot fl \<or> bf_uki fl then applySecureboot env fl vmlinuz initramfs else pureB (Inr vmlinuz))"

text \<open>
  The hint added when the boot image is too large. Files of one size stand in an order the sort does
  not specify; here it is the order of the directives.
\<close>

definition describeOversizedShadowedCopies :: "ExtraFile list \<Rightarrow> string" where
  "describeOversizedShadowedCopies extraFiles =
     (let files = map (\<lambda>f. (xf_Path f, length (xf_Data f))) (filter (\<lambda>f. isShadowedPath (xf_Path f)) extraFiles) in
      if files = [] then
        ''no COPY/ADD destinations landed in stage 1'' @ [CHR 0x27] @ ''s tmpfs (bin/sbin/usr/bin/usr/sbin) -- '' @
        ''the kernel and/or BusyBox pieces themselves are what grew past the limit here''
      else
        ''largest COPY/ADD destinations shadowed into stage 1'' @ [CHR 0x27] @ ''s tmpfs '' @
        ''(bin/sbin/usr/bin/usr/sbin -- these are what pushed the EFI boot image past the limit):'' @ NLb @
        concat (map (\<lambda>(p, n). ''  '' @ p @ '' ('' @ nat_dec n @ '' bytes)'' @ NLb)
          (take 5 (sort_key (\<lambda>(_, n). - int n) files))) @
        (if 5 < length files then ''  ... and '' @ nat_dec (length files - 5) @ '' more'' @ NLb else []) @
        ''fix: either '' @ [CHR 0x22] @ ''FORMAT raw'' @ [CHR 0x22] @ '' (no El Torito size ceiling at all), '' @
        ''or move the file(s) above outside bin/sbin/usr/bin/usr/sbin'')"

definition write_raw :: "build_env \<Rightarrow> string \<Rightarrow> string \<Rightarrow> RawImage \<Rightarrow> host_world \<Rightarrow> host_world \<times> (raw_error + unit)" where
  "write_raw env root p img w =
     (let (ops, r) = rawimage_Write (en_diskOk env)
            (\<lambda>q. if q = en_rootPath env then Some (en_rootFile env root) else None) p img
      in (if list_ex (\<lambda>d. case d of CreateDisk q n \<Rightarrow> True | _ \<Rightarrow> False) ops
          then put_file w p (FileData (en_diskBytes env ops))
          else if list_ex (\<lambda>d. case d of RemoveOld q \<Rightarrow> True | _ \<Rightarrow> False) ops then put_file w p FileMissing
          else w, r))"

definition write_vhd :: "build_env \<Rightarrow> string \<Rightarrow> string \<Rightarrow> host_world \<Rightarrow> host_world \<times> (vhd_error + unit)" where
  "write_vhd env vhdPath rawPath w =
     (case writeFixedVHD
        \<lparr> vi_stat = (\<lambda>p. map_option (\<lambda>d. int (length d)) (read_file w p)), vi_open = read_file w,
          vi_create_ok = en_createOk env vhdPath, vi_copy_ok = en_copyOk env vhdPath,
          vi_append_ok = en_appendOk env vhdPath \<rparr>
        (en_stamp env) (en_uuid env) vhdPath rawPath of
        Inr bytes \<Rightarrow> (put_file w vhdPath (FileData bytes), Inr ())
      | Inl (VhdCopy p) \<Rightarrow> (put_file w vhdPath (FileData []), Inl (VhdCopy p))
      | Inl (VhdAppend p) \<Rightarrow> (put_file w vhdPath (w_read w rawPath), Inl (VhdAppend p))
      | Inl e \<Rightarrow> (w, Inl e))"

definition write_image ::
  "build_env \<Rightarrow> Nimbusfile \<Rightarrow> string \<Rightarrow> string \<Rightarrow> string \<Rightarrow> ExtraFile list \<Rightarrow> string \<Rightarrow> string \<Rightarrow> unit build" where
  "write_image env hf vmlinuz stage1 root extraFiles tmpDir partial w =
     (let raw = \<lparr> ri_Arch = nf_Arch hf, ri_Vmlinuz = vmlinuz, ri_InitramfsImg = stage1,
                  ri_SquashfsImgPath = en_rootPath env \<rparr> in
      if nf_Format hf = ''raw'' then
        (case write_raw env root partial raw w of (w', r) \<Rightarrow> (w', wrapE WritingRaw r))
      else if nf_Format hf = ''vhd'' then
        (let rawTmp = partial @ ''.rawtmp'' in
         case write_raw env root rawTmp raw w of
           (w1, Inl e) \<Rightarrow> (put_file w1 rawTmp FileMissing, Inl (WritingRaw e))
         | (w1, Inr _) \<Rightarrow>
             (case write_vhd env partial rawTmp w1 of
                (w2, r) \<Rightarrow> (put_file w2 rawTmp FileMissing, wrapE WritingVHD r)))
      else
        (let (ops, r) = isoimage_Write (en_isoOk env) (en_mkdirTemp env) (en_stat env) partial
               \<lparr> ii_VolumeLabel = en_toUpper env (nf_Hostname hf), ii_Arch = nf_Arch hf,
                 ii_IsolinuxBin = en_isolinux env, ii_LdlinuxC32 = en_ldlinux env,
                 ii_IsolinuxCfg = isolinuxCfg (nf_Hostname hf), ii_Vmlinuz = vmlinuz, ii_InitramfsImg = stage1,
                 ii_Metadata = cnimbusMetadataCfg env hf, ii_SquashfsImgPath = en_rootPath env,
                 ii_TmpDir = tmpDir \<rparr>
         in (if list_ex (\<lambda>d. case d of CreateOut q \<Rightarrow> True | _ \<Rightarrow> False) ops
             then put_file w partial (FileData (en_isoBytes env root ops)) else w,
             wrapE (\<lambda>e. WritingISO e (case e of
                 EFIPayloadTooLarge n \<Rightarrow> Some (describeOversizedShadowedCopies extraFiles) | _ \<Rightarrow> None)) r)))"

definition write_out ::
  "build_env \<Rightarrow> Nimbusfile \<Rightarrow> string \<Rightarrow> string \<Rightarrow> string \<Rightarrow> ExtraFile list \<Rightarrow> string \<Rightarrow> string \<Rightarrow> unit build" where
  "write_out env hf vmlinuz stage1 root extraFiles tmpDir out w =
     (let partial = out @ ''.partial'' in
      case write_image env hf vmlinuz stage1 root extraFiles tmpDir partial w of
        (w1, Inl e) \<Rightarrow> (put_file w1 partial FileMissing, Inl e)
      | (w1, Inr _) \<Rightarrow>
          if en_renameOk env
          then (put_file (put_file w1 out (w_read w1 partial)) partial FileMissing, Inr ())
          else (put_file w1 partial FileMissing, Inl (Renaming out)))"

definition sha256Hex :: "build_env \<Rightarrow> string \<Rightarrow> string" where
  "sha256Hex env d = go_hex_encode (en_sha256 env d)"

definition buildLockfilePath :: "string \<Rightarrow> string" where
  "buildLockfilePath out = out @ ''.lock''"

definition writeLockfile :: "build_env \<Rightarrow> string \<Rightarrow> BuildLock \<Rightarrow> unit build" where
  "writeLockfile env path lock w =
     (case en_marshal env lock of
        None \<Rightarrow> (w, Inl (LockWrite path))
      | Some data \<Rightarrow>
          (case writeFileAtomic (en_lockFault env) path (data @ NLb) w of
             (w', True) \<Rightarrow> (w', Inr ())
           | (w', False) \<Rightarrow> (w', Inl (LockWrite path))))"

definition opt_hash :: "build_env \<Rightarrow> string option \<Rightarrow> string" where
  "opt_hash env d = (case d of None \<Rightarrow> [] | Some s \<Rightarrow> sha256Hex env s)"

definition build_lock ::
  "build_env \<Rightarrow> build_flags \<Rightarrow> Nimbusfile \<Rightarrow> string \<Rightarrow> PieceSet \<Rightarrow> string \<Rightarrow> string \<Rightarrow> string \<Rightarrow> string \<Rightarrow> BuildLock" where
  "build_lock env fl hf src s vmlinuz out nimbusfileData img =
     \<lparr> bl_CnimbusVersion = en_version env, bl_BuiltAt = en_now env, bl_Nimbusfile = bf_nimbusfile fl,
       bl_NimbusfileSHA256 = sha256Hex env nimbusfileData, bl_Arch = nf_Arch hf, bl_Format = nf_Format hf,
       bl_PiecesSource = src, bl_VmlinuzSHA256 = sha256Hex env vmlinuz,
       bl_BusyboxSHA256 = sha256Hex env (set_BusyboxBinary s), bl_ManifestSHA256 = sha256Hex env (set_BusyboxManifest s),
       bl_IptablesSHA256 = opt_hash env (set_Iptables s), bl_SupplicantSHA256 = opt_hash env (set_Supplicant s),
       bl_AgentSHA256 = opt_hash env (map_option ra_Binary (build_agent env hf)),
       bl_PiecesHashesVerified = set_HashesVerified s, bl_OutputImage = out, bl_OutputImageSHA256 = sha256Hex env img \<rparr>"

definition lock_step ::
  "build_env \<Rightarrow> build_flags \<Rightarrow> Nimbusfile \<Rightarrow> string \<Rightarrow> PieceSet \<Rightarrow> string \<Rightarrow> string \<Rightarrow> unit build" where
  "lock_step env fl hf src s vmlinuz out w =
     (if bf_noLockfile fl then (w, Inr ())
      else case read_file w (bf_nimbusfile fl) of
             None \<Rightarrow> (w, Inl (LockManifest (bf_nimbusfile fl)))
           | Some nimbusfileData \<Rightarrow>
               (case read_file w out of
                  None \<Rightarrow> (w, Inl (LockImage out))
                | Some img \<Rightarrow>
                    writeLockfile env (buildLockfilePath out) (build_lock env fl hf src s vmlinuz out nimbusfileData img) w))"

section \<open>The command\<close>

definition resolve_step :: "build_env \<Rightarrow> build_flags \<Rightarrow> string \<Rightarrow> Nimbusfile \<Rightarrow> string option \<Rightarrow> PieceSet build" where
  "resolve_step env fl src hf key w =
     (case Resolve (en_sha256 env) (en_verify env) (en_parseProv env) w src (nf_Arch hf) (build_options fl key) of
        Inl e \<Rightarrow> (w, Inl (Resolving e))
      | Inr (s, ops) \<Rightarrow> (run_ops ops w, Inr s))"

definition images_step :: "build_env \<Rightarrow> Nimbusfile \<Rightarrow> PieceSet \<Rightarrow> build_error + (ExtraFile list \<times> string \<times> string)" where
  "images_step env hf s =
     bindE (wrapE Copying (resolveCopies (en_host env) hf)) (\<lambda>copied.
     let extraFiles = copied @ [releaseFile env hf] in
     bindE (wrapE BuildingImages (BuildImages (en_gzip env) (en_squashfs env) (build_spec env hf s extraFiles)))
       (\<lambda>(stage1, root). Inr (extraFiles, stage1, root)))"

definition runBuild :: "build_env \<Rightarrow> build_flags \<Rightarrow> unit build" where
  "runBuild env fl =
     andThen (pureB (if (bf_sbKey fl = []) \<noteq> (bf_sbCert fl = []) then Inl KeyWithoutCert else Inr ())) (\<lambda>_.
     andThen (pureB (choose_pieces env fl)) (\<lambda>src.
     andThen (\<lambda>w. (w, build_manifest fl w)) (\<lambda>hf.
     let out = build_out fl hf; tmpDir = build_tmpDir fl out in
     andThen (pureB (build_verifyKey fl hf)) (\<lambda>key.
     andThen (resolve_step env fl src hf key) (\<lambda>s.
     andThen (pureB (check_provenance hf (set_Provenance s))) (\<lambda>_.
     andThen (pureB (images_step env hf s)) (\<lambda>(extraFiles, stage1, root).
     andThen (effective_vmlinuz env fl (set_Vmlinuz s) stage1) (\<lambda>vmlinuz.
     andThen (write_out env hf vmlinuz stage1 root extraFiles tmpDir out) (\<lambda>_.
     lock_step env fl hf src s vmlinuz out)))))))))"

section \<open>The output file\<close>

lemma write_raw_other: "q \<noteq> p \<Longrightarrow> w_read (fst (write_raw env root p img w)) q = w_read w q"
  by (simp add: write_raw_def case_prod_unfold Let_def)

lemma write_vhd_other: "q \<noteq> p \<Longrightarrow> w_read (fst (write_vhd env p raw w)) q = w_read w q"
  by (simp add: write_vhd_def split: sum.splits vhd_error.splits)

lemma write_image_other:
  assumes "write_image env hf v i root fs tmp p w = (w', r)" and "q \<noteq> p" and "q \<noteq> p @ ''.rawtmp''"
  shows "w_read w' q = w_read w q"
proof -
  let ?raw = "\<lparr> ri_Arch = nf_Arch hf, ri_Vmlinuz = v, ri_InitramfsImg = i, ri_SquashfsImgPath = en_rootPath env \<rparr>"
  consider "nf_Format hf = ''raw''" | "nf_Format hf = ''vhd''" | "nf_Format hf \<noteq> ''raw''" "nf_Format hf \<noteq> ''vhd''"
    by blast
  then show ?thesis
  proof cases
    case 1
    with assms write_raw_other [of q p env root ?raw w] show ?thesis
      by (auto simp: write_image_def Let_def split: prod.splits)
  next
    case 2
    obtain w1 r1 where a: "write_raw env root (p @ ''.rawtmp'') ?raw w = (w1, r1)" by fastforce
    have w1: "w_read w1 q = w_read w q"
      using write_raw_other [of q "p @ ''.rawtmp''" env root ?raw w] assms(3) by (simp add: a)
    show ?thesis
    proof (cases r1)
      case (Inl e)
      with 2 assms a w1 show ?thesis by (auto simp: write_image_def Let_def)
    next
      case (Inr u)
      obtain w2 r2 where b: "write_vhd env p (p @ ''.rawtmp'') w1 = (w2, r2)" by fastforce
      have "w_read w2 q = w_read w1 q"
        using write_vhd_other [of q p env "p @ ''.rawtmp''" w1] assms(2) by (simp add: b)
      with 2 assms a w1 b Inr show ?thesis by (auto simp: write_image_def Let_def)
    qed
  next
    case 3
    with assms show ?thesis
      by (auto simp: write_image_def Let_def split: prod.splits)
  qed
qed


end
