(* ===== verification/Build_Trust.thy ===== *)
theory Build_Trust
  imports Build
begin

text \<open>
  What a build that succeeds has done: the pieces it used were verified and fit the manifest, the
  image holds what was assembled from them, and the lock file describes that image.
\<close>

section \<open>The steps of a successful build\<close>

lemma runBuild_steps:
  assumes "runBuild env fl w = (w', Inr ())"
  obtains src hf key s w1 extra stage1 root vmlinuz w2 w3 where
    "choose_pieces env fl = Inr src" and "build_manifest fl w = Inr hf" and "build_verifyKey fl hf = Inr key"
    and "resolve_step env fl src hf key w = (w1, Inr s)" and "check_provenance hf (set_Provenance s) = Inr ()"
    and "images_step env hf s = Inr (extra, stage1, root)"
    and "effective_vmlinuz env fl (set_Vmlinuz s) stage1 w1 = (w2, Inr vmlinuz)"
    and "write_out env hf vmlinuz stage1 root extra (build_tmpDir fl (build_out fl hf)) (build_out fl hf) w2 = (w3, Inr ())"
    and "lock_step env fl hf src s vmlinuz (build_out fl hf) w3 = (w', Inr ())"
  using assms unfolding runBuild_def Let_def
  by (auto simp: andThen_Inr pureB_Inr split: if_splits)

lemma resolve_step_Inr:
  "resolve_step env fl src hf key w = (w1, Inr s) \<longleftrightarrow>
   (\<exists>ops. Resolve (en_sha256 env) (en_verify env) (en_parseProv env) w src (nf_Arch hf) (build_options fl key) = Inr (s, ops) \<and>
      w1 = run_ops ops w)"
  by (auto simp: resolve_step_def split: sum.splits prod.splits)

lemma check_provenance_Inr:
  "check_provenance hf (Some p) = Inr () \<longleftrightarrow>
   (prov_Arch p = [] \<or> prov_Arch p = nf_Arch hf) \<and> prov_VGA p = nf_VGA hf \<and>
   (if prov_BootProfile p = [] then ''none'' else prov_BootProfile p) = nf_BootProfile hf"
  by (auto simp: check_provenance_def Let_def)

lemma images_step_Inr:
  "images_step env hf s = Inr (extra, stage1, root) \<longleftrightarrow>
   (\<exists>copied. resolveCopies (en_host env) hf = Inr copied \<and> extra = copied @ [releaseFile env hf] \<and>
      BuildImages (en_gzip env) (en_squashfs env) (build_spec env hf s extra) = Inr (stage1, root))"
  by (auto simp: images_step_def Let_def bindE_Inr_iff)

lemma build_verifyKey_flag:
  "bf_verifyKey fl \<noteq> [] \<Longrightarrow> build_verifyKey fl hf = Inr key \<longleftrightarrow>
   (\<exists>k. ParsePublicKeyHex (bf_verifyKey fl) = Inr k \<and> key = Some k)"
  by (auto simp: build_verifyKey_def bindE_Inr_iff)

lemma write_raw_Inr:
  assumes "write_raw env root p img w = (w', Inr ())"
  obtains ops where "rawimage_Write (en_diskOk env) (\<lambda>q. if q = en_rootPath env then Some (en_rootFile env root) else None) p img
      = (ops, Inr ())" and "w' = put_file w p (FileData (en_diskBytes env ops))"
proof -
  let ?src = "\<lambda>q. if q = en_rootPath env then Some (en_rootFile env root) else None"
  obtain ops where r: "rawimage_Write (en_diskOk env) ?src p img = (ops, Inr ())"
    using assms by (auto simp: write_raw_def Let_def split: prod.splits)
  from r obtain n where "CreateDisk p n \<in> set ops"
  proof (rule rawimage_Write_calls)
    fix boot src
    assume "ops = (let l = raw_layout img (sf_size src) in
      [RemoveOld p, CreateDisk p (dl_diskSize l), WriteGPT (raw_partitions l), FormatESP, MkdirESP ''/EFI'',
       MkdirESP ''/EFI/BOOT''] @
      [OpenESP (''/EFI/BOOT/'' @ boot), WriteESP (''/EFI/BOOT/'' @ boot) (ri_Vmlinuz img), CloseESP (''/EFI/BOOT/'' @ boot)] @
      [OpenESP ''/EFI/BOOT/INITRD.IMG'', WriteESP ''/EFI/BOOT/INITRD.IMG'' (ri_InitramfsImg img),
       CloseESP ''/EFI/BOOT/INITRD.IMG''] @
      (OpenRootSource (ri_SquashfsImgPath img) #
       OpenRootPartition (wrap64 (dl_rootStart l * sectorSize)) (wrap64 (dl_rootSectors l * sectorSize)) #
       root_writes 0 (sf_chunks src)) @ [CloseDisk])"
    then have "CreateDisk p (dl_diskSize (raw_layout img (sf_size src))) \<in> set ops" by (simp add: Let_def)
    then show ?thesis by (rule that)
  qed
  then have "list_ex (\<lambda>d. case d of CreateDisk q n \<Rightarrow> True | _ \<Rightarrow> False) ops"
    by (force simp: list_ex_iff)
  with assms r have "w' = put_file w p (FileData (en_diskBytes env ops))"
    by (simp add: write_raw_def Let_def)
  with r show ?thesis by (rule that)
qed

text \<open>
  A build with FORMAT vhd that succeeds leaves a fixed VHD: the bytes of a completely
  written raw disk, followed by the footer for exactly that length.
\<close>

theorem vhd_output:
  assumes "nf_Format hf = ''vhd''" and "write_out env hf v i root fs tmp out w = (w', Inr ())"
  shows "\<exists>ops footer. let raw = en_diskBytes env ops in
     rawimage_Write (en_diskOk env) (\<lambda>q. if q = en_rootPath env then Some (en_rootFile env root) else None)
       (out @ ''.partial.rawtmp'') \<lparr> ri_Arch = nf_Arch hf, ri_Vmlinuz = v, ri_InitramfsImg = i,
         ri_SquashfsImgPath = en_rootPath env \<rparr> = (ops, Inr ()) \<and>
     vhdFooter (en_stamp env) (en_uuid env) (int (length raw)) = Inr footer \<and>
     w_read w' out = FileData (raw @ footer)"
proof -
  let ?p = "out @ ''.partial''"
  let ?r = "out @ ''.partial.rawtmp''"
  let ?img = "\<lparr> ri_Arch = nf_Arch hf, ri_Vmlinuz = v, ri_InitramfsImg = i, ri_SquashfsImgPath = en_rootPath env \<rparr>"
  have tmp: "?p @ ''.rawtmp'' = ?r" by simp
  obtain w1 where wi: "write_image env hf v i root fs tmp ?p w = (w1, Inr ())"
    and w': "w' = put_file (put_file w1 out (w_read w1 ?p)) ?p FileMissing"
    using assms(2) by (auto simp: write_out_def Let_def split: prod.splits sum.splits if_splits)
  obtain w2 where raw: "write_raw env root ?r ?img w = (w2, Inr ())"
    using wi assms(1) by (auto simp: write_image_def Let_def split: prod.splits sum.splits)
  obtain w3 where vhd: "write_vhd env ?p ?r w2 = (w3, Inr ())" and w1: "w1 = put_file w3 ?r FileMissing"
    using wi assms(1) raw by (auto simp: write_image_def Let_def wrapE_Inr_iff split: prod.splits)
  from raw obtain ops where ops: "rawimage_Write (en_diskOk env)
      (\<lambda>q. if q = en_rootPath env then Some (en_rootFile env root) else None) ?r ?img = (ops, Inr ())"
    and w2: "w2 = put_file w ?r (FileData (en_diskBytes env ops))"
    by (rule write_raw_Inr)
  have rd: "read_file w2 ?r = Some (en_diskBytes env ops)" by (simp add: w2 read_file_def)
  obtain footer where f: "vhdFooter (en_stamp env) (en_uuid env) (int (length (en_diskBytes env ops))) = Inr footer"
    and w3: "w3 = put_file w2 ?p (FileData (en_diskBytes env ops @ footer))"
    using vhd by (auto simp: write_vhd_def writeFixedVHD_def rd bindE_Inr_iff split: sum.splits vhd_error.splits)
  have "w_read w' out = FileData (en_diskBytes env ops @ footer)" by (simp add: w' w1 w3)
  with ops f show ?thesis by (auto simp: Let_def)
qed

section \<open>What went into the image\<close>

definition bw_files :: "(string \<times> string) list" where
  "bw_files =
     [(''/n/Nimbusfile'', ''HOSTNAME web'' @ NLb @ ''FORMAT vhd'' @ NLb),
      (''/p/amd64/pieces.sha256'', pub_manifest), (''/p/amd64/pieces.sha256.sig'', replicate 64 (CHR ''7'')),
      (''/p/amd64/vmlinuz'', ''k''), (''/p/amd64/busybox'', ''b''),
      (''/p/amd64/busybox-manifest.tsv'', ''bin/ls'' @ [CHR 0x09] @ ''busybox'')]"

definition bw :: host_world where
  "bw = \<lparr> w_get = (\<lambda>u. HttpFailed), w_read = (\<lambda>p. case map_of bw_files p of None \<Rightarrow> FileMissing | Some d \<Rightarrow> FileData d) \<rparr>"

definition benv :: build_env where
  "benv = \<lparr> en_host = example_host, en_defaultPieces = False, en_sha256 = ex_sha, en_verify = pub_verify,
     en_parseProv = ex_prov, en_gzip = (\<lambda>s. ''gz''), en_squashfs = (\<lambda>spec fs. Inr ''hsqs''), en_rootPath = ''/t/root'',
     en_rootFile = (\<lambda>d. \<lparr> sf_size = int (length d), sf_chunks = [d], sf_read_ok = True \<rparr>),
     en_newKeypair = None, en_save = calm_env, en_parseKeypair = (\<lambda>k. None), en_rsaSign = (\<lambda>k d. None),
     en_agentAmd64 = ''A'', en_agentArm64 = ''B'', en_isolinux = ''I'', en_ldlinux = ''L'', en_toUpper = (\<lambda>s. s),
     en_version = ''dev'', en_now = ''2024-01-01T00:00:00Z'', en_isoOk = (\<lambda>p. True), en_mkdirTemp = (\<lambda>d. Some (d @ ''/ws'')),
     en_stat = (\<lambda>p. Some 9000000), en_isoBytes = (\<lambda>r ops. ''iso''), en_diskOk = (\<lambda>p. True),
     en_diskBytes = (\<lambda>ops. replicate 512 (CHR ''d'')), en_stamp = 7, en_uuid = Some ''0123456789abcdef'',
     en_createOk = (\<lambda>p. True), en_copyOk = (\<lambda>p. True), en_appendOk = (\<lambda>p. True), en_renameOk = True,
     en_marshal = (\<lambda>l. Some (bl_OutputImage l)), en_lockFault = NoFault \<rparr>"

definition bflags :: build_flags where
  "bflags = \<lparr> bf_nimbusfile = ''/n/Nimbusfile'', bf_out = [], bf_pieces = ''/p'', bf_arch = [], bf_insecureHTTP = False,
     bf_cacheDir = [], bf_noCache = False, bf_allowUnverified = False, bf_verifyKey = replicate 64 (CHR ''7''),
     bf_buildArgs = Map.empty, bf_noLockfile = False, bf_tmpDir = [], bf_secureboot = False, bf_uki = False,
     bf_sbKey = [], bf_sbCert = [], bf_sbDir = ''./secureboot'' \<rparr>"

lemma bw_manifest: "build_manifest bflags bw = Inr (default_nimbusfile ''/n'' \<lparr> nf_Hostname := ''web'', nf_Format := ''vhd'',
    nf_NTP := [''pool.ntp.org''] \<rparr>)"
  by code_simp

lemma bw_key: "build_verifyKey bflags hf = Inr (Some (replicate 32 (CHR ''w'')))"
proof -
  have "ParsePublicKeyHex (bf_verifyKey bflags) = Inr (replicate 32 (CHR ''w''))" by code_simp
  then show ?thesis by (simp add: build_verifyKey_flag bflags_def)
qed

definition bset :: PieceSet where
  "bset = \<lparr> set_Vmlinuz = ''k'', set_BusyboxBinary = ''b'',
     set_BusyboxApplets = [\<lparr> applet_Path = ''bin/ls'', applet_Target = ''busybox'' \<rparr>],
     set_BusyboxManifest = ''bin/ls'' @ [CHR 0x09] @ ''busybox'', set_Iptables = None, set_Supplicant = None,
     set_WifiFirmware = None, set_EthernetFirmware = None, set_HashesVerified = True, set_Provenance = None \<rparr>"

lemma bw_resolves: "Resolve ex_sha pub_verify ex_prov bw ''/p'' ''amd64''
    (build_options bflags (Some (replicate 32 (CHR ''w'')))) = Inr (bset, [])"
  by code_simp

definition bhf :: Nimbusfile where
  "bhf = default_nimbusfile ''/n'' \<lparr> nf_Hostname := ''web'', nf_Format := ''vhd'', nf_NTP := [''pool.ntp.org''] \<rparr>"

definition bspec :: PiecesSpec where
  "bspec = build_spec benv bhf bset [releaseFile benv bhf]"

lemma bspec_fits: "checkShadowedFilesFitTmpfs (fst (image_files bspec)) (ps_BusyboxBinary bspec) (ps_TmpfsSize bspec) = Inr ()"
  by code_simp

definition bstage1 :: string where
  "bstage1 = buildStage1Initramfs (en_gzip benv) (ps_BusyboxBinary bspec) (ps_BusyboxApplets bspec) (fst (image_files bspec))
     (mergeFirmwareMaps (ps_WifiFirmware bspec) (ps_EthernetFirmware bspec)) (ps_TmpfsSize bspec)"

lemma bw_images: "images_step benv bhf bset = Inr ([releaseFile benv bhf], bstage1, ''hsqs'')"
proof -
  have c: "resolveCopies (en_host benv) bhf = Inr []"
    by (simp add: resolveCopies_def bhf_def default_nimbusfile_def)
  have h: "ps_Hostname bspec \<noteq> []" by (simp add: bspec_def build_spec_def bhf_def)
  have "BuildImages (en_gzip benv) (en_squashfs benv) bspec = Inr (bstage1, ''hsqs'')"
    using h by (simp add: BuildImages_def Let_def case_prod_unfold bspec_fits bstage1_def) (simp add: benv_def)
  then show ?thesis by (simp add: images_step_Inr c bspec_def)
qed

lemma bw_image_calls:
  "\<exists>ops. rawimage_Write (en_diskOk benv) (\<lambda>q. if q = en_rootPath benv then Some (en_rootFile benv r) else None) p
     \<lparr> ri_Arch = ''amd64'', ri_Vmlinuz = v, ri_InitramfsImg = i, ri_SquashfsImgPath = en_rootPath benv \<rparr> = (ops, Inr ())"
proof -
  let ?w = "rawimage_Write (en_diskOk benv) (\<lambda>q. if q = en_rootPath benv then Some (en_rootFile benv r) else None) p
     \<lparr> ri_Arch = ''amd64'', ri_Vmlinuz = v, ri_InitramfsImg = i, ri_SquashfsImgPath = en_rootPath benv \<rparr>"
  have ok: "en_diskOk benv = (\<lambda>p. True)" by (simp add: benv_def)
  have "snd ?w = Inr ()"
    unfolding rawimage_Write_def ok
    by (simp add: raw_efiBootFileName_def Let_def snd_then_calls run_calls_Inr writeESPFile_def writeRootPartition_def)
      (simp add: benv_def)
  then show ?thesis by (metis prod.collapse)
qed

lemma bw_raw:
  assumes "ri_Arch img = ''amd64''" and "ri_SquashfsImgPath img = en_rootPath benv"
  shows "write_raw benv r p img w = (put_file w p (FileData (replicate 512 (CHR ''d''))), Inr ())"
proof -
  have "img = \<lparr> ri_Arch = ''amd64'', ri_Vmlinuz = ri_Vmlinuz img, ri_InitramfsImg = ri_InitramfsImg img,
      ri_SquashfsImgPath = en_rootPath benv \<rparr>"
    using assms by simp
  then obtain ops where "rawimage_Write (en_diskOk benv) (\<lambda>q. if q = en_rootPath benv then Some (en_rootFile benv r) else None) p img
      = (ops, Inr ())"
    using bw_image_calls by metis
  then have "snd (write_raw benv r p img w) = Inr ()" by (simp add: write_raw_def)
  then have w': "write_raw benv r p img w = (fst (write_raw benv r p img w), Inr ())" by (metis prod.collapse)
  then show ?thesis
  proof (rule write_raw_Inr)
    fix ops
    assume "fst (write_raw benv r p img w) = put_file w p (FileData (en_diskBytes benv ops))"
    with w' show ?thesis by (simp add: benv_def)
  qed
qed

definition bfooter :: string where
  "bfooter = projr (vhdFooter 7 (Some ''0123456789abcdef'') 512)"

lemma bw_footer: "vhdFooter 7 (Some ''0123456789abcdef'') 512 = Inr bfooter"
  by (simp add: bfooter_def vhdFooter_def Let_def)

lemma bw_written:
  "\<exists>w3. write_out benv bhf v i r fs tmp ''web.vhd'' w = (w3, Inr ()) \<and>
     w_read w3 ''web.vhd'' = FileData (replicate 512 (CHR ''d'') @ bfooter) \<and>
     w_read w3 ''/n/Nimbusfile'' = w_read w ''/n/Nimbusfile''"
proof -
  let ?img = "\<lparr> ri_Arch = nf_Arch bhf, ri_Vmlinuz = v, ri_InitramfsImg = i, ri_SquashfsImgPath = en_rootPath benv \<rparr>"
  let ?w1 = "put_file w ''web.vhd.partial.rawtmp'' (FileData (replicate 512 (CHR ''d'')))"
  let ?w2 = "put_file ?w1 ''web.vhd.partial'' (FileData (replicate 512 (CHR ''d'') @ bfooter))"
  have fmt: "nf_Format bhf = ''vhd''" and ar: "nf_Arch bhf = ''amd64''" by (simp_all add: bhf_def default_nimbusfile_def)
  have rd: "read_file ?w1 ''web.vhd.partial.rawtmp'' = Some (replicate 512 (CHR ''d''))"
    by (simp add: read_file_def)
  have "writeFixedVHD \<lparr> vi_stat = (\<lambda>p. map_option (\<lambda>d. int (length d)) (read_file ?w1 p)), vi_open = read_file ?w1,
      vi_create_ok = True, vi_copy_ok = True, vi_append_ok = True \<rparr> 7 (Some ''0123456789abcdef'')
      ''web.vhd.partial'' ''web.vhd.partial.rawtmp'' = Inr (replicate 512 (CHR ''d'') @ bfooter)"
    by (simp add: writeFixedVHD_def rd bw_footer guardE_def)
  then have v: "write_vhd benv ''web.vhd.partial'' ''web.vhd.partial.rawtmp'' ?w1 = (?w2, Inr ())"
    by (simp add: write_vhd_def benv_def)
  have "write_image benv bhf v i r fs tmp ''web.vhd.partial'' w = (put_file ?w2 ''web.vhd.partial.rawtmp'' FileMissing, Inr ())"
    using fmt bw_raw [of ?img r "''web.vhd.partial.rawtmp''" w] ar v
    by (simp add: write_image_def Let_def)
  then have "write_out benv bhf v i r fs tmp ''web.vhd'' w =
      (put_file (put_file (put_file ?w2 ''web.vhd.partial.rawtmp'' FileMissing) ''web.vhd'' (FileData (replicate 512 (CHR ''d'') @ bfooter)))
         ''web.vhd.partial'' FileMissing, Inr ())"
    by (simp add: write_out_def Let_def) (simp add: benv_def)
  then show ?thesis by (intro exI conjI) (assumption, simp_all)
qed

lemma bw_build: "\<exists>w'. runBuild benv bflags bw = (w', Inr ())"
proof -
  obtain w3 where w3: "write_out benv bhf ''k'' bstage1 ''hsqs'' [releaseFile benv bhf] (build_tmpDir bflags (build_out bflags bhf))
      ''web.vhd'' bw = (w3, Inr ())"
    "w_read w3 ''web.vhd'' = FileData (replicate 512 (CHR ''d'') @ bfooter)"
    "w_read w3 ''/n/Nimbusfile'' = w_read bw ''/n/Nimbusfile''"
    using bw_written by blast
  have man: "build_manifest bflags bw = Inr bhf" by (simp only: bw_manifest bhf_def)
  have out: "build_out bflags bhf = ''web.vhd''" by (simp add: build_out_def bflags_def bhf_def)
  have src: "choose_pieces benv bflags = Inr ''/p''" by (simp add: choose_pieces_def bflags_def)
  have res: "resolve_step benv bflags ''/p'' bhf (Some (replicate 32 (CHR ''w''))) bw = (bw, Inr bset)"
    using bw_resolves by (simp add: resolve_step_def benv_def bhf_def default_nimbusfile_def)
  have prov: "check_provenance bhf (set_Provenance bset) = Inr ()" by (simp add: check_provenance_def bset_def)
  have vm: "effective_vmlinuz benv bflags (set_Vmlinuz bset) i bw = (bw, Inr ''k'')" for i
    by (simp add: effective_vmlinuz_def bflags_def pureB_def bset_def)
  have rd: "read_file w3 (bf_nimbusfile bflags) = Some (''HOSTNAME web'' @ NLb @ ''FORMAT vhd'' @ NLb)"
    by (simp add: read_file_def bflags_def w3(3)) (simp add: bw_def bw_files_def)
  have lock: "\<exists>w'. lock_step benv bflags bhf ''/p'' bset ''k'' ''web.vhd'' w3 = (w', Inr ())"
    using rd w3(2) by (simp add: lock_step_def read_file_def writeLockfile_def writeFileAtomic_def Let_def benv_def bflags_def)
  have kc: "((bf_sbKey bflags = []) \<noteq> (bf_sbCert bflags = [])) = False" by (simp add: bflags_def)
  show ?thesis
    using lock unfolding runBuild_def kc
    by (simp add: andThen_def pureB_def src man bw_key res prov bw_images vm out w3(1) [unfolded out] Let_def)
qed



text \<open>
  The lock file of a build describes what was built: it names the output image and holds
  the SHA-256 of the bytes now at that path and of the kernel that was shipped.
\<close>

theorem lock_describes_output:
  assumes "runBuild env fl w = (w', Inr ())" and "\<not> bf_noLockfile fl"
  shows "\<exists>hf lock data img (s :: PieceSet) stage1 vmlinuz w1 w2. build_manifest fl w = Inr hf \<and>
    en_marshal env lock = Some data \<and>
    w_read w' (build_out fl hf @ ''.lock'') = FileData (data @ NLb) \<and>
    w_read w' (build_out fl hf) = FileData img \<and>
    bl_OutputImage lock = build_out fl hf \<and> bl_OutputImageSHA256 lock = sha256Hex env img \<and>
    effective_vmlinuz env fl (set_Vmlinuz s) stage1 w1 = (w2, Inr vmlinuz) \<and>
    bl_VmlinuzSHA256 lock = sha256Hex env vmlinuz \<and> bl_PiecesHashesVerified lock = set_HashesVerified s"
  using assms(1)
proof (rule runBuild_steps)
  fix src hf key s w1 extra stage1 root vmlinuz w2 w3
  assume *: "build_manifest fl w = Inr hf" "effective_vmlinuz env fl (set_Vmlinuz s) stage1 w1 = (w2, Inr vmlinuz)"
    "lock_step env fl hf src s vmlinuz (build_out fl hf) w3 = (w', Inr ())"
  let ?out = "build_out fl hf"
  obtain m img where m: "read_file w3 (bf_nimbusfile fl) = Some m" "read_file w3 ?out = Some img"
    and wl: "writeLockfile env (?out @ ''.lock'') (build_lock env fl hf src s vmlinuz ?out m img) w3 = (w', Inr ())"
    using *(3) assms(2) by (auto simp: lock_step_def buildLockfilePath_def split: option.splits)
  obtain data where d: "en_marshal env (build_lock env fl hf src s vmlinuz ?out m img) = Some data"
    and wa: "writeFileAtomic (en_lockFault env) (?out @ ''.lock'') (data @ NLb) w3 = (w', True)"
    using wl by (auto simp: writeLockfile_def split: option.splits prod.splits bool.splits)
  have w': "w' = put_file (put_file (put_file w3 (?out @ ''.lock.tmp'') (FileData (data @ NLb))) (?out @ ''.lock'')
      (FileData (data @ NLb))) (?out @ ''.lock.tmp'') FileMissing"
    using wa by (auto simp: writeFileAtomic_def Let_def split: write_fault.splits)
  have "w_read w3 ?out = FileData img" using m(2) by (auto simp: read_file_def split: file_reply.splits)
  then have out: "w_read w' ?out = FileData img" by (simp add: w')
  have lk: "w_read w' (?out @ ''.lock'') = FileData (data @ NLb)" by (simp add: w')
  obtain lock where lock: "lock = build_lock env fl hf src s vmlinuz ?out m img" by blast
  then have "bl_OutputImage lock = ?out" "bl_OutputImageSHA256 lock = sha256Hex env img"
    "bl_VmlinuzSHA256 lock = sha256Hex env vmlinuz" "bl_PiecesHashesVerified lock = set_HashesVerified s"
    by (simp_all add: build_lock_def)
  with *(1,2) d [folded lock] out lk show ?thesis by blast
qed

theorem lock_describes_output_witness:
  "\<exists>w' img. runBuild benv bflags bw = (w', Inr ()) \<and> w_read w' ''web.vhd'' = FileData img"
proof -
  obtain w' where run: "runBuild benv bflags bw = (w', Inr ())" using bw_build by blast
  have nl: "\<not> bf_noLockfile bflags" by (simp add: bflags_def)
  have out: "build_out bflags bhf = ''web.vhd''" by (simp add: build_out_def bflags_def bhf_def)
  from lock_describes_output [OF run nl] obtain hf img where
    "build_manifest bflags bw = Inr hf" "w_read w' (build_out bflags hf) = FileData img"
    by blast
  with bw_manifest have "w_read w' ''web.vhd'' = FileData img" using out by (simp add: bhf_def)
  with run show ?thesis by blast
qed

theorem vhd_output_witness:
  "\<exists>w3 ops footer. write_out benv bhf ''k'' ''i'' ''hsqs'' [] ''.'' ''web.vhd'' bw = (w3, Inr ()) \<and>
     w_read w3 ''web.vhd'' = FileData (en_diskBytes benv ops @ footer) \<and> vhdFooter 7 (Some ''0123456789abcdef'') 512 = Inr footer"
proof -
  obtain w3 where w3: "write_out benv bhf ''k'' ''i'' ''hsqs'' [] ''.'' ''web.vhd'' bw = (w3, Inr ())"
    using bw_written by blast
  have f: "nf_Format bhf = ''vhd''" by (simp add: bhf_def)
  have "en_stamp benv = 7" "en_uuid benv = Some ''0123456789abcdef''" "int (length (en_diskBytes benv ops)) = 512" for ops
    by (simp_all add: benv_def)
  with vhd_output [OF f w3] w3 show ?thesis by (auto simp: Let_def)
qed


end
