(* ===== verification/Extract.thy ===== *)
theory Extract
  imports Copies Go_Calls Go_Int
begin

text \<open>
  Unpacking a source archive (internal/compileagent/fetch.go, lines 308 to 475): the calls an
  extraction makes for each tar entry, the join that keeps entry names below the destination, and
  what it does not keep: a symbolic link made by one entry is followed by the next.

  The decompressors and the tar reader are the standard library's and a third-party package's; the
  archive is what they yield, entry by entry.
\<close>

datatype tar_type = TypeDir | TypeReg | TypeSymlink | TypeElse

record tar_header =
  th_Name :: string
  th_Type :: tar_type
  th_Size :: int
  th_Mode :: int
  th_Linkname :: string
  th_ModTime :: int

text \<open>An entry with the data that reading it yields, None if the reading fails; or a broken archive.\<close>

datatype tar_item = TarEntry tar_header "string option" | TarBroken

datatype extract_op =
    XMkdirAll string
  | XOpenFile string nat
  | XCopy string string
  | XClose string
  | XChtimes string int
  | XRemove string
  | XSymlink string string

datatype extract_error =
    XFailed extract_op
  | XOpenArchive string
  | XUnknownKind string
  | XReadingTar
  | XEscapes string string
  | XTooLarge string int
  | XReadData string

type_synonym extract_run = "(extract_op, extract_error) run"

abbreviation x_calls :: "(extract_op \<Rightarrow> bool) \<Rightarrow> extract_op list \<Rightarrow> extract_run" where
  "x_calls \<equiv> run_calls XFailed"

definition maxExtractedFileSize :: int where
  "maxExtractedFileSize = 2 ^ 30"

definition stripFirstComponent :: "string \<Rightarrow> string" where
  "stripFirstComponent n = drop 1 (dropWhile (\<lambda>c. c \<noteq> CHR ''/'') n)"

definition safeJoin :: "string \<Rightarrow> string \<Rightarrow> string option" where
  "safeJoin base rel =
     (let target = go_path_join [base, rel]; baseClean = go_clean base @ ''/''
      in if target \<noteq> go_clean base \<and> \<not> go_has_prefix (go_clean target @ ''/'') baseClean then None
         else Some target)"

definition extract_reg :: "(extract_op \<Rightarrow> bool) \<Rightarrow> string \<Rightarrow> tar_header \<Rightarrow> string option \<Rightarrow> extract_run" where
  "extract_reg ok target hdr data =
     (if maxExtractedFileSize < th_Size hdr then stop_with (XTooLarge (th_Name hdr) (th_Size hdr))
      else then_calls (x_calls ok [XMkdirAll (go_dir target), XOpenFile target (nat (th_Mode hdr mod 512))])
        (case data of
           None \<Rightarrow> stop_with (XReadData (th_Name hdr))
         | Some d \<Rightarrow> x_calls ok [XCopy target d, XClose target, XChtimes target (th_ModTime hdr)]))"

definition extract_symlink :: "(extract_op \<Rightarrow> bool) \<Rightarrow> string \<Rightarrow> tar_header \<Rightarrow> extract_run" where
  "extract_symlink ok target hdr =
     then_calls (x_calls ok [XMkdirAll (go_dir target)])
       (then_calls ([XRemove target], Inr ()) (x_calls ok [XSymlink (th_Linkname hdr) target]))"

fun extract_entries ::
  "(extract_op \<Rightarrow> bool) \<Rightarrow> string \<Rightarrow> (string \<times> int) list \<Rightarrow> tar_item list \<Rightarrow> extract_run" where
  "extract_entries ok destDir dirTimes [] = x_calls ok (map (\<lambda>(p, t). XChtimes p t) dirTimes)"
| "extract_entries ok destDir dirTimes (TarBroken # es) = stop_with XReadingTar"
| "extract_entries ok destDir dirTimes (TarEntry hdr data # es) =
     (let relPath = stripFirstComponent (th_Name hdr) in
      if relPath = [] then extract_entries ok destDir dirTimes es
      else case safeJoin destDir relPath of
             None \<Rightarrow> stop_with (XEscapes (th_Name hdr) relPath)
           | Some target \<Rightarrow>
               (case th_Type hdr of
                  TypeDir \<Rightarrow> then_calls (x_calls ok [XMkdirAll target])
                    (extract_entries ok destDir (dirTimes @ [(target, th_ModTime hdr)]) es)
                | TypeReg \<Rightarrow> then_calls (extract_reg ok target hdr data) (extract_entries ok destDir dirTimes es)
                | TypeSymlink \<Rightarrow> then_calls (extract_symlink ok target hdr) (extract_entries ok destDir dirTimes es)
                | TypeElse \<Rightarrow> extract_entries ok destDir dirTimes es))"

text \<open>
  The decompressors are given by their kind; each yields the stream or, for one whose header is
  read at once, an error. \<^verbatim>\<open>untar\<close> is the tar reader.
\<close>

record archive_env =
  ar_open :: "string \<Rightarrow> string option"
  ar_xz :: "string \<Rightarrow> string option"
  ar_bzip2 :: "string \<Rightarrow> string"
  ar_gzip :: "string \<Rightarrow> string option"
  ar_untar :: "string \<Rightarrow> tar_item list"

definition extractTarball ::
  "archive_env \<Rightarrow> (extract_op \<Rightarrow> bool) \<Rightarrow> string \<Rightarrow> string \<Rightarrow> string \<Rightarrow> extract_run" where
  "extractTarball ar ok tarballPath destDir kind =
     (case ar_open ar tarballPath of
        None \<Rightarrow> stop_with (XOpenArchive tarballPath)
      | Some bytes \<Rightarrow>
          (case (if kind = ''xz'' then Some (ar_xz ar bytes)
                 else if kind = ''bz2'' then Some (Some (ar_bzip2 ar bytes))
                 else if kind = ''gz'' then Some (ar_gzip ar bytes) else None) of
             None \<Rightarrow> stop_with (XUnknownKind kind)
           | Some None \<Rightarrow> stop_with (XOpenArchive tarballPath)
           | Some (Some r) \<Rightarrow>
               then_calls (x_calls ok [XMkdirAll destDir]) (extract_entries ok destDir [] (ar_untar ar r))))"

section \<open>Every name stays below the destination\<close>

fun op_target :: "extract_op \<Rightarrow> string" where
  "op_target (XMkdirAll p) = p"
| "op_target (XOpenFile p m) = p"
| "op_target (XCopy p d) = p"
| "op_target (XClose p) = p"
| "op_target (XChtimes p t) = p"
| "op_target (XRemove p) = p"
| "op_target (XSymlink l p) = p"

text \<open>Cleaning is idempotent, on the paths it yields.\<close>

lemma clean_comps_plain:
  "\<forall>n \<in> set names. plain_name n \<Longrightarrow> clean_comps r out names = rev out @ names"
  by (induction names arbitrary: out) (auto simp: plain_name_def)

lemma clean_comps_dotdots: "clean_comps False (replicate j ''..'') (replicate k ''..'' @ names) =
    clean_comps False (replicate (j + k) ''..'') names"
proof (induction k arbitrary: j)
  case (Suc k)
  have "clean_comps False (replicate j ''..'') (''..'' # replicate k ''..'' @ names) =
      clean_comps False (replicate (Suc j) ''..'') (replicate k ''..'' @ names)"
    by (cases j) simp_all
  with Suc [of "Suc j"] show ?case by simp
qed simp

lemma clean_comps_shape_id:
  assumes "clean_shape r cs"
  shows "clean_comps r [] cs = cs"
proof -
  obtain k names where cs: "cs = replicate k ''..'' @ names" "\<forall>n \<in> set names. plain_name n" "r \<longrightarrow> k = 0"
    using assms by (auto simp: clean_shape_def)
  show ?thesis
  proof (cases r)
    case True
    with cs show ?thesis by (simp add: clean_comps_plain)
  next
    case False
    have "clean_comps False (replicate 0 ''..'') (replicate k ''..'' @ names) = clean_comps False (replicate (0 + k) ''..'') names"
      by (rule clean_comps_dotdots)
    with False cs show ?thesis by (simp add: clean_comps_plain)
  qed
qed

lemma go_clean_shape: "clean_shape (path_rooted p) (clean_comps (path_rooted p) [] (go_split (CHR ''/'') p))"
proof -
  have "\<forall>c \<in> set (go_split (CHR ''/'') p). CHR ''/'' \<notin> set c" by (auto dest: go_split_no_sep)
  then show ?thesis by (intro clean_comps_shape) auto
qed

lemma clean_join_rooted: "clean_shape r cs \<Longrightarrow> cs \<noteq> [] \<Longrightarrow> \<not> path_rooted (go_join cs ''/'')"
proof -
  assume *: "clean_shape r cs" "cs \<noteq> []"
  then obtain c t where cs: "cs = c # t" by (cases cs) auto
  have "c \<noteq> []" "CHR ''/'' \<notin> set c"
    using clean_shape_nonempty [OF *(1)] clean_shape_slash [OF *(1), of c] cs by auto
  then obtain a b where c: "c = a # b" "a \<noteq> CHR ''/''" by (cases c) auto
  show ?thesis unfolding cs c(1) using c(2) by (cases t) simp_all
qed

lemma go_clean_idem: "go_clean (go_clean p) = go_clean p"
proof -
  define r where "r = path_rooted p"
  define cs where "cs = clean_comps r [] (go_split (CHR ''/'') p)"
  have sh: "clean_shape r cs" unfolding cs_def r_def by (rule go_clean_shape)
  have j: "cs \<noteq> [] \<Longrightarrow> go_split (CHR ''/'') (go_join cs ''/'') = cs"
    using go_split_join [of cs "CHR ''/''"] clean_shape_slash [OF sh] by blast
  have c: "go_clean p = (if r then CHR ''/'' # go_join cs ''/'' else if cs = [] then ''.'' else go_join cs ''/'')"
    by (simp only: go_clean_def Let_def cs_def r_def)
  have id: "clean_comps r [] cs = cs" by (rule clean_comps_shape_id [OF sh])
  show ?thesis
  proof (cases "cs = []")
    case True
    then show ?thesis unfolding c by (cases r) (simp_all add: go_clean_def)
  next
    case False
    note js = j [OF False]
    show ?thesis
    proof (cases r)
      case True
      have "go_clean (CHR ''/'' # go_join cs ''/'') = CHR ''/'' # go_join (clean_comps True [] ([] # cs)) ''/''"
        using js by (simp add: go_clean_def Let_def)
      also have "\<dots> = CHR ''/'' # go_join cs ''/''" using id True by simp
      finally show ?thesis unfolding c using True by simp
    next
      case unrooted: False
      have "\<not> path_rooted (go_join cs ''/'')" by (rule clean_join_rooted [OF sh False])
      then show ?thesis unfolding c using unrooted False js id by (simp add: go_clean_def Let_def)
    qed
  qed
qed

lemma safeJoin_below:
  assumes "safeJoin base rel = Some t" and "base \<noteq> []" and "no_dotdot base"
  shows "below base t"
proof -
  have t: "t = go_path_join [base, rel]"
    and c: "t = go_clean base \<or> go_has_prefix (go_clean t @ ''/'') (go_clean base @ ''/'')"
    using assms(1) by (auto simp: safeJoin_def Let_def split: if_splits)
  obtain q where q: "t = go_clean q"
    using assms(2) by (auto simp: t go_path_join_def split: list.splits)
  show ?thesis
  proof (cases "t = go_clean base")
    case True
    then show ?thesis by (simp add: below_def)
  next
    case False
    have "go_clean t = t" by (simp add: q go_clean_idem)
    with c False obtain r where r: "t @ ''/'' = go_clean base @ CHR ''/'' # r" by (auto simp: go_has_prefix_iff)
    have "r \<noteq> []"
    proof
      assume "r = []"
      with r have "t = go_clean base" by simp
      with False show False by simp
    qed
    then have t': "t = go_clean base @ CHR ''/'' # butlast r"
      using r by (metis append_butlast_last_id butlast_append butlast_snoc list.distinct(1) butlast.simps(2))
    have eq: "go_clean q = go_clean base @ CHR ''/'' # butlast r" using t' q by simp
    have "\<forall>c \<in> set (go_split (CHR ''/'') (butlast r)). plain_name c"
      by (rule go_clean_suffix_plain [OF eq]) (use assms(3) in \<open>simp_all add: no_dotdot_def go_clean_nonempty\<close>)
    with t' show ?thesis by (auto simp: below_def)
  qed
qed

definition op_below :: "string \<Rightarrow> extract_op \<Rightarrow> bool" where
  "op_below dest op \<longleftrightarrow> op_target op = dest \<or> (\<exists>t. below dest t \<and> (op_target op = t \<or> op = XMkdirAll (go_dir t)))"

lemma x_calls_below: "list_all (op_below dest) ps \<Longrightarrow> list_all (op_below dest) (fst (x_calls ok ps))"
  by (rule run_calls_only)

lemma op_belowI: "below dest t \<Longrightarrow> op_target op = t \<Longrightarrow> op_below dest op"
  by (auto simp: op_below_def)

lemma op_below_dir: "below dest t \<Longrightarrow> op_below dest (XMkdirAll (go_dir t))"
  by (auto simp: op_below_def)

lemma extract_reg_below: "below dest t \<Longrightarrow> list_all (op_below dest) (fst (extract_reg ok t hdr data))"
  by (auto simp: extract_reg_def op_below_dir op_belowI split: option.splits intro!: then_calls_only x_calls_below)

lemma extract_symlink_below: "below dest t \<Longrightarrow> list_all (op_below dest) (fst (extract_symlink ok t hdr))"
  by (auto simp: extract_symlink_def op_below_dir op_belowI intro!: then_calls_only x_calls_below)

lemma extract_entries_below:
  "dest \<noteq> [] \<Longrightarrow> no_dotdot dest \<Longrightarrow> \<forall>(p, t) \<in> set dirTimes. below dest p \<Longrightarrow>
   list_all (op_below dest) (fst (extract_entries ok dest dirTimes es))"
proof (induction ok dest dirTimes es rule: extract_entries.induct)
  case (1 ok destDir dirTimes)
  then show ?case by simp (intro x_calls_below; auto simp: list_all_iff op_belowI)
next
  case (2 ok destDir dirTimes es)
  then show ?case by simp
next
  case (3 ok destDir dirTimes hdr data es)
  let ?rel = "stripFirstComponent (th_Name hdr)"
  show ?case
  proof (cases "?rel = []")
    case True
    with "3.IH"(1) "3.prems" show ?thesis by (simp add: Let_def)
  next
    case rel: False
    show ?thesis
    proof (cases "safeJoin destDir ?rel")
      case None
      with rel show ?thesis by (simp add: Let_def)
    next
      case (Some t)
      have b: "below destDir t" by (rule safeJoin_below [OF Some "3.prems"(1,2)])
      show ?thesis
      proof (cases "th_Type hdr")
        case TypeDir
        have "\<forall>(p, t) \<in> set (dirTimes @ [(t, th_ModTime hdr)]). below destDir p" using "3.prems"(3) b by auto
        note IH = "3.IH"(2) [OF refl rel Some TypeDir "3.prems"(1,2) this]
        have "list_all (op_below destDir) (fst (x_calls ok [XMkdirAll t]))"
          by (rule x_calls_below) (simp add: op_belowI [OF b])
        with IH TypeDir show ?thesis
          by (simp add: Let_def rel Some then_calls_only del: run_calls.simps)
      next
        case TypeReg
        from "3.IH"(3) [OF refl rel Some TypeReg "3.prems"] TypeReg extract_reg_below [OF b] show ?thesis
          by (simp add: Let_def rel Some then_calls_only)
      next
        case TypeSymlink
        from "3.IH"(4) [OF refl rel Some TypeSymlink "3.prems"] TypeSymlink extract_symlink_below [OF b] show ?thesis
          by (simp add: Let_def rel Some then_calls_only)
      next
        case TypeElse
        from "3.IH"(5) [OF refl rel Some TypeElse "3.prems"] TypeElse show ?thesis
          by (simp add: Let_def rel Some)
      qed
    qed
  qed
qed

text \<open>
  Whatever names an archive has, every path that unpacking it opens, creates, removes or
  links is the destination or below it by name, through ordinary components only; the directories
  made on the way are those paths' own.
\<close>

theorem extraction_names_below:
  assumes "dest \<noteq> []" and "no_dotdot dest"
  shows "list_all (op_below dest) (fst (extractTarball ar ok tarballPath dest kind))"
proof -
  have "list_all (op_below dest) (fst (extract_entries ok dest [] es))" for es
    using extract_entries_below [OF assms] by simp
  moreover have "list_all (op_below dest) (fst (x_calls ok [XMkdirAll dest]))"
    by (rule x_calls_below) (simp add: op_below_def)
  ultimately show ?thesis
    by (auto simp: extractTarball_def split: option.splits intro!: then_calls_only)
qed

definition ex_archive :: archive_env where
  "ex_archive = \<lparr> ar_open = Some, ar_xz = Some, ar_bzip2 = id, ar_gzip = Some,
     ar_untar = (\<lambda>s. [TarEntry \<lparr> th_Name = ''k/../x'', th_Type = TypeReg, th_Size = 1, th_Mode = 420,
       th_Linkname = [], th_ModTime = 0 \<rparr> (Some ''d'')]) \<rparr>"

theorem extraction_names_below_witness:
  "list_all (op_below ''/c'') (fst (extractTarball ex_archive (\<lambda>p. True) ''/k.tar.xz'' ''/c'' ''xz'')) \<and>
   fst (extractTarball ex_archive (\<lambda>p. True) ''/k.tar.xz'' ''/c'' ''xz'') = [XMkdirAll ''/c'']"
proof -
  have "no_dotdot ''/c''" by code_simp
  then have "list_all (op_below ''/c'') (fst (extractTarball ex_archive (\<lambda>p. True) ''/k.tar.xz'' ''/c'' ''xz''))"
    by (intro extraction_names_below) simp_all
  moreover have "fst (extractTarball ex_archive (\<lambda>p. True) ''/k.tar.xz'' ''/c'' ''xz'') = [XMkdirAll ''/c'']"
    by code_simp
  ultimately show ?thesis by blast
qed

section \<open>Symbolic links\<close>

text \<open>
  Where the kernel really goes for a path, given the links made so far: an absolute link starts
  over at the root, a relative one at the link's directory. The fuel bounds the walk.
\<close>

fun walk :: "nat \<Rightarrow> (string list \<Rightarrow> string option) \<Rightarrow> string list \<Rightarrow> string list \<Rightarrow> string list option" where
  "walk 0 links done cs = None"
| "walk (Suc n) links done [] = Some done"
| "walk (Suc n) links done (c # cs) =
     (if c = [] \<or> c = ''.'' then walk n links done cs
      else if c = ''..'' then walk n links (butlast done) cs
      else case links (done @ [c]) of
             None \<Rightarrow> walk n links (done @ [c]) cs
           | Some l \<Rightarrow> walk n links (if path_rooted l then [] else done) (go_split (CHR ''/'') l @ cs))"

fun op_links :: "(string list \<Rightarrow> string option) \<Rightarrow> extract_op \<Rightarrow> string list \<Rightarrow> string option" where
  "op_links links (XSymlink l p) = links (filter (\<lambda>c. c \<noteq> []) (go_split (CHR ''/'') p) \<mapsto> l)"
| "op_links links (XRemove p) = links (filter (\<lambda>c. c \<noteq> []) (go_split (CHR ''/'') p) := None)"
| "op_links links _ = links"

lemma walk_plain:
  "\<forall>c \<in> set cs. plain_name c \<Longrightarrow> \<forall>k. 0 < k \<and> k \<le> length cs \<longrightarrow> links (done @ take k cs) = None \<Longrightarrow> length cs < n \<Longrightarrow>
   walk n links done cs = Some (done @ cs)"
proof (induction cs arbitrary: n "done")
  case Nil
  then show ?case by (cases n) auto
next
  case (Cons c cs)
  then obtain m where n: "n = Suc m" by (cases n) auto
  have c: "plain_name c" using Cons.prems(1) by simp
  have l1: "links (done @ [c]) = None" using Cons.prems(2) by (auto dest: spec [of _ "Suc 0"])
  have "\<forall>k. 0 < k \<and> k \<le> length cs \<longrightarrow> links ((done @ [c]) @ take k cs) = None"
  proof (intro allI impI)
    fix k
    assume "0 < k \<and> k \<le> length cs"
    then show "links ((done @ [c]) @ take k cs) = None" using Cons.prems(2) by (auto dest: spec [of _ "Suc k"])
  qed
  then have "walk m links (done @ [c]) cs = Some ((done @ [c]) @ cs)" using Cons.prems n by (intro Cons.IH) auto
  with c l1 n show ?case by (simp add: plain_name_def)
qed



end
