(* ===== verification/Fetch.thy ===== *)
theory Fetch
  imports Extract Go_Bytes
begin

text \<open>
  Fetching the sources (internal/compileagent/fetch.go and verify.go): the parallelism of a build,
  the download cache with its checks, the OpenPGP verification of a kernel tarball against pinned
  keys, and the encoding of the key addresses.

  The network, the OpenPGP library and the decompressor are parameters. The state is the cache: the
  tarball, if it is there, and the extracted directory, if it is there, as the calls that made it.
\<close>

section \<open>Parallelism\<close>

record job_env =
  je_numCPU :: int
  je_jobs :: string
  je_memoryMax :: "string option"
  je_meminfo :: "string option"
  je_cpuMax :: "string option"

definition gbFloor :: "int \<Rightarrow> int" where
  "gbFloor bytes = (let gb = tdiv bytes (1024 * 1024 * 1024) in if gb < 1 then 1 else gb)"

fun meminfo_lines :: "string list \<Rightarrow> int" where
  "meminfo_lines [] = 0"
| "meminfo_lines (line # ls) =
     (case go_fields line of
        k # v # _ \<Rightarrow>
          if k = ''MemTotal:'' then (case go_atoi v of None \<Rightarrow> 0 | Some kb \<Rightarrow> gbFloor (wrap64 (kb * 1024)))
          else meminfo_lines ls
      | _ \<Rightarrow> meminfo_lines ls)"

definition memInfoTotalGB :: "job_env \<Rightarrow> int" where
  "memInfoTotalGB je = (case je_meminfo je of None \<Rightarrow> 0 | Some d \<Rightarrow> meminfo_lines (go_split (CHR 0x0A) d))"

definition cgroupMemoryLimitGB :: "job_env \<Rightarrow> int" where
  "cgroupMemoryLimitGB je =
     (case je_memoryMax je of
        None \<Rightarrow> 0
      | Some d \<Rightarrow>
          let val = go_trim_space d in
          if val = ''max'' then memInfoTotalGB je
          else case go_atoi val of None \<Rightarrow> 0 | Some bytes \<Rightarrow> if bytes \<le> 0 then 0 else gbFloor bytes)"

definition cgroupCPUQuota :: "job_env \<Rightarrow> int" where
  "cgroupCPUQuota je =
     (case je_cpuMax je of
        None \<Rightarrow> 0
      | Some d \<Rightarrow>
          (case go_fields d of
             [q, p] \<Rightarrow>
               if q = ''max'' then 0
               else (case (go_atoi q, go_atoi p) of
                       (Some quota, Some period) \<Rightarrow>
                         if quota \<le> 0 \<or> period \<le> 0 then 0 else tdiv (wrap64 (quota + period - 1)) period
                     | _ \<Rightarrow> 0)
           | _ \<Rightarrow> 0))"

definition default_jobs :: "job_env \<Rightarrow> int" where
  "default_jobs je =
     (let n = je_numCPU je;
          memGB = cgroupMemoryLimitGB je;
          j1 = (if 0 < memGB \<and> memGB < n then memGB else n);
          cpuQuota = cgroupCPUQuota je;
          j2 = (if 0 < cpuQuota \<and> cpuQuota < j1 then cpuQuota else j1)
      in if j2 < 1 then 1 else j2)"

definition buildJobs :: "job_env \<Rightarrow> string" where
  "buildJobs je =
     (case (if je_jobs je = [] then None else go_atoi (je_jobs je)) of
        Some parsed \<Rightarrow> if 0 < parsed then int_dec parsed else int_dec (default_jobs je)
      | None \<Rightarrow> int_dec (default_jobs je))"

section \<open>Key addresses\<close>

definition zbase32Alphabet :: string where
  "zbase32Alphabet = ''ybndrfg8ejkmcpqxot1uwisza345h769''"

text \<open>The accumulator is a 64-bit integer, read as unsigned; only its low bits are used.\<close>

fun zb_emit :: "nat \<Rightarrow> nat \<Rightarrow> nat \<times> string" where
  "zb_emit bits v =
     (if 5 \<le> bits then (let (b, s) = zb_emit (bits - 5) v in (b, zbase32Alphabet ! ((v div 2 ^ (bits - 5)) mod 32) # s))
      else (bits, []))"

declare zb_emit.simps [simp del]

fun zb_loop :: "nat \<Rightarrow> nat \<Rightarrow> string \<Rightarrow> string" where
  "zb_loop bits v [] = (if 0 < bits then [zbase32Alphabet ! ((v * 2 ^ (5 - bits)) mod 32)] else [])"
| "zb_loop bits v (b # data) =
     (let v' = (v * 256 + code b) mod 2 ^ 64; (bits', s) = zb_emit (bits + 8) v' in s @ zb_loop bits' v' data)"

definition zbase32 :: "string \<Rightarrow> string" where
  "zbase32 data = zb_loop 0 0 data"

section \<open>Signers\<close>

record releaseSigner =
  rs_localPart :: string
  rs_fingerprint :: string

definition releaseSigners :: "releaseSigner list" where
  "releaseSigners =
     [\<lparr> rs_localPart = ''gregkh'', rs_fingerprint = ''647F28654894E3BD457199BE38DBBDC86092693E'' \<rparr>,
      \<lparr> rs_localPart = ''torvalds'', rs_fingerprint = ''ABAF11C65A2970B130ABE3C479BE3E4300411886'' \<rparr>,
      \<lparr> rs_localPart = ''sashal'', rs_fingerprint = ''E27E5D8A3403A2EF66873BBCDEA66FF797772CDC'' \<rparr>]"

record pgp_entity =
  ent_PrimaryKey :: "string option"
  ent_Identities :: "string list"
  ent_Material :: string

text \<open>The fingerprint of an entity's primary key, as bytes, if it has one; its other keys are the material.\<close>

definition primaryFingerprint :: "pgp_entity \<Rightarrow> string" where
  "primaryFingerprint e =
     (case ent_PrimaryKey e of None \<Rightarrow> [] | Some fp \<Rightarrow> go_to_upper (go_hex_encode fp))"

datatype verify_error =
    WKDFailed string
  | WKDStatus string nat
  | WKDKeyRing string
  | FingerprintMismatch string string string
  | NoKnownKey "verify_error list"
  | SigFetch string
  | SigStatus string nat
  | SigArmor string
  | TarballOpen
  | NotXZ
  | BadSignature

record verify_env =
  ve_get :: "string \<Rightarrow> (nat \<times> string option) option"
  ve_sha1 :: "string \<Rightarrow> string"
  ve_readKeyRing :: "string \<Rightarrow> pgp_entity list option"
  ve_armor :: "string \<Rightarrow> string option"
  ve_xz :: "string \<Rightarrow> string option"
  ve_check :: "pgp_entity list \<Rightarrow> string \<Rightarrow> string \<Rightarrow> pgp_entity option"

definition wkdDomain :: string where "wkdDomain = ''kernel.org''"

definition fetchWKDKey :: "verify_env \<Rightarrow> string \<Rightarrow> verify_error + pgp_entity list" where
  "fetchWKDKey ve localPart =
     (let url = ''https://'' @ wkdDomain @ ''/.well-known/openpgpkey/hu/'' @
            zbase32 (ve_sha1 ve (go_to_lower localPart)) @ ''?l='' @ localPart in
      case ve_get ve url of
        None \<Rightarrow> Inl (WKDFailed localPart)
      | Some (status, body) \<Rightarrow>
          if status \<noteq> 200 then Inl (WKDStatus localPart status)
          else case body of
                 None \<Rightarrow> Inl (WKDFailed localPart)
               | Some data \<Rightarrow> (case ve_readKeyRing ve data of None \<Rightarrow> Inl (WKDKeyRing localPart) | Some k \<Rightarrow> Inr k))"

fun pinned_entities :: "releaseSigner \<Rightarrow> pgp_entity list \<Rightarrow> pgp_entity list \<times> verify_error list" where
  "pinned_entities signer [] = ([], [])"
| "pinned_entities signer (e # es) =
     (let (keys, errs) = pinned_entities signer es; got = primaryFingerprint e in
      if got \<noteq> rs_fingerprint signer
      then (keys, FingerprintMismatch (rs_localPart signer) got (rs_fingerprint signer) # errs)
      else (e # keys, errs))"

fun collect_keys :: "verify_env \<Rightarrow> releaseSigner list \<Rightarrow> pgp_entity list \<times> verify_error list" where
  "collect_keys ve [] = ([], [])"
| "collect_keys ve (signer # ss) =
     (let (keys, errs) = collect_keys ve ss in
      case fetchWKDKey ve (rs_localPart signer) of
        Inl e \<Rightarrow> (keys, e # errs)
      | Inr k \<Rightarrow> (let (keys1, errs1) = pinned_entities signer k in (keys1 @ keys, errs1 @ errs)))"

definition fetchSignerKeyring :: "verify_env \<Rightarrow> verify_error + pgp_entity list" where
  "fetchSignerKeyring ve =
     (let (keys, errs) = collect_keys ve releaseSigners in if keys = [] then Inl (NoKnownKey errs) else Inr keys)"

definition VerifyKernelTarball :: "verify_env \<Rightarrow> string option \<Rightarrow> string \<Rightarrow> verify_error + string" where
  "VerifyKernelTarball ve tarball sigURL =
     (case ve_get ve sigURL of
        None \<Rightarrow> Inl (SigFetch sigURL)
      | Some (status, body) \<Rightarrow>
          if status \<noteq> 200 then Inl (SigStatus sigURL status)
          else case body of
                 None \<Rightarrow> Inl (SigFetch sigURL)
               | Some sigData \<Rightarrow>
                   (case ve_armor ve sigData of
                      None \<Rightarrow> Inl (SigArmor sigURL)
                    | Some block \<Rightarrow>
                        bindE (fetchSignerKeyring ve) (\<lambda>keys.
                        case tarball of
                          None \<Rightarrow> Inl TarballOpen
                        | Some bytes \<Rightarrow>
                            (case ve_xz ve bytes of
                               None \<Rightarrow> Inl NotXZ
                             | Some stream \<Rightarrow>
                                 (case ve_check ve keys stream block of
                                    None \<Rightarrow> Inl BadSignature
                                  | Some signer \<Rightarrow>
                                      Inr (case ent_Identities signer of [] \<Rightarrow> [] | i # _ \<Rightarrow> i))))))"

section \<open>The cache\<close>

record FetchResult =
  fr_Dir :: string
  fr_ResolvedVersion :: string
  fr_SourceURL :: string
  fr_TarballSHA256 :: string
  fr_PGPVerified :: bool
  fr_PGPSignedBy :: string

record fetch_state =
  fs_tarball :: "string option"
  fs_dest :: "extract_op list option"

record fetch_env =
  fe_verify :: verify_env
  fe_archive :: archive_env
  fe_xok :: "extract_op \<Rightarrow> bool"
  fe_mkdir :: bool
  fe_write :: bool
  fe_rename :: bool
  fe_sha256 :: "string \<Rightarrow> string"

record fetch_args =
  fa_cacheDir :: string
  fa_url :: string
  fa_tarballName :: string
  fa_destDir :: string
  fa_kind :: string
  fa_sigURL :: string
  fa_expectedSHA256 :: string
  fa_skipVerify :: bool

datatype fetch_source_error =
    FetchMkdir
  | DownloadFailed string
  | DownloadStatus string nat
  | DownloadWrite string
  | HashFailed string
  | WrongSHA256 string string
  | Unverified verify_error
  | Unpacking extract_error
  | RenameFailed string

text \<open>\<^verbatim>\<open>strings.EqualFold\<close> on a hexadecimal string: no letter of it has a fold outside ASCII.\<close>

definition hex_equal_fold :: "string \<Rightarrow> string \<Rightarrow> bool" where
  "hex_equal_fold a b \<longleftrightarrow> map lower_char a = map lower_char b"

definition downloadFile :: "fetch_env \<Rightarrow> string \<Rightarrow> fetch_source_error + string" where
  "downloadFile fe url =
     (case ve_get (fe_verify fe) url of
        None \<Rightarrow> Inl (DownloadFailed url)
      | Some (status, body) \<Rightarrow>
          if status \<noteq> 200 then Inl (DownloadStatus url status)
          else case body of
                 None \<Rightarrow> Inl (DownloadWrite url)
               | Some d \<Rightarrow> if fe_write fe then Inr d else Inl (DownloadWrite url))"

definition cached_tarball :: "fetch_env \<Rightarrow> fetch_args \<Rightarrow> fetch_state \<Rightarrow> fetch_source_error + string" where
  "cached_tarball fe fa st =
     (case fs_tarball st of Some d \<Rightarrow> Inr d | None \<Rightarrow> downloadFile fe (fa_url fa))"

definition verify_sha256 :: "fetch_env \<Rightarrow> fetch_args \<Rightarrow> string \<Rightarrow> fetch_source_error + unit" where
  "verify_sha256 fe fa d =
     (let got = go_hex_encode (fe_sha256 fe d) in
      guardE (fa_expectedSHA256 fa = [] \<or> hex_equal_fold got (fa_expectedSHA256 fa)) (WrongSHA256 (fa_expectedSHA256 fa) got))"

definition verify_pgp :: "fetch_env \<Rightarrow> fetch_args \<Rightarrow> string \<Rightarrow> fetch_source_error + (bool \<times> string)" where
  "verify_pgp fe fa d =
     (if fa_sigURL fa \<noteq> [] \<and> \<not> fa_skipVerify fa
      then bindE (wrapE Unverified (VerifyKernelTarball (fe_verify fe) (Some d) (fa_sigURL fa))) (\<lambda>by. Inr (True, by))
      else Inr (False, []))"

definition unpack :: "fetch_env \<Rightarrow> fetch_args \<Rightarrow> string \<Rightarrow> fetch_source_error + extract_op list" where
  "unpack fe fa d =
     (let tarballPath = go_path_join [fa_cacheDir fa, ''src'', fa_tarballName fa];
          destPath = go_path_join [fa_cacheDir fa, ''src'', fa_destDir fa];
          ar = (fe_archive fe) \<lparr> ar_open := (\<lambda>p. if p = tarballPath then Some d else None) \<rparr> in
      case extractTarball ar (fe_xok fe) tarballPath (destPath @ ''.tmp'') (fa_kind fa) of
        (ops, Inl e) \<Rightarrow> Inl (Unpacking e)
      | (ops, Inr _) \<Rightarrow> if fe_rename fe then Inr ops else Inl (RenameFailed destPath))"

definition fetchExtract ::
  "fetch_env \<Rightarrow> fetch_args \<Rightarrow> fetch_state \<Rightarrow> fetch_state \<times> (fetch_source_error + FetchResult)" where
  "fetchExtract fe fa st =
     (if \<not> fe_mkdir fe then (st, Inl FetchMkdir)
      else case cached_tarball fe fa st of
        Inl e \<Rightarrow> (st, Inl e)
      | Inr d \<Rightarrow>
          (let st1 = st \<lparr> fs_tarball := Some d \<rparr> in
           case verify_sha256 fe fa d of
             Inl e \<Rightarrow> (st1 \<lparr> fs_tarball := None \<rparr>, Inl e)
           | Inr _ \<Rightarrow>
               (case verify_pgp fe fa d of
                  Inl e \<Rightarrow> (st1 \<lparr> fs_tarball := None \<rparr>, Inl e)
                | Inr (verified, by) \<Rightarrow>
                    (let result = \<lparr> fr_Dir = go_path_join [fa_cacheDir fa, ''src'', fa_destDir fa],
                           fr_ResolvedVersion = [], fr_SourceURL = fa_url fa,
                           fr_TarballSHA256 = go_hex_encode (fe_sha256 fe d),
                           fr_PGPVerified = verified, fr_PGPSignedBy = by \<rparr> in
                     case fs_dest st1 of
                       Some t \<Rightarrow> (st1, Inr result)
                     | None \<Rightarrow>
                         (case unpack fe fa d of
                            Inl e \<Rightarrow> (st1, Inl e)
                          | Inr ops \<Rightarrow> (st1 \<lparr> fs_dest := Some ops \<rparr>, Inr result))))))"

record KernelSpec =
  ks_Version :: string
  ks_SourceURL :: string
  ks_PGPURL :: string
  ks_Arch :: string
  ks_CacheDir :: string
  ks_FragmentDirs :: "string list"
  ks_InsecureSkipVerify :: bool

definition kernel_args :: "KernelSpec \<Rightarrow> fetch_args" where
  "kernel_args spec =
     \<lparr> fa_cacheDir = ks_CacheDir spec, fa_url = ks_SourceURL spec,
       fa_tarballName = ''linux-'' @ ks_Version spec @ ''.tar.xz'', fa_destDir = ''linux-'' @ ks_Version spec,
       fa_kind = ''xz'', fa_sigURL = ks_PGPURL spec, fa_expectedSHA256 = [], fa_skipVerify = ks_InsecureSkipVerify spec \<rparr>"

definition FetchKernel ::
  "fetch_env \<Rightarrow> KernelSpec \<Rightarrow> fetch_state \<Rightarrow> fetch_state \<times> (fetch_source_error + FetchResult)" where
  "FetchKernel fe spec st =
     (case fetchExtract fe (kernel_args spec) st of
        (st', Inl e) \<Rightarrow> (st', Inl e)
      | (st', Inr r) \<Rightarrow> (st', Inr (r \<lparr> fr_ResolvedVersion := ks_Version spec \<rparr>)))"

section \<open>A concrete world for the witnesses\<close>

definition ex_entity :: pgp_entity where
  "ex_entity = \<lparr> ent_PrimaryKey = Some [
       CHR 0x64, CHR 0x7F, CHR 0x28, CHR 0x65, CHR 0x48, CHR 0x94, CHR 0xE3, CHR 0xBD, CHR 0x45, CHR 0x71,
       CHR 0x99, CHR 0xBE, CHR 0x38, CHR 0xDB, CHR 0xBD, CHR 0xC8, CHR 0x60, CHR 0x92, CHR 0x69, CHR 0x3E],
     ent_Identities = [''Greg''], ent_Material = [] \<rparr>"

definition ex_fetch_verify :: "bool \<Rightarrow> verify_env" where
  "ex_fetch_verify good =
     \<lparr> ve_get = (\<lambda>u. Some (200, Some (if good then ''good'' else ''evil''))), ve_sha1 = (\<lambda>d. []), ve_readKeyRing = (\<lambda>d. Some [ex_entity]),
       ve_armor = (\<lambda>d. Some d), ve_xz = (\<lambda>d. Some d),
       ve_check = (\<lambda>keys stream block. if stream = ''good'' then Some ex_entity else None) \<rparr>"

definition ex_fetch :: "bool \<Rightarrow> fetch_env" where
  "ex_fetch good =
     \<lparr> fe_verify = ex_fetch_verify good, fe_archive = ex_archive \<lparr> ar_untar := (\<lambda>d. []) \<rparr>, fe_xok = (\<lambda>p. True),
       fe_mkdir = True, fe_write = True, fe_rename = True, fe_sha256 = (\<lambda>d. d) \<rparr>"

definition ex_args :: fetch_args where
  "ex_args =
     \<lparr> fa_cacheDir = ''/c'', fa_url = ''u'', fa_tarballName = ''k.tar.xz'', fa_destDir = ''k'', fa_kind = ''xz'',
       fa_sigURL = ''s'', fa_expectedSHA256 = [], fa_skipVerify = False \<rparr>"

lemma go_to_upper_ascii: "list_all (\<lambda>c. c \<noteq> CHR 0xC4 \<and> c \<noteq> CHR 0xC5) s \<Longrightarrow> go_to_upper s = map upper_char s"
  by (induction s rule: go_to_upper.induct) simp_all

lemma ex_fingerprint_hex: "go_hex_encode (the (ent_PrimaryKey ex_entity)) = ''647f28654894e3bd457199be38dbbdc86092693e''"
  by (simp add: ex_entity_def go_hex_encode_def hex_digit_def char_of_def bit_iff_odd)

lemma ex_fingerprint_upper: "go_to_upper ''647f28654894e3bd457199be38dbbdc86092693e'' = ''647F28654894E3BD457199BE38DBBDC86092693E''"
  by (subst go_to_upper_ascii) (simp_all add: upper_char_def char_of_def bit_iff_odd)

lemma ex_primaryFingerprint: "primaryFingerprint ex_entity = ''647F28654894E3BD457199BE38DBBDC86092693E''"
proof -
  have "primaryFingerprint ex_entity = go_to_upper (go_hex_encode (the (ent_PrimaryKey ex_entity)))"
    by (simp add: primaryFingerprint_def ex_entity_def)
  then show ?thesis by (simp only: ex_fingerprint_hex ex_fingerprint_upper)
qed

lemma ex_signers: "fetchSignerKeyring (ex_fetch_verify good) = Inr [ex_entity]"
  by (simp add: fetchSignerKeyring_def releaseSigners_def fetchWKDKey_def ex_fetch_verify_def ex_primaryFingerprint Let_def)

lemma ex_unpack: "unpack (ex_fetch good) ex_args d = Inr [XMkdirAll ''/c/src/k.tmp'']"
proof -
  have "go_path_join [''/c'', ''src'', ''k.tar.xz''] = ''/c/src/k.tar.xz''" "go_path_join [''/c'', ''src'', ''k''] = ''/c/src/k''" by code_simp+
  then show ?thesis by (simp add: unpack_def ex_fetch_def ex_args_def ex_archive_def extractTarball_def then_calls_def Let_def)
qed

lemma ex_unpack_skip: "unpack (ex_fetch good) (ex_args \<lparr> fa_skipVerify := True \<rparr>) d = Inr [XMkdirAll ''/c/src/k.tmp'']"
  using ex_unpack [of good d] by (simp add: unpack_def)

lemma ex_dir: "go_path_join [''/c'', ''src'', ''k''] = ''/c/src/k''" by code_simp

lemma ex_hashes: "go_hex_encode ''good'' = ''676f6f64''" "go_hex_encode ''evil'' = ''6576696c''" by code_simp+

lemma ex_check:
  "VerifyKernelTarball (ex_fetch_verify good) (Some d) u = (if d = ''good'' then Inr ''Greg'' else Inl BadSignature)"
proof -
  have "ent_Identities ex_entity = [''Greg'']" by (simp add: ex_entity_def)
  moreover have "ve_get (ex_fetch_verify good) u = Some (200, Some (if good then ''good'' else ''evil''))"
    "ve_armor (ex_fetch_verify good) = Some" "ve_xz (ex_fetch_verify good) = Some"
    "ve_check (ex_fetch_verify good) k t b = (if t = ''good'' then Some ex_entity else None)" for k t b
    by (simp_all add: ex_fetch_verify_def fun_eq_iff)
  ultimately show ?thesis by (simp add: VerifyKernelTarball_def ex_signers)
qed

lemma ex_fields:
  "fe_mkdir (ex_fetch good)" "fe_write (ex_fetch good)" "fe_sha256 (ex_fetch good) d = d" "fe_verify (ex_fetch good) = ex_fetch_verify good"
  "fa_cacheDir ex_args = ''/c''" "fa_destDir ex_args = ''k''" "fa_expectedSHA256 ex_args = []" "fa_url ex_args = ''u''"
  "fa_sigURL ex_args = ''s''" "\<not> fa_skipVerify ex_args" "ve_get (ex_fetch_verify good) u = Some (200, Some (if good then ''good'' else ''evil''))"
  by (simp_all add: ex_fetch_def ex_args_def ex_fetch_verify_def)

lemmas ex_runs = Let_def guardE_def ex_fields fetchExtract_def cached_tarball_def downloadFile_def verify_sha256_def verify_pgp_def
  ex_check ex_dir ex_hashes ex_unpack_skip ex_unpack

section \<open>What a build's parallelism can be\<close>

lemma gbFloor_pos: "1 \<le> gbFloor b"
  by (simp add: gbFloor_def Let_def)

text \<open>
  The number of jobs is always a positive number: an override that is a positive
  integer is taken as it is, anything else falls back to at least one job and, on a machine with a
  processor, at most one per processor, per known gigabyte of memory and per processor of the quota.
\<close>

theorem build_jobs_bounds:
  "\<exists>j. buildJobs je = int_dec j \<and> 1 \<le> j \<and>
     (if \<exists>p > 0. je_jobs je \<noteq> [] \<and> go_atoi (je_jobs je) = Some p then go_atoi (je_jobs je) = Some j
      else j = default_jobs je \<and>
        (1 \<le> je_numCPU je \<longrightarrow> j \<le> je_numCPU je \<and>
           (0 < cgroupMemoryLimitGB je \<longrightarrow> j \<le> cgroupMemoryLimitGB je) \<and>
           (0 < cgroupCPUQuota je \<longrightarrow> j \<le> cgroupCPUQuota je)))"
proof -
  have d: "1 \<le> default_jobs je" by (simp add: default_jobs_def Let_def)
  have b: "1 \<le> je_numCPU je \<longrightarrow> default_jobs je \<le> je_numCPU je \<and>
           (0 < cgroupMemoryLimitGB je \<longrightarrow> default_jobs je \<le> cgroupMemoryLimitGB je) \<and>
           (0 < cgroupCPUQuota je \<longrightarrow> default_jobs je \<le> cgroupCPUQuota je)"
    by (auto simp: default_jobs_def Let_def)
  show ?thesis
  proof (cases "\<exists>p > 0. je_jobs je \<noteq> [] \<and> go_atoi (je_jobs je) = Some p")
    case True
    then show ?thesis by (auto simp: buildJobs_def)
  next
    case False
    then have "buildJobs je = int_dec (default_jobs je)"
      by (auto simp: buildJobs_def split: option.splits)
    with d b show ?thesis
      by (intro exI [of _ "default_jobs je"]) (simp only: False if_False simp_thms)
  qed
qed

theorem build_jobs_bounds_witness:
  "let je = \<lparr> je_numCPU = 8, je_jobs = [], je_memoryMax = None, je_meminfo = None, je_cpuMax = Some ''25 10'' \<rparr>
   in (\<exists>j. buildJobs je = int_dec j \<and> 1 \<le> j) \<and> cgroupCPUQuota je = 3"
proof -
  let ?je = "\<lparr> je_numCPU = 8, je_jobs = [], je_memoryMax = None, je_meminfo = None, je_cpuMax = Some ''25 10'' \<rparr>"
  have "\<exists>j. buildJobs ?je = int_dec j \<and> 1 \<le> j"
    using build_jobs_bounds [of ?je] by blast
  moreover have "cgroupCPUQuota ?je = 3" by code_simp
  ultimately show ?thesis by simp
qed

section \<open>Only pinned keys verify\<close>

lemma pinned_entities_pinned:
  "e \<in> set (fst (pinned_entities signer es)) \<Longrightarrow> primaryFingerprint e = rs_fingerprint signer"
  by (induction es) (auto simp: Let_def case_prod_unfold split: if_splits)

lemma collect_keys_pinned:
  "e \<in> set (fst (collect_keys ve ss)) \<Longrightarrow> primaryFingerprint e \<in> rs_fingerprint ` set ss"
proof (induction ss)
  case (Cons signer ss)
  then show ?case
    by (auto simp: Let_def case_prod_unfold dest: pinned_entities_pinned split: sum.splits)
qed simp

definition pinned_keys :: "pgp_entity list \<Rightarrow> bool" where
  "pinned_keys keys \<longleftrightarrow> keys \<noteq> [] \<and> (\<forall>e \<in> set keys. primaryFingerprint e \<in> rs_fingerprint ` set releaseSigners)"

lemma fetchSignerKeyring_pinned: "fetchSignerKeyring ve = Inr keys \<Longrightarrow> pinned_keys keys"
  using collect_keys_pinned [of _ ve releaseSigners]
  by (auto simp: fetchSignerKeyring_def pinned_keys_def case_prod_unfold Let_def split: if_splits)

lemma VerifyKernelTarball_Inr:
  assumes "VerifyKernelTarball ve (Some d) sigURL = Inr by"
  shows "\<exists>sigData block keys stream signer. ve_get ve sigURL = Some (200, Some sigData) \<and> ve_armor ve sigData = Some block \<and>
    pinned_keys keys \<and> ve_xz ve d = Some stream \<and> ve_check ve keys stream block = Some signer"
proof -
  obtain sigData where s: "ve_get ve sigURL = Some (200, Some sigData)"
    using assms by (auto simp: VerifyKernelTarball_def split: option.splits prod.splits if_splits)
  obtain block where b: "ve_armor ve sigData = Some block"
    using assms s by (auto simp: VerifyKernelTarball_def split: option.splits)
  obtain keys where k: "fetchSignerKeyring ve = Inr keys"
    using assms s b by (auto simp: VerifyKernelTarball_def bindE_Inr_iff)
  obtain stream where x: "ve_xz ve d = Some stream"
    using assms s b k by (auto simp: VerifyKernelTarball_def split: option.splits)
  obtain signer where "ve_check ve keys stream block = Some signer"
    using assms s b k x by (auto simp: VerifyKernelTarball_def split: option.splits)
  with s b x fetchSignerKeyring_pinned [OF k] show ?thesis by blast
qed

text \<open>
  Property C14. A fetch that was asked to verify has verified: when it returns with a signature URL
  given and verification not skipped, it reports the tarball as signed, and a signature on the
  decompressed tarball in the cache was checked against a keyring that holds only keys with one of the
  pinned fingerprints; the reported hash is that tarball's, and equals the expected one if there is one.
\<close>

theorem fetched_source_verified:
  assumes "fetchExtract fe fa st = (st', Inr r)" and "fa_sigURL fa \<noteq> []" and "\<not> fa_skipVerify fa"
  shows "fr_PGPVerified r \<and> (\<exists>d sigData block keys stream signer. fs_tarball st' = Some d \<and>
    ve_get (fe_verify fe) (fa_sigURL fa) = Some (200, Some sigData) \<and> ve_armor (fe_verify fe) sigData = Some block \<and>
    pinned_keys keys \<and> ve_xz (fe_verify fe) d = Some stream \<and>
    ve_check (fe_verify fe) keys stream block = Some signer \<and>
    fr_TarballSHA256 r = go_hex_encode (fe_sha256 fe d) \<and>
    (fa_expectedSHA256 fa \<noteq> [] \<longrightarrow> hex_equal_fold (fr_TarballSHA256 r) (fa_expectedSHA256 fa)))"
proof -
  obtain d where d: "cached_tarball fe fa st = Inr d"
    using assms(1) by (auto simp: fetchExtract_def split: sum.splits if_splits)
  obtain u where u: "verify_sha256 fe fa d = Inr u"
    using assms(1) d by (auto simp: fetchExtract_def Let_def split: sum.splits if_splits)
  obtain v b where vb: "verify_pgp fe fa d = Inr (v, b)"
    using assms(1) d u by (auto simp: fetchExtract_def Let_def split: sum.splits if_splits)
  have v: "v" and vk: "VerifyKernelTarball (fe_verify fe) (Some d) (fa_sigURL fa) = Inr b"
    using vb assms(2,3) by (auto simp: verify_pgp_def bindE_Inr_iff)
  have r: "fs_tarball st' = Some d \<and> fr_PGPVerified r = v \<and> fr_TarballSHA256 r = go_hex_encode (fe_sha256 fe d)"
    using assms(1) d u vb by (auto simp: fetchExtract_def Let_def split: sum.splits if_splits option.splits)
  have "fa_expectedSHA256 fa \<noteq> [] \<longrightarrow> hex_equal_fold (go_hex_encode (fe_sha256 fe d)) (fa_expectedSHA256 fa)"
    using u by (auto simp: verify_sha256_def Let_def)
  with r v VerifyKernelTarball_Inr [OF vk] show ?thesis by auto
qed

theorem fetched_source_verified_witness:
  "let (st', r) = fetchExtract (ex_fetch True) ex_args \<lparr> fs_tarball = None, fs_dest = None \<rparr>
   in (case r of Inr fr \<Rightarrow> fr_PGPVerified fr | Inl e \<Rightarrow> False) \<and> fs_tarball st' = Some ''good''"
proof -
  let ?st = "\<lparr> fs_tarball = Some ''good'', fs_dest = Some [XMkdirAll ''/c/src/k.tmp''] \<rparr>"
  let ?r = "\<lparr> fr_Dir = ''/c/src/k'', fr_ResolvedVersion = [], fr_SourceURL = ''u'',
        fr_TarballSHA256 = ''676f6f64'', fr_PGPVerified = True, fr_PGPSignedBy = ''Greg'' \<rparr>"
  have 1: "fetchExtract (ex_fetch True) ex_args \<lparr> fs_tarball = None, fs_dest = None \<rparr> = (?st, Inr ?r)" by (simp add: ex_runs)
  have "fr_PGPVerified ?r"
    using fetched_source_verified [OF 1] by (simp add: ex_args_def)
  with 1 show ?thesis by simp
qed

text \<open>
  An unverified extraction outlives a failed verification: a run that skips
  verification unpacks a tarball; a verifying run finds its signature bad and removes the tarball only; and the
  next verifying run downloads a good one, reports the source as verified, and leaves the
  directory unpacked from the first.
\<close>

theorem stale_extraction_trusted:
  assumes skip: "fetchExtract fe1 (fa \<lparr> fa_skipVerify := True \<rparr>) \<lparr> fs_tarball = None, fs_dest = None \<rparr> = (st1, Inr r1)"
    and bad: "fetchExtract fe2 fa st1 = (st2, Inl (Unverified e))"
    and good: "fetchExtract fe3 fa st2 = (st3, Inr r3)"
    and sig: "fa_sigURL fa \<noteq> []" "\<not> fa_skipVerify fa"
  shows "fr_PGPVerified r3 \<and> fs_dest st3 = fs_dest st1 \<and> fs_dest st1 \<noteq> None \<and>
    (\<exists>bad_bytes. fs_tarball st1 = Some bad_bytes \<and> unpack fe1 (fa \<lparr> fa_skipVerify := True \<rparr>) bad_bytes = Inr (the (fs_dest st3)))"
proof -
  obtain d1 ops where 1: "fs_tarball st1 = Some d1" "fs_dest st1 = Some ops" "unpack fe1 (fa \<lparr> fa_skipVerify := True \<rparr>) d1 = Inr ops"
    using skip by (auto simp: fetchExtract_def Let_def split: sum.splits if_splits option.splits)
  have 2: "fs_dest st2 = fs_dest st1"
    using bad by (auto simp: fetchExtract_def Let_def split: sum.splits if_splits option.splits)
  have 3: "fs_dest st3 = fs_dest st2"
    using good 2 1(2) by (auto simp: fetchExtract_def Let_def split: sum.splits if_splits option.splits)
  have "fr_PGPVerified r3"
    using good sig by (auto simp: fetchExtract_def verify_pgp_def bindE_Inr_iff Let_def split: sum.splits if_splits option.splits)
  with 1 2 3 show ?thesis by auto
qed

theorem stale_extraction_trusted_witness:
  "let st1 = \<lparr> fs_tarball = Some ''evil'', fs_dest = Some [XMkdirAll ''/c/src/k.tmp''] \<rparr>;
       (st2, r2) = fetchExtract (ex_fetch False) ex_args st1;
       (st3, r3) = fetchExtract (ex_fetch True) ex_args st2
   in (\<exists>e. r2 = Inl (Unverified e)) \<and> fs_dest st3 = fs_dest st1 \<and> fs_tarball st3 = Some ''good''"
proof -
  let ?skip = "ex_args \<lparr> fa_skipVerify := True \<rparr>"
  let ?st1 = "\<lparr> fs_tarball = Some ''evil'', fs_dest = Some [XMkdirAll ''/c/src/k.tmp''] \<rparr>"
  let ?st2 = "\<lparr> fs_tarball = None, fs_dest = Some [XMkdirAll ''/c/src/k.tmp''] \<rparr>"
  let ?st3 = "\<lparr> fs_tarball = Some ''good'', fs_dest = Some [XMkdirAll ''/c/src/k.tmp''] \<rparr>"
  obtain r1 where 1: "fetchExtract (ex_fetch False) ?skip \<lparr> fs_tarball = None, fs_dest = None \<rparr> = (?st1, Inr r1)"
  proof
    show "fetchExtract (ex_fetch False) ?skip \<lparr> fs_tarball = None, fs_dest = None \<rparr> =
      (?st1, Inr \<lparr> fr_Dir = ''/c/src/k'', fr_ResolvedVersion = [], fr_SourceURL = ''u'',
        fr_TarballSHA256 = ''6576696c'', fr_PGPVerified = False, fr_PGPSignedBy = [] \<rparr>)" by (simp add: ex_runs)
  qed
  have 2: "fetchExtract (ex_fetch False) ex_args ?st1 = (?st2, Inl (Unverified BadSignature))" by (simp add: ex_runs)
  obtain r3 where 3: "fetchExtract (ex_fetch True) ex_args ?st2 = (?st3, Inr r3)"
  proof
    show "fetchExtract (ex_fetch True) ex_args ?st2 =
      (?st3, Inr \<lparr> fr_Dir = ''/c/src/k'', fr_ResolvedVersion = [], fr_SourceURL = ''u'',
        fr_TarballSHA256 = ''676f6f64'', fr_PGPVerified = True, fr_PGPSignedBy = ''Greg'' \<rparr>)" by (simp add: ex_runs)
  qed
  have "fs_dest ?st3 = fs_dest ?st1"
    using stale_extraction_trusted [OF 1 2 3] by (simp add: ex_args_def)
  with 2 3 show ?thesis by simp
qed

section \<open>The encoding of key addresses\<close>

definition val32 :: "nat list \<Rightarrow> nat" where
  "val32 ds = foldl (\<lambda>a d. a * 32 + d) 0 ds"

lemma val32_append: "val32 (xs @ ys) = val32 xs * 32 ^ length ys + val32 ys"
proof -
  have "foldl (\<lambda>a d. a * 32 + d) a ys = a * 32 ^ length ys + foldl (\<lambda>a d. a * 32 + d) 0 ys" for a :: nat
  proof (induction ys arbitrary: a)
    case (Cons y ys)
    have "foldl (\<lambda>a d. a * 32 + d) (a * 32 + y) ys = (a * 32 + y) * 32 ^ length ys + foldl (\<lambda>a d. a * 32 + d) 0 ys"
      by (rule Cons)
    moreover have "foldl (\<lambda>a d. a * 32 + d) y ys = y * 32 ^ length ys + foldl (\<lambda>a d. a * 32 + d) 0 ys" by (rule Cons)
    ultimately show ?case by (simp add: algebra_simps)
  qed simp
  then have "foldl (\<lambda>a d. a * 32 + d) (val32 xs) ys = val32 xs * 32 ^ length ys + val32 ys" unfolding val32_def .
  then show ?thesis by (simp only: val32_def foldl_append)
qed

lemma val32_simps [simp]: "val32 [] = 0" "val32 (d # ds) = d * 32 ^ length ds + val32 ds"
  using val32_append [of "[d]" ds] by (simp_all add: val32_def)

abbreviation zb :: "nat \<Rightarrow> char" where
  "zb d \<equiv> zbase32Alphabet ! d"

lemma mod_split: "(v :: nat) mod 2 ^ (k + n) = (v div 2 ^ k mod 2 ^ n) * 2 ^ k + v mod 2 ^ k"
proof -
  have "v mod (2 ^ k * 2 ^ n) = 2 ^ k * (v div 2 ^ k mod 2 ^ n) + v mod 2 ^ k" by (rule mod_mult2_eq)
  then show ?thesis by (metis power_add mult.commute)
qed

lemma zb_emit_less: "bits < 5 \<Longrightarrow> zb_emit bits v = (bits, [])"
  by (simp add: zb_emit.simps [of bits])

lemma zb_emit_ge:
  "5 \<le> bits \<Longrightarrow> zb_emit bits v =
     (let (b, s) = zb_emit (bits - 5) v in (b, zbase32Alphabet ! ((v div 2 ^ (bits - 5)) mod 32) # s))"
  by (simp add: zb_emit.simps [of bits])

lemma zb_emit_value:
  "zb_emit bits v = (b, s) \<Longrightarrow>
   b = bits mod 5 \<and> (\<exists>ds. s = map zb ds \<and> (\<forall>d \<in> set ds. d < 32) \<and> 5 * length ds + b = bits \<and>
     val32 ds = (v mod 2 ^ bits) div 2 ^ b)"
proof (induction bits v arbitrary: b s rule: zb_emit.induct)
  case (1 bits v)
  show ?case
  proof (cases "5 \<le> bits")
    case False
    with "1.prems" have "b = bits" "s = []" by (simp_all add: zb_emit_less)
    with False show ?thesis by (intro conjI exI [of _ "[]"]) auto
  next
    case True
    let ?d = "v div 2 ^ (bits - 5) mod 32"
    obtain b' s' where e: "zb_emit (bits - 5) v = (b', s')" by fastforce
    with "1.prems" True have bs: "b = b'" "s = zb ?d # s'" by (simp_all add: zb_emit_ge)
    from "1.IH" [OF True e] obtain ds where b': "b' = (bits - 5) mod 5"
      and ds: "s' = map zb ds" "\<forall>d \<in> set ds. d < 32" "5 * length ds + b' = bits - 5"
        "val32 ds = (v mod 2 ^ (bits - 5)) div 2 ^ b'" by blast
    have m: "bits mod 5 = (bits - 5) mod 5" using True by (simp add: le_mod_geq)
    have p: "(32 :: nat) ^ length ds * 2 ^ b' = 2 ^ (bits - 5)"
    proof -
      have "(32 :: nat) ^ length ds * 2 ^ b' = 2 ^ (5 * length ds + b')" by (simp add: power_add power_mult)
      then show ?thesis by (simp only: ds(3))
    qed
    have "v mod 2 ^ bits = ?d * 2 ^ (bits - 5) + v mod 2 ^ (bits - 5)"
      using mod_split [of v "bits - 5" 5] True by simp
    also have "\<dots> = (?d * 32 ^ length ds) * 2 ^ b' + v mod 2 ^ (bits - 5)" using p by (simp add: mult.assoc)
    finally have "(v mod 2 ^ bits) div 2 ^ b' = ?d * 32 ^ length ds + val32 ds" by (simp add: ds(4))
    then have "val32 (?d # ds) = (v mod 2 ^ bits) div 2 ^ b'" by simp
    moreover have "5 * length (?d # ds) + b' = bits" using ds(3) True by simp
    ultimately show ?thesis
      using b' m ds(1,2) by (intro conjI exI [of _ "?d # ds"]) (auto simp: bs)
  qed
qed

lemma digits_regroup:
  "q * t + r = Q \<Longrightarrow> q * (t * n * p) + (r * n + d) * p = (Q * n + d) * p" for q t r Q n d p :: nat
  by (auto simp: algebra_simps)

lemma be_val_Cons: "be_val (c # s) = code c * 256 ^ length s + be_val s"
proof -
  have "le_val (xs @ [c]) = le_val xs + 256 ^ length xs * code c" for xs
    by (induction xs) (auto simp: algebra_simps)
  then show ?thesis by (simp add: be_val_def)
qed

lemma zb_loop_value:
  "bits < 5 \<Longrightarrow> \<exists>ds pad. zb_loop bits v data = map zb ds \<and> (\<forall>d \<in> set ds. d < 32) \<and> pad < 5 \<and>
     5 * length ds = bits + 8 * length data + pad \<and>
     val32 ds = ((v mod 2 ^ bits) * 256 ^ length data + be_val data) * 2 ^ pad"
proof (induction data arbitrary: bits v)
  case Nil
  show ?case
  proof (cases "bits = 0")
    case True
    then show ?thesis by (intro exI [of _ "[]"] exI [of _ 0]) (simp add: be_val_def)
  next
    case False
    let ?d = "(v * 2 ^ (5 - bits)) mod 32"
    have "(32 :: nat) = 2 ^ bits * 2 ^ (5 - bits)" using Nil by (simp add: power_add [symmetric])
    then have "?d = (v mod 2 ^ bits) * 2 ^ (5 - bits)" by (metis mult_mod_left mult.commute)
    with False Nil show ?thesis by (intro exI [of _ "[?d]"] exI [of _ "5 - bits"]) (simp add: be_val_def)
  qed
next
  case (Cons c data)
  let ?v = "(v * 256 + code c) mod 2 ^ 64"
  let ?Q = "(v mod 2 ^ bits) * 256 + code c"
  let ?n = "length data"
  obtain b s where e: "zb_emit (bits + 8) ?v = (b, s)" by fastforce
  from zb_emit_value [OF e] obtain ds1 where b: "b = (bits + 8) mod 5" and ds1: "s = map zb ds1" "\<forall>d \<in> set ds1. d < 32"
    "5 * length ds1 + b = bits + 8" "val32 ds1 = (?v mod 2 ^ (bits + 8)) div 2 ^ b" by blast
  have b5: "b < 5" by (simp add: b)
  from Cons.IH [OF b5, of ?v] obtain ds2 pad where ds2: "zb_loop b ?v data = map zb ds2" "\<forall>d \<in> set ds2. d < 32" "pad < 5"
    "5 * length ds2 = b + 8 * ?n + pad" "val32 ds2 = ((?v mod 2 ^ b) * 256 ^ ?n + be_val data) * 2 ^ pad" by blast
  have dvd64: "(2 :: nat) ^ (bits + 8) dvd 2 ^ 64" using Cons.prems by (intro le_imp_power_dvd) simp
  have Q: "?v mod 2 ^ (bits + 8) = ?Q"
  proof -
    have "?v mod 2 ^ (bits + 8) = (v * 256 + code c) mod 2 ^ (bits + 8)" using dvd64 by (simp add: mod_mod_cancel)
    also have "\<dots> = ((v * 256 + code c) div 2 ^ 8 mod 2 ^ bits) * 2 ^ 8 + (v * 256 + code c) mod 2 ^ 8"
      using mod_split [of "v * 256 + code c" 8 bits] by (simp add: add.commute)
    also have "\<dots> = ?Q" using code_less_256 [of c] by simp
    finally show ?thesis .
  qed
  have "b \<le> bits + 8" using ds1(3) by simp
  then have "?v mod 2 ^ b = (?v mod 2 ^ (bits + 8)) mod 2 ^ b" by (simp add: mod_mod_cancel le_imp_power_dvd)
  then have R: "?v mod 2 ^ b = ?Q mod 2 ^ b" by (simp only: Q)
  have p: "(32 :: nat) ^ length ds2 = 2 ^ b * 256 ^ ?n * 2 ^ pad"
  proof -
    have "(32 :: nat) ^ length ds2 = 2 ^ (5 * length ds2)" by (simp add: power_mult)
    also have "\<dots> = 2 ^ (b + 8 * ?n + pad)" by (simp only: ds2(4))
    also have "\<dots> = 2 ^ b * 256 ^ ?n * 2 ^ pad" by (simp add: power_add power_mult)
    finally show ?thesis .
  qed
  have "val32 (ds1 @ ds2) = (?Q div 2 ^ b) * (2 ^ b * 256 ^ ?n * 2 ^ pad) + ((?Q mod 2 ^ b) * 256 ^ ?n + be_val data) * 2 ^ pad"
    by (simp only: val32_append ds1(4) ds2(5) Q R p)
  also have "\<dots> = (?Q * 256 ^ ?n + be_val data) * 2 ^ pad"
    by (rule digits_regroup) (rule div_mult_mod_eq)
  also have "\<dots> = ((v mod 2 ^ bits) * 256 ^ length (c # data) + be_val (c # data)) * 2 ^ pad"
    by (simp add: be_val_Cons algebra_simps)
  finally have val: "val32 (ds1 @ ds2) = ((v mod 2 ^ bits) * 256 ^ length (c # data) + be_val (c # data)) * 2 ^ pad" .
  have "zb_loop bits v (c # data) = map zb (ds1 @ ds2)" by (simp only: zb_loop.simps Let_def e ds1(1) ds2(1) prod.case map_append)
  moreover have "5 * length (ds1 @ ds2) = bits + 8 * length (c # data) + pad" using ds1(3) ds2(4) by simp
  ultimately show ?case
    using val ds1(2) ds2(2,3) by (intro exI [of _ "ds1 @ ds2"] exI [of _ pad]) auto
qed

text \<open>
  The encoder that keys are looked up by computes base 32 for inputs of any length,
  though its accumulator overflows after eight bytes: the text is the digits, each below 32, of the input read as one
  big-endian number and padded on the right with fewer than five zero bits.
\<close>

theorem zbase32_is_base32:
  "\<exists>ds pad. zbase32 data = map (\<lambda>d. zbase32Alphabet ! d) ds \<and> (\<forall>d \<in> set ds. d < 32) \<and> pad < 5 \<and>
     5 * length ds = 8 * length data + pad \<and> val32 ds = be_val data * 2 ^ pad"
  using zb_loop_value [of 0 0 data] by (simp add: zbase32_def)

theorem zbase32_is_base32_witness:
  "length (zbase32 ''hello'') = 8 \<and> (\<exists>ds. zbase32 ''hello'' = map (\<lambda>d. zbase32Alphabet ! d) ds \<and> val32 ds = be_val ''hello'')"
proof -
  obtain ds pad where ds: "zbase32 ''hello'' = map (\<lambda>d. zbase32Alphabet ! d) ds" "pad < 5" "5 * length ds = 40 + pad"
      "val32 ds = be_val ''hello'' * 2 ^ pad"
    using zbase32_is_base32 [of "''hello''"] by auto
  from ds(2,3) have "length ds = 8 \<and> pad = 0" by presburger
  with ds(1,4) show ?thesis by auto
qed

end
