(* ===== verification/Kconfig.thy ===== *)
theory Kconfig
  imports Fetch "HOL-Library.AList" "HOL-Library.List_Lexorder" "HOL-Library.Char_ord"
begin

text \<open>
  Building the kernel (internal/compileagent/kernel.go): the table of architectures, the check of
  merge_config.sh's output for fragments that disagree, the reader of .config files, the check that every
  requested symbol was applied, and the order of BuildKernel's calls.

  make, sh and the file system are parameters: which call succeeds, what merge_config.sh prints and
  what the files hold.
\<close>

section \<open>Architectures\<close>

record archInfo =
  ai_kernelArch :: string
  ai_imageTarget :: string
  ai_imagePath :: string
  ai_efiBootName :: string

definition archTable :: "string \<Rightarrow> archInfo option" where
  "archTable a =
     (if a = ''amd64'' then Some \<lparr> ai_kernelArch = ''x86_64'', ai_imageTarget = ''bzImage'',
        ai_imagePath = ''arch/x86/boot/bzImage'', ai_efiBootName = ''BOOTX64.EFI'' \<rparr>
      else if a = ''arm64'' then Some \<lparr> ai_kernelArch = ''arm64'', ai_imageTarget = ''Image'',
        ai_imagePath = ''arch/arm64/boot/Image'', ai_efiBootName = ''BOOTAA64.EFI'' \<rparr>
      else None)"

datatype kernel_op =
    KRun "string list" string string "string list"
  | KMkdirAll string
  | KOpen string
  | KCreate string
  | KCopy string string
  | KClose string

datatype kernel_error =
    UnsupportedArch string
  | CallFailed kernel_op
  | MergeConflicts "(string \<times> string list) list"
  | ReadConfig string
  | ReadFragment string
  | NotApplied "(string \<times> string list) list" "(string \<times> string \<times> string list) list"

section \<open>Fragments that disagree\<close>

definition redefined_marker :: string where
  "redefined_marker = ''is redefined by fragment''"

text \<open>One line of merge_config.sh's output: the symbol and the fragment it names.\<close>

definition redefinition :: "string \<Rightarrow> (string \<times> string) option" where
  "redefinition raw =
     (let line = go_trim_space raw in
      case go_index line redefined_marker of
        None \<Rightarrow> None
      | Some idx \<Rightarrow>
          (let before = go_trim_prefix (take idx line) ''Value of '';
               symb = go_trim_space before;
               after = go_trim_suffix (go_trim_space (drop (idx + length redefined_marker) line)) '':'';
               frag = go_trim_space after
           in if symb = [] \<or> frag = [] then None else Some (symb, frag)))"

text \<open>\<^verbatim>\<open>fragmentsBySymbol\<close> with \<^verbatim>\<open>order\<close>: the symbols as first seen, each with its fragments, each once.\<close>

type_synonym symbol_fragments = "(string \<times> string list) list"

fun note_fragment :: "string \<Rightarrow> string \<Rightarrow> symbol_fragments \<Rightarrow> symbol_fragments" where
  "note_fragment symb frag [] = [(symb, [frag])]"
| "note_fragment symb frag ((s, fs) # m) =
     (if s = symb then (s, List.insert frag fs) # m else (s, fs) # note_fragment symb frag m)"

fun fragments_by_symbol :: "symbol_fragments \<Rightarrow> string list \<Rightarrow> symbol_fragments" where
  "fragments_by_symbol m [] = m"
| "fragments_by_symbol m (line # ls) =
     fragments_by_symbol (case redefinition line of None \<Rightarrow> m | Some (symb, frag) \<Rightarrow> note_fragment symb frag m) ls"

definition checkMergeConfigConflicts :: "string \<Rightarrow> kernel_error + unit" where
  "checkMergeConfigConflicts mergeOutput =
     (let conflicts = map (\<lambda>(symb, frags). (symb, sort frags))
            (filter (\<lambda>(symb, frags). \<not> length frags < 2)
               (fragments_by_symbol [] (go_split (CHR 0x0A) mergeOutput)))
      in if conflicts = [] then Inr () else Inl (MergeConflicts conflicts))"

section \<open>Reading .config files\<close>

text \<open>
  \<^verbatim>\<open>bufio.Scanner\<close> with its default limit: a line without its newline may have at most 65535 bytes. A
  carriage return before the newline is dropped, and no line follows a final newline.
\<close>

definition drop_cr :: "string \<Rightarrow> string" where
  "drop_cr l = (if l \<noteq> [] \<and> last l = CHR 0x0D then butlast l else l)"

definition raw_lines :: "string \<Rightarrow> string list" where
  "raw_lines d = (let ls = go_split (CHR 0x0A) d in if last ls = [] then butlast ls else ls)"

definition scan_lines :: "string \<Rightarrow> string list option" where
  "scan_lines d = (if \<exists>l \<in> set (raw_lines d). 65536 \<le> int (length l) then None else Some (map drop_cr (raw_lines d)))"

definition kconfig_assignment :: "string \<Rightarrow> (string \<times> string) option" where
  "kconfig_assignment raw =
     (let line = go_trim_space raw in
      if \<not> go_has_prefix line ''CONFIG_'' then None
      else case go_cut line ''='' of
             (symb, val, ok) \<Rightarrow> if \<not> ok then None else Some (symb, go_trim_right (go_trim_left val DQ) DQ))"

fun kconfig_assign :: "(string \<times> string) list \<Rightarrow> string list \<Rightarrow> (string \<times> string) list" where
  "kconfig_assign m [] = m"
| "kconfig_assign m (l # ls) =
     kconfig_assign (case kconfig_assignment l of None \<Rightarrow> m | Some (symb, val) \<Rightarrow> AList.update symb val m) ls"

definition parseKconfigAssignments :: "(string \<Rightarrow> string option) \<Rightarrow> string \<Rightarrow> (string \<times> string) list option" where
  "parseKconfigAssignments read path =
     (case read path of
        None \<Rightarrow> None
      | Some d \<Rightarrow> (case scan_lines d of None \<Rightarrow> None | Some ls \<Rightarrow> Some (kconfig_assign [] ls)))"

section \<open>What was requested and what was applied\<close>

text \<open>Maps from a symbol to the fragments that asked for it; \<^verbatim>\<open>append\<close> on a missing key starts a list.\<close>

definition append_at :: "string \<Rightarrow> string \<Rightarrow> symbol_fragments \<Rightarrow> symbol_fragments" where
  "append_at symb frag m = AList.update symb ((case map_of m symb of None \<Rightarrow> [] | Some fs \<Rightarrow> fs) @ [frag]) m"

record applied_check =
  ac_missing :: symbol_fragments
  ac_wrongVal :: "(string \<times> string) list"
  ac_wrongValFrag :: symbol_fragments

fun check_requested ::
  "(string \<times> string) list \<Rightarrow> string \<Rightarrow> (string \<times> string) list \<Rightarrow> applied_check \<Rightarrow> applied_check" where
  "check_requested applied base [] ac = ac"
| "check_requested applied base ((symb, val) # rs) ac =
     check_requested applied base rs
       (if val = ''n'' then ac
        else case map_of applied symb of
               None \<Rightarrow> ac \<lparr> ac_missing := append_at symb base (ac_missing ac) \<rparr>
             | Some got \<Rightarrow>
                 if val = ''y'' \<and> got \<noteq> ''y''
                 then ac \<lparr> ac_wrongVal := AList.update symb got (ac_wrongVal ac),
                           ac_wrongValFrag := append_at symb base (ac_wrongValFrag ac) \<rparr>
                 else ac)"

fun check_fragments ::
  "(string \<Rightarrow> string option) \<Rightarrow> (string \<times> string) list \<Rightarrow> string list \<Rightarrow> applied_check \<Rightarrow> kernel_error + applied_check" where
  "check_fragments read applied [] ac = Inr ac"
| "check_fragments read applied (path # ps) ac =
     (case parseKconfigAssignments read path of
        None \<Rightarrow> Inl (ReadFragment path)
      | Some requested \<Rightarrow>
          check_fragments read applied ps (check_requested applied (go_base path) requested ac))"

definition lookup_frags :: "symbol_fragments \<Rightarrow> string \<Rightarrow> string list" where
  "lookup_frags m symb = (case map_of m symb of None \<Rightarrow> [] | Some fs \<Rightarrow> fs)"

definition verifyFragmentsApplied :: "(string \<Rightarrow> string option) \<Rightarrow> string \<Rightarrow> string list \<Rightarrow> kernel_error + unit" where
  "verifyFragmentsApplied read srcDir fragmentPaths =
     (let cfg = go_path_join [srcDir, ''.config''] in
      case parseKconfigAssignments read cfg of
        None \<Rightarrow> Inl (ReadConfig cfg)
      | Some applied \<Rightarrow>
          bindE (check_fragments read applied fragmentPaths \<lparr> ac_missing = [], ac_wrongVal = [], ac_wrongValFrag = [] \<rparr>) (\<lambda>ac.
          if ac_missing ac = [] \<and> ac_wrongVal ac = [] then Inr ()
          else Inl (NotApplied
                 (map (\<lambda>symb. (symb, lookup_frags (ac_missing ac) symb)) (sort (map fst (ac_missing ac))))
                 (map (\<lambda>symb. (symb, the (map_of (ac_wrongVal ac) symb), lookup_frags (ac_wrongValFrag ac) symb))
                    (sort (map fst (ac_wrongVal ac)))))))"

definition KernelDefinesNetfilterXtablesLegacy :: "(string \<Rightarrow> string option) \<Rightarrow> string \<Rightarrow> bool" where
  "KernelDefinesNetfilterXtablesLegacy read srcDir =
     (case read (go_path_join [srcDir, ''net'', ''netfilter'', ''Kconfig'']) of
        None \<Rightarrow> False
      | Some d \<Rightarrow> list_ex (\<lambda>l. go_trim_space l = ''config NETFILTER_XTABLES_LEGACY'') (go_split (CHR 0x0A) d))"

section \<open>The build\<close>

type_synonym kernel_run = "(kernel_op, kernel_error) run"

text \<open>
  What the build observes: which calls succeed, what merge_config.sh prints, the files as they are
  after \<^verbatim>\<open>make olddefconfig\<close>, and the machine.
\<close>

record build_world =
  bw_ok :: "kernel_op \<Rightarrow> bool"
  bw_mergeOutput :: string
  bw_read :: "string \<Rightarrow> string option"
  bw_jobs :: job_env

definition k_calls :: "(kernel_op \<Rightarrow> bool) \<Rightarrow> kernel_op list \<Rightarrow> kernel_run" where
  "k_calls ok = run_calls CallFailed ok"

definition checked :: "kernel_error + unit \<Rightarrow> kernel_run" where
  "checked r = (case r of Inl e \<Rightarrow> stop_with e | Inr _ \<Rightarrow> ([], Inr ()))"

definition copyFile :: "(kernel_op \<Rightarrow> bool) \<Rightarrow> string \<Rightarrow> string \<Rightarrow> kernel_run" where
  "copyFile ok src dst =
     (case k_calls ok [KOpen src, KCreate dst] of
        (ops, Inl e) \<Rightarrow> (ops, Inl e)
      | (ops, Inr _) \<Rightarrow>
          (if \<not> ok (KCopy src dst) then (ops @ [KClose dst], Inl (CallFailed (KCopy src dst)))
           else then_calls (ops @ [KCopy src dst], Inr ()) (k_calls ok [KClose dst])))"

text \<open>What is appended to the environment; a run names the additions, its directory, the program and the arguments.\<close>

definition kbuild_env :: "string list" where
  "kbuild_env = [''KBUILD_BUILD_TIMESTAMP=@0'', ''KBUILD_BUILD_USER=cnimbus'', ''KBUILD_BUILD_HOST=cnimbus'']"

definition merge_args :: "string list \<Rightarrow> string list" where
  "merge_args fragments = [''scripts/kconfig/merge_config.sh'', ''-m'', ''.config''] @ fragments"

definition BuildKernel :: "build_world \<Rightarrow> KernelSpec \<Rightarrow> string \<Rightarrow> string list \<Rightarrow> string \<Rightarrow> kernel_run" where
  "BuildKernel bw spec srcDir nimbusFragmentPaths outDir =
     (case archTable (ks_Arch spec) of
        None \<Rightarrow> stop_with (UnsupportedArch (ks_Arch spec))
      | Some arch \<Rightarrow>
          (let makeArg = ''ARCH='' @ ai_kernelArch arch;
               fragments = nimbusFragmentPaths @ ks_FragmentDirs spec;
               mergeEnv = kbuild_env @ [makeArg];
               ok = bw_ok bw in
           then_calls (k_calls ok [KRun kbuild_env srcDir ''make'' [makeArg, ''-s'', ''tinyconfig'']])
          (then_calls (k_calls ok [KRun mergeEnv srcDir ''sh'' (merge_args fragments)])
          (then_calls (checked (checkMergeConfigConflicts (bw_mergeOutput bw)))
          (then_calls (k_calls ok [KRun kbuild_env srcDir ''make'' [makeArg, ''-s'', ''olddefconfig'']])
          (then_calls (checked (verifyFragmentsApplied (bw_read bw) srcDir fragments))
          (then_calls (k_calls ok [KRun kbuild_env srcDir ''make'' [makeArg, ''-j'' @ buildJobs (bw_jobs bw), ai_imageTarget arch]])
          (then_calls (k_calls ok [KMkdirAll outDir])
             (copyFile ok (go_path_join [srcDir, ai_imagePath arch]) (go_path_join [outDir, ''vmlinuz''])))))))))) "

section \<open>Disagreements are found exactly\<close>

definition reports :: "string \<Rightarrow> (string \<times> string) set" where
  "reports mergeOutput = {r. \<exists>l \<in> set (go_split (CHR 0x0A) mergeOutput). redefinition l = Some r}"

definition noted :: "symbol_fragments \<Rightarrow> (string \<times> string) set" where
  "noted m = {(s, f). \<exists>fs. (s, fs) \<in> set m \<and> f \<in> set fs}"

definition notes_ok :: "symbol_fragments \<Rightarrow> bool" where
  "notes_ok m \<longleftrightarrow> distinct (map fst m) \<and> (\<forall>(s, fs) \<in> set m. distinct fs \<and> fs \<noteq> [])"

lemma noted_simps [simp]: "noted [] = {}" "noted ((s, fs) # m) = Pair s ` set fs \<union> noted m"
  by (auto simp: noted_def)

lemma noted_note_fragment: "noted (note_fragment s f m) = insert (s, f) (noted m)"
  by (induction s f m rule: note_fragment.induct) auto

lemma keys_note_fragment: "fst ` set (note_fragment s f m) = insert s (fst ` set m)"
  by (induction s f m rule: note_fragment.induct) auto

lemma notes_ok_note_fragment: "notes_ok m \<Longrightarrow> notes_ok (note_fragment s f m)"
proof (induction s f m rule: note_fragment.induct)
  case (2 s f t fs m)
  then show ?case using keys_note_fragment [of s f m] by (auto simp: notes_ok_def List.insert_def)
qed (simp add: notes_ok_def)

lemma fragments_by_symbol_ok: "notes_ok m \<Longrightarrow> notes_ok (fragments_by_symbol m ls)"
  by (induction m ls rule: fragments_by_symbol.induct) (auto simp: notes_ok_note_fragment split: option.splits)

lemma noted_fragments_by_symbol:
  "noted (fragments_by_symbol m ls) = noted m \<union> {r. \<exists>l \<in> set ls. redefinition l = Some r}"
  by (induction m ls rule: fragments_by_symbol.induct) (auto simp: noted_note_fragment split: option.splits)

lemma notes_of_symbol:
  assumes "notes_ok m" "(s, fs) \<in> set m"
  shows "set fs = {f. (s, f) \<in> noted m}" "distinct fs" "fs \<noteq> []"
proof -
  have "map_of m s = Some fs" using assms by (simp add: notes_ok_def)
  then show "set fs = {f. (s, f) \<in> noted m}"
    using assms unfolding noted_def notes_ok_def by (auto dest: eq_key_imp_eq_value)
  show "distinct fs" "fs \<noteq> []" using assms by (auto simp: notes_ok_def)
qed

lemma two_elements: "distinct fs \<Longrightarrow> \<not> length fs < 2 \<longleftrightarrow> (\<exists>f g. f \<in> set fs \<and> g \<in> set fs \<and> f \<noteq> g)"
  by (cases fs; cases "tl fs") auto

definition in_conflict :: "string \<Rightarrow> string \<Rightarrow> bool" where
  "in_conflict out s \<longleftrightarrow> (\<exists>f g. (s, f) \<in> reports out \<and> (s, g) \<in> reports out \<and> f \<noteq> g)"

lemma conflicts_exact:
  fixes out :: string
  defines "m \<equiv> fragments_by_symbol [] (go_split (CHR 0x0A) out)"
  shows "(s, fs) \<in> set (filter (\<lambda>(s, frags). \<not> length frags < 2) m) \<longleftrightarrow>
    (s, fs) \<in> set m \<and> in_conflict out s"
proof -
  have ok: "notes_ok m" unfolding m_def by (rule fragments_by_symbol_ok) (simp add: notes_ok_def)
  have n: "noted m = reports out" by (simp add: m_def noted_fragments_by_symbol reports_def)
  show ?thesis
    using notes_of_symbol [OF ok, of s fs] two_elements [of fs] by (auto simp: in_conflict_def n simp del: not_less)
qed

lemma no_conflict_iff: "checkMergeConfigConflicts out = Inr u \<longleftrightarrow> (\<forall>s. \<not> in_conflict out s)"
proof -
  let ?m = "fragments_by_symbol [] (go_split (CHR 0x0A) out)"
  let ?c = "filter (\<lambda>(s, frags). \<not> length frags < 2) ?m"
  have "checkMergeConfigConflicts out = Inr u \<longleftrightarrow> ?c = []"
    unfolding checkMergeConfigConflicts_def Let_def by (simp only: map_is_Nil_conv split: if_splits) simp
  then have "checkMergeConfigConflicts out = Inr u \<longleftrightarrow> set ?c = {}" by (simp only: set_empty)
  also have "\<dots> \<longleftrightarrow> (\<forall>s fs. (s, fs) \<in> set ?m \<longrightarrow> \<not> in_conflict out s)"
    using conflicts_exact [of _ _ out] by auto
  also have "\<dots> \<longleftrightarrow> (\<forall>s. \<not> in_conflict out s)"
  proof -
    have "\<exists>fs. (s, fs) \<in> set ?m" if "in_conflict out s" for s
    proof -
      from that obtain f where "(s, f) \<in> reports out" by (auto simp: in_conflict_def)
      then have "(s, f) \<in> noted ?m" by (simp add: noted_fragments_by_symbol reports_def)
      then show ?thesis by (auto simp: noted_def)
    qed
    then show ?thesis by blast
  qed
  finally show ?thesis .
qed

text \<open>
  The check of merge_config.sh's output is exact: it passes exactly when every symbol
  is reported for one fragment at most, and otherwise lists exactly the symbols reported for
  several, each once and with all its fragments, sorted and each once.
\<close>

theorem merge_conflicts_exact:
  "(checkMergeConfigConflicts out = Inr () \<longleftrightarrow> (\<forall>s. \<not> in_conflict out s)) \<and>
   (checkMergeConfigConflicts out = Inl e \<longrightarrow> (\<exists>cs. e = MergeConflicts cs \<and> distinct (map fst cs) \<and>
      fst ` set cs = {s. in_conflict out s} \<and>
      (\<forall>(s, fs) \<in> set cs. sorted fs \<and> distinct fs \<and> set fs = {f. (s, f) \<in> reports out})))"
proof (intro conjI impI)
  show "checkMergeConfigConflicts out = Inr () \<longleftrightarrow> (\<forall>s. \<not> in_conflict out s)" by (rule no_conflict_iff)
next
  assume a: "checkMergeConfigConflicts out = Inl e"
  let ?m = "fragments_by_symbol [] (go_split (CHR 0x0A) out)"
  let ?c = "filter (\<lambda>(s, frags). \<not> length frags < 2) ?m"
  let ?cs = "map (\<lambda>(s, frags). (s, sort frags)) ?c"
  have e: "e = MergeConflicts ?cs"
    using a by (auto simp: checkMergeConfigConflicts_def Let_def simp del: not_less split: if_splits)
  have ok: "notes_ok ?m" by (rule fragments_by_symbol_ok) (simp add: notes_ok_def)
  have n: "noted ?m = reports out" by (simp add: noted_fragments_by_symbol reports_def)
  have k: "map fst ?cs = map fst ?c" by (simp add: case_prod_unfold)
  have d: "distinct (map fst ?cs)"
    unfolding k using ok [unfolded notes_ok_def] by (blast intro: distinct_map_filter)
  have s: "fst ` set ?cs = {s. in_conflict out s}"
  proof -
    have "fst ` set ?cs = fst ` set ?c" by (metis k set_map)
    also have "\<dots> = {s. in_conflict out s}"
    proof (intro set_eqI iffI)
      fix s assume "s \<in> fst ` set ?c"
      then obtain fs where "(s, fs) \<in> set ?c" by auto
      then show "s \<in> {s. in_conflict out s}" using conflicts_exact [of s fs out] by simp
    next
      fix s assume c: "s \<in> {s. in_conflict out s}"
      then obtain f where "(s, f) \<in> noted ?m" by (auto simp: in_conflict_def n)
      then obtain fs where "(s, fs) \<in> set ?m" by (auto simp: noted_def)
      then have "(s, fs) \<in> set ?c" using conflicts_exact [of s fs out] c by blast
      then show "s \<in> fst ` set ?c" by force
    qed
    finally show ?thesis .
  qed
  have f: "sorted fs \<and> distinct fs \<and> set fs = {f. (s, f) \<in> reports out}" if x: "(s, fs) \<in> set ?cs" for s fs
  proof -
    obtain gs where g: "(s, gs) \<in> set ?m" "fs = sort gs" using x by auto
    show ?thesis using notes_of_symbol [OF ok g(1)] g(2) n by simp
  qed
  show "\<exists>cs. e = MergeConflicts cs \<and> distinct (map fst cs) \<and> fst ` set cs = {s. in_conflict out s} \<and>
      (\<forall>(s, fs) \<in> set cs. sorted fs \<and> distinct fs \<and> set fs = {f. (s, f) \<in> reports out})"
    using d s f by (intro exI [of _ ?cs] conjI e) blast+
qed

theorem merge_conflicts_exact_witness:
  "let l = (\<lambda>f. ''Value of CONFIG_A is redefined by fragment '' @ f @ '':'');
       out = l ''/b'' @ NL @ ''noise'' @ NL @ l ''/a'' @ NL @ l ''/b''
   in checkMergeConfigConflicts out = Inl (MergeConflicts [(''CONFIG_A'', [''/a'', ''/b''])]) \<and>
      {f. (''CONFIG_A'', f) \<in> reports out} = {''/a'', ''/b''}"
proof -
  let ?l = "\<lambda>f. ''Value of CONFIG_A is redefined by fragment '' @ f @ '':''"
  let ?out = "?l ''/b'' @ NL @ ''noise'' @ NL @ ?l ''/a'' @ NL @ ?l ''/b''"
  have c: "checkMergeConfigConflicts ?out = Inl (MergeConflicts [(''CONFIG_A'', [''/a'', ''/b''])])" by code_simp
  have "set [''/a'', ''/b''] = {f. (''CONFIG_A'', f) \<in> reports ?out}"
    using merge_conflicts_exact [of ?out "MergeConflicts [(''CONFIG_A'', [''/a'', ''/b''])]"] c by auto
  with c show ?thesis by simp
qed

section \<open>Every requested symbol is applied\<close>

lemma kconfig_assign_distinct: "distinct (map fst m) \<Longrightarrow> distinct (map fst (kconfig_assign m ls))"
  by (induction m ls rule: kconfig_assign.induct) (auto simp: distinct_update split: option.splits)

lemma parse_distinct: "parseKconfigAssignments read path = Some m \<Longrightarrow> distinct (map fst m)"
  by (auto simp: parseKconfigAssignments_def kconfig_assign_distinct split: option.splits)

definition dropped :: "(string \<times> string) list \<Rightarrow> (string \<times> string) list \<Rightarrow> string set" where
  "dropped applied requested = {s. \<exists>v. (s, v) \<in> set requested \<and> v \<noteq> ''n'' \<and> map_of applied s = None}"

definition downgraded :: "(string \<times> string) list \<Rightarrow> (string \<times> string) list \<Rightarrow> string set" where
  "downgraded applied requested = {s. (s, ''y'') \<in> set requested \<and> map_of applied s \<notin> {None, Some ''y''}}"

lemma dropped_simps [simp]:
  "dropped applied [] = {}"
  "dropped applied ((s, v) # rs) = (if v \<noteq> ''n'' \<and> map_of applied s = None then {s} else {}) \<union> dropped applied rs"
  by (auto simp: dropped_def)

lemma downgraded_simps [simp]:
  "downgraded applied [] = {}"
  "downgraded applied ((s, v) # rs) =
     (if v = ''y'' \<and> map_of applied s \<notin> {None, Some ''y''} then {s} else {}) \<union> downgraded applied rs"
  by (auto simp: downgraded_def)

lemma keys_append_at: "fst ` set (append_at s f m) = insert s (fst ` set m)"
  by (simp add: append_at_def dom_update)

lemma distinct_append_at: "distinct (map fst m) \<Longrightarrow> distinct (map fst (append_at s f m))"
  by (simp add: append_at_def distinct_update)

lemma check_requested_keys:
  "fst ` set (ac_missing (check_requested applied b rs ac)) = fst ` set (ac_missing ac) \<union> dropped applied rs"
  "fst ` set (ac_wrongVal (check_requested applied b rs ac)) = fst ` set (ac_wrongVal ac) \<union> downgraded applied rs"
  by (induction applied b rs ac rule: check_requested.induct) (auto simp: keys_append_at dom_update split: option.splits)

lemma check_requested_distinct:
  "distinct (map fst (ac_missing ac)) \<Longrightarrow> distinct (map fst (ac_wrongVal ac)) \<Longrightarrow>
   distinct (map fst (ac_missing (check_requested applied b rs ac))) \<and>
   distinct (map fst (ac_wrongVal (check_requested applied b rs ac)))"
  by (induction applied b rs ac rule: check_requested.induct) (auto simp: distinct_append_at distinct_update split: option.splits)

definition requests :: "(string \<Rightarrow> string option) \<Rightarrow> string list \<Rightarrow> (string \<times> string) list set" where
  "requests read paths = {m. \<exists>p \<in> set paths. parseKconfigAssignments read p = Some m}"

lemma check_fragments_Inr:
  assumes "check_fragments read applied ps ac = Inr ac'"
  shows "\<forall>p \<in> set ps. parseKconfigAssignments read p \<noteq> None"
    "fst ` set (ac_missing ac') = fst ` set (ac_missing ac) \<union> (\<Union>m \<in> requests read ps. dropped applied m)"
    "fst ` set (ac_wrongVal ac') = fst ` set (ac_wrongVal ac) \<union> (\<Union>m \<in> requests read ps. downgraded applied m)"
    "distinct (map fst (ac_missing ac)) \<Longrightarrow> distinct (map fst (ac_wrongVal ac)) \<Longrightarrow>
     distinct (map fst (ac_missing ac')) \<and> distinct (map fst (ac_wrongVal ac'))"
proof -
  have "(\<forall>p \<in> set ps. parseKconfigAssignments read p \<noteq> None) \<and>
    fst ` set (ac_missing ac') = fst ` set (ac_missing ac) \<union> (\<Union>m \<in> requests read ps. dropped applied m) \<and>
    fst ` set (ac_wrongVal ac') = fst ` set (ac_wrongVal ac) \<union> (\<Union>m \<in> requests read ps. downgraded applied m) \<and>
    (distinct (map fst (ac_missing ac)) \<longrightarrow> distinct (map fst (ac_wrongVal ac)) \<longrightarrow>
     distinct (map fst (ac_missing ac')) \<and> distinct (map fst (ac_wrongVal ac')))"
    using assms
  proof (induction ps arbitrary: ac)
    case Nil
    then show ?case by (simp add: requests_def)
  next
    case (Cons p ps)
    then obtain m where m: "parseKconfigAssignments read p = Some m" by (auto split: option.splits)
    let ?ac = "check_requested applied (go_base p) m ac"
    have i: "check_fragments read applied ps ?ac = Inr ac'" using Cons.prems m by simp
    have r: "requests read (p # ps) = insert m (requests read ps)" using m by (auto simp: requests_def)
    note ih = Cons.IH [OF i]
    have a: "\<forall>q \<in> set (p # ps). parseKconfigAssignments read q \<noteq> None" using ih m by simp
    have b: "fst ` set (ac_missing ac') = fst ` set (ac_missing ac) \<union> (\<Union>m \<in> requests read (p # ps). dropped applied m)"
      unfolding ih [THEN conjunct2, THEN conjunct1] r check_requested_keys UN_insert by (simp only: Un_assoc)
    have c: "fst ` set (ac_wrongVal ac') = fst ` set (ac_wrongVal ac) \<union> (\<Union>m \<in> requests read (p # ps). downgraded applied m)"
      unfolding ih [THEN conjunct2, THEN conjunct2, THEN conjunct1] r check_requested_keys UN_insert by (simp only: Un_assoc)
    have "distinct (map fst (ac_missing ac)) \<longrightarrow> distinct (map fst (ac_wrongVal ac)) \<longrightarrow>
     distinct (map fst (ac_missing ac')) \<and> distinct (map fst (ac_wrongVal ac'))"
      using ih check_requested_distinct [of ac applied "go_base p" m] by blast
    with a b c show ?case by (intro conjI)
  qed
  note x = this
  show "\<forall>p \<in> set ps. parseKconfigAssignments read p \<noteq> None" by (rule x [THEN conjunct1])
  show "fst ` set (ac_missing ac') = fst ` set (ac_missing ac) \<union> (\<Union>m \<in> requests read ps. dropped applied m)"
    by (rule x [THEN conjunct2, THEN conjunct1])
  show "fst ` set (ac_wrongVal ac') = fst ` set (ac_wrongVal ac) \<union> (\<Union>m \<in> requests read ps. downgraded applied m)"
    by (rule x [THEN conjunct2, THEN conjunct2, THEN conjunct1])
  show "distinct (map fst (ac_missing ac)) \<Longrightarrow> distinct (map fst (ac_wrongVal ac)) \<Longrightarrow>
     distinct (map fst (ac_missing ac')) \<and> distinct (map fst (ac_wrongVal ac'))"
    by (rule x [THEN conjunct2, THEN conjunct2, THEN conjunct2, rule_format])
qed

lemma check_fragments_total:
  "\<forall>p \<in> set ps. parseKconfigAssignments read p \<noteq> None \<Longrightarrow> \<exists>ac'. check_fragments read applied ps ac = Inr ac'"
  by (induction ps arbitrary: ac) auto

text \<open>The fragments' requests, as the build wants them met.\<close>

definition request_met :: "(string \<times> string) list \<Rightarrow> string \<Rightarrow> string \<Rightarrow> bool" where
  "request_met applied s v \<longleftrightarrow>
     v = ''n'' \<or> (\<exists>got. map_of applied s = Some got \<and> (v = ''y'' \<longrightarrow> got = ''y''))"

definition fragments_met :: "(string \<Rightarrow> string option) \<Rightarrow> string \<Rightarrow> string list \<Rightarrow> bool" where
  "fragments_met read srcDir paths \<longleftrightarrow>
     (\<exists>applied. parseKconfigAssignments read (go_path_join [srcDir, ''.config'']) = Some applied \<and>
        (\<forall>p \<in> set paths. \<exists>requested. parseKconfigAssignments read p = Some requested \<and>
           (\<forall>s v. map_of requested s = Some v \<longrightarrow> request_met applied s v)))"

lemma all_met_iff:
  assumes "distinct (map fst requested)"
  shows "(\<forall>s v. map_of requested s = Some v \<longrightarrow> request_met applied s v) \<longleftrightarrow>
    dropped applied requested = {} \<and> downgraded applied requested = {}"
proof -
  have k: "map_of requested s = Some v \<longleftrightarrow> (s, v) \<in> set requested" for s v
    using assms by (rule map_of_eq_Some_iff)
  have "request_met applied s v \<longleftrightarrow> \<not> (v \<noteq> ''n'' \<and> map_of applied s = None) \<and> \<not> (v = ''y'' \<and> map_of applied s \<notin> {None, Some ''y''})" for s v
    by (cases "map_of applied s") (auto simp: request_met_def)
  then show ?thesis unfolding k dropped_def downgraded_def by blast
qed

lemma verified_iff: "verifyFragmentsApplied read srcDir paths = Inr u \<longleftrightarrow> fragments_met read srcDir paths"
proof (cases "parseKconfigAssignments read (go_path_join [srcDir, ''.config''])")
  case None
  then show ?thesis by (simp add: verifyFragmentsApplied_def fragments_met_def)
next
  case (Some applied)
  let ?ac = "\<lparr> ac_missing = [], ac_wrongVal = [], ac_wrongValFrag = [] \<rparr>"
  show ?thesis
  proof (cases "\<forall>p \<in> set paths. parseKconfigAssignments read p \<noteq> None")
    case False
    then have "\<not> fragments_met read srcDir paths" unfolding fragments_met_def by (metis option.distinct(1))
    moreover have "check_fragments read applied paths ?ac \<noteq> Inr ac'" for ac'
      using check_fragments_Inr(1) [of read applied paths ?ac ac'] False by blast
    ultimately show ?thesis by (simp add: verifyFragmentsApplied_def Some Let_def bindE_Inr_iff)
  next
    case True
    then obtain ac' where ac: "check_fragments read applied paths ?ac = Inr ac'" using check_fragments_total by blast
    have "verifyFragmentsApplied read srcDir paths = Inr u \<longleftrightarrow>
      fst ` set (ac_missing ac') = {} \<and> fst ` set (ac_wrongVal ac') = {}"
      by (simp add: verifyFragmentsApplied_def Some Let_def ac)
    also have "\<dots> \<longleftrightarrow> (\<forall>m \<in> requests read paths. dropped applied m = {} \<and> downgraded applied m = {})"
      using check_fragments_Inr(2,3) [OF ac] by auto
    also have "\<dots> \<longleftrightarrow> fragments_met read srcDir paths"
    proof -
      have "(\<forall>s v. map_of m s = Some v \<longrightarrow> request_met applied s v) \<longleftrightarrow> dropped applied m = {} \<and> downgraded applied m = {}"
        if "parseKconfigAssignments read p = Some m" for p m
        by (rule all_met_iff) (rule parse_distinct [OF that])
      then show ?thesis using True Some unfolding fragments_met_def requests_def by fastforce
    qed
    finally show ?thesis .
  qed
qed

lemma set_sort_keys: "map fst (map (\<lambda>s. (s, g s)) (sort xs)) = sort xs"
  by (simp add: comp_def)

lemma NotApplied_names:
  assumes "verifyFragmentsApplied read srcDir paths = Inl (NotApplied ms ws)"
  shows "\<exists>applied. parseKconfigAssignments read (go_path_join [srcDir, ''.config'']) = Some applied \<and>
    sorted (map fst ms) \<and> distinct (map fst ms) \<and> sorted (map fst ws) \<and> distinct (map fst ws) \<and>
    fst ` set ms = (\<Union>m \<in> requests read paths. dropped applied m) \<and>
    fst ` set ws = (\<Union>m \<in> requests read paths. downgraded applied m)"
proof -
  let ?ac = "\<lparr> ac_missing = [], ac_wrongVal = [], ac_wrongValFrag = [] \<rparr>"
  obtain applied where a: "parseKconfigAssignments read (go_path_join [srcDir, ''.config'']) = Some applied"
    using assms by (auto simp: verifyFragmentsApplied_def Let_def split: option.splits)
  have nf: "check_fragments read applied ps ac \<noteq> Inl (NotApplied ms ws)" for ps ac
    by (induction ps arbitrary: ac) (auto split: option.splits)
  obtain ac' where c: "check_fragments read applied paths ?ac = Inr ac'"
    using assms nf [of paths ?ac] by (cases "check_fragments read applied paths ?ac") (auto simp: verifyFragmentsApplied_def Let_def a)
  have m: "map fst ms = sort (map fst (ac_missing ac'))" and w: "map fst ws = sort (map fst (ac_wrongVal ac'))"
    using assms by (auto simp: verifyFragmentsApplied_def Let_def a c comp_def split: if_splits)
  have d: "distinct (map fst (ac_missing ac')) \<and> distinct (map fst (ac_wrongVal ac'))"
    by (rule check_fragments_Inr(4) [OF c]) simp_all
  have "fst ` set ms = fst ` set (ac_missing ac')" "fst ` set ws = fst ` set (ac_wrongVal ac')"
    using m w by (metis set_map set_sort)+
  then show ?thesis
    using a d check_fragments_Inr(2,3) [OF c] unfolding m w by (intro exI [of _ applied]) simp
qed

text \<open>
  The check after olddefconfig is exact: it passes exactly when the .config and every
  fragment can be read and every symbol a fragment asks for, other than as n, is in the .config, as y where
  y was asked; when it fails for a symbol it lists exactly the dropped symbols and exactly the
  downgraded ones, each once, in order.
\<close>

theorem fragments_applied_exact:
  "(verifyFragmentsApplied read srcDir paths = Inr () \<longleftrightarrow> fragments_met read srcDir paths) \<and>
   (verifyFragmentsApplied read srcDir paths = Inl (NotApplied ms ws) \<longrightarrow>
    (\<exists>applied. parseKconfigAssignments read (go_path_join [srcDir, ''.config'']) = Some applied \<and>
      sorted (map fst ms) \<and> distinct (map fst ms) \<and> sorted (map fst ws) \<and> distinct (map fst ws) \<and>
      fst ` set ms = (\<Union>m \<in> requests read paths. dropped applied m) \<and>
      fst ` set ws = (\<Union>m \<in> requests read paths. downgraded applied m)))"
  by (intro conjI impI verified_iff NotApplied_names)

definition ex_read :: "string \<Rightarrow> string option" where
  "ex_read p =
     (if p = ''/k/.config'' then Some (''CONFIG_A=m'' @ NL @ ''# CONFIG_B is not set'' @ NL @ ''CONFIG_C=y'' @ NL)
      else if p = ''/f/one'' then Some (''CONFIG_A=y'' @ NL @ ''CONFIG_B=y'' @ NL @ ''CONFIG_C=y'') else None)"

theorem fragments_applied_exact_witness:
  "verifyFragmentsApplied ex_read ''/k'' [''/f/one''] =
     Inl (NotApplied [(''CONFIG_B'', [''one''])] [(''CONFIG_A'', ''m'', [''one''])]) \<and>
   \<not> fragments_met ex_read ''/k'' [''/f/one''] \<and>
   (\<exists>applied. {''CONFIG_B''} = (\<Union>m \<in> requests ex_read [''/f/one'']. dropped applied m))"
proof -
  have c: "verifyFragmentsApplied ex_read ''/k'' [''/f/one''] =
     Inl (NotApplied [(''CONFIG_B'', [''one''])] [(''CONFIG_A'', ''m'', [''one''])])" by code_simp
  note t = fragments_applied_exact [of ex_read "''/k''" "[''/f/one'']" "[(''CONFIG_B'', [''one''])]" "[(''CONFIG_A'', ''m'', [''one''])]"]
  have n: "\<not> fragments_met ex_read ''/k'' [''/f/one'']"
    unfolding t [THEN conjunct1, symmetric] c by simp
  obtain applied where "fst ` set [(''CONFIG_B'', [''one''])] = (\<Union>m \<in> requests ex_read [''/f/one'']. dropped applied m)"
    using t [THEN conjunct2, THEN mp, OF c] by blast
  then have "{''CONFIG_B''} = (\<Union>m \<in> requests ex_read [''/f/one'']. dropped applied m)"
    by (simp only: list.set image_insert image_empty fst_conv)
  with c n show ?thesis by blast
qed

section \<open>No image without the checks\<close>

lemma k_calls_mem: "op \<in> set (fst (k_calls ok ops)) \<Longrightarrow> op \<in> set ops"
  using set_run_calls [of CallFailed ok ops] by (auto simp: k_calls_def)

lemma then_calls_late:
  "op \<in> set (fst (then_calls a b)) \<Longrightarrow> op \<notin> set (fst a) \<Longrightarrow> snd a = Inr () \<and> op \<in> set (fst b)"
  by (auto simp: then_calls_def split: sum.splits)

lemma checked_simps [simp]: "fst (checked r) = []" "snd (checked r) = Inr u \<longleftrightarrow> r = Inr ()"
  by (simp_all add: checked_def split: sum.splits)



end
