(* ===== verification/Squashfs_File.thy ===== *)
theory Squashfs_File
  imports Squashfs_Root
begin

text \<open>
  The file the read-only root is written to (internal/rootfs/squashfsroot.go): the temporary file from its creation to the
  caller's hands, one file of the image as its four calls, and what is left when a step fails. Squashfs_Root says
  which directories and files are written.

  The writer of go-diskfs is a parameter, a record of its calls over a state of any type; Finalize gives the bytes it leaves in the
  temporary file.
\<close>

datatype squash_error =
    NoWorkspace
  | CreateFailed
  | MkdirFailed string
  | OpenFailed string
  | PutFailed string
  | CloseFailed string
  | ChmodFailed string
  | FinalizeFailed
  | StatFailed
  | PadFailed
  | WorkspaceNotClosed

record ('fs, 'h) squash_writer =
  sw_create :: "nat \<Rightarrow> 'fs option"
  sw_mkdir :: "'fs \<Rightarrow> string \<Rightarrow> 'fs option"
  sw_open :: "'fs \<Rightarrow> string \<Rightarrow> 'h option"
  sw_write :: "'fs \<Rightarrow> 'h \<Rightarrow> string \<Rightarrow> 'fs option"
  sw_close :: "'fs \<Rightarrow> 'h \<Rightarrow> 'fs option"
  sw_chmod :: "'fs \<Rightarrow> string \<Rightarrow> nat \<Rightarrow> 'fs option"
  sw_finalize :: "'fs \<Rightarrow> string option"

definition or_fail :: "squash_error \<Rightarrow> 'a option \<Rightarrow> squash_error + 'a" where
  "or_fail e x = (case x of None \<Rightarrow> Inl e | Some y \<Rightarrow> Inr y)"

lemma or_fail_iff [simp]: "or_fail e x = Inr y \<longleftrightarrow> x = Some y" "or_fail e x = Inl e' \<longleftrightarrow> x = None \<and> e' = e"
  by (auto simp: or_fail_def split: option.splits)

definition writeSquashfsFile :: "('fs, 'h) squash_writer \<Rightarrow> 'fs \<Rightarrow> ExtraFile \<Rightarrow> squash_error + 'fs" where
  "writeSquashfsFile sw fs f =
     bindE (or_fail (OpenFailed (xf_Path f)) (sw_open sw fs (xf_Path f))) (\<lambda>h.
     bindE (or_fail (PutFailed (xf_Path f)) (sw_write sw fs h (xf_Data f))) (\<lambda>fs1.
     bindE (or_fail (CloseFailed (xf_Path f)) (sw_close sw fs1 h)) (\<lambda>fs2.
     or_fail (ChmodFailed (xf_Path f)) (sw_chmod sw fs2 (xf_Path f) (xf_Perm f)))))"

definition make_dir :: "('fs, 'h) squash_writer \<Rightarrow> 'fs \<Rightarrow> string \<Rightarrow> squash_error + 'fs" where
  "make_dir sw fs d = or_fail (MkdirFailed d) (sw_mkdir sw fs d)"

text \<open>The calls on the temporary file itself.\<close>

record workspace =
  ws_temp :: "string option"
  ws_stat :: bool
  ws_truncate :: bool
  ws_close :: bool
  ws_remove :: bool

definition squashfs_blocksize :: nat where "squashfs_blocksize = 131072"

text \<open>From the creation of the file system to the closed file: the bytes in it.\<close>

definition fill_workspace :: "workspace \<Rightarrow> ('fs, 'h) squash_writer \<Rightarrow> PiecesSpec \<Rightarrow> ExtraFile list \<Rightarrow> squash_error + string" where
  "fill_workspace ws sw spec normalFiles =
     bindE (or_fail CreateFailed (sw_create sw squashfs_blocksize)) (\<lambda>fs0.
     bindE (foldE (make_dir sw) fs0 (root_dirs (ps_Volumes spec))) (\<lambda>fs1.
     bindE (foldE (writeSquashfsFile sw) fs1 (root_files spec normalFiles)) (\<lambda>fs2.
     bindE (or_fail FinalizeFailed (sw_finalize sw fs2)) (\<lambda>img.
     if \<not> ws_stat ws then Inl StatFailed
     else if length img mod 65536 \<noteq> 0 \<and> \<not> ws_truncate ws then Inl PadFailed
     else if \<not> ws_close ws then Inl WorkspaceNotClosed
     else Inr (pad_64k img)))))"

text \<open>
  The whole call over the files of the host. \<^verbatim>\<open>partial\<close> is what the temporary file holds when a step fails; the deferred function removes it
  then, its own failure being ignored.
\<close>

definition squashfs_root_file ::
  "workspace \<Rightarrow> ('fs, 'h) squash_writer \<Rightarrow> string \<Rightarrow> PiecesSpec \<Rightarrow> ExtraFile list \<Rightarrow> (string \<Rightarrow> string option) \<Rightarrow>
   (string \<Rightarrow> string option) \<times> (squash_error + string)" where
  "squashfs_root_file ws sw partial spec normalFiles files =
     (case ws_temp ws of
        None \<Rightarrow> (files, Inl NoWorkspace)
      | Some tmpPath \<Rightarrow>
          (case fill_workspace ws sw spec normalFiles of
             Inl e \<Rightarrow> (files(tmpPath := if ws_remove ws then None else Some partial), Inl e)
           | Inr img \<Rightarrow> (files(tmpPath \<mapsto> img), Inr tmpPath)))"

section \<open>What the caller gets\<close>

lemma pad_64k_props: "length (pad_64k img) mod 65536 = 0" "take (length img) (pad_64k img) = img" "length (pad_64k img) < length img + 65536"
proof -
  have "(length img + (65536 - length img mod 65536)) mod 65536 = 0" if "length img mod 65536 \<noteq> 0"
  proof -
    have "length img + (65536 - length img mod 65536) = 65536 * (length img div 65536) + 65536"
      using that mult_div_mod_eq [of 65536 "length img"] mod_less_divisor [of 65536 "length img"] by linarith
    then show ?thesis by simp
  qed
  then show "length (pad_64k img) mod 65536 = 0" by (simp add: pad_64k_def Let_def)
  show "take (length img) (pad_64k img) = img" by (simp add: pad_64k_def Let_def)
  have "65536 - length img mod 65536 < 65536" if "length img mod 65536 \<noteq> 0" using that by linarith
  then show "length (pad_64k img) < length img + 65536" by (simp add: pad_64k_def Let_def)
qed

text \<open>Filling the file computes the image of Squashfs_Root.\<close>

lemma fill_workspace_root:
  assumes "fill_workspace ws sw spec normalFiles = Inr img"
  obtains fs0 where "sw_create sw squashfs_blocksize = Some fs0"
    "buildSquashfsRoot fs0 (make_dir sw) (writeSquashfsFile sw) (\<lambda>fs. or_fail FinalizeFailed (sw_finalize sw fs)) spec normalFiles = Inr img"
  using assms by (auto simp: fill_workspace_def buildSquashfsRoot_def bindE_Inr_iff split: if_splits)

text \<open>
  The temporary file of the root is never lost and never torn: on success it is at the path that is returned, holds
  exactly the image, padded with zeros to a multiple of 64 KiB by less than that, and no other file has changed; when a step fails
  and the file can be removed, the host is as before, and an image that did not fit its directories or files is never returned.
\<close>

theorem squashfs_root_file_owned:
  assumes run: "squashfs_root_file ws sw partial spec normalFiles files = (files', r)"
    and fresh: "\<forall>t. ws_temp ws = Some t \<longrightarrow> files t = None"
  shows "(\<forall>path. r = Inr path \<longrightarrow> ws_temp ws = Some path \<and>
      (\<exists>fs0 fs1 fs2 img. sw_create sw squashfs_blocksize = Some fs0 \<and>
         foldE (make_dir sw) fs0 (root_dirs (ps_Volumes spec)) = Inr fs1 \<and>
         foldE (writeSquashfsFile sw) fs1 (root_files spec normalFiles) = Inr fs2 \<and> sw_finalize sw fs2 = Some img \<and>
         files' = files(path \<mapsto> pad_64k img) \<and> length (pad_64k img) mod 65536 = 0 \<and>
         take (length img) (pad_64k img) = img \<and> length (pad_64k img) < length img + 65536)) \<and>
    (\<forall>e. r = Inl e \<and> ws_remove ws \<longrightarrow> files' = files)"
proof (intro conjI allI impI)
  fix path
  assume r: "r = Inr path"
  then obtain img0 where t: "ws_temp ws = Some path" and fill: "fill_workspace ws sw spec normalFiles = Inr img0"
    and f: "files' = files(path \<mapsto> img0)"
    using run by (auto simp: squashfs_root_file_def split: option.splits sum.splits)
  from fill obtain fs0 fs1 fs2 img where s: "sw_create sw squashfs_blocksize = Some fs0"
    "foldE (make_dir sw) fs0 (root_dirs (ps_Volumes spec)) = Inr fs1"
    "foldE (writeSquashfsFile sw) fs1 (root_files spec normalFiles) = Inr fs2" "sw_finalize sw fs2 = Some img" "img0 = pad_64k img"
    by (auto simp: fill_workspace_def bindE_Inr_iff split: if_splits)
  show "ws_temp ws = Some path" by (rule t)
  show "\<exists>fs0 fs1 fs2 img. sw_create sw squashfs_blocksize = Some fs0 \<and>
         foldE (make_dir sw) fs0 (root_dirs (ps_Volumes spec)) = Inr fs1 \<and>
         foldE (writeSquashfsFile sw) fs1 (root_files spec normalFiles) = Inr fs2 \<and> sw_finalize sw fs2 = Some img \<and>
         files' = files(path \<mapsto> pad_64k img) \<and> length (pad_64k img) mod 65536 = 0 \<and>
         take (length img) (pad_64k img) = img \<and> length (pad_64k img) < length img + 65536"
    by (intro exI [of _ fs0] exI [of _ fs1] exI [of _ fs2] exI [of _ img] conjI) (simp_all add: s f [unfolded s(5)] pad_64k_props)
next
  fix e
  assume "r = Inl e \<and> ws_remove ws"
  then show "files' = files"
    using run fresh by (auto simp: squashfs_root_file_def fun_upd_idem split: option.splits sum.splits)
qed

section \<open>A concrete writer\<close>

text \<open>It keeps the log of its calls, and its image is that log's length in blanks.\<close>

definition ex_writer :: "(nat, unit) squash_writer" where
  "ex_writer =
     \<lparr> sw_create = (\<lambda>b. Some 0), sw_mkdir = (\<lambda>n d. Some (Suc n)), sw_open = (\<lambda>n p. Some ()), sw_write = (\<lambda>n h d. Some n),
       sw_close = (\<lambda>n h. Some n), sw_chmod = (\<lambda>n p m. Some (Suc n)), sw_finalize = (\<lambda>n. Some (replicate n (CHR '' ''))) \<rparr>"

lemma ex_writer_fold: "foldE (make_dir ex_writer) n ds = Inr (n + length ds)" "foldE (writeSquashfsFile ex_writer) n fs = Inr (n + length fs)"
proof -
  show "foldE (make_dir ex_writer) n ds = Inr (n + length ds)"
    by (induction ds arbitrary: n) (simp_all add: make_dir_def ex_writer_def or_fail_def)
  show "foldE (writeSquashfsFile ex_writer) n fs = Inr (n + length fs)"
    by (induction fs arbitrary: n) (simp_all add: writeSquashfsFile_def ex_writer_def or_fail_def)
qed

theorem squashfs_root_file_owned_witness:
  "\<exists>files'. squashfs_root_file \<lparr> ws_temp = Some ''t'', ws_stat = True, ws_truncate = True, ws_close = False, ws_remove = True \<rparr>
     ex_writer ''torn'' spec [] Map.empty = (files', Inl WorkspaceNotClosed) \<and> files' = Map.empty"
proof -
  let ?ws = "\<lparr> ws_temp = Some ''t'', ws_stat = True, ws_truncate = True, ws_close = False, ws_remove = True \<rparr>"
  have fill: "fill_workspace ?ws ex_writer spec [] = Inl WorkspaceNotClosed"
    by (simp add: fill_workspace_def ex_writer_fold) (simp add: ex_writer_def or_fail_def)
  have e: "squashfs_root_file ?ws ex_writer ''torn'' spec [] Map.empty = (Map.empty(''t'' := None), Inl WorkspaceNotClosed)"
    by (simp add: squashfs_root_file_def fill)
  have f: "\<forall>t. ws_temp ?ws = Some t \<longrightarrow> Map.empty t = None" by simp
  from squashfs_root_file_owned [OF e f] e show ?thesis by simp
qed

end
