(* ===== verification/Key_Material.thy ===== *)
theory Key_Material
  imports Keys Signing
begin

text \<open>
  What is inside the files of the signing identity (\<^verbatim>\<open>Generate\<close> of internal/secureboot/keys.go, \<^verbatim>\<open>parseKeypair\<close> and its
  two parts of authenticode.go): the certificate a generated identity gets, and which key and certificate texts signing accepts.

  encoding/pem, crypto/rsa and crypto/x509 are parameters, a record of their functions.
\<close>

section \<open>The library\<close>

text \<open>A certificate template, with the fields \<^verbatim>\<open>Generate\<close> sets; times are in nanoseconds.\<close>

record cert_template =
  ct_SerialNumber :: nat
  ct_CommonName :: string
  ct_Organization :: "string list"
  ct_NotBefore :: int
  ct_NotAfter :: int
  ct_KeyUsage :: "string list"
  ct_ExtKeyUsage :: "string list"
  ct_BasicConstraintsValid :: bool
  ct_IsCA :: bool

text \<open>\<^verbatim>\<open>cl_parsePKCS8\<close> gives an RSA key on the left, the name of another key's type on the right.\<close>

record 'rsa crypto_lib =
  cl_pemDecode :: "string \<Rightarrow> (string \<times> string) option"
  cl_pemEncode :: "string \<Rightarrow> string \<Rightarrow> string"
  cl_parseCert :: "string \<Rightarrow> certificate option"
  cl_parsePKCS8 :: "string \<Rightarrow> ('rsa + string) option"
  cl_parsePKCS1 :: "string \<Rightarrow> 'rsa option"
  cl_marshalPKCS8 :: "'rsa \<Rightarrow> string option"
  cl_generateRSA :: "nat \<Rightarrow> 'rsa option"
  cl_randInt :: "nat \<Rightarrow> nat option"
  cl_now :: int
  cl_createCert :: "cert_template \<Rightarrow> 'rsa \<Rightarrow> string option"

section \<open>Reading a pair\<close>

datatype keypair_error =
    NoCertBlock
  | BadCertificate
  | NoKeyBlock
  | BadPKCS8
  | NotRSA string
  | BadPKCS1
  | UnknownKeyBlock string

definition parseCertPEM :: "'rsa crypto_lib \<Rightarrow> string \<Rightarrow> keypair_error + certificate" where
  "parseCertPEM cl certPEM =
     (case cl_pemDecode cl certPEM of
        None \<Rightarrow> Inl NoCertBlock
      | Some (ty, bytes) \<Rightarrow>
          if ty \<noteq> ''CERTIFICATE'' then Inl NoCertBlock
          else (case cl_parseCert cl bytes of None \<Rightarrow> Inl BadCertificate | Some c \<Rightarrow> Inr c))"

definition parseRSAKeyPEM :: "'rsa crypto_lib \<Rightarrow> string \<Rightarrow> keypair_error + 'rsa" where
  "parseRSAKeyPEM cl keyPEM =
     (case cl_pemDecode cl keyPEM of
        None \<Rightarrow> Inl NoKeyBlock
      | Some (ty, bytes) \<Rightarrow>
          if ty = ''PRIVATE KEY'' then
            (case cl_parsePKCS8 cl bytes of
               None \<Rightarrow> Inl BadPKCS8
             | Some (Inr kind) \<Rightarrow> Inl (NotRSA kind)
             | Some (Inl key) \<Rightarrow> Inr key)
          else if ty = ''RSA PRIVATE KEY'' then (case cl_parsePKCS1 cl bytes of None \<Rightarrow> Inl BadPKCS1 | Some key \<Rightarrow> Inr key)
          else Inl (UnknownKeyBlock ty))"

definition parseKeypair :: "'rsa crypto_lib \<Rightarrow> Keypair \<Rightarrow> keypair_error + certificate \<times> 'rsa" where
  "parseKeypair cl kp =
     bindE (parseCertPEM cl (kp_CertPEM kp)) (\<lambda>cert.
     bindE (parseRSAKeyPEM cl (kp_KeyPEM kp)) (\<lambda>key. Inr (cert, key)))"

section \<open>Making a pair\<close>

datatype generate_error = NoRSAKey | NoSerial | NotSelfSigned | NotMarshaled

definition rsaKeyBits :: nat where "rsaKeyBits = 3072"

definition hour :: int where "hour = 3600 * 10 ^ 9"

definition certValidity :: int where "certValidity = 10 * 365 * 24 * hour"

definition generate_template :: "string \<Rightarrow> nat \<Rightarrow> int \<Rightarrow> cert_template" where
  "generate_template commonName serial now =
     \<lparr> ct_SerialNumber = serial, ct_CommonName = commonName, ct_Organization = [''cnimbus''],
       ct_NotBefore = now + (-1) * hour, ct_NotAfter = now + certValidity,
       ct_KeyUsage = [''DigitalSignature'', ''CertSign''], ct_ExtKeyUsage = [''CodeSigning''],
       ct_BasicConstraintsValid = True, ct_IsCA = True \<rparr>"

definition Generate :: "'rsa crypto_lib \<Rightarrow> string \<Rightarrow> generate_error + Keypair" where
  "Generate cl commonName =
     (case cl_generateRSA cl rsaKeyBits of
        None \<Rightarrow> Inl NoRSAKey
      | Some key \<Rightarrow>
          (case cl_randInt cl (2 ^ 128) of
             None \<Rightarrow> Inl NoSerial
           | Some serial \<Rightarrow>
               (case cl_createCert cl (generate_template commonName serial (cl_now cl)) key of
                  None \<Rightarrow> Inl NotSelfSigned
                | Some der \<Rightarrow>
                    (case cl_marshalPKCS8 cl key of
                       None \<Rightarrow> Inl NotMarshaled
                     | Some keyDER \<Rightarrow>
                         Inr \<lparr> kp_KeyPEM = cl_pemEncode cl ''PRIVATE KEY'' keyDER,
                               kp_CertPEM = cl_pemEncode cl ''CERTIFICATE'' der \<rparr>))))"

section \<open>A generated identity signs\<close>

text \<open>The documented laws: what is encoded decodes, what is marshaled parses, and a certificate that was created parses to itself.\<close>

definition crypto_laws :: "'rsa crypto_lib \<Rightarrow> bool" where
  "crypto_laws cl \<longleftrightarrow>
     (\<forall>ty \<in> {''PRIVATE KEY'', ''CERTIFICATE''}. \<forall>bytes. cl_pemDecode cl (cl_pemEncode cl ty bytes) = Some (ty, bytes)) \<and>
     (\<forall>key der. cl_marshalPKCS8 cl key = Some der \<longrightarrow> cl_parsePKCS8 cl der = Some (Inl key)) \<and>
     (\<forall>t key der. cl_createCert cl t key = Some der \<longrightarrow> (\<exists>c. cl_parseCert cl der = Some c \<and> cert_Raw c = der))"

lemma Generate_Inr:
  assumes "Generate cl commonName = Inr kp"
  obtains key serial der keyDER where "cl_generateRSA cl rsaKeyBits = Some key" "cl_randInt cl (2 ^ 128) = Some serial"
    "cl_createCert cl (generate_template commonName serial (cl_now cl)) key = Some der" "cl_marshalPKCS8 cl key = Some keyDER"
    "kp = \<lparr> kp_KeyPEM = cl_pemEncode cl ''PRIVATE KEY'' keyDER, kp_CertPEM = cl_pemEncode cl ''CERTIFICATE'' der \<rparr>"
  using assms by (auto simp: Generate_def split: option.splits)

lemma generated_parses:
  assumes "crypto_laws cl" and "Generate cl commonName = Inr kp"
  obtains cert key where "parseKeypair cl kp = Inr (cert, key)" "cl_generateRSA cl rsaKeyBits = Some key"
proof (rule Generate_Inr [OF assms(2)])
  fix key serial der keyDER
  assume g: "cl_generateRSA cl rsaKeyBits = Some key" "cl_createCert cl (generate_template commonName serial (cl_now cl)) key = Some der"
    "cl_marshalPKCS8 cl key = Some keyDER"
    "kp = \<lparr> kp_KeyPEM = cl_pemEncode cl ''PRIVATE KEY'' keyDER, kp_CertPEM = cl_pemEncode cl ''CERTIFICATE'' der \<rparr>"
  then obtain c where "cl_parseCert cl der = Some c" using assms(1) unfolding crypto_laws_def by blast
  moreover have "cl_parsePKCS8 cl keyDER = Some (Inl key)" using assms(1) g(3) unfolding crypto_laws_def by blast
  moreover have "cl_pemDecode cl (cl_pemEncode cl ty bytes) = Some (ty, bytes)" if "ty \<in> {''PRIVATE KEY'', ''CERTIFICATE''}" for ty bytes
    using assms(1) that unfolding crypto_laws_def by blast
  ultimately have "parseKeypair cl kp = Inr (c, key)"
    using g(4) by (simp add: parseKeypair_def parseCertPEM_def parseRSAKeyPEM_def)
  then show thesis using that g(1) by blast
qed

text \<open>The option signing uses.\<close>

definition parsed_keypair :: "'rsa crypto_lib \<Rightarrow> Keypair \<Rightarrow> (certificate \<times> 'rsa) option" where
  "parsed_keypair cl kp = (case parseKeypair cl kp of Inl e \<Rightarrow> None | Inr ck \<Rightarrow> Some ck)"

text \<open>
  An identity that a build generated and stored is one that every later build can sign with: it loads as the same pair,
  the pair parses to the very key that was generated, and no image is ever refused for its keys. Its certificate is
  good from an hour before it was made until ten years of 365 days after.
\<close>

theorem generated_identity_signs:
  assumes laws: "crypto_laws cl" and gen: "Generate cl commonName = Inr kp"
    and first: "LoadOrGenerate (Some kp) env dir w = (w1, Inr (kp1, True))" and temps: "fresh_temps env dir"
  shows "LoadDefault w1 dir = Inr kp \<and>
    (\<exists>cert key. parseKeypair cl kp = Inr (cert, key) \<and> cl_generateRSA cl rsaKeyBits = Some key) \<and>
    (\<forall>pe. signPE sha256 (parsed_keypair cl) rsaSign pe kp \<noteq> Inl BadKeypair) \<and>
    (let t = generate_template commonName serial (cl_now cl) in
       ct_NotBefore t \<le> cl_now cl \<and> ct_NotAfter t - ct_NotBefore t = (10 * 365 * 24 + 1) * hour)"
proof -
  obtain cert key where p: "parseKeypair cl kp = Inr (cert, key)" and k: "cl_generateRSA cl rsaKeyBits = Some key"
    using generated_parses [OF laws gen] by blast
  have "Save env dir kp w = (w1, Inr ()) \<and> kp1 = kp"
    using first by (auto simp: LoadOrGenerate_def split: sum.splits if_splits prod.splits)
  then have l: "LoadDefault w1 dir = Inr kp"
    using temps by (auto simp: Save_def atomicWriteFile_def put_file_def fresh_temps_def LoadDefault_def Load_def read_file_def Let_def
        split: if_splits prod.splits atomic_fault.splits bool.splits)
  have s: "signPE sha256 (parsed_keypair cl) rsaSign pe kp \<noteq> Inl BadKeypair" for pe
    by (auto simp: signPE_def parsed_keypair_def p Let_def bindE_Inl_iff wrapE_Inl_iff split: option.splits)
  show ?thesis using l p k s by (auto simp: generate_template_def certValidity_def hour_def Let_def)
qed

text \<open>
  Nothing checks that key and certificate belong together. When \<^verbatim>\<open>keygen --secureboot\<close> finds a certificate without its key and is
  stopped between its two writes, it leaves the new key beside the old certificate, a pair that the next build loads and signs
  with: the signature is the new key's, the certificate in the image the old one.
\<close>

theorem interrupted_keygen_mismatches:
  assumes lone: "w_read w (go_path_join [dir, KeyPEMName]) = FileMissing" "w_read w (go_path_join [dir, CertPEMName]) = FileData oldCert"
    and env: "se_mkdir env" "se_key_fault env = NoTrouble" "se_cert_fault env = TempFails" "fresh_temps env dir"
    and run: "runKeygenSecureboot (Some kp) env dir w = (w1, r)"
    and old: "parseCertPEM cl oldCert = Inr cert" and new: "parseRSAKeyPEM cl (kp_KeyPEM kp) = Inr key"
  shows "r = Inl WriteCertFailed \<and>
    (\<exists>kp2. LoadDefault w1 dir = Inr kp2 \<and> parseKeypair cl kp2 = Inr (cert, key))"
proof -
  let ?k = "go_path_join [dir, KeyPEMName]" and ?c = "go_path_join [dir, CertPEMName]"
  have ne: "?c \<noteq> ?k" "se_key_tmp env \<noteq> ?k" "se_key_tmp env \<noteq> ?c" using env(4) key_cert_paths [of dir, THEN not_sym] by (auto simp: fresh_temps_def)
  have none: "LoadDefault w dir = Inl (ReadKey ?k)" using lone by (simp add: LoadDefault_def Load_def read_file_def Let_def)
  then have "r = Inl WriteCertFailed \<and> w_read w1 ?k = FileData (kp_KeyPEM kp) \<and> w_read w1 ?c = FileData oldCert"
    using run env ne lone by (auto simp: runKeygenSecureboot_def Save_def atomicWriteFile_def put_file_def Let_def)
  then show ?thesis using old new by (auto simp: LoadDefault_def Load_def read_file_def Let_def parseKeypair_def)
qed

section \<open>A toy library\<close>

definition ex_crypto :: "string crypto_lib" where
  "ex_crypto =
     \<lparr> cl_pemDecode = (\<lambda>s. if go_has_prefix s ''PRIVATE KEY'' then Some (''PRIVATE KEY'', drop 11 s) else Some (''CERTIFICATE'', drop 11 s)),
       cl_pemEncode = (\<lambda>ty b. ty @ b), cl_parseCert = (\<lambda>d. Some \<lparr> cert_RawIssuer = [], cert_Serial = [], cert_Raw = d \<rparr>),
       cl_parsePKCS8 = (\<lambda>d. Some (Inl d)), cl_parsePKCS1 = (\<lambda>d. None), cl_marshalPKCS8 = Some, cl_generateRSA = (\<lambda>n. Some ''k''),
       cl_randInt = (\<lambda>n. Some 7), cl_now = 0, cl_createCert = (\<lambda>t k. Some (ct_CommonName t)) \<rparr>"

lemma ex_crypto_laws: "crypto_laws ex_crypto"
  by (auto simp: crypto_laws_def ex_crypto_def go_has_prefix_def)

lemma ex_generate: "Generate ex_crypto ''n'' = Inr \<lparr> kp_KeyPEM = ''PRIVATE KEYk'', kp_CertPEM = ''CERTIFICATEn'' \<rparr>"
  by (simp add: Generate_def ex_crypto_def generate_template_def)

theorem generated_identity_signs_witness:
  "let kp = \<lparr> kp_KeyPEM = ''PRIVATE KEYk'', kp_CertPEM = ''CERTIFICATEn'' \<rparr> in
   \<exists>w1 cert. LoadOrGenerate (Some kp) calm_env ''sb'' empty_world = (w1, Inr (kp, True)) \<and>
     LoadDefault w1 ''sb'' = Inr kp \<and> parseKeypair ex_crypto kp = Inr (cert, ''k'')"
proof -
  let ?kp = "\<lparr> kp_KeyPEM = ''PRIVATE KEYk'', kp_CertPEM = ''CERTIFICATEn'' \<rparr>"
  obtain w1 where f: "LoadOrGenerate (Some ?kp) calm_env ''sb'' empty_world = (w1, Inr (?kp, True))"
    by (simp add: LoadOrGenerate_def LoadDefault_def empty_world_def Save_def calm_env_def atomicWriteFile_def Let_def)
  note g = generated_identity_signs [OF ex_crypto_laws ex_generate f calm_env_fresh, of id "\<lambda>k d. None" 0]
  then obtain cert key where "parseKeypair ex_crypto ?kp = Inr (cert, key)" "cl_generateRSA ex_crypto rsaKeyBits = Some key" by blast
  then have "parseKeypair ex_crypto ?kp = Inr (cert, ''k'')" by (simp add: ex_crypto_def)
  with f g show ?thesis unfolding Let_def by blast
qed

theorem interrupted_keygen_mismatches_witness:
  "let w = put_file empty_world (go_path_join [''sb'', CertPEMName]) (FileData ''CERTIFICATEold'');
       kp = \<lparr> kp_KeyPEM = ''PRIVATE KEYk'', kp_CertPEM = ''CERTIFICATEn'' \<rparr>;
       w1 = fst (runKeygenSecureboot (Some kp) (calm_env \<lparr> se_cert_fault := TempFails \<rparr>) ''sb'' w)
   in \<exists>kp2 cert. LoadDefault w1 ''sb'' = Inr kp2 \<and> parseKeypair ex_crypto kp2 = Inr (cert, ''k'') \<and> cert_Raw cert = ''old''"
proof -
  let ?w = "put_file empty_world (go_path_join [''sb'', CertPEMName]) (FileData ''CERTIFICATEold'')"
  let ?kp = "\<lparr> kp_KeyPEM = ''PRIVATE KEYk'', kp_CertPEM = ''CERTIFICATEn'' \<rparr>" and ?env = "calm_env \<lparr> se_cert_fault := TempFails \<rparr>"
  let ?cert = "\<lparr> cert_RawIssuer = [], cert_Serial = [], cert_Raw = ''old'' \<rparr>"
  have lone: "w_read ?w (go_path_join [''sb'', KeyPEMName]) = FileMissing"
    "w_read ?w (go_path_join [''sb'', CertPEMName]) = FileData ''CERTIFICATEold''"
    by (simp_all add: empty_world_def)
  have env: "se_mkdir ?env" "se_key_fault ?env = NoTrouble" "se_cert_fault ?env = TempFails" "fresh_temps ?env ''sb''"
    using calm_env_fresh by (simp_all add: calm_env_def fresh_temps_def)
  have parsed: "parseCertPEM ex_crypto ''CERTIFICATEold'' = Inr ?cert" "parseRSAKeyPEM ex_crypto (kp_KeyPEM ?kp) = Inr ''k''"
    by (simp_all add: parseCertPEM_def parseRSAKeyPEM_def ex_crypto_def go_has_prefix_def)
  have run: "runKeygenSecureboot (Some ?kp) ?env ''sb'' ?w =
      (fst (runKeygenSecureboot (Some ?kp) ?env ''sb'' ?w), snd (runKeygenSecureboot (Some ?kp) ?env ''sb'' ?w))"
    by (rule prod.collapse [symmetric])
  show ?thesis
    using interrupted_keygen_mismatches [OF lone env run parsed] unfolding Let_def by fastforce
qed

end
