(* ===== verification/Userland.thy ===== *)
theory Userland
  imports Kconfig Pieces
begin

text \<open>
  Building the userland (internal/compileagent/busybox.go, iptables.go and wpasupplicant.go): the sources that
  are fetched, with their pinned hashes, the edits of BusyBox's configuration, the calls of each build, and
  the manifest of applet links that BusyBox's install tree is exported as.

  make, configure and the file system are parameters, as in the kernel build. The state of a
  BusyBox build is its .config, which outlives the run in the cache directory.
\<close>

section \<open>Fetching\<close>

definition defaultBusyboxVersion :: string where "defaultBusyboxVersion = ''1.36.1''"

definition defaultBusyboxSHA256 :: string where
  "defaultBusyboxSHA256 = ''b8cc24c9574d809e7279c3be349795c5d5ceb6fdf19ca709f80cde50e47de314''"

definition defaultIptablesVersion :: string where "defaultIptablesVersion = ''1.8.8''"

definition defaultIptablesSHA256 :: string where
  "defaultIptablesSHA256 = ''71c75889dc710676631553eb1511da0177bbaaf1b551265b912d236c3f51859f''"

definition defaultLibnlVersion :: string where "defaultLibnlVersion = ''3.12.0''"

definition defaultLibnlSHA256 :: string where
  "defaultLibnlSHA256 = ''fc51ca7196f1a3f5fdf6ffd3864b50f4f9c02333be28be4eeca057e103c0dd18''"

definition defaultSupplicantVersion :: string where "defaultSupplicantVersion = ''2.12''"

definition defaultSupplicantSHA256 :: string where
  "defaultSupplicantSHA256 = ''08e23937e16d0155e55cab2b51f51fbe10d80a1aa91c4e15442645059b737ef6''"

record BusyboxSpec =
  bs_Version :: string
  bs_Arch :: string
  bs_CacheDir :: string

text \<open>The iptables and supplicant specifications have the same two fields.\<close>

record ToolSpec =
  ts_Arch :: string
  ts_CacheDir :: string

definition source_args :: "string \<Rightarrow> string \<Rightarrow> string \<Rightarrow> string \<Rightarrow> string \<Rightarrow> string \<Rightarrow> fetch_args" where
  "source_args cacheDir url tarball dest kind sha =
     \<lparr> fa_cacheDir = cacheDir, fa_url = url, fa_tarballName = tarball, fa_destDir = dest, fa_kind = kind,
       fa_sigURL = [], fa_expectedSHA256 = sha, fa_skipVerify = False \<rparr>"

definition with_version ::
  "string \<Rightarrow> fetch_state \<times> (fetch_source_error + FetchResult) \<Rightarrow> fetch_state \<times> (fetch_source_error + FetchResult)" where
  "with_version version r =
     (case r of (st, Inl e) \<Rightarrow> (st, Inl e) | (st, Inr fr) \<Rightarrow> (st, Inr (fr \<lparr> fr_ResolvedVersion := version \<rparr>)))"

definition busybox_version :: "BusyboxSpec \<Rightarrow> string" where
  "busybox_version spec = (if bs_Version spec = [] then defaultBusyboxVersion else bs_Version spec)"

definition busybox_args :: "BusyboxSpec \<Rightarrow> fetch_args" where
  "busybox_args spec =
     (let version = busybox_version spec; tarball = ''busybox-'' @ version @ ''.tar.bz2'' in
      source_args (bs_CacheDir spec) (''https://busybox.net/downloads/'' @ tarball) tarball (''busybox-'' @ version) ''bz2''
        (if version = defaultBusyboxVersion then defaultBusyboxSHA256 else []))"

definition FetchBusybox :: "fetch_env \<Rightarrow> BusyboxSpec \<Rightarrow> fetch_state \<Rightarrow> fetch_state \<times> (fetch_source_error + FetchResult)" where
  "FetchBusybox fe spec st = with_version (busybox_version spec) (fetchExtract fe (busybox_args spec) st)"

definition iptables_args :: "ToolSpec \<Rightarrow> fetch_args" where
  "iptables_args spec =
     (let tarball = ''iptables-'' @ defaultIptablesVersion @ ''.tar.bz2'' in
      source_args (ts_CacheDir spec) (''https://www.netfilter.org/pub/iptables/'' @ tarball) tarball
        (''iptables-'' @ defaultIptablesVersion) ''bz2'' defaultIptablesSHA256)"

definition FetchIptables :: "fetch_env \<Rightarrow> ToolSpec \<Rightarrow> fetch_state \<Rightarrow> fetch_state \<times> (fetch_source_error + FetchResult)" where
  "FetchIptables fe spec st = with_version defaultIptablesVersion (fetchExtract fe (iptables_args spec) st)"

definition underscoreVersion :: "string \<Rightarrow> string" where
  "underscoreVersion version =
     (case go_split (CHR ''.'') version of [a, b, c] \<Rightarrow> b @ ''_'' @ c | _ \<Rightarrow> version)"

definition libnl_args :: "ToolSpec \<Rightarrow> fetch_args" where
  "libnl_args spec =
     (let tarball = ''libnl-'' @ defaultLibnlVersion @ ''.tar.gz'' in
      source_args (ts_CacheDir spec)
        (''https://github.com/thom311/libnl/releases/download/libnl3_'' @ underscoreVersion defaultLibnlVersion @ ''/'' @ tarball)
        tarball (''libnl-'' @ defaultLibnlVersion) ''gz'' defaultLibnlSHA256)"

definition FetchLibnl :: "fetch_env \<Rightarrow> ToolSpec \<Rightarrow> fetch_state \<Rightarrow> fetch_state \<times> (fetch_source_error + FetchResult)" where
  "FetchLibnl fe spec st = with_version defaultLibnlVersion (fetchExtract fe (libnl_args spec) st)"

definition supplicant_args :: "ToolSpec \<Rightarrow> fetch_args" where
  "supplicant_args spec =
     (let tarball = ''wpa_supplicant-'' @ defaultSupplicantVersion @ ''.tar.gz'' in
      source_args (ts_CacheDir spec) (''https://w1.fi/releases/'' @ tarball) tarball
        (''wpa_supplicant-'' @ defaultSupplicantVersion) ''gz'' defaultSupplicantSHA256)"

definition FetchSupplicant :: "fetch_env \<Rightarrow> ToolSpec \<Rightarrow> fetch_state \<Rightarrow> fetch_state \<times> (fetch_source_error + FetchResult)" where
  "FetchSupplicant fe spec st = with_version defaultSupplicantVersion (fetchExtract fe (supplicant_args spec) st)"

section \<open>BusyBox's configuration\<close>

text \<open>\<^verbatim>\<open>bytes.Replace\<close> with a limit of one.\<close>

definition go_replace_first :: "string \<Rightarrow> string \<Rightarrow> string \<Rightarrow> string" where
  "go_replace_first s old new =
     (case go_index s old of None \<Rightarrow> s | Some i \<Rightarrow> take i s @ new @ drop (i + length old) s)"

definition static_edit :: "string \<Rightarrow> string" where
  "static_edit s = go_replace_first s ''# CONFIG_STATIC is not set'' ''CONFIG_STATIC=y''"

definition tc_edit :: "string \<Rightarrow> string" where
  "tc_edit s = go_replace_first s ''CONFIG_TC=y'' ''# CONFIG_TC is not set''"

definition hardening_edit :: "string \<Rightarrow> string" where
  "hardening_edit s =
     go_replace_first
       (go_replace_first s (''CONFIG_EXTRA_CFLAGS='' @ DQ @ DQ)
          (''CONFIG_EXTRA_CFLAGS='' @ DQ @ ''-fstack-protector-strong -D_FORTIFY_SOURCE=2'' @ DQ))
       (''CONFIG_EXTRA_LDFLAGS='' @ DQ @ DQ)
       (''CONFIG_EXTRA_LDFLAGS='' @ DQ @ ''-Wl,-z,relro,-z,now'' @ DQ)"

datatype user_op =
    URun "string list" string string "string list"
  | URemoveAll string
  | UMkdirAll string
  | UReadFile string
  | UWriteFile string string
  | UCopyFile string string

datatype user_error =
    UnsupportedToolArch string
  | UserCallFailed user_op
  | NoSuchConfig string

type_synonym user_run = "(user_op, user_error) run"

definition u_calls :: "(user_op \<Rightarrow> bool) \<Rightarrow> user_op list \<Rightarrow> user_run" where
  "u_calls ok = run_calls UserCallFailed ok"

text \<open>
  What a BusyBox build observes: which calls succeed, what a failed write leaves of the file, and what
  \<^verbatim>\<open>make defconfig\<close> and \<^verbatim>\<open>make oldconfig\<close> leave as the configuration, whether or not they succeed.
\<close>

record busybox_world =
  bbw_ok :: "user_op \<Rightarrow> bool"
  bbw_torn :: "string \<Rightarrow> string"
  bbw_defconfig :: "string option"
  bbw_oldconfig :: "string \<Rightarrow> string"
  bbw_jobs :: string

type_synonym config_run = "user_run \<times> string option"

definition edit_config :: "busybox_world \<Rightarrow> string \<Rightarrow> (string \<Rightarrow> string) \<Rightarrow> string option \<Rightarrow> config_run" where
  "edit_config bw cfgPath edit cfg =
     (case cfg of
        None \<Rightarrow> (([], Inl (NoSuchConfig cfgPath)), None)
      | Some old \<Rightarrow>
          (if \<not> bbw_ok bw (UReadFile cfgPath) then (([], Inl (UserCallFailed (UReadFile cfgPath))), cfg)
           else if bbw_ok bw (UWriteFile cfgPath (edit old))
           then (([UReadFile cfgPath, UWriteFile cfgPath (edit old)], Inr ()), Some (edit old))
           else (([UReadFile cfgPath], Inl (UserCallFailed (UWriteFile cfgPath (edit old)))), Some (bbw_torn bw (edit old)))))"

definition then_config :: "config_run \<Rightarrow> (string option \<Rightarrow> config_run) \<Rightarrow> config_run" where
  "then_config a f =
     (case snd (fst a) of
        Inl e \<Rightarrow> a
      | Inr _ \<Rightarrow> (let b = f (snd a) in (then_calls (fst a) (fst b), snd b)))"

definition busybox_env :: "string list" where "busybox_env = [''SOURCE_DATE_EPOCH=0'']"

definition busybox_make :: "string list" where "busybox_make = [''CC=gcc'', ''AR=ar'']"

definition configure_busybox :: "busybox_world \<Rightarrow> string \<Rightarrow> string \<Rightarrow> config_run" where
  "configure_busybox bw srcDir cfgPath =
     then_config (u_calls (bbw_ok bw) [URun busybox_env srcDir ''make'' (busybox_make @ [''-s'', ''defconfig''])], bbw_defconfig bw) (\<lambda>c.
     then_config (edit_config bw cfgPath static_edit c) (\<lambda>c.
     then_config (edit_config bw cfgPath tc_edit c) (\<lambda>c.
     then_config (edit_config bw cfgPath hardening_edit c) (\<lambda>c.
       (u_calls (bbw_ok bw) [URun busybox_env srcDir ''make'' (busybox_make @ [''-s'', ''oldconfig''])],
        map_option (bbw_oldconfig bw) c)))))"

definition build_busybox_calls :: "busybox_world \<Rightarrow> string \<Rightarrow> string \<Rightarrow> user_run" where
  "build_busybox_calls bw srcDir outDir =
     (let rootfsDir = go_path_join [outDir, ''rootfs''] in
      u_calls (bbw_ok bw)
        [URun busybox_env srcDir ''make'' (busybox_make @ [''-s'', ''-j'' @ bbw_jobs bw]),
         URemoveAll rootfsDir, UMkdirAll rootfsDir,
         URun busybox_env srcDir ''make'' (busybox_make @ [''-s'', ''CONFIG_PREFIX='' @ rootfsDir, ''install''])])"

definition BuildBusybox :: "busybox_world \<Rightarrow> BusyboxSpec \<Rightarrow> string \<Rightarrow> string \<Rightarrow> string option \<Rightarrow> config_run" where
  "BuildBusybox bw spec srcDir outDir cfg =
     (if archTable (bs_Arch spec) = None then (stop_with (UnsupportedToolArch (bs_Arch spec)), cfg)
      else
        then_config
          (case cfg of
             None \<Rightarrow> configure_busybox bw srcDir (go_path_join [srcDir, ''.config''])
           | Some c \<Rightarrow> (([], Inr ()), Some c)) (\<lambda>c.
          (build_busybox_calls bw srcDir outDir, c)))"

section \<open>The other builds\<close>

definition BuildIptables :: "(user_op \<Rightarrow> bool) \<Rightarrow> string \<Rightarrow> ToolSpec \<Rightarrow> string \<Rightarrow> string \<Rightarrow> user_run" where
  "BuildIptables ok jobs spec srcDir outDir =
     (if archTable (ts_Arch spec) = None then stop_with (UnsupportedToolArch (ts_Arch spec))
      else u_calls ok
        [URun [] srcDir ''./configure''
           [''--disable-shared'', ''--enable-static'', ''--disable-nftables'', ''--disable-bpf-compiler'', ''--without-kernel''],
         URun [] srcDir ''make''
           [''-j'' @ jobs, ''CFLAGS=-O2 -fstack-protector-strong -D_FORTIFY_SOURCE=2'', ''LDFLAGS=-all-static''],
         UMkdirAll outDir,
         UCopyFile (go_path_join [srcDir, ''iptables'', ''xtables-legacy-multi'']) (go_path_join [outDir, ''iptables''])])"

definition buildLibnlStatic :: "(user_op \<Rightarrow> bool) \<Rightarrow> string \<Rightarrow> string \<Rightarrow> string \<Rightarrow> user_run" where
  "buildLibnlStatic ok jobs srcDir installDir =
     u_calls ok
       [URun [] srcDir ''./configure'' [''--prefix='' @ installDir, ''--disable-shared'', ''--enable-static'', ''--disable-cli''],
        URun [] srcDir ''make'' [''-j'' @ jobs],
        URun [] srcDir ''make'' [''install'']]"

definition supplicant_config_lines :: "string list" where
  "supplicant_config_lines =
     [''# Generated by cnimbus's internal/compileagent/wpasupplicant.go --'',
      ''# PSK-only scope per .specs/features/hardboot-baremetal/spec.md'',
      ''# ('' @ DQ @ ''Explicitly out of scope for v1.0'' @ DQ @ '': no WPA-Enterprise/802.1X/EAP,'',
      ''# no WPS, no P2P, no AP mode). Every CONFIG_EAP_* line defconfig ships'',
      ''# is deliberately absent, not merely unset -- the corresponding code'',
      ''# is not compiled in at all.'',
      ''CONFIG_DRIVER_NL80211=y'',
      ''CONFIG_LIBNL32=y'',
      ''CONFIG_BACKEND=file'',
      ''CONFIG_IEEE8021X_EAPOL=y'',
      ''# Answers spec.md's open question 4: internal crypto/TLS, no OpenSSL'',
      ''# dependency at all. CONFIG_INTERNAL_LIBTOMMATH avoids a third'',
      ''# build-time dependency (an external LibTomMath) beyond libnl.'',
      ''CONFIG_TLS=internal'',
      ''CONFIG_INTERNAL_LIBTOMMATH=y'']"

definition supplicant_config :: string where
  "supplicant_config = concat (map (\<lambda>l. l @ NL) supplicant_config_lines)"

definition writeSupplicantConfig :: "(user_op \<Rightarrow> bool) \<Rightarrow> string \<Rightarrow> user_run" where
  "writeSupplicantConfig ok srcDir =
     u_calls ok [UWriteFile (go_path_join [srcDir, ''wpa_supplicant'', ''.config'']) supplicant_config]"

definition BuildSupplicant :: "(user_op \<Rightarrow> bool) \<Rightarrow> string \<Rightarrow> ToolSpec \<Rightarrow> string \<Rightarrow> string \<Rightarrow> string \<Rightarrow> user_run" where
  "BuildSupplicant ok jobs spec libnlSrcDir supplicantSrcDir outDir =
     (if archTable (ts_Arch spec) = None then stop_with (UnsupportedToolArch (ts_Arch spec))
      else
        (let libnlInstall = go_path_join [go_dir libnlSrcDir, ''libnl-install''] in
         then_calls (buildLibnlStatic ok jobs libnlSrcDir libnlInstall)
        (then_calls (writeSupplicantConfig ok supplicantSrcDir)
           (u_calls ok
              [URun [''PKG_CONFIG_PATH='' @ go_path_join [libnlInstall, ''lib'', ''pkgconfig'']]
                 (go_path_join [supplicantSrcDir, ''wpa_supplicant'']) ''make''
                 [''-j'' @ jobs, ''EXTRA_CFLAGS=-O2 -fstack-protector-strong -D_FORTIFY_SOURCE=2'',
                  ''LDFLAGS=-static -L'' @ go_path_join [libnlInstall, ''lib'']],
               UMkdirAll outDir,
               UCopyFile (go_path_join [supplicantSrcDir, ''wpa_supplicant'', ''wpa_supplicant''])
                 (go_path_join [outDir, ''wpa_supplicant''])]))))"

section \<open>Exporting BusyBox\<close>

text \<open>A walk of the install tree: what is visited, a symbolic link with its target, or a failure.\<close>

datatype export_event = WalkFault | NotALink string | AppletLink string "string option"

fun export_links :: "string \<Rightarrow> export_event list \<Rightarrow> string option" where
  "export_links rootfsDir [] = Some []"
| "export_links rootfsDir (WalkFault # es) = None"
| "export_links rootfsDir (NotALink p # es) = export_links rootfsDir es"
| "export_links rootfsDir (AppletLink p target # es) =
     (case (go_rel rootfsDir p, target) of
        (Some rel, Some t) \<Rightarrow> map_option (\<lambda>m. rel @ TAB @ t @ NL @ m) (export_links rootfsDir es)
      | _ \<Rightarrow> None)"

definition ExportPieces :: "(string \<Rightarrow> string option) \<Rightarrow> export_event list \<Rightarrow> string \<Rightarrow> (string \<times> string) option" where
  "ExportPieces read walk_events rootfsDir =
     (case read (go_path_join [rootfsDir, ''bin'', ''busybox'']) of
        None \<Rightarrow> None
      | Some binary \<Rightarrow> map_option (Pair binary) (export_links rootfsDir walk_events))"

section \<open>A failed configuration stays\<close>

text \<open>The configurations a run can leave behind when configuring fails, for one that \<^verbatim>\<open>make defconfig\<close> wrote.\<close>

definition left_configs :: "busybox_world \<Rightarrow> string \<Rightarrow> string set" where
  "left_configs bw d =
     (let s = static_edit d; t = tc_edit s; h = hardening_edit t in
      {d, bbw_torn bw s, s, bbw_torn bw t, t, bbw_torn bw h, bbw_oldconfig bw h})"

lemma then_config_simps [simp]:
  "then_config ((ops, Inl e), c) f = ((ops, Inl e), c)"
  "then_config ((ops, Inr u), c) f = (then_calls (ops, Inr u) (fst (f c)), snd (f c))"
  by (simp_all add: then_config_def Let_def)

lemma u_calls_one:
  "u_calls ok [p] = (if ok p then ([p], Inr ()) else ([], Inl (UserCallFailed p)))"
  by (simp add: u_calls_def)

lemma configure_left:
  assumes "configure_busybox bw srcDir cfgPath = (r, Some c)" and "bbw_defconfig bw = Some d" and "snd r = Inl e"
  shows "c \<in> left_configs bw d"
  using assms
  by (auto simp: configure_busybox_def u_calls_one edit_config_def left_configs_def then_calls_def Let_def split: if_splits)

lemma build_busybox_all:
  assumes "\<forall>p. bbw_ok bw p"
  shows "snd (build_busybox_calls bw srcDir outDir) = Inr ()"
  using assms by (simp add: build_busybox_calls_def u_calls_def run_calls_all Let_def)

text \<open>
  A BusyBox configuration that failed half way is built as it is: whatever made
  configuring fail once \<^verbatim>\<open>make defconfig\<close> had written a configuration, what the failed run leaves is one of the
  unfinished configurations, and the next run, with nothing failing, takes it unchanged, runs neither
  defconfig nor oldconfig, and succeeds.
\<close>

theorem busybox_config_sticks:
  assumes "archTable (bs_Arch spec) \<noteq> None"
    and "configure_busybox bw1 srcDir (go_path_join [srcDir, ''.config'']) = ((ops1, Inl e), Some c)"
    and "bbw_defconfig bw1 = Some d" and "\<forall>p. bbw_ok bw2 p"
  shows "BuildBusybox bw1 spec srcDir outDir None = ((ops1, Inl e), Some c) \<and> c \<in> left_configs bw1 d \<and>
    (\<exists>ops2. BuildBusybox bw2 spec srcDir outDir (Some c) = ((ops2, Inr ()), Some c) \<and>
       (\<forall>env dir args target. URun env dir ''make'' (args @ [''-s'', target]) \<in> set ops2 \<longrightarrow> target \<noteq> ''defconfig'' \<and> target \<noteq> ''oldconfig''))"
proof (intro conjI)
  show "BuildBusybox bw1 spec srcDir outDir None = ((ops1, Inl e), Some c)"
    using assms(1,2) by (simp add: BuildBusybox_def)
  show "c \<in> left_configs bw1 d" by (rule configure_left [OF assms(2,3)]) simp
  let ?b = "build_busybox_calls bw2 srcDir outDir"
  have "BuildBusybox bw2 spec srcDir outDir (Some c) = (?b, Some c)"
    using assms(1) by (auto simp: BuildBusybox_def then_calls_pair)
  moreover have "?b = (fst ?b, Inr ())" using build_busybox_all [OF assms(4)] by (simp add: prod_eq_iff)
  moreover have "\<forall>env dir args target. URun env dir ''make'' (args @ [''-s'', target]) \<in> set (fst ?b) \<longrightarrow>
      target \<noteq> ''defconfig'' \<and> target \<noteq> ''oldconfig''"
    using assms(4) by (auto simp: build_busybox_calls_def u_calls_def run_calls_all Let_def busybox_make_def append_eq_Cons_conv Cons_eq_append_conv)
  ultimately show "\<exists>ops2. BuildBusybox bw2 spec srcDir outDir (Some c) = ((ops2, Inr ()), Some c) \<and>
       (\<forall>env dir args target. URun env dir ''make'' (args @ [''-s'', target]) \<in> set ops2 \<longrightarrow> target \<noteq> ''defconfig'' \<and> target \<noteq> ''oldconfig'')"
    by (intro exI [of _ "fst ?b"]) simp
qed

definition ex_busybox :: "bool \<Rightarrow> busybox_world" where
  "ex_busybox good =
     \<lparr> bbw_ok = (\<lambda>p. good \<or> (case p of UReadFile q \<Rightarrow> False | _ \<Rightarrow> True)), bbw_torn = (\<lambda>s. []),
       bbw_defconfig = Some ''# CONFIG_STATIC is not set'', bbw_oldconfig = (\<lambda>s. s), bbw_jobs = ''1'' \<rparr>"

theorem busybox_config_sticks_witness:
  "let spec = \<lparr> bs_Version = [], bs_Arch = ''amd64'', bs_CacheDir = ''/cache'' \<rparr>;
       run1 = BuildBusybox (ex_busybox False) spec ''/s'' ''/o'' None
   in snd run1 = Some ''# CONFIG_STATIC is not set'' \<and>
      (\<exists>ops2. BuildBusybox (ex_busybox True) spec ''/s'' ''/o'' (snd run1) = ((ops2, Inr ()), Some ''# CONFIG_STATIC is not set''))"
proof -
  let ?spec = "\<lparr> bs_Version = [], bs_Arch = ''amd64'', bs_CacheDir = ''/cache'' \<rparr>"
  have a: "archTable (bs_Arch ?spec) \<noteq> None" by (simp add: archTable_def)
  have c: "configure_busybox (ex_busybox False) ''/s'' (go_path_join [''/s'', ''.config'']) =
      (([URun busybox_env ''/s'' ''make'' (busybox_make @ [''-s'', ''defconfig''])],
        Inl (UserCallFailed (UReadFile (go_path_join [''/s'', ''.config''])))), Some ''# CONFIG_STATIC is not set'')"
    by (simp add: configure_busybox_def u_calls_one edit_config_def ex_busybox_def then_calls_def)
  have d: "bbw_defconfig (ex_busybox False) = Some ''# CONFIG_STATIC is not set''" "\<forall>p. bbw_ok (ex_busybox True) p"
    by (simp_all add: ex_busybox_def)
  show ?thesis
    using busybox_config_sticks [OF a c d, of "''/o''"] unfolding Let_def by auto
qed

section \<open>The exported manifest is read back\<close>

fun applet_links :: "string \<Rightarrow> export_event list \<Rightarrow> Applet list" where
  "applet_links rootfsDir [] = []"
| "applet_links rootfsDir (AppletLink p target # es) =
     \<lparr> applet_Path = the (go_rel rootfsDir p), applet_Target = the target \<rparr> # applet_links rootfsDir es"
| "applet_links rootfsDir (e # es) = applet_links rootfsDir es"

definition tame_applet :: "Applet \<Rightarrow> bool" where
  "tame_applet a \<longleftrightarrow> CHR 0x09 \<notin> set (applet_Path a) \<and> CHR 0x0A \<notin> set (applet_Path a) \<and>
     CHR 0x0A \<notin> set (applet_Target a) \<and> (applet_Target a = [] \<or> last (applet_Target a) \<noteq> CHR 0x0D)"

definition applet_line :: "Applet \<Rightarrow> string" where
  "applet_line a = applet_Path a @ TAB @ applet_Target a"

lemma parse_applet_line_tame: "tame_applet a \<Longrightarrow> parse_applet_line as (applet_line a) = Inr (as @ [a])"
proof -
  assume t: "tame_applet a"
  have r: "go_trim_right (applet_line a) [CHR 0x0D] = applet_line a"
  proof (cases "applet_Target a" rule: rev_cases)
    case Nil
    then show ?thesis by (simp add: go_trim_right_def applet_line_def)
  next
    case (snoc xs x)
    with t show ?thesis by (simp add: go_trim_right_def applet_line_def tame_applet_def)
  qed
  have "go_cut (applet_line a) [CHR 0x09] = (applet_Path a, applet_Target a, True)"
    using t by (simp add: applet_line_def go_cut_char tame_applet_def takeWhile_tail dropWhile_append)
  then show ?thesis unfolding parse_applet_line_def Let_def r by (simp add: applet_line_def)
qed

lemma parse_tame:
  "list_all tame_applet as \<Longrightarrow> foldE parse_applet_line bs (go_split (CHR 0x0A) (concat (map (\<lambda>a. applet_line a @ NL) as))) = Inr (bs @ as)"
proof (induction as arbitrary: bs)
  case Nil
  then show ?case by (simp add: parse_applet_line_def go_trim_right_def)
next
  case (Cons a as)
  have "CHR 0x0A \<notin> set (applet_line a)" using Cons.prems by (simp add: applet_line_def tame_applet_def)
  then have "go_split (CHR 0x0A) (concat (map (\<lambda>a. applet_line a @ NL) (a # as))) =
      applet_line a # go_split (CHR 0x0A) (concat (map (\<lambda>a. applet_line a @ NL) as))"
    using go_split_append [of "CHR 0x0A" "applet_line a" "concat (map (\<lambda>a. applet_line a @ NL) as)"] by simp
  then show ?case using Cons by (simp add: parse_applet_line_tame)
qed

lemma export_links_lines:
  "export_links r es = Some m \<Longrightarrow> m = concat (map (\<lambda>a. applet_line a @ NL) (applet_links r es))"
  by (induction r es arbitrary: m rule: export_links.induct) (auto simp: applet_line_def split: option.splits)

text \<open>
  What the builder exports is what build-disk reads: the applet manifest written
  from BusyBox's install tree is parsed back as exactly the tree's symbolic links, with their targets, in the order of
  the walk, whatever names they have without a tab, a newline or a carriage return at the end.
\<close>

theorem exported_applets_roundtrip:
  assumes "ExportPieces read es rootfsDir = Some (binary, manifest)" and "list_all tame_applet (applet_links rootfsDir es)"
  shows "parseManifest manifest = Inr (applet_links rootfsDir es)"
proof -
  have "export_links rootfsDir es = Some manifest" using assms(1) by (auto simp: ExportPieces_def split: option.splits)
  from export_links_lines [OF this] show ?thesis using parse_tame [OF assms(2), of "[]"] by (simp add: parseManifest_def)
qed

theorem exported_applets_roundtrip_witness:
  "let es = [NotALink ''/r'', AppletLink ''/r/bin/ls'' (Some ''busybox''), NotALink ''/r/bin/busybox''];
       m = ''bin/ls'' @ TAB @ ''busybox'' @ NL
   in ExportPieces (\<lambda>p. Some ''ELF'') es ''/r'' = Some (''ELF'', m) \<and>
      parseManifest m = Inr [\<lparr> applet_Path = ''bin/ls'', applet_Target = ''busybox'' \<rparr>]"
proof -
  let ?es = "[NotALink ''/r'', AppletLink ''/r/bin/ls'' (Some ''busybox''), NotALink ''/r/bin/busybox'']"
  let ?m = "''bin/ls'' @ TAB @ ''busybox'' @ NL"
  have e: "ExportPieces (\<lambda>p. Some ''ELF'') ?es ''/r'' = Some (''ELF'', ?m)" by code_simp
  have l: "applet_links ''/r'' ?es = [\<lparr> applet_Path = ''bin/ls'', applet_Target = ''busybox'' \<rparr>]" by code_simp
  have "parseManifest ?m = Inr (applet_links ''/r'' ?es)"
    by (rule exported_applets_roundtrip [OF e], unfold l) (simp add: tame_applet_def)
  with e show ?thesis unfolding l Let_def by blast
qed

end
