(* ===== verification/Firmware.thy ===== *)
theory Firmware
  imports Userland
begin

text \<open>
  The firmware blobs of the bare-metal profiles (internal/compileagent/wifi.go and ethernet.go): the pinned
  lists, the download cache with flattened names, and the installation below the output's firmware directory.

  The state is the file system, a partial map from paths to contents.
\<close>

type_synonym files = "string \<Rightarrow> string option"

text \<open>\<^verbatim>\<open>WifiFirmwareBlob\<close> and \<^verbatim>\<open>EthernetFirmwareBlob\<close> have the same fields.\<close>

record firmware_blob =
  fb_Path :: string
  fb_SourceURL :: string
  fb_Version :: string
  fb_SHA256 :: string

definition linux_firmware :: "string \<Rightarrow> string" where
  "linux_firmware p = ''https://git.kernel.org/pub/scm/linux/kernel/git/firmware/linux-firmware.git/plain/'' @ p @ ''?h=main''"

definition wireless_regdb :: "string \<Rightarrow> string" where
  "wireless_regdb p = ''https://git.kernel.org/pub/scm/linux/kernel/git/sforshee/wireless-regdb.git/plain/'' @ p"

definition wifiFirmwareBlobs :: "firmware_blob list" where
  "wifiFirmwareBlobs =
     [\<lparr> fb_Path = ''ath9k_htc/htc_9271-1.4.0.fw'', fb_SourceURL = linux_firmware ''ath9k_htc/htc_9271-1.4.0.fw'',
        fb_Version = ''1.4.0'', fb_SHA256 = ''78f7d592a95b419a02fde7440f30c606fc31a871cf0ce150ced40d4857173eb0'' \<rparr>,
      \<lparr> fb_Path = ''ath9k_htc/htc_7010-1.4.0.fw'', fb_SourceURL = linux_firmware ''ath9k_htc/htc_7010-1.4.0.fw'',
        fb_Version = ''1.4.0'', fb_SHA256 = ''737850aaf66ca13f82e0f5ca5e758f606f840c2f23c291350ab916bbf88e6f75'' \<rparr>,
      \<lparr> fb_Path = ''regulatory.db'', fb_SourceURL = wireless_regdb ''regulatory.db'',
        fb_Version = [], fb_SHA256 = ''0a4abd7ae20d07bb70642937ccb2293a72a6504730eea45a698882599f586368'' \<rparr>,
      \<lparr> fb_Path = ''regulatory.db.p7s'', fb_SourceURL = wireless_regdb ''regulatory.db.p7s'',
        fb_Version = [], fb_SHA256 = ''bcd81aed039ea6b9b6f3726fbf26911a0caf4a5d894210e0fa2effb384d6b326'' \<rparr>,
      \<lparr> fb_Path = ''mediatek/mt7601u.bin'', fb_SourceURL = linux_firmware ''mediatek/mt7601u.bin'',
        fb_Version = ''34'', fb_SHA256 = ''4511b1d840e22aea2bf5fdca419c91c0d94cbfb291b9ac4f8be6d9100d1a7046'' \<rparr>,
      \<lparr> fb_Path = ''rtlwifi/rtl8188eufw.bin'', fb_SourceURL = linux_firmware ''rtlwifi/rtl8188eufw.bin'',
        fb_Version = ''28.0'', fb_SHA256 = ''2ff74315287529dec2e50eb57d6e0c97d2116f28ae166773ccdf93b6360000c4'' \<rparr>]"

definition ethernetFirmwareBlobs :: "firmware_blob list" where
  "ethernetFirmwareBlobs =
     [\<lparr> fb_Path = ''rtl_nic/rtl8168h-2.fw'', fb_SourceURL = linux_firmware ''rtl_nic/rtl8168h-2.fw'',
        fb_Version = ''rtl8168h-2_0.0.2'', fb_SHA256 = ''0b4beab008e308f28296c13188ee23edfeff7d865e398a7ade170495c8cec7e6'' \<rparr>]"

definition flattenPath :: "string \<Rightarrow> string" where
  "flattenPath p = map (\<lambda>c. if c = CHR ''/'' then CHR ''_'' else c) p"

datatype firmware_error =
    FirmwareMkdir string
  | FirmwareFetch string fetch_source_error
  | FirmwareRead string
  | FirmwareHash string string string
  | FirmwareWrite string

text \<open>The world: the network and SHA-256, which directories can be made, files read and written, and what a failed write leaves.\<close>

record firmware_world =
  fmw_fetch :: fetch_env
  fmw_mkdir :: "string \<Rightarrow> bool"
  fmw_read :: "string \<Rightarrow> bool"
  fmw_write :: "string \<Rightarrow> bool"
  fmw_torn :: "string \<Rightarrow> string"

definition cached_firmware :: "firmware_world \<Rightarrow> string \<Rightarrow> string \<Rightarrow> files \<Rightarrow> files \<times> (fetch_source_error + unit)" where
  "cached_firmware fw cachedPath url fs =
     (if fs cachedPath = None
      then (case downloadFile (fmw_fetch fw) url of
              Inl e \<Rightarrow> (fs, Inl e)
            | Inr d \<Rightarrow> (fs(cachedPath \<mapsto> d), Inr ()))
      else (fs, Inr ()))"

definition install_firmware :: "firmware_world \<Rightarrow> string \<Rightarrow> string \<Rightarrow> files \<Rightarrow> files \<times> (firmware_error + unit)" where
  "install_firmware fw dst data fs =
     (if \<not> fmw_mkdir fw (go_dir dst) then (fs, Inl (FirmwareMkdir (go_dir dst)))
      else if fmw_write fw dst then (fs(dst \<mapsto> data), Inr ())
      else (fs(dst \<mapsto> fmw_torn fw data), Inl (FirmwareWrite dst)))"

definition fetchOneFirmwareFile ::
  "firmware_world \<Rightarrow> string \<Rightarrow> string \<Rightarrow> string \<Rightarrow> string \<Rightarrow> string \<Rightarrow> files \<Rightarrow> files \<times> (firmware_error + unit)" where
  "fetchOneFirmwareFile fw srcDir fwOutDir path url wantSHA256 fs =
     (if \<not> fmw_mkdir fw srcDir then (fs, Inl (FirmwareMkdir srcDir))
      else
        (let cachedPath = go_path_join [srcDir, flattenPath path] in
         case cached_firmware fw cachedPath url fs of
           (fs1, Inl e) \<Rightarrow> (fs1, Inl (FirmwareFetch path e))
         | (fs1, Inr _) \<Rightarrow>
             (case (if fmw_read fw cachedPath then fs1 cachedPath else None) of
                None \<Rightarrow> (fs1, Inl (FirmwareRead path))
              | Some data \<Rightarrow>
                  (let got = go_hex_encode (fe_sha256 (fmw_fetch fw) data) in
                   if got \<noteq> wantSHA256 then (fs1(cachedPath := None), Inl (FirmwareHash path wantSHA256 got))
                   else install_firmware fw (go_path_join [fwOutDir, path]) data fs1))))"

fun fetch_blobs ::
  "firmware_world \<Rightarrow> string \<Rightarrow> string \<Rightarrow> firmware_blob list \<Rightarrow> files \<Rightarrow> files \<times> (firmware_error + firmware_blob list)" where
  "fetch_blobs fw srcDir fwOutDir [] fs = (fs, Inr [])"
| "fetch_blobs fw srcDir fwOutDir (blob # bs) fs =
     (case fetchOneFirmwareFile fw srcDir fwOutDir (fb_Path blob) (fb_SourceURL blob) (fb_SHA256 blob) fs of
        (fs1, Inl e) \<Rightarrow> (fs1, Inl e)
      | (fs1, Inr _) \<Rightarrow>
          (case fetch_blobs fw srcDir fwOutDir bs fs1 of
             (fs2, Inl e) \<Rightarrow> (fs2, Inl e)
           | (fs2, Inr result) \<Rightarrow> (fs2, Inr (blob # result))))"

definition FetchWifiFirmware ::
  "firmware_world \<Rightarrow> string \<Rightarrow> string \<Rightarrow> files \<Rightarrow> files \<times> (firmware_error + firmware_blob list)" where
  "FetchWifiFirmware fw cacheDir outDir fs =
     fetch_blobs fw (go_path_join [cacheDir, ''wifi-firmware-src'']) (go_path_join [outDir, ''firmware'']) wifiFirmwareBlobs fs"

definition FetchEthernetFirmware ::
  "firmware_world \<Rightarrow> string \<Rightarrow> string \<Rightarrow> files \<Rightarrow> files \<times> (firmware_error + firmware_blob list)" where
  "FetchEthernetFirmware fw cacheDir outDir fs =
     fetch_blobs fw (go_path_join [cacheDir, ''ethernet-firmware-src'']) (go_path_join [outDir, ''firmware'']) ethernetFirmwareBlobs fs"

section \<open>What is installed is what is pinned\<close>

definition installed :: "firmware_world \<Rightarrow> string \<Rightarrow> files \<Rightarrow> firmware_blob \<Rightarrow> bool" where
  "installed fw fwOutDir fs b \<longleftrightarrow>
     (\<exists>d. fs (go_path_join [fwOutDir, fb_Path b]) = Some d \<and> go_hex_encode (fe_sha256 (fmw_fetch fw) d) = fb_SHA256 b)"

definition cache_path :: "string \<Rightarrow> firmware_blob \<Rightarrow> string" where
  "cache_path srcDir b = go_path_join [srcDir, flattenPath (fb_Path b)]"

definition blob_path :: "string \<Rightarrow> firmware_blob \<Rightarrow> string" where
  "blob_path fwOutDir b = go_path_join [fwOutDir, fb_Path b]"

lemma fetchOne_elsewhere:
  assumes "fetchOneFirmwareFile fw srcDir fwOutDir (fb_Path b) url want fs = (fs', r)"
    and "q \<noteq> cache_path srcDir b" and "q \<noteq> blob_path fwOutDir b"
  shows "fs' q = fs q"
  using assms
  by (auto simp: fetchOneFirmwareFile_def cached_firmware_def install_firmware_def cache_path_def blob_path_def Let_def
      split: if_splits sum.splits option.splits)

lemma fetchOne_installs:
  assumes "fetchOneFirmwareFile fw srcDir fwOutDir (fb_Path b) (fb_SourceURL b) (fb_SHA256 b) fs = (fs', Inr u)"
  shows "installed fw fwOutDir fs' b"
  using assms
  by (auto simp: fetchOneFirmwareFile_def cached_firmware_def install_firmware_def installed_def Let_def
      split: if_splits sum.splits option.splits)

lemma fetch_blobs_elsewhere:
  assumes "fetch_blobs fw srcDir fwOutDir bs fs = (fs', r)"
    and "q \<notin> cache_path srcDir ` set bs" and "q \<notin> blob_path fwOutDir ` set bs"
  shows "fs' q = fs q"
  using assms
proof (induction bs arbitrary: fs r)
  case (Cons b bs)
  obtain fs1 r1 where 1: "fetchOneFirmwareFile fw srcDir fwOutDir (fb_Path b) (fb_SourceURL b) (fb_SHA256 b) fs = (fs1, r1)"
    by fastforce
  have "fs1 q = fs q" using fetchOne_elsewhere [OF 1] Cons.prems(2,3) by simp
  moreover have "fs' q = fs1 q"
  proof (cases r1)
    case (Inr u)
    obtain fs2 r2 where 2: "fetch_blobs fw srcDir fwOutDir bs fs1 = (fs2, r2)" by fastforce
    with Cons.prems(1) 1 Inr have "fs2 = fs'" by (auto split: sum.splits)
    with Cons.IH [of fs1 r2] 2 Cons.prems(2,3) show ?thesis by simp
  qed (use Cons.prems(1) 1 in simp)
  ultimately show ?case by simp
qed simp

definition apart :: "string \<Rightarrow> string \<Rightarrow> firmware_blob list \<Rightarrow> bool" where
  "apart srcDir fwOutDir bs \<longleftrightarrow>
     distinct (map (blob_path fwOutDir) bs) \<and> set (map (cache_path srcDir) bs) \<inter> set (map (blob_path fwOutDir) bs) = {}"

lemma fetch_blobs_installed:
  assumes "fetch_blobs fw srcDir fwOutDir bs fs = (fs', Inr result)" and "apart srcDir fwOutDir bs"
  shows "result = bs \<and> (\<forall>b \<in> set bs. installed fw fwOutDir fs' b)"
  using assms
proof (induction bs arbitrary: fs result)
  case (Cons b bs)
  obtain fs1 where 1: "fetchOneFirmwareFile fw srcDir fwOutDir (fb_Path b) (fb_SourceURL b) (fb_SHA256 b) fs = (fs1, Inr ())"
    using Cons.prems(1) by (auto split: prod.splits sum.splits)
  obtain rs where 2: "fetch_blobs fw srcDir fwOutDir bs fs1 = (fs', Inr rs)" and r: "result = b # rs"
    using Cons.prems(1) 1 by (auto split: prod.splits sum.splits)
  have a: "apart srcDir fwOutDir bs" using Cons.prems(2) by (auto simp: apart_def)
  have "blob_path fwOutDir b \<notin> cache_path srcDir ` set bs" "blob_path fwOutDir b \<notin> blob_path fwOutDir ` set bs"
    using Cons.prems(2) by (auto simp: apart_def)
  from fetch_blobs_elsewhere [OF 2 this] fetchOne_installs [OF 1]
  have "installed fw fwOutDir fs' b" by (simp add: installed_def blob_path_def)
  with Cons.IH [OF 2 a] r show ?case by simp
qed simp

lemma curated_apart:
  "apart (go_path_join [''/cache'', ''wifi-firmware-src'']) (go_path_join [''/out'', ''firmware'']) wifiFirmwareBlobs"
  "apart (go_path_join [''/cache'', ''ethernet-firmware-src'']) (go_path_join [''/out'', ''firmware'']) ethernetFirmwareBlobs"
  by code_simp+

lemma fetch_blobs_mismatch:
  assumes "fetch_blobs fw srcDir fwOutDir bs fs = (fs', Inl (FirmwareHash p want got))"
  shows "\<exists>b \<in> set bs. fb_Path b = p \<and> fb_SHA256 b = want \<and> got \<noteq> want \<and> fs' (cache_path srcDir b) = None"
  using assms
proof (induction bs arbitrary: fs)
  case (Cons b bs)
  obtain fs1 r1 where 1: "fetchOneFirmwareFile fw srcDir fwOutDir (fb_Path b) (fb_SourceURL b) (fb_SHA256 b) fs = (fs1, r1)"
    by fastforce
  show ?case
  proof (cases r1)
    case (Inl e)
    with Cons.prems 1 have "fs1 = fs'" "e = FirmwareHash p want got" by auto
    with 1 Inl show ?thesis
      by (auto simp: fetchOneFirmwareFile_def install_firmware_def cache_path_def Let_def split: if_splits sum.splits option.splits prod.splits)
  next
    case (Inr u)
    with Cons.prems 1 have "fetch_blobs fw srcDir fwOutDir bs fs1 = (fs', Inl (FirmwareHash p want got))"
      by (auto split: prod.splits sum.splits)
    from Cons.IH [OF this] show ?thesis by auto
  qed
qed simp

text \<open>
  Property C23. The firmware of a bare-metal profile is installed as pinned or not at all: when the
  fetch returns, it reports the whole curated list and every blob of it is in the output at its path with its pinned
  hash, none written over by another; and when it fails for a hash, the file with the wrong hash is gone
  from the cache, so the next run downloads it again.
\<close>

theorem firmware_installed_as_pinned:
  "(FetchWifiFirmware fw ''/cache'' ''/out'' fs = (fs', Inr result) \<longrightarrow>
      result = wifiFirmwareBlobs \<and> (\<forall>b \<in> set wifiFirmwareBlobs. installed fw (go_path_join [''/out'', ''firmware'']) fs' b)) \<and>
   (FetchEthernetFirmware fw ''/cache'' ''/out'' fs = (fs', Inr result) \<longrightarrow>
      result = ethernetFirmwareBlobs \<and> (\<forall>b \<in> set ethernetFirmwareBlobs. installed fw (go_path_join [''/out'', ''firmware'']) fs' b)) \<and>
   (FetchWifiFirmware fw ''/cache'' ''/out'' fs = (fs', Inl (FirmwareHash p want got)) \<longrightarrow>
      (\<exists>b \<in> set wifiFirmwareBlobs. fb_Path b = p \<and> fb_SHA256 b = want \<and> got \<noteq> want \<and>
         fs' (cache_path (go_path_join [''/cache'', ''wifi-firmware-src'']) b) = None))"
proof (intro conjI impI)
  assume "FetchWifiFirmware fw ''/cache'' ''/out'' fs = (fs', Inr result)"
  from fetch_blobs_installed [OF this [unfolded FetchWifiFirmware_def] curated_apart(1)]
  show "result = wifiFirmwareBlobs" "\<forall>b \<in> set wifiFirmwareBlobs. installed fw (go_path_join [''/out'', ''firmware'']) fs' b" by blast+
next
  assume "FetchEthernetFirmware fw ''/cache'' ''/out'' fs = (fs', Inr result)"
  from fetch_blobs_installed [OF this [unfolded FetchEthernetFirmware_def] curated_apart(2)]
  show "result = ethernetFirmwareBlobs" "\<forall>b \<in> set ethernetFirmwareBlobs. installed fw (go_path_join [''/out'', ''firmware'']) fs' b" by blast+
next
  assume "FetchWifiFirmware fw ''/cache'' ''/out'' fs = (fs', Inl (FirmwareHash p want got))"
  then show "\<exists>b \<in> set wifiFirmwareBlobs. fb_Path b = p \<and> fb_SHA256 b = want \<and> got \<noteq> want \<and>
      fs' (cache_path (go_path_join [''/cache'', ''wifi-firmware-src'']) b) = None"
    unfolding FetchWifiFirmware_def by (rule fetch_blobs_mismatch)
qed

text \<open>A world in which everything has the hash of the Ethernet blob.\<close>

definition ex_digest :: string where
  "ex_digest =
    [CHR 0x0B, CHR 0x4B, CHR 0xEA, CHR 0xB0, CHR 0x08, CHR 0xE3, CHR 0x08, CHR 0xF2,
     CHR 0x82, CHR 0x96, CHR 0xC1, CHR 0x31, CHR 0x88, CHR 0xEE, CHR 0x23, CHR 0xED,
     CHR 0xFE, CHR 0xFF, CHR 0x7D, CHR 0x86, CHR 0x5E, CHR 0x39, CHR 0x8A, CHR 0x7A,
     CHR 0xDE, CHR 0x17, CHR 0x04, CHR 0x95, CHR 0xC8, CHR 0xCE, CHR 0xC7, CHR 0xE6]"

definition ex_firmware :: firmware_world where
  "ex_firmware =
     \<lparr> fmw_fetch = (ex_fetch True) \<lparr> fe_sha256 := (\<lambda>d. ex_digest),
         fe_verify := (ex_fetch_verify True) \<lparr> ve_get := (\<lambda>u. Some (200, Some ''blob'')) \<rparr> \<rparr>,
       fmw_mkdir = (\<lambda>p. True), fmw_read = (\<lambda>p. True), fmw_write = (\<lambda>p. True), fmw_torn = (\<lambda>d. []) \<rparr>"

theorem firmware_installed_as_pinned_witness:
  "\<exists>fs'. FetchEthernetFirmware ex_firmware ''/cache'' ''/out'' (\<lambda>p. None) = (fs', Inr ethernetFirmwareBlobs) \<and>
     installed ex_firmware (go_path_join [''/out'', ''firmware'']) fs' (hd ethernetFirmwareBlobs)"
proof -
  let ?b = "hd ethernetFirmwareBlobs"
  let ?h = "fb_SHA256 ?b"
  have bs: "ethernetFirmwareBlobs = [?b]" by (simp add: ethernetFirmwareBlobs_def)
  have h: "go_hex_encode ex_digest = ?h"
    by (simp add: ex_digest_def ethernetFirmwareBlobs_def go_hex_encode_def hex_digit_def char_of_def bit_iff_odd)
  have dl: "downloadFile (fmw_fetch ex_firmware) u = Inr ''blob''" for u
    by (simp add: downloadFile_def ex_firmware_def ex_fetch_def)
  have ok: "fmw_mkdir ex_firmware q" "fmw_read ex_firmware q" "fmw_write ex_firmware q"
    "fe_sha256 (fmw_fetch ex_firmware) d = ex_digest" for q d
    by (simp_all add: ex_firmware_def)
  have "\<exists>fs'. fetchOneFirmwareFile ex_firmware s f p u ?h (\<lambda>p. None) = (fs', Inr ())" for s f p u
    by (simp add: fetchOneFirmwareFile_def cached_firmware_def install_firmware_def dl ok h Let_def)
  then obtain fs' where "fetchOneFirmwareFile ex_firmware (go_path_join [''/cache'', ''ethernet-firmware-src''])
      (go_path_join [''/out'', ''firmware'']) (fb_Path ?b) (fb_SourceURL ?b) ?h (\<lambda>p. None) = (fs', Inr ())" by blast
  then have r: "FetchEthernetFirmware ex_firmware ''/cache'' ''/out'' (\<lambda>p. None) = (fs', Inr ethernetFirmwareBlobs)"
    unfolding FetchEthernetFirmware_def by (subst (1 2) bs) simp
  then have "\<forall>b \<in> set ethernetFirmwareBlobs. installed ex_firmware (go_path_join [''/out'', ''firmware'']) fs' b"
    using firmware_installed_as_pinned [of ex_firmware "\<lambda>p. None" fs' ethernetFirmwareBlobs] by blast
  moreover have "?b \<in> set ethernetFirmwareBlobs" by (subst (2) bs) simp
  ultimately show ?thesis using r by blast
qed

end
