(* ===== verification/Thunder.thy ===== *)
theory Thunder
  imports Firmware
begin

text \<open>
  The builder that runs in the container (cmd/thunder/main.go, with the schema of
  internal/compileagent/provenance.go): the choice of kernel configuration fragments, the order of fetches and
  builds, and the record of what was built.

  Every fetch and build is the definition of its own theory; the network, make and the file system are
  those theories' parameters. An error anywhere ends the program, so the whole run is an error or its
  outcome.
\<close>

section \<open>The schema of pieces.json\<close>

record ComponentProvenance =
  cp_Version :: string
  cp_SourceURL :: string
  cp_TarballSHA256 :: string
  cp_SigURL :: string
  cp_Verified :: bool
  cp_SignedBy :: string
  cp_InsecureSkipUsed :: bool

record PiecesProvenance =
  pp_SchemaVersion :: int
  pp_Kernel :: ComponentProvenance
  pp_Busybox :: ComponentProvenance
  pp_Iptables :: ComponentProvenance
  pp_Supplicant :: ComponentProvenance
  pp_WifiFirmware :: "firmware_blob list"
  pp_EthernetFirmware :: "firmware_blob list"
  pp_BuilderImageDigest :: string
  pp_Arch :: string
  pp_VGA :: bool
  pp_BootProfile :: string
  pp_KconfigFragmentSHA256 :: "(string \<times> string) list"
  pp_KernelConfigSHA256 :: string

definition PiecesProvenanceSchemaVersion :: int where "PiecesProvenanceSchemaVersion = 2"

definition no_component :: ComponentProvenance where
  "no_component =
     \<lparr> cp_Version = [], cp_SourceURL = [], cp_TarballSHA256 = [], cp_SigURL = [], cp_Verified = False, cp_SignedBy = [],
       cp_InsecureSkipUsed = False \<rparr>"

section \<open>Fragments\<close>

definition hasEthDriver :: "string \<Rightarrow> bool" where
  "hasEthDriver bootProfile \<longleftrightarrow> bootProfile = ''eth'' \<or> bootProfile = ''eth+wifi''"

definition thunder_hasWifiDriver :: "string \<Rightarrow> bool" where
  "thunder_hasWifiDriver bootProfile \<longleftrightarrow> bootProfile = ''wifi'' \<or> bootProfile = ''eth+wifi''"

definition kfrag :: "string \<Rightarrow> string" where
  "kfrag n = ''/opt/cnimbus/kconfig/'' @ n"

definition profile_fragments :: "string \<Rightarrow> bool \<Rightarrow> string \<Rightarrow> bool \<Rightarrow> string list" where
  "profile_fragments arch vga bootProfile agentVMware =
     [kfrag ''minimal.fragment''] @
     [if arch = ''arm64'' then kfrag ''vm-arm64.fragment'' else kfrag ''vm-amd64.fragment''] @
     (if vga then [kfrag ''vga.fragment''] else []) @
     (if hasEthDriver bootProfile then [kfrag ''baremetal-eth.fragment''] else []) @
     (if bootProfile \<noteq> ''none'' then [kfrag ''baremetal-usb.fragment''] else []) @
     (if agentVMware \<and> arch \<noteq> ''arm64'' then [kfrag ''agent-vmware.fragment''] else []) @
     (if thunder_hasWifiDriver bootProfile then [kfrag ''baremetal-wifi.fragment''] else [])"

definition legacy_fragment :: string where
  "legacy_fragment = ''/cache/netfilter-xtables-legacy.fragment''"

definition nimbus_fragments :: "string list \<Rightarrow> bool \<Rightarrow> string list" where
  "nimbus_fragments profile legacy =
     profile @ (if legacy then [legacy_fragment] else []) @ [kfrag ''security-baseline.fragment'']"

section \<open>The run\<close>

record thunder_world =
  tw_var :: "string \<Rightarrow> string"
  tw_userFragments :: "(string \<times> bool) list option"
  tw_fetch :: fetch_env
  tw_source :: "string \<Rightarrow> fetch_state"
  tw_build :: build_world
  tw_busybox :: busybox_world
  tw_busyboxConfig :: "string option"
  tw_userOk :: "user_op \<Rightarrow> bool"
  tw_export :: "export_event list"
  tw_firmware :: firmware_world
  tw_files :: files
  tw_write :: "string \<Rightarrow> bool"
  tw_marshal :: "PiecesProvenance \<Rightarrow> string option"

datatype thunder_error =
    MissingVariable string
  | SourceError fetch_source_error
  | KernelError kernel_error
  | UserlandError user_error
  | ExportError
  | FirmwareError firmware_error
  | WriteError string
  | HashError string
  | MarshalError

record thunder_out =
  to_Fragments :: "string list"
  to_KernelOps :: "kernel_op list"
  to_Provenance :: PiecesProvenance
  to_Written :: "(string \<times> string) list"
  to_Files :: files

definition requireEnv :: "thunder_world \<Rightarrow> string \<Rightarrow> thunder_error + string" where
  "requireEnv tw key = (if tw_var tw key = [] then Inl (MissingVariable key) else Inr (tw_var tw key))"

definition env_or :: "thunder_world \<Rightarrow> string \<Rightarrow> string \<Rightarrow> string" where
  "env_or tw key def = (if tw_var tw key \<noteq> [] then tw_var tw key else def)"

definition userFragDir :: string where "userFragDir = ''/work/fragments''"

definition user_fragments :: "thunder_world \<Rightarrow> string list" where
  "user_fragments tw =
     (case tw_userFragments tw of
        None \<Rightarrow> []
      | Some entries \<Rightarrow> map (\<lambda>(n, isDir). go_path_join [userFragDir, n]) (filter (\<lambda>(n, isDir). \<not> isDir) entries))"

definition kernel_spec :: "thunder_world \<Rightarrow> string \<Rightarrow> thunder_error + KernelSpec" where
  "kernel_spec tw arch =
     bindE (requireEnv tw ''CNIMBUS_KERNEL_VERSION'') (\<lambda>version.
     bindE (requireEnv tw ''CNIMBUS_KERNEL_SOURCE_URL'') (\<lambda>source.
     Inr \<lparr> ks_Version = version, ks_SourceURL = source, ks_PGPURL = tw_var tw ''CNIMBUS_KERNEL_PGP_URL'', ks_Arch = arch,
           ks_CacheDir = ''/cache'', ks_FragmentDirs = user_fragments tw,
           ks_InsecureSkipVerify = (tw_var tw ''CNIMBUS_INSECURE_SKIP_KERNEL_VERIFY'' = ''true'') \<rparr>))"

definition write_piece :: "thunder_world \<Rightarrow> string \<Rightarrow> thunder_error + unit" where
  "write_piece tw path = guardE (tw_write tw path) (WriteError path)"

definition fetched :: "fetch_state \<times> (fetch_source_error + FetchResult) \<Rightarrow> thunder_error + FetchResult" where
  "fetched r = wrapE SourceError (snd r)"

definition kernel_ran :: "kernel_run \<Rightarrow> thunder_error + kernel_op list" where
  "kernel_ran r = bindE (wrapE KernelError (snd r)) (\<lambda>_. Inr (fst r))"

definition user_ran :: "user_run \<Rightarrow> thunder_error + unit" where
  "user_ran r = wrapE UserlandError (snd r)"

definition hashFile :: "thunder_world \<Rightarrow> string \<Rightarrow> thunder_error + string" where
  "hashFile tw path =
     (case bw_read (tw_build tw) path of
        None \<Rightarrow> Inl (HashError path)
      | Some d \<Rightarrow> Inr (go_hex_encode (fe_sha256 (tw_fetch tw) d)))"

fun hashFragments :: "thunder_world \<Rightarrow> string list \<Rightarrow> (string \<times> string) list \<Rightarrow> thunder_error + (string \<times> string) list" where
  "hashFragments tw [] m = Inr m"
| "hashFragments tw (p # ps) m = bindE (hashFile tw p) (\<lambda>h. hashFragments tw ps (AList.update (go_base p) h m))"

definition source_component :: "FetchResult \<Rightarrow> ComponentProvenance" where
  "source_component r =
     no_component \<lparr> cp_Version := fr_ResolvedVersion r, cp_SourceURL := fr_SourceURL r, cp_TarballSHA256 := fr_TarballSHA256 r \<rparr>"

definition kernel_component :: "KernelSpec \<Rightarrow> FetchResult \<Rightarrow> ComponentProvenance" where
  "kernel_component spec r =
     \<lparr> cp_Version = fr_ResolvedVersion r, cp_SourceURL = fr_SourceURL r, cp_TarballSHA256 = fr_TarballSHA256 r,
       cp_SigURL = ks_PGPURL spec, cp_Verified = fr_PGPVerified r, cp_SignedBy = fr_PGPSignedBy r,
       cp_InsecureSkipUsed = ks_InsecureSkipVerify spec \<rparr>"

definition writeProvenance ::
  "thunder_world \<Rightarrow> string \<Rightarrow> bool \<Rightarrow> string \<Rightarrow> string list \<Rightarrow> KernelSpec \<Rightarrow> FetchResult \<Rightarrow> FetchResult \<Rightarrow> FetchResult \<Rightarrow>
   FetchResult option \<Rightarrow> firmware_blob list \<Rightarrow> firmware_blob list \<Rightarrow> thunder_error + (PiecesProvenance \<times> string)" where
  "writeProvenance tw arch vga bootProfile fragments spec kernelFetch busyboxFetch iptablesFetch supplicantFetch wifi ethernet =
     bindE (hashFragments tw fragments []) (\<lambda>fragHashes.
     bindE (hashFile tw (go_path_join [fr_Dir kernelFetch, ''.config''])) (\<lambda>configHash.
     let prov =
       \<lparr> pp_SchemaVersion = PiecesProvenanceSchemaVersion,
         pp_Kernel = kernel_component spec kernelFetch,
         pp_Busybox = source_component busyboxFetch,
         pp_Iptables = source_component iptablesFetch,
         pp_Supplicant = (case supplicantFetch of None \<Rightarrow> no_component | Some r \<Rightarrow> source_component r),
         pp_WifiFirmware = wifi, pp_EthernetFirmware = ethernet,
         pp_BuilderImageDigest = tw_var tw ''CNIMBUS_BUILDER_IMAGE_DIGEST'',
         pp_Arch = arch, pp_VGA = vga, pp_BootProfile = bootProfile,
         pp_KconfigFragmentSHA256 = fragHashes, pp_KernelConfigSHA256 = configHash \<rparr>
     in case tw_marshal tw prov of
          None \<Rightarrow> Inl MarshalError
        | Some d \<Rightarrow> bindE (write_piece tw (go_path_join [''/out'', ''pieces.json''])) (\<lambda>_. Inr (prov, d @ NL))))"

definition wifi_step :: "thunder_world \<Rightarrow> string \<Rightarrow> string \<Rightarrow> thunder_error + (FetchResult option \<times> firmware_blob list \<times> files)" where
  "wifi_step tw arch bootProfile =
     (if \<not> thunder_hasWifiDriver bootProfile then Inr (None, [], tw_files tw)
      else
        (let spec = \<lparr> ts_Arch = arch, ts_CacheDir = ''/cache'' \<rparr>; jobs = buildJobs (bw_jobs (tw_build tw)) in
         bindE (fetched (FetchLibnl (tw_fetch tw) spec (tw_source tw (fa_tarballName (libnl_args spec))))) (\<lambda>libnl.
         bindE (fetched (FetchSupplicant (tw_fetch tw) spec (tw_source tw (fa_tarballName (supplicant_args spec))))) (\<lambda>supp.
         bindE (user_ran (BuildSupplicant (tw_userOk tw) jobs spec (fr_Dir libnl) (fr_Dir supp) ''/out'')) (\<lambda>_.
         case FetchWifiFirmware (tw_firmware tw) ''/cache'' ''/out'' (tw_files tw) of
           (fs, Inl e) \<Rightarrow> Inl (FirmwareError e)
         | (fs, Inr fw) \<Rightarrow> Inr (Some supp, fw, fs))))))"

definition ethernet_step :: "thunder_world \<Rightarrow> string \<Rightarrow> files \<Rightarrow> thunder_error + (firmware_blob list \<times> files)" where
  "ethernet_step tw bootProfile fs =
     (if \<not> hasEthDriver bootProfile then Inr ([], fs)
      else case FetchEthernetFirmware (tw_firmware tw) ''/cache'' ''/out'' fs of
             (fs', Inl e) \<Rightarrow> Inl (FirmwareError e)
           | (fs', Inr fw) \<Rightarrow> Inr (fw, fs'))"

definition busybox_step :: "thunder_world \<Rightarrow> string \<Rightarrow> thunder_error + (FetchResult \<times> (string \<times> string) list)" where
  "busybox_step tw arch =
     (let spec = \<lparr> bs_Version = tw_var tw ''CNIMBUS_BUSYBOX_VERSION'', bs_Arch = arch, bs_CacheDir = ''/cache'' \<rparr> in
      bindE (fetched (FetchBusybox (tw_fetch tw) spec (tw_source tw (fa_tarballName (busybox_args spec))))) (\<lambda>r.
      bindE (user_ran (fst (BuildBusybox (tw_busybox tw) spec (fr_Dir r) ''/build'' (tw_busyboxConfig tw)))) (\<lambda>_.
      case ExportPieces (bw_read (tw_build tw)) (tw_export tw) (go_path_join [''/build'', ''rootfs'']) of
        None \<Rightarrow> Inl ExportError
      | Some (binary, manifest) \<Rightarrow>
          bindE (write_piece tw (go_path_join [''/out'', ''busybox''])) (\<lambda>_.
          bindE (write_piece tw (go_path_join [''/out'', ''busybox-manifest.tsv''])) (\<lambda>_.
          Inr (r, [(go_path_join [''/out'', ''busybox''], binary), (go_path_join [''/out'', ''busybox-manifest.tsv''], manifest)]))))))"

definition iptables_step :: "thunder_world \<Rightarrow> string \<Rightarrow> thunder_error + FetchResult" where
  "iptables_step tw arch =
     (let spec = \<lparr> ts_Arch = arch, ts_CacheDir = ''/cache'' \<rparr> in
      bindE (fetched (FetchIptables (tw_fetch tw) spec (tw_source tw (fa_tarballName (iptables_args spec))))) (\<lambda>r.
      bindE (user_ran (BuildIptables (tw_userOk tw) (buildJobs (bw_jobs (tw_build tw))) spec (fr_Dir r) ''/out'')) (\<lambda>_.
      Inr r)))"

definition kernel_step :: "thunder_world \<Rightarrow> KernelSpec \<Rightarrow> string list \<Rightarrow> thunder_error + (FetchResult \<times> string list \<times> kernel_op list)" where
  "kernel_step tw spec profile =
     bindE (fetched (FetchKernel (tw_fetch tw) spec (tw_source tw (fa_tarballName (kernel_args spec))))) (\<lambda>r.
     let legacy = KernelDefinesNetfilterXtablesLegacy (bw_read (tw_build tw)) (fr_Dir r);
         fragments = nimbus_fragments profile legacy in
     bindE (if legacy then write_piece tw legacy_fragment else Inr ()) (\<lambda>_.
     bindE (kernel_ran (BuildKernel (tw_build tw) spec (fr_Dir r) fragments ''/out'')) (\<lambda>ops.
     Inr (r, fragments, ops))))"

definition thunder_main :: "thunder_world \<Rightarrow> thunder_error + thunder_out" where
  "thunder_main tw =
     (let arch = env_or tw ''CNIMBUS_KERNEL_ARCH'' ''amd64'';
          vga = (tw_var tw ''CNIMBUS_VGA'' = ''true'');
          bootProfile = env_or tw ''CNIMBUS_HARDBOOT'' ''none'';
          agentVMware = (tw_var tw ''CNIMBUS_AGENT_VMWARE'' = ''true'') in
      bindE (kernel_spec tw arch) (\<lambda>spec.
      bindE (kernel_step tw spec (profile_fragments arch vga bootProfile agentVMware)) (\<lambda>(kernelFetch, fragments, ops).
      bindE (busybox_step tw arch) (\<lambda>(busyboxFetch, written).
      bindE (iptables_step tw arch) (\<lambda>iptablesFetch.
      bindE (wifi_step tw arch bootProfile) (\<lambda>(supplicantFetch, wifi, fs).
      bindE (ethernet_step tw bootProfile fs) (\<lambda>(ethernet, fs').
      bindE (writeProvenance tw arch vga bootProfile fragments spec kernelFetch busyboxFetch iptablesFetch
               supplicantFetch wifi ethernet) (\<lambda>(prov, json).
      Inr \<lparr> to_Fragments = fragments, to_KernelOps = ops, to_Provenance = prov,
            to_Written = written @ [(go_path_join [''/out'', ''pieces.json''], json)], to_Files = fs' \<rparr>))))))))"

section \<open>Successful runs\<close>

lemma BuildKernel_Inr:
  assumes "snd (BuildKernel bw spec srcDir paths outDir) = Inr u"
  shows "(\<exists>env. KRun env srcDir ''sh'' (merge_args (paths @ ks_FragmentDirs spec)) \<in> set (fst (BuildKernel bw spec srcDir paths outDir))) \<and>
    (\<forall>s. \<not> in_conflict (bw_mergeOutput bw) s) \<and> fragments_met (bw_read bw) srcDir (paths @ ks_FragmentDirs spec)"
proof -
  obtain arch where arch: "archTable (ks_Arch spec) = Some arch"
    using assms by (auto simp: BuildKernel_def split: option.splits)
  let ?m = "KRun (kbuild_env @ [''ARCH='' @ ai_kernelArch arch]) srcDir ''sh'' (merge_args (paths @ ks_FragmentDirs spec))"
  have c: "snd (checked (checkMergeConfigConflicts (bw_mergeOutput bw))) = Inr ()"
    "snd (checked (verifyFragmentsApplied (bw_read bw) srcDir (paths @ ks_FragmentDirs spec))) = Inr ()"
    using assms unfolding BuildKernel_def arch option.case Let_def by (simp_all only: snd_then_calls)
  have m: "?m \<in> set (fst (BuildKernel bw spec srcDir paths outDir))"
    using assms unfolding BuildKernel_def arch option.case Let_def
    by (simp add: snd_then_calls fst_then_calls k_calls_def split: if_splits)
  show ?thesis using c m by (auto simp: verified_iff no_conflict_iff)
qed

lemma thunder_main_steps:
  assumes "thunder_main tw = Inr out"
  obtains arch bootProfile spec kernelFetch fragments ops busyboxFetch written iptablesFetch supplicantFetch wifi fs ethernet json where
    "arch = env_or tw ''CNIMBUS_KERNEL_ARCH'' ''amd64''"
    "bootProfile = env_or tw ''CNIMBUS_HARDBOOT'' ''none''"
    "kernel_spec tw arch = Inr spec"
    "kernel_step tw spec (profile_fragments arch (tw_var tw ''CNIMBUS_VGA'' = ''true'') bootProfile
       (tw_var tw ''CNIMBUS_AGENT_VMWARE'' = ''true'')) = Inr (kernelFetch, fragments, ops)"
    "busybox_step tw arch = Inr (busyboxFetch, written)"
    "iptables_step tw arch = Inr iptablesFetch"
    "wifi_step tw arch bootProfile = Inr (supplicantFetch, wifi, fs)"
    "ethernet_step tw bootProfile fs = Inr (ethernet, to_Files out)"
    "writeProvenance tw arch (tw_var tw ''CNIMBUS_VGA'' = ''true'') bootProfile fragments spec kernelFetch busyboxFetch
       iptablesFetch supplicantFetch wifi ethernet = Inr (to_Provenance out, json)"
    "to_Fragments out = fragments" "to_KernelOps out = ops"
proof -
  let ?arch = "env_or tw ''CNIMBUS_KERNEL_ARCH'' ''amd64''" and ?profile = "env_or tw ''CNIMBUS_HARDBOOT'' ''none''"
  note run = assms [unfolded thunder_main_def Let_def]
  obtain spec where 1: "kernel_spec tw ?arch = Inr spec" using run by (auto simp only: bindE_Inr_iff)
  note run = run [unfolded 1 bindE_simps]
  obtain k fragments ops where 2: "kernel_step tw spec (profile_fragments ?arch (tw_var tw ''CNIMBUS_VGA'' = ''true'') ?profile
       (tw_var tw ''CNIMBUS_AGENT_VMWARE'' = ''true'')) = Inr (k, fragments, ops)"
    using run by (auto simp only: bindE_Inr_iff)
  note run = run [unfolded 2 bindE_simps prod.case]
  obtain b written where 3: "busybox_step tw ?arch = Inr (b, written)" using run by (auto simp only: bindE_Inr_iff)
  note run = run [unfolded 3 bindE_simps prod.case]
  obtain i where 4: "iptables_step tw ?arch = Inr i" using run by (auto simp only: bindE_Inr_iff)
  note run = run [unfolded 4 bindE_simps]
  obtain s wifi fs where 5: "wifi_step tw ?arch ?profile = Inr (s, wifi, fs)" using run by (auto simp only: bindE_Inr_iff)
  note run = run [unfolded 5 bindE_simps prod.case]
  obtain ethernet fs' where 6: "ethernet_step tw ?profile fs = Inr (ethernet, fs')" using run by (auto simp only: bindE_Inr_iff)
  note run = run [unfolded 6 bindE_simps prod.case]
  obtain prov json where 7: "writeProvenance tw ?arch (tw_var tw ''CNIMBUS_VGA'' = ''true'') ?profile fragments spec k b i s wifi
      ethernet = Inr (prov, json)"
    using run by (auto simp only: bindE_Inr_iff)
  note run = run [unfolded 7 bindE_simps prod.case sum.inject]
  show thesis by (rule that [OF refl refl 1 2 3 4 5]) (use run 6 7 in auto)
qed

lemma kernel_step_Inr:
  assumes "kernel_step tw spec profile = Inr (r, fragments, ops)"
  shows "\<exists>st st'. FetchKernel (tw_fetch tw) spec st = (st', Inr r) \<and>
    (\<exists>legacy. fragments = nimbus_fragments profile legacy) \<and>
    BuildKernel (tw_build tw) spec (fr_Dir r) fragments ''/out'' = (ops, Inr ())"
proof -
  obtain st' where f: "FetchKernel (tw_fetch tw) spec (tw_source tw (fa_tarballName (kernel_args spec))) = (st', Inr r)"
    using assms by (auto simp: kernel_step_def bindE_Inr_iff fetched_def Let_def prod_eq_iff)
  have "fragments = nimbus_fragments profile (KernelDefinesNetfilterXtablesLegacy (bw_read (tw_build tw)) (fr_Dir r))"
    "BuildKernel (tw_build tw) spec (fr_Dir r) fragments ''/out'' = (ops, Inr ())"
    using assms by (auto simp: kernel_step_def bindE_Inr_iff kernel_ran_def Let_def prod_eq_iff)
  with f show ?thesis by blast
qed

lemma hashFragments_keys:
  "hashFragments tw ps m = Inr m' \<Longrightarrow> fst ` set m' = fst ` set m \<union> go_base ` set ps"
proof (induction tw ps m arbitrary: m' rule: hashFragments.induct)
  case (2 tw p ps m)
  then obtain h where h: "hashFile tw p = Inr h" "hashFragments tw ps (AList.update (go_base p) h m) = Inr m'"
    by (auto simp: bindE_Inr_iff)
  have "fst ` set m' = fst ` set (AList.update (go_base p) h m) \<union> go_base ` set ps" by (rule "2.IH" [OF h(2)])
  then show ?case by (simp only: dom_update) auto
qed simp

lemma writeProvenance_Inr:
  assumes "writeProvenance tw arch vga bootProfile fragments spec k b i s wifi ethernet = Inr (prov, json)"
  shows "pp_Arch prov = arch" "pp_VGA prov = vga" "pp_BootProfile prov = bootProfile"
    "pp_Kernel prov = kernel_component spec k" "pp_Busybox prov = source_component b" "pp_Iptables prov = source_component i"
    "pp_WifiFirmware prov = wifi" "pp_EthernetFirmware prov = ethernet"
    "fst ` set (pp_KconfigFragmentSHA256 prov) = go_base ` set fragments"
proof -
  obtain fragHashes configHash where h: "hashFragments tw fragments [] = Inr fragHashes"
    and c: "hashFile tw (go_path_join [fr_Dir k, ''.config'']) = Inr configHash"
    using assms unfolding writeProvenance_def by (auto simp only: bindE_Inr_iff)
  note p = assms [unfolded writeProvenance_def h c bindE_simps Let_def]
  have "pp_KconfigFragmentSHA256 prov = fragHashes" using p by (auto simp: bindE_Inr_iff split: option.splits)
  then show "fst ` set (pp_KconfigFragmentSHA256 prov) = go_base ` set fragments"
    using hashFragments_keys [OF h] by simp
qed (use assms in \<open>auto simp: writeProvenance_def bindE_Inr_iff Let_def split: option.splits\<close>)


section \<open>A concrete run for the witnesses\<close>

text \<open>An amd64 build without hardware profile, every source cached, with one fragment of the user's.\<close>

definition ex_iptables_digest :: string where
  "ex_iptables_digest =
    [CHR 0x71, CHR 0xC7, CHR 0x58, CHR 0x89, CHR 0xDC, CHR 0x71, CHR 0x06, CHR 0x76,
     CHR 0x63, CHR 0x15, CHR 0x53, CHR 0xEB, CHR 0x15, CHR 0x11, CHR 0xDA, CHR 0x01,
     CHR 0x77, CHR 0xBB, CHR 0xAA, CHR 0xF1, CHR 0xB5, CHR 0x51, CHR 0x26, CHR 0x5B,
     CHR 0x91, CHR 0x2D, CHR 0x23, CHR 0x6C, CHR 0x3F, CHR 0x51, CHR 0x85, CHR 0x9F]"

definition ex_var :: "string \<Rightarrow> string" where
  "ex_var k =
     (if k = ''CNIMBUS_KERNEL_VERSION'' then ''6.9.4''
      else if k = ''CNIMBUS_KERNEL_SOURCE_URL'' then ''u''
      else if k = ''CNIMBUS_KERNEL_PGP_URL'' then ''s''
      else if k = ''CNIMBUS_KERNEL_ARCH'' then ''amd64''
      else if k = ''CNIMBUS_BUSYBOX_VERSION'' then ''1.37.0''
      else [])"

definition ex_build :: build_world where
  "ex_build =
     \<lparr> bw_ok = (\<lambda>p. True), bw_mergeOutput = [], bw_read = (\<lambda>p. Some ''CONFIG_C=y''),
       bw_jobs = \<lparr> je_numCPU = 2, je_jobs = [], je_memoryMax = None, je_meminfo = None, je_cpuMax = None \<rparr> \<rparr>"

definition ex_thunder_busybox :: busybox_world where
  "ex_thunder_busybox = \<lparr> bbw_ok = (\<lambda>p. True), bbw_torn = (\<lambda>d. []), bbw_defconfig = Some [], bbw_oldconfig = (\<lambda>d. d), bbw_jobs = ''2'' \<rparr>"

definition ex_thunder :: thunder_world where
  "ex_thunder =
     \<lparr> tw_var = ex_var, tw_userFragments = Some [(''my.fragment'', False), (''old'', True)],
       tw_fetch = (ex_fetch True) \<lparr> fe_sha256 := (\<lambda>d. ex_iptables_digest) \<rparr>,
       tw_source = (\<lambda>n. \<lparr> fs_tarball = Some ''good'', fs_dest = Some [] \<rparr>),
       tw_build = ex_build, tw_busybox = ex_thunder_busybox, tw_busyboxConfig = Some [], tw_userOk = (\<lambda>p. True),
       tw_export = [], tw_firmware = ex_firmware, tw_files = (\<lambda>p. None), tw_write = (\<lambda>p. True), tw_marshal = (\<lambda>p. Some ''{}'') \<rparr>"

lemma ex_thunder_fields:
  "tw_var ex_thunder = ex_var" "tw_source ex_thunder n = \<lparr> fs_tarball = Some ''good'', fs_dest = Some [] \<rparr>"
  "tw_build ex_thunder = ex_build" "tw_busybox ex_thunder = ex_thunder_busybox" "tw_busyboxConfig ex_thunder = Some []"
  "tw_userOk ex_thunder = (\<lambda>p. True)" "tw_export ex_thunder = []" "tw_write ex_thunder = (\<lambda>p. True)"
  "tw_marshal ex_thunder = (\<lambda>p. Some ''{}'')" "tw_files ex_thunder = (\<lambda>p. None)"
  "bw_read ex_build = (\<lambda>p. Some ''CONFIG_C=y'')"
  "fe_sha256 (tw_fetch ex_thunder) d = ex_iptables_digest"
  by (simp_all add: ex_thunder_def ex_build_def)

definition ex_fetched :: "fetch_args \<Rightarrow> FetchResult" where
  "ex_fetched fa =
     \<lparr> fr_Dir = go_path_join [fa_cacheDir fa, ''src'', fa_destDir fa], fr_ResolvedVersion = [], fr_SourceURL = fa_url fa,
       fr_TarballSHA256 = defaultIptablesSHA256, fr_PGPVerified = (fa_sigURL fa \<noteq> [] \<and> \<not> fa_skipVerify fa),
       fr_PGPSignedBy = (if fa_sigURL fa \<noteq> [] \<and> \<not> fa_skipVerify fa then ''Greg'' else []) \<rparr>"

lemma ex_iptables_hash: "go_hex_encode ex_iptables_digest = defaultIptablesSHA256"
  by (simp add: ex_iptables_digest_def defaultIptablesSHA256_def go_hex_encode_def hex_digit_def char_of_def bit_iff_odd)

lemma ex_fetchExtract:
  assumes "fa_expectedSHA256 fa = [] \<or> fa_expectedSHA256 fa = defaultIptablesSHA256"
  shows "fetchExtract (tw_fetch ex_thunder) fa \<lparr> fs_tarball = Some ''good'', fs_dest = Some [] \<rparr> =
    (\<lparr> fs_tarball = Some ''good'', fs_dest = Some [] \<rparr>, Inr (ex_fetched fa))"
proof -
  have f: "tw_fetch ex_thunder = (ex_fetch True) \<lparr> fe_sha256 := (\<lambda>d. ex_iptables_digest) \<rparr>" by (simp add: ex_thunder_def)
  have e: "hex_equal_fold defaultIptablesSHA256 defaultIptablesSHA256" by (simp add: hex_equal_fold_def)
  show ?thesis
    using assms e by (auto simp: f ex_runs ex_iptables_hash ex_fetched_def fetch_env.defs)
qed

text \<open>The kernel, the tools and the record of this run.\<close>

definition ex_spec :: KernelSpec where
  "ex_spec =
     \<lparr> ks_Version = ''6.9.4'', ks_SourceURL = ''u'', ks_PGPURL = ''s'', ks_Arch = ''amd64'', ks_CacheDir = ''/cache'',
       ks_FragmentDirs = [''/work/fragments/my.fragment''], ks_InsecureSkipVerify = False \<rparr>"

definition ex_fragments :: "string list" where
  "ex_fragments = [kfrag ''minimal.fragment'', kfrag ''vm-amd64.fragment'', kfrag ''security-baseline.fragment'']"

lemma ex_kernel_spec: "kernel_spec ex_thunder ''amd64'' = Inr ex_spec"
proof -
  have "go_path_join [''/work/fragments'', ''my.fragment''] = ''/work/fragments/my.fragment''" by code_simp
  then have "user_fragments ex_thunder = [''/work/fragments/my.fragment'']"
    by (simp add: user_fragments_def userFragDir_def ex_thunder_def)
  then show ?thesis by (simp add: kernel_spec_def requireEnv_def ex_thunder_fields ex_var_def ex_spec_def)
qed

lemma ex_kernel_step:
  "\<exists>ops. kernel_step ex_thunder ex_spec (profile_fragments ''amd64'' False ''none'' False) =
     Inr (ex_fetched (kernel_args ex_spec) \<lparr> fr_ResolvedVersion := ''6.9.4'' \<rparr>, ex_fragments, ops)"
proof -
  have p: "nimbus_fragments (profile_fragments ''amd64'' False ''none'' False) False = ex_fragments"
    by (simp add: nimbus_fragments_def profile_fragments_def ex_fragments_def hasEthDriver_def thunder_hasWifiDriver_def)
  have l: "\<not> KernelDefinesNetfilterXtablesLegacy (\<lambda>p. Some ''CONFIG_C=y'') d" for d
  proof -
    have "KernelDefinesNetfilterXtablesLegacy (\<lambda>p. Some ''CONFIG_C=y'') ''/'' = False" by code_simp
    then show ?thesis by (simp add: KernelDefinesNetfilterXtablesLegacy_def)
  qed
  have k: "snd (BuildKernel ex_build ex_spec ''/cache/src/linux-6.9.4'' ex_fragments ''/out'') = Inr ()" by code_simp
  have d: "go_path_join [''/cache'', ''src'', ''linux-6.9.4''] = ''/cache/src/linux-6.9.4''" by code_simp
  have e: "fa_expectedSHA256 (kernel_args ex_spec) = []" by (simp add: kernel_args_def)
  have dir: "fr_Dir (ex_fetched (kernel_args ex_spec)) = ''/cache/src/linux-6.9.4''"
    by (simp add: ex_fetched_def kernel_args_def ex_spec_def d)
  have v: "ks_Version ex_spec = ''6.9.4''" by (simp add: ex_spec_def)
  show ?thesis
    by (simp add: kernel_step_def FetchKernel_def ex_fetchExtract e fetched_def wrapE_def ex_thunder_fields l p kernel_ran_def k dir v)
qed

lemma ex_thunder_busybox_step:
  "\<exists>r written. busybox_step ex_thunder ''amd64'' = Inr (r, written)"
proof -
  have e: "fa_expectedSHA256 (busybox_args \<lparr> bs_Version = ''1.37.0'', bs_Arch = ''amd64'', bs_CacheDir = ''/cache'' \<rparr>) = []"
    by (simp add: busybox_args_def busybox_version_def source_args_def defaultBusyboxVersion_def Let_def)
  have b: "snd (fst (BuildBusybox ex_thunder_busybox \<lparr> bs_Version = v, bs_Arch = ''amd64'', bs_CacheDir = c \<rparr> d o' (Some x))) = Inr ()"
    for v c d o' x
    by (simp add: BuildBusybox_def archTable_def ex_thunder_busybox_def build_busybox_calls_def u_calls_def run_calls_all then_calls_def Let_def)
  show ?thesis
    by (simp add: busybox_step_def FetchBusybox_def with_version_def ex_fetchExtract e fetched_def wrapE_def ex_thunder_fields ex_var_def
        user_ran_def b ExportPieces_def write_piece_def guardE_def Let_def)
qed

lemma ex_iptables_step: "\<exists>r. iptables_step ex_thunder ''amd64'' = Inr r"
proof -
  have e: "fa_expectedSHA256 (iptables_args s) = defaultIptablesSHA256" for s
    by (simp add: iptables_args_def source_args_def Let_def)
  have b: "snd (BuildIptables (\<lambda>p. True) j \<lparr> ts_Arch = ''amd64'', ts_CacheDir = c \<rparr> d out) = Inr ()" for j c d out
    by (simp add: BuildIptables_def archTable_def u_calls_def run_calls_all)
  show ?thesis
    by (simp add: iptables_step_def FetchIptables_def with_version_def ex_fetchExtract e fetched_def wrapE_def ex_thunder_fields
        user_ran_def b Let_def)
qed

lemma ex_hashFragments: "\<exists>m'. hashFragments ex_thunder ps m = Inr m'"
  by (induction ps arbitrary: m) (simp_all add: hashFile_def ex_thunder_fields)

lemma ex_run: "\<exists>out. thunder_main ex_thunder = Inr out \<and> to_Fragments out = ex_fragments"
proof -
  obtain ops where k: "kernel_step ex_thunder ex_spec (profile_fragments ''amd64'' False ''none'' False) =
     Inr (ex_fetched (kernel_args ex_spec) \<lparr> fr_ResolvedVersion := ''6.9.4'' \<rparr>, ex_fragments, ops)"
    using ex_kernel_step by blast
  obtain b written where b: "busybox_step ex_thunder ''amd64'' = Inr (b, written)" using ex_thunder_busybox_step by blast
  obtain i where i: "iptables_step ex_thunder ''amd64'' = Inr i" using ex_iptables_step by blast
  obtain m where m: "hashFragments ex_thunder ex_fragments [] = Inr m" using ex_hashFragments by blast
  have w: "wifi_step ex_thunder a ''none'' = Inr (None, [], (\<lambda>p. None))" "ethernet_step ex_thunder ''none'' fs = Inr ([], fs)" for a fs
    by (simp_all add: wifi_step_def ethernet_step_def thunder_hasWifiDriver_def hasEthDriver_def ex_thunder_fields)
  have v: "env_or ex_thunder ''CNIMBUS_KERNEL_ARCH'' ''amd64'' = ''amd64''" "env_or ex_thunder ''CNIMBUS_HARDBOOT'' ''none'' = ''none''"
    "ex_var ''CNIMBUS_VGA'' = []" "ex_var ''CNIMBUS_AGENT_VMWARE'' = []"
    by (simp_all add: env_or_def ex_thunder_fields ex_var_def)
  show ?thesis
    by (simp add: thunder_main_def v ex_kernel_spec k b i w writeProvenance_def m hashFile_def ex_thunder_fields write_piece_def
        guardE_def Let_def)
qed


section \<open>What the record says\<close>

lemma kernel_spec_Inr:
  assumes "kernel_spec tw arch = Inr spec"
  shows "ks_PGPURL spec = tw_var tw ''CNIMBUS_KERNEL_PGP_URL''"
    "ks_InsecureSkipVerify spec \<longleftrightarrow> tw_var tw ''CNIMBUS_INSECURE_SKIP_KERNEL_VERIFY'' = ''true''"
    "ks_FragmentDirs spec = user_fragments tw" "ks_Version spec = tw_var tw ''CNIMBUS_KERNEL_VERSION''"
    "ks_SourceURL spec = tw_var tw ''CNIMBUS_KERNEL_SOURCE_URL''"
  using assms by (auto simp: kernel_spec_def bindE_Inr_iff requireEnv_def split: if_splits)

lemma wifi_step_firmware:
  assumes "wifi_step tw arch bootProfile = Inr (supplicantFetch, wifi, fs)"
  shows "wifi = (if thunder_hasWifiDriver bootProfile then wifiFirmwareBlobs else [])"
proof (cases "thunder_hasWifiDriver bootProfile")
  case False
  with assms show ?thesis by (simp add: wifi_step_def)
next
  case True
  with assms have "FetchWifiFirmware (tw_firmware tw) ''/cache'' ''/out'' (tw_files tw) = (fs, Inr wifi)"
    by (cases "FetchWifiFirmware (tw_firmware tw) ''/cache'' ''/out'' (tw_files tw)"; cases "snd (FetchWifiFirmware (tw_firmware tw) ''/cache'' ''/out'' (tw_files tw))")
      (auto simp: wifi_step_def bindE_Inr_iff Let_def)
  from fetch_blobs_installed [OF this [unfolded FetchWifiFirmware_def] curated_apart(1)] True show ?thesis by simp
qed

lemma ethernet_step_firmware:
  assumes "ethernet_step tw bootProfile fs = Inr (ethernet, fs')"
  shows "ethernet = (if hasEthDriver bootProfile then ethernetFirmwareBlobs else [])"
proof (cases "hasEthDriver bootProfile")
  case False
  with assms show ?thesis by (simp add: ethernet_step_def)
next
  case True
  with assms have "FetchEthernetFirmware (tw_firmware tw) ''/cache'' ''/out'' fs = (fs', Inr ethernet)"
    by (auto simp: ethernet_step_def split: prod.splits sum.splits)
  from fetch_blobs_installed [OF this [unfolded FetchEthernetFirmware_def] curated_apart(2)] True show ?thesis by simp
qed

lemma fetchExtract_Inr:
  assumes "fetchExtract fe fa st = (st', Inr r)"
  shows "fr_SourceURL r = fa_url fa \<and> (fr_PGPVerified r \<longleftrightarrow> fa_sigURL fa \<noteq> [] \<and> \<not> fa_skipVerify fa) \<and>
    (\<exists>d. fs_tarball st' = Some d \<and> fr_TarballSHA256 r = go_hex_encode (fe_sha256 fe d) \<and>
      (fa_expectedSHA256 fa \<noteq> [] \<longrightarrow> hex_equal_fold (fr_TarballSHA256 r) (fa_expectedSHA256 fa)) \<and>
      (fr_PGPVerified r \<longrightarrow> (\<exists>signer. VerifyKernelTarball (fe_verify fe) (Some d) (fa_sigURL fa) = Inr signer)))"
proof -
  obtain d where d: "cached_tarball fe fa st = Inr d"
    using assms by (auto simp: fetchExtract_def split: sum.splits if_splits)
  obtain u where u: "verify_sha256 fe fa d = Inr u"
    using assms d by (auto simp: fetchExtract_def Let_def split: sum.splits if_splits)
  obtain v b where vb: "verify_pgp fe fa d = Inr (v, b)"
    using assms d u by (auto simp: fetchExtract_def Let_def split: sum.splits if_splits)
  have r: "fs_tarball st' = Some d \<and> fr_PGPVerified r = v \<and> fr_SourceURL r = fa_url fa \<and> fr_TarballSHA256 r = go_hex_encode (fe_sha256 fe d)"
    using assms d u vb by (auto simp: fetchExtract_def Let_def split: sum.splits if_splits option.splits)
  have v: "v \<longleftrightarrow> fa_sigURL fa \<noteq> [] \<and> \<not> fa_skipVerify fa"
    "v \<Longrightarrow> \<exists>signer. VerifyKernelTarball (fe_verify fe) (Some d) (fa_sigURL fa) = Inr signer"
    using vb by (auto simp: verify_pgp_def bindE_Inr_iff split: if_splits)
  have "fa_expectedSHA256 fa \<noteq> [] \<longrightarrow> hex_equal_fold (go_hex_encode (fe_sha256 fe d)) (fa_expectedSHA256 fa)"
    using u by (auto simp: verify_sha256_def Let_def)
  with r v show ?thesis by auto
qed

text \<open>The signature check a record of a verified kernel stands for.\<close>

definition signature_checked :: "verify_env \<Rightarrow> string \<Rightarrow> string \<Rightarrow> bool" where
  "signature_checked ve sigURL d \<longleftrightarrow>
     (\<exists>sigData block keys stream signer.
        ve_get ve sigURL = Some (200, Some sigData) \<and> ve_armor ve sigData = Some block \<and> pinned_keys keys \<and>
        ve_xz ve d = Some stream \<and> ve_check ve keys stream block = Some signer)"

lemma kernel_step_record:
  assumes "kernel_step tw spec profile = Inr (r, fragments, ops)"
  shows "cp_SourceURL (kernel_component spec r) = ks_SourceURL spec" "cp_Version (kernel_component spec r) = ks_Version spec"
    "cp_Verified (kernel_component spec r) \<longleftrightarrow> ks_PGPURL spec \<noteq> [] \<and> \<not> ks_InsecureSkipVerify spec"
    "\<exists>d. cp_TarballSHA256 (kernel_component spec r) = go_hex_encode (fe_sha256 (tw_fetch tw) d) \<and>
      (cp_Verified (kernel_component spec r) \<longrightarrow> signature_checked (fe_verify (tw_fetch tw)) (ks_PGPURL spec) d)"
proof -
  obtain st st' where "FetchKernel (tw_fetch tw) spec st = (st', Inr r)" using kernel_step_Inr [OF assms] by blast
  then obtain r0 where f: "fetchExtract (tw_fetch tw) (kernel_args spec) st = (st', Inr r0)"
    and r: "r = r0 \<lparr> fr_ResolvedVersion := ks_Version spec \<rparr>"
    by (auto simp: FetchKernel_def split: prod.splits sum.splits)
  note i = fetchExtract_Inr [OF f]
  show "cp_SourceURL (kernel_component spec r) = ks_SourceURL spec" "cp_Version (kernel_component spec r) = ks_Version spec"
    "cp_Verified (kernel_component spec r) \<longleftrightarrow> ks_PGPURL spec \<noteq> [] \<and> \<not> ks_InsecureSkipVerify spec"
    using i by (simp_all add: kernel_component_def r kernel_args_def)
  obtain d where d: "fr_TarballSHA256 r0 = go_hex_encode (fe_sha256 (tw_fetch tw) d)"
    "fr_PGPVerified r0 \<longrightarrow> (\<exists>signer. VerifyKernelTarball (fe_verify (tw_fetch tw)) (Some d) (ks_PGPURL spec) = Inr signer)"
    using i by (auto simp: kernel_args_def)
  have "fr_PGPVerified r0 \<longrightarrow> signature_checked (fe_verify (tw_fetch tw)) (ks_PGPURL spec) d"
    using d(2) VerifyKernelTarball_Inr unfolding signature_checked_def by blast
  then show "\<exists>d. cp_TarballSHA256 (kernel_component spec r) = go_hex_encode (fe_sha256 (tw_fetch tw) d) \<and>
      (cp_Verified (kernel_component spec r) \<longrightarrow> signature_checked (fe_verify (tw_fetch tw)) (ks_PGPURL spec) d)"
    using d(1) by (auto simp: kernel_component_def r)
qed


text \<open>
  The user's fragments are merged into the kernel without a trace in
  the record: the merge names every one of them, but the record has a hash for a fragment's base name only if one of the program's own
  fragments has that name, and the merge reads them after the security baseline.
\<close>

theorem user_fragments_unrecorded:
  assumes "thunder_main tw = Inr out"
  shows "fst ` set (pp_KconfigFragmentSHA256 (to_Provenance out)) = go_base ` set (to_Fragments out) \<and>
    (\<exists>env srcDir. KRun env srcDir ''sh'' (merge_args (to_Fragments out @ user_fragments tw)) \<in> set (to_KernelOps out))"
  using assms
proof (rule thunder_main_steps)
  fix arch bootProfile spec k fragments ops b written i s wifi fs ethernet json
  assume spec: "kernel_spec tw arch = Inr spec" and out: "to_Fragments out = fragments" "to_KernelOps out = ops"
    and k: "kernel_step tw spec (profile_fragments arch (tw_var tw ''CNIMBUS_VGA'' = ''true'') bootProfile
       (tw_var tw ''CNIMBUS_AGENT_VMWARE'' = ''true'')) = Inr (k, fragments, ops)"
    and w: "writeProvenance tw arch (tw_var tw ''CNIMBUS_VGA'' = ''true'') bootProfile fragments spec k b i s wifi ethernet =
       Inr (to_Provenance out, json)"
  have b: "BuildKernel (tw_build tw) spec (fr_Dir k) fragments ''/out'' = (ops, Inr ())" using kernel_step_Inr [OF k] by blast
  have "\<exists>env srcDir. KRun env srcDir ''sh'' (merge_args (fragments @ user_fragments tw)) \<in> set ops"
    using BuildKernel_Inr [of "tw_build tw" spec "fr_Dir k" fragments "''/out''" "()"] b kernel_spec_Inr(3) [OF spec] by auto
  then show ?thesis using writeProvenance_Inr(9) [OF w] out by simp
qed


theorem user_fragments_unrecorded_witness:
  "\<exists>out. thunder_main ex_thunder = Inr out \<and> user_fragments ex_thunder = [''/work/fragments/my.fragment''] \<and>
     ''my.fragment'' \<notin> fst ` set (pp_KconfigFragmentSHA256 (to_Provenance out))"
proof -
  obtain out where o: "thunder_main ex_thunder = Inr out" "to_Fragments out = ex_fragments" using ex_run by blast
  have "go_base ` set ex_fragments = {''minimal.fragment'', ''vm-amd64.fragment'', ''security-baseline.fragment''}"
    unfolding ex_fragments_def kfrag_def by code_simp
  then have "''my.fragment'' \<notin> fst ` set (pp_KconfigFragmentSHA256 (to_Provenance out))"
    using user_fragments_unrecorded [OF o(1)] o(2) by auto
  moreover have "user_fragments ex_thunder = [''/work/fragments/my.fragment'']"
    using kernel_spec_Inr(3) [OF ex_kernel_spec] by (simp add: ex_spec_def)
  ultimately show ?thesis using o(1) by blast
qed

end
