(* ===== verification/Build_Context.thy ===== *)
theory Build_Context
  imports Thunder "HOL-Library.Multiset"
begin

text \<open>
  What the program carries inside itself and hands to docker: the generators of the embedded data
  (internal/assets/gensync and genagent, with assets.go), and the two directories prepare fills from it, the source tree
  Thunder is compiled from and the context of the builder's image
  (\<^verbatim>\<open>writeEmbedFS\<close>, \<^verbatim>\<open>materializeBuildContext\<close> and the first half of \<^verbatim>\<open>buildThunder\<close> of cmd/cnimbus/prepare.go).

  The disk is a map from paths to contents with an answer for every directory, write, rename and removal: any of them can fail,
  and a write that fails may leave a part of the data behind.
\<close>

section \<open>The disk\<close>

record tmp_disk =
  td_files :: "string \<Rightarrow> string option"
  td_temp :: "string \<Rightarrow> string option"
  td_mkdir :: "string \<Rightarrow> bool"
  td_write :: "string \<Rightarrow> nat option"
  td_rename :: "string \<Rightarrow> bool"
  td_removes :: "string \<Rightarrow> bool"

text \<open>\<^verbatim>\<open>os.WriteFile\<close>: a fault gives the number of bytes that were written before it.\<close>

definition disk_write :: "tmp_disk \<Rightarrow> string \<Rightarrow> string \<Rightarrow> tmp_disk \<times> bool" where
  "disk_write d p data =
     (case td_write d p of
        None \<Rightarrow> (d \<lparr> td_files := (td_files d)(p \<mapsto> data) \<rparr>, True)
      | Some n \<Rightarrow> (d \<lparr> td_files := (td_files d)(p \<mapsto> take n data) \<rparr>, False))"

definition disk_rename :: "tmp_disk \<Rightarrow> string \<Rightarrow> string \<Rightarrow> tmp_disk \<times> bool" where
  "disk_rename d a b =
     (case td_files d a of
        None \<Rightarrow> (d, False)
      | Some x \<Rightarrow> if td_rename d a then (d \<lparr> td_files := (td_files d)(a := None, b := Some x) \<rparr>, True) else (d, False))"

text \<open>\<^verbatim>\<open>os.RemoveAll\<close>, whose error the program ignores.\<close>

definition under_dir :: "string \<Rightarrow> string \<Rightarrow> bool" where
  "under_dir dir p \<longleftrightarrow> p = dir \<or> go_has_prefix p (dir @ ''/'')"

definition disk_removeAll :: "tmp_disk \<Rightarrow> string \<Rightarrow> tmp_disk" where
  "disk_removeAll d dir =
     (if td_removes d dir then d \<lparr> td_files := (\<lambda>p. if under_dir dir p then None else td_files d p) \<rparr> else d)"

section \<open>Finding the repository\<close>

text \<open>\<^verbatim>\<open>repoRoot\<close> of both generators: None of the outer option if the walk does not end, of the inner one if no go.mod is found.\<close>

partial_function (option) repoRoot :: "(string \<Rightarrow> bool) \<Rightarrow> string \<Rightarrow> string option option" where
  "repoRoot stat dir =
     (if stat (go_path_join [dir, ''go.mod'']) then Some (Some dir)
      else if go_dir dir = dir then Some None
      else repoRoot stat (go_dir dir))"

section \<open>gensync\<close>

datatype gensync_error = NoRepoRoot | NoListing | CopyFailed string string

definition isTestFile :: "string \<Rightarrow> bool" where
  "isTestFile name \<longleftrightarrow> 8 < length name \<and> drop (length name - 8) name = ''_test.go''"

definition gensync_copyFile :: "tmp_disk \<Rightarrow> string \<Rightarrow> string \<Rightarrow> tmp_disk \<times> bool" where
  "gensync_copyFile d src dst =
     (case td_files d src of
        None \<Rightarrow> (d, False)
      | Some data \<Rightarrow> if td_mkdir d (go_dir dst) then disk_write d dst data else (d, False))"

fun copy_files :: "tmp_disk \<Rightarrow> (string \<times> string) list \<Rightarrow> tmp_disk \<times> (gensync_error + unit)" where
  "copy_files d [] = (d, Inr ())"
| "copy_files d ((src, dst) # cs) =
     (let (d1, ok) = gensync_copyFile d src dst in if ok then copy_files d1 cs else (d1, Inl (CopyFailed src dst)))"

text \<open>The copies of one run; a directory's entries come with whether they are directories.\<close>

definition synced :: "string \<times> bool \<Rightarrow> bool" where
  "synced = (\<lambda>(name, isDir). \<not> isDir \<and> go_has_suffix name ''.go'' \<and> \<not> isTestFile name)"

definition gensync_copies :: "string \<Rightarrow> (string \<times> bool) list \<Rightarrow> (string \<times> string) list" where
  "gensync_copies root entries =
     (go_path_join [root, ''cmd'', ''thunder'', ''main.go''],
      go_path_join [root, ''internal'', ''assets'', ''data'', ''thunder-src'', ''cmd'', ''thunder'', ''main.go'']) #
     map (\<lambda>(name, isDir).
       (go_path_join [go_path_join [root, ''internal'', ''compileagent''], name],
        go_path_join [root, ''internal'', ''assets'', ''data'', ''thunder-src'', ''internal'', ''compileagent'', name]))
       (filter synced entries)"

definition gensync_main ::
  "(string \<Rightarrow> bool) \<Rightarrow> (string \<Rightarrow> (string \<times> bool) list option) \<Rightarrow> string \<Rightarrow> tmp_disk \<Rightarrow> (tmp_disk \<times> (gensync_error + unit)) option" where
  "gensync_main stat readDir cwd d =
     map_option (\<lambda>r.
       case r of
         None \<Rightarrow> (d, Inl NoRepoRoot)
       | Some root \<Rightarrow>
           (case readDir (go_path_join [root, ''internal'', ''compileagent'']) of
              None \<Rightarrow> (d, Inl NoListing)
            | Some entries \<Rightarrow> copy_files d (gensync_copies root entries))) (repoRoot stat cwd)"

section \<open>genagent\<close>

datatype genagent_error = NoAgentRoot | NoAgentDir | AgentBuildFailed string

definition arches :: "string list" where "arches = [''amd64'', ''arm64'']"

record go_command =
  gc_Args :: "string list"
  gc_Dir :: string
  gc_Env :: "string list"

definition agent_command :: "string \<Rightarrow> string \<Rightarrow> string \<Rightarrow> go_command" where
  "agent_command root outDir arch =
     \<lparr> gc_Args = [''go'', ''build'', ''-trimpath'', ''-buildvcs=false'', ''-ldflags'', ''-s -w -buildid='', ''-o'',
         go_path_join [outDir, ''cnimbusagent-'' @ arch], ''./cmd/cnimbusagent''],
       gc_Dir = root, gc_Env = [''GOOS=linux'', ''GOARCH='' @ arch, ''CGO_ENABLED=0''] \<rparr>"

text \<open>The commands that were run; each is given whether it succeeds.\<close>

fun build_agents :: "(go_command \<Rightarrow> bool) \<Rightarrow> string \<Rightarrow> string \<Rightarrow> string list \<Rightarrow> go_command list \<times> (genagent_error + unit)" where
  "build_agents ok root outDir [] = ([], Inr ())"
| "build_agents ok root outDir (arch # as) =
     (let c = agent_command root outDir arch in
      if ok c then (let (cs, r) = build_agents ok root outDir as in (c # cs, r)) else ([c], Inl (AgentBuildFailed arch)))"

definition genagent_main ::
  "(string \<Rightarrow> bool) \<Rightarrow> (string \<Rightarrow> bool) \<Rightarrow> (go_command \<Rightarrow> bool) \<Rightarrow> string \<Rightarrow> (go_command list \<times> (genagent_error + unit)) option" where
  "genagent_main stat mkdir ok cwd =
     map_option (\<lambda>r.
       case r of
         None \<Rightarrow> ([], Inl NoAgentRoot)
       | Some root \<Rightarrow>
           (let outDir = go_path_join [root, ''internal'', ''assets'', ''data'', ''cnimbusagent''] in
            if mkdir outDir then build_agents ok root outDir arches else ([], Inl NoAgentDir))) (repoRoot stat cwd)"

section \<open>The embedded data\<close>

text \<open>
  The variables of assets.go prepare uses. The tree of Thunder's source is given as a walk meets it, from the top
  directory on: a directory has no content.
\<close>

record embedded =
  em_ForgeDockerfile :: string
  em_KconfigMinimal :: string
  em_KconfigVMAmd64 :: string
  em_KconfigVMArm64 :: string
  em_KconfigVGA :: string
  em_KconfigAgentVMware :: string
  em_KconfigSecurityBaseline :: string
  em_KconfigBaremetalEth :: string
  em_KconfigBaremetalWifi :: string
  em_KconfigBaremetalUsb :: string
  em_ThunderSrc :: "(string \<times> string option) list"

section \<open>Thunder's source\<close>

fun writeEmbedFS :: "tmp_disk \<Rightarrow> string \<Rightarrow> (string \<times> string option) list \<Rightarrow> tmp_disk \<times> bool" where
  "writeEmbedFS d destDir [] = (d, True)"
| "writeEmbedFS d destDir ((p, None) # es) =
     (if td_mkdir d (go_path_join [destDir, p]) then writeEmbedFS d destDir es else (d, False))"
| "writeEmbedFS d destDir ((p, Some data) # es) =
     (let (d1, ok) = disk_write d (go_path_join [destDir, p]) data in if ok then writeEmbedFS d1 destDir es else (d1, False))"

definition thunder_source :: "embedded \<Rightarrow> tmp_disk \<Rightarrow> tmp_disk \<times> string option" where
  "thunder_source em d =
     (case td_temp d ''thunder-src-*'' of
        None \<Rightarrow> (d, None)
      | Some srcDir \<Rightarrow>
          (let (d1, ok1) = writeEmbedFS d srcDir (em_ThunderSrc em) in
           if \<not> ok1 then (disk_removeAll d1 srcDir, None)
           else
             (let (d2, ok2) = disk_rename d1 (go_path_join [srcDir, ''go.mod.embed'']) (go_path_join [srcDir, ''go.mod'']) in
              if ok2 then (d2, Some srcDir) else (disk_removeAll d2 srcDir, None))))"

section \<open>The context of the builder's image\<close>

definition context_files :: "embedded \<Rightarrow> string \<Rightarrow> (string \<times> string) list" where
  "context_files em thunderBinary =
     [(''Dockerfile'', em_ForgeDockerfile em),
      (''agent/thunder'', thunderBinary),
      (''kconfig/minimal.fragment'', em_KconfigMinimal em),
      (''kconfig/vm-amd64.fragment'', em_KconfigVMAmd64 em),
      (''kconfig/vm-arm64.fragment'', em_KconfigVMArm64 em),
      (''kconfig/vga.fragment'', em_KconfigVGA em),
      (''kconfig/agent-vmware.fragment'', em_KconfigAgentVMware em),
      (''kconfig/security-baseline.fragment'', em_KconfigSecurityBaseline em),
      (''kconfig/baremetal-eth.fragment'', em_KconfigBaremetalEth em),
      (''kconfig/baremetal-usb.fragment'', em_KconfigBaremetalUsb em),
      (''kconfig/baremetal-wifi.fragment'', em_KconfigBaremetalWifi em)]"

fun write_context :: "tmp_disk \<Rightarrow> string \<Rightarrow> (string \<times> string) list \<Rightarrow> tmp_disk \<times> bool" where
  "write_context d dir [] = (d, True)"
| "write_context d dir ((rel, data) # fs) =
     (let full = go_path_join [dir, rel] in
      if \<not> td_mkdir d (go_dir full) then (d, False)
      else (let (d1, ok) = disk_write d full data in if ok then write_context d1 dir fs else (d1, False)))"

text \<open>The files are kept in a Go map: \<^verbatim>\<open>order\<close> is the order its iteration happens to take.\<close>

definition materializeBuildContext ::
  "((string \<times> string) list \<Rightarrow> (string \<times> string) list) \<Rightarrow> embedded \<Rightarrow> string \<Rightarrow> tmp_disk \<Rightarrow> tmp_disk \<times> string option" where
  "materializeBuildContext order em thunderBinary d =
     (case td_temp d ''cnimbus-prepare-ctx-*'' of
        None \<Rightarrow> (d, None)
      | Some dir \<Rightarrow>
          (let (d1, ok) = write_context d dir (order (context_files em thunderBinary)) in
           if ok then (d1, Some dir) else (disk_removeAll d1 dir, None)))"

text \<open>The COPY instructions of the embedded Dockerfile, and what they put where in the builder's image.\<close>

definition dockerfile_copies :: "(string \<times> string) list" where
  "dockerfile_copies =
     [(''agent/thunder'', ''/opt/cnimbus/thunder''),
      (''kconfig/minimal.fragment'', ''/opt/cnimbus/kconfig/minimal.fragment''),
      (''kconfig/vm-amd64.fragment'', ''/opt/cnimbus/kconfig/vm-amd64.fragment''),
      (''kconfig/vm-arm64.fragment'', ''/opt/cnimbus/kconfig/vm-arm64.fragment''),
      (''kconfig/vga.fragment'', ''/opt/cnimbus/kconfig/vga.fragment''),
      (''kconfig/agent-vmware.fragment'', ''/opt/cnimbus/kconfig/agent-vmware.fragment''),
      (''kconfig/security-baseline.fragment'', ''/opt/cnimbus/kconfig/security-baseline.fragment''),
      (''kconfig/baremetal-eth.fragment'', ''/opt/cnimbus/kconfig/baremetal-eth.fragment''),
      (''kconfig/baremetal-usb.fragment'', ''/opt/cnimbus/kconfig/baremetal-usb.fragment''),
      (''kconfig/baremetal-wifi.fragment'', ''/opt/cnimbus/kconfig/baremetal-wifi.fragment'')]"

definition image_file :: "tmp_disk \<Rightarrow> string \<Rightarrow> string \<Rightarrow> string option" where
  "image_file d dir path =
     (case List.find (\<lambda>(src, dst). dst = path) dockerfile_copies of
        None \<Rightarrow> None
      | Some (src, dst) \<Rightarrow> td_files d (go_path_join [dir, src]))"

section \<open>Joining relative paths\<close>

definition plain_path :: "string \<Rightarrow> bool" where
  "plain_path rel \<longleftrightarrow> list_all plain_name (go_split (CHR ''/'') rel)"

lemma clean_comps_names: "list_all plain_name ns \<Longrightarrow> clean_comps r out (cs @ ns) = clean_comps r out cs @ ns"
proof (induction ns rule: rev_induct)
  case (snoc n ns)
  then show ?case using clean_comps_snoc [of n r out "cs @ ns"] by (simp add: plain_name_def)
qed simp

lemma go_join_append: "ds \<noteq> [] \<Longrightarrow> ns \<noteq> [] \<Longrightarrow> go_join (ds @ ns) sep = go_join ds sep @ sep @ go_join ns sep"
proof (induction ds sep rule: go_join.induct)
  case (2 s sep)
  then show ?case by (cases ns) auto
qed auto

lemma plain_path_not_rooted: "plain_path rel \<Longrightarrow> rel \<noteq> [] \<and> \<not> path_rooted rel"
  by (cases rel) (auto simp: plain_path_def plain_name_def split: list.splits)

text \<open>What a plain relative path is joined to does not depend on it.\<close>

lemma go_path_join_rel:
  assumes "plain_path rel"
  shows "go_path_join [dir, rel] = join_prefix dir @ rel"
proof -
  let ?ns = "go_split (CHR ''/'') rel"
  note rel = plain_path_not_rooted [OF assms]
  have ns: "list_all plain_name ?ns" "?ns \<noteq> []" using assms by (simp_all add: plain_path_def go_split_nonempty)
  have j: "go_join ?ns ''/'' = rel" by (rule go_join_split)
  show ?thesis
  proof (cases "dir = []")
    case True
    then show ?thesis
      using rel ns clean_comps_names [OF ns(1), of False "[]" "[]"]
      by (simp add: go_path_join_def go_clean_def join_prefix_def j Let_def)
  next
    case False
    have "path_rooted (dir @ CHR ''/'' # rel) = path_rooted dir" using False by (cases dir) auto
    with False rel ns show ?thesis
      by (simp add: go_path_join_def go_clean_def join_prefix_def Let_def go_split_append_general clean_comps_names
          go_join_append j)
  qed
qed

lemma go_path_join_rel_eq: "plain_path a \<Longrightarrow> plain_path b \<Longrightarrow> go_path_join [dir, a] = go_path_join [dir, b] \<longleftrightarrow> a = b"
  by (simp add: go_path_join_rel)

text \<open>Joining more than one part at once.\<close>

lemma go_path_join_parts:
  assumes "ps \<noteq> []" and "list_all plain_name ps"
  shows "go_path_join (dir # ps) = join_prefix dir @ go_join ps ''/''"
proof -
  have n: "go_split (CHR ''/'') (go_join ps ''/'') = ps"
    using assms by (intro go_split_join) (auto simp: list_all_iff plain_name_def)
  then have p: "plain_path (go_join ps ''/'')" using assms(2) by (simp add: plain_path_def)
  have f: "filter (\<lambda>p. p \<noteq> []) ps = ps" using assms(2) by (auto simp: list_all_iff plain_name_def intro: filter_True)
  obtain q qs where ps: "ps = q # qs" using assms(1) by (cases ps) auto
  have "go_path_join (dir # ps) = go_clean (if dir = [] then go_join ps ''/'' else dir @ ''/'' @ go_join ps ''/'')"
    by (simp add: go_path_join_def f) (simp add: ps)
  moreover have "go_path_join [dir, go_join ps ''/''] = go_clean (if dir = [] then go_join ps ''/'' else dir @ ''/'' @ go_join ps ''/'')"
    using plain_path_not_rooted [OF p] by (simp add: go_path_join_def)
  ultimately have "go_path_join (dir # ps) = go_path_join [dir, go_join ps ''/'']" by simp
  with go_path_join_rel [OF p] show ?thesis by simp
qed

section \<open>Runs of writes\<close>

definition written :: "tmp_disk \<Rightarrow> (string \<times> string) list \<Rightarrow> tmp_disk" where
  "written d ws = d \<lparr> td_files := td_files d ++ map_of (rev ws) \<rparr>"

lemma written_simps [simp]:
  "written d [] = d"
  "written (d \<lparr> td_files := (td_files d)(p \<mapsto> x) \<rparr>) ws = written d ((p, x) # ws)"
  "td_temp (written d ws) = td_temp d" "td_mkdir (written d ws) = td_mkdir d" "td_write (written d ws) = td_write d"
  "td_rename (written d ws) = td_rename d" "td_removes (written d ws) = td_removes d"
  by (simp_all add: written_def)

lemma written_in: "distinct (map fst ws) \<Longrightarrow> (p, x) \<in> set ws \<Longrightarrow> td_files (written d ws) p = Some x"
  by (simp add: written_def map_add_def map_of_is_SomeI rev_map [symmetric])

lemma written_out: "p \<notin> fst ` set ws \<Longrightarrow> td_files (written d ws) p = td_files d p"
  by (simp add: written_def map_add_dom_app_simps(3) dom_map_of_conv_image_fst)

lemma distinct_joined:
  assumes "distinct (map fst fs)" and "\<forall>p \<in> set (map fst fs). plain_path p"
  shows "distinct (map fst (map (\<lambda>(p, x). (go_path_join [dir, p], x)) fs))"
proof -
  have "inj_on (\<lambda>p. go_path_join [dir, p]) (set (map fst fs))" using assms(2) by (intro inj_onI) (simp only: go_path_join_rel_eq)
  with assms(1) have "distinct (map (\<lambda>p. go_path_join [dir, p]) (map fst fs))" by (simp only: distinct_map simp_thms)
  then show ?thesis by (simp add: comp_def case_prod_unfold)
qed

lemma disk_write_True: "disk_write d p x = (d', True) \<Longrightarrow> d' = d \<lparr> td_files := (td_files d)(p \<mapsto> x) \<rparr>"
  by (auto simp: disk_write_def split: option.splits)

definition embedded_files :: "(string \<times> string option) list \<Rightarrow> (string \<times> string) list" where
  "embedded_files es = List.map_filter (\<lambda>(p, v). map_option (Pair p) v) es"

lemma embedded_files_simps [simp]:
  "embedded_files [] = []" "embedded_files ((p, None) # es) = embedded_files es"
  "embedded_files ((p, Some x) # es) = (p, x) # embedded_files es"
  by (simp_all add: embedded_files_def List.map_filter_simps)

lemma set_embedded_files: "(p, x) \<in> set (embedded_files es) \<longleftrightarrow> (p, Some x) \<in> set es"
proof (induction es)
  case (Cons e es)
  then show ?case by (cases e; cases "snd e") auto
qed simp

lemma distinct_embedded_files: "distinct (map fst es) \<Longrightarrow> distinct (map fst (embedded_files es))"
proof (induction es)
  case (Cons e es)
  obtain q v where e: "e = (q, v)" by (cases e)
  have "q \<notin> fst ` set (embedded_files es)" using Cons.prems e by (force simp: set_embedded_files)
  then show ?case using Cons e by (cases v) auto
qed simp

lemma writeEmbedFS_True:
  "writeEmbedFS d dir es = (d', True) \<Longrightarrow> d' = written d (map (\<lambda>(p, x). (go_path_join [dir, p], x)) (embedded_files es))"
  by (induction d dir es rule: writeEmbedFS.induct) (auto simp: Let_def dest!: disk_write_True split: if_splits prod.splits)

lemma write_context_True:
  "write_context d dir fs = (d', True) \<Longrightarrow> d' = written d (map (\<lambda>(p, x). (go_path_join [dir, p], x)) fs)"
  by (induction d dir fs rule: write_context.induct) (auto simp: Let_def dest!: disk_write_True split: if_splits prod.splits)

section \<open>Absolute paths by their components\<close>

definition abs_path :: "string list \<Rightarrow> string" where
  "abs_path cs = ''/'' @ go_join cs ''/''"

lemma abs_path_comps:
  assumes "list_all plain_name cs"
  shows "clean_comps True [] (go_split (CHR ''/'') (abs_path cs)) = cs"
proof (cases "cs = []")
  case False
  then have "go_split (CHR ''/'') (go_join cs ''/'') = cs"
    using assms by (intro go_split_join) (auto simp: list_all_iff plain_name_def)
  then show ?thesis using clean_comps_names [OF assms, of True "[]" "[]"] by (simp add: abs_path_def)
qed (simp add: abs_path_def)

lemma abs_path_inject: "list_all plain_name cs \<Longrightarrow> list_all plain_name ds \<Longrightarrow> abs_path cs = abs_path ds \<longleftrightarrow> cs = ds"
  by (metis abs_path_comps)

lemma go_clean_abs: "list_all plain_name cs \<Longrightarrow> go_clean (abs_path cs) = abs_path cs"
  using abs_path_comps [of cs] by (simp add: go_clean_def abs_path_def)

lemma go_clean_abs_slash:
  assumes "list_all plain_name cs"
  shows "go_clean (abs_path cs @ ''/'') = abs_path cs"
proof -
  have "clean_comps True [] (go_split (CHR ''/'') (abs_path cs @ ''/'')) = cs"
    using abs_path_comps [OF assms] by (simp only: go_split_snoc clean_comps_empty_end)
  then show ?thesis by (simp add: go_clean_def abs_path_def)
qed

lemma join_prefix_abs: "list_all plain_name cs \<Longrightarrow> join_prefix (abs_path cs) = ''/'' @ (if cs = [] then [] else go_join cs ''/'' @ ''/'')"
  using abs_path_comps [of cs] by (simp add: join_prefix_def abs_path_def)

lemma go_path_join_abs:
  assumes "list_all plain_name cs" and "list_all plain_name ps" and "ps \<noteq> []"
  shows "go_path_join (abs_path cs # ps) = abs_path (cs @ ps)"
proof -
  have "go_path_join (abs_path cs # ps) = ''/'' @ (if cs = [] then [] else go_join cs ''/'' @ ''/'') @ go_join ps ''/''"
    by (simp only: go_path_join_parts [OF assms(3,2)] join_prefix_abs [OF assms(1)] append_assoc)
  also have "\<dots> = abs_path (cs @ ps)" using assms(3) by (simp add: abs_path_def go_join_append)
  finally show ?thesis .
qed

lemma go_dir_abs:
  assumes "list_all plain_name cs"
  shows "go_dir (abs_path cs) = abs_path (butlast cs)"
proof (cases cs rule: rev_cases)
  case Nil
  then show ?thesis by (simp add: abs_path_def go_dir_def go_clean_def)
next
  case (snoc ds n)
  let ?pre = "if ds = [] then ''/'' else abs_path ds @ ''/''"
  have n: "plain_name n" and ds: "list_all plain_name ds" using assms snoc by simp_all
  have p: "abs_path cs = ?pre @ n" using snoc by (simp add: abs_path_def go_join_snoc)
  have "dropWhile (\<lambda>c. c \<noteq> CHR ''/'') (rev n @ rev ?pre) = dropWhile (\<lambda>c. c \<noteq> CHR ''/'') (rev ?pre)"
    using n by (intro dropWhile_append2) (auto simp: plain_name_def)
  then have "go_dir (abs_path cs) = go_clean ?pre" by (simp add: p go_dir_def)
  also have "\<dots> = abs_path ds"
    using go_clean_abs [of "[]"] go_clean_abs_slash [OF ds] by (cases "ds = []") (simp_all add: abs_path_def)
  finally show ?thesis using snoc by simp
qed

section \<open>The walk to the repository ends\<close>

text \<open>From an absolute directory the walk ends, at the nearest directory above it that has a go.mod, if there is one.\<close>

lemma repoRoot_abs:
  assumes "list_all plain_name cs"
  obtains (found) n where "n \<le> length cs" "repoRoot stat (abs_path cs) = Some (Some (abs_path (take n cs)))"
      "stat (go_path_join [abs_path (take n cs), ''go.mod''])"
      "\<And>m. n < m \<Longrightarrow> m \<le> length cs \<Longrightarrow> \<not> stat (go_path_join [abs_path (take m cs), ''go.mod''])"
  | (missing) "repoRoot stat (abs_path cs) = Some None" "\<And>m. m \<le> length cs \<Longrightarrow> \<not> stat (go_path_join [abs_path (take m cs), ''go.mod''])"
  using assms
proof (induction cs arbitrary: thesis rule: rev_induct)
  case Nil
  have "go_dir (abs_path []) = abs_path []" using go_dir_abs [of "[]"] by simp
  then have r: "repoRoot stat (abs_path []) = Some (if stat (go_path_join [abs_path [], ''go.mod'']) then Some (abs_path []) else None)"
    by (subst repoRoot.simps) simp
  show ?case using Nil.prems(1) [of 0] Nil.prems(2) r by (auto split: if_splits)
next
  case (snoc c cs)
  have pl: "list_all plain_name (cs @ [c])" by (rule snoc.prems(3))
  have up: "go_dir (abs_path (cs @ [c])) = abs_path cs" "abs_path cs \<noteq> abs_path (cs @ [c])"
    using go_dir_abs [OF pl] abs_path_inject [of cs "cs @ [c]"] pl by auto
  show ?case
  proof (cases "stat (go_path_join [abs_path (cs @ [c]), ''go.mod''])")
    case True
    then have "repoRoot stat (abs_path (cs @ [c])) = Some (Some (abs_path (cs @ [c])))" by (subst repoRoot.simps) simp
    with True show ?thesis by (intro snoc.prems(1) [of "length (cs @ [c])"]) simp_all
  next
    case False
    then have step: "repoRoot stat (abs_path (cs @ [c])) = repoRoot stat (abs_path cs)" using up by (subst repoRoot.simps) simp
    have le: "list_all plain_name cs" using pl by simp
    show ?thesis
    proof (rule snoc.IH [OF _ _ le])
      fix n
      assume n: "n \<le> length cs" "repoRoot stat (abs_path cs) = Some (Some (abs_path (take n cs)))"
          "stat (go_path_join [abs_path (take n cs), ''go.mod''])"
          "\<And>m. n < m \<Longrightarrow> m \<le> length cs \<Longrightarrow> \<not> stat (go_path_join [abs_path (take m cs), ''go.mod''])"
      show thesis
      proof (rule snoc.prems(1) [of n])
        fix m assume "n < m" "m \<le> length (cs @ [c])"
        then show "\<not> stat (go_path_join [abs_path (take m (cs @ [c])), ''go.mod''])"
          using n(4) [of m] False by (cases "m = Suc (length cs)") simp_all
      qed (use n step in simp_all)
    next
      assume n: "repoRoot stat (abs_path cs) = Some None"
          "\<And>m. m \<le> length cs \<Longrightarrow> \<not> stat (go_path_join [abs_path (take m cs), ''go.mod''])"
      show thesis
      proof (rule snoc.prems(2))
        fix m assume "m \<le> length (cs @ [c])"
        then show "\<not> stat (go_path_join [abs_path (take m (cs @ [c])), ''go.mod''])"
          using n(2) [of m] False by (cases "m = Suc (length cs)") simp_all
      qed (use n step in simp)
    qed
  qed
qed

section \<open>What gensync leaves\<close>

lemma copy_files_Inr:
  assumes "copy_files d cs = (d', Inr ())" and "fst ` set cs \<inter> snd ` set cs = {}"
  shows "(\<forall>(s, t) \<in> set cs. td_files d s \<noteq> None) \<and> d' = written d (map (\<lambda>(s, t). (t, the (td_files d s))) cs)"
  using assms
proof (induction d cs rule: copy_files.induct)
  case (2 d src dst cs)
  obtain data where data: "td_files d src = Some data" and w: "disk_write d dst data = (d \<lparr> td_files := (td_files d)(dst \<mapsto> data) \<rparr>, True)"
    using 2(2) by (auto simp: gensync_copyFile_def disk_write_def split: option.splits if_splits prod.splits)
  let ?d1 = "d \<lparr> td_files := (td_files d)(dst \<mapsto> data) \<rparr>"
  have c: "gensync_copyFile d src dst = (?d1, True)" using 2(2) data w by (auto simp: gensync_copyFile_def split: if_splits)
  have keep: "td_files ?d1 s = td_files d s" if "(s, t) \<in> set cs" for s t
  proof -
    have "s \<in> fst ` set cs" using that by (rule image_eqI [rotated]) simp
    then have "s \<noteq> dst" using 2(3) by auto
    then show ?thesis by simp
  qed
  have r: "copy_files ?d1 cs = (d', Inr ())" using 2(2) by (simp add: c)
  have dis: "fst ` set cs \<inter> snd ` set cs = {}" using 2(3) by auto
  have ih: "(\<forall>(s, t) \<in> set cs. td_files ?d1 s \<noteq> None) \<and> d' = written ?d1 (map (\<lambda>(s, t). (t, the (td_files ?d1 s))) cs)"
    by (rule 2(1) [OF c [symmetric] refl TrueI r dis])
  have m: "map (\<lambda>(s, t). (t, the (td_files ?d1 s))) cs = map (\<lambda>(s, t). (t, the (td_files d s))) cs"
    using keep by (intro map_cong) (auto split: prod.splits simp del: fun_upd_apply)
  have "d' = written d (map (\<lambda>(s, t). (t, the (td_files d s))) ((src, dst) # cs))"
    using ih by (simp only: m written_simps list.map prod.case data option.sel)
  moreover have "\<forall>(s, t) \<in> set cs. td_files d s \<noteq> None" using ih keep by (fastforce simp del: fun_upd_apply)
  ultimately show ?case using data by simp
qed simp

definition src_comps :: "string list" where "src_comps = [''internal'', ''compileagent'']"

definition emb_comps :: "string list" where "emb_comps = [''internal'', ''assets'', ''data'', ''thunder-src'']"

lemma comps_plain: "list_all plain_name src_comps" "list_all plain_name emb_comps" "list_all plain_name [''cmd'', ''thunder'', ''main.go'']"
  by (simp_all add: src_comps_def emb_comps_def plain_name_def)

text \<open>The copies by components: every path of a source to the path of its embedded copy.\<close>

lemma gensync_copies_abs:
  assumes "list_all plain_name cs" and "\<forall>(n, isDir) \<in> set entries. plain_name n"
  shows "gensync_copies (abs_path cs) entries =
    map (\<lambda>c. (abs_path (cs @ c), abs_path (cs @ emb_comps @ c)))
      ([''cmd'', ''thunder'', ''main.go''] # map (\<lambda>(n, isDir). src_comps @ [n]) (filter synced entries))"
proof -
  have j: "go_path_join (abs_path cs # [''internal'', ''compileagent'']) = abs_path (cs @ src_comps)"
    using assms(1) comps_plain(1) by (subst go_path_join_abs) (simp_all add: src_comps_def)
  have p: "go_path_join [go_path_join [abs_path cs, ''internal'', ''compileagent''], n] = abs_path (cs @ src_comps @ [n])"
    "go_path_join [abs_path cs, ''internal'', ''assets'', ''data'', ''thunder-src'', ''internal'', ''compileagent'', n] =
      abs_path (cs @ emb_comps @ src_comps @ [n])" if "plain_name n" for n
    unfolding j using assms(1) comps_plain that
    by (subst go_path_join_abs; simp add: src_comps_def emb_comps_def)+
  have m: "go_path_join [abs_path cs, ''cmd'', ''thunder'', ''main.go''] = abs_path (cs @ [''cmd'', ''thunder'', ''main.go''])"
    "go_path_join [abs_path cs, ''internal'', ''assets'', ''data'', ''thunder-src'', ''cmd'', ''thunder'', ''main.go''] =
      abs_path (cs @ emb_comps @ [''cmd'', ''thunder'', ''main.go''])"
    using assms(1) comps_plain by (subst go_path_join_abs; simp add: emb_comps_def)+
  have "map (\<lambda>(name, isDir).
       (go_path_join [go_path_join [abs_path cs, ''internal'', ''compileagent''], name],
        go_path_join [abs_path cs, ''internal'', ''assets'', ''data'', ''thunder-src'', ''internal'', ''compileagent'', name])) (filter synced entries) =
     map (\<lambda>(n, isDir). (abs_path (cs @ src_comps @ [n]), abs_path (cs @ emb_comps @ src_comps @ [n]))) (filter synced entries)"
    using assms(2) p by (intro map_cong) auto
  then show ?thesis unfolding gensync_copies_def m by (simp add: comp_def case_prod_unfold)
qed

lemma go_path_join_abs_rel:
  assumes "list_all plain_name cs" and "plain_path rel"
  shows "go_path_join [abs_path cs, rel] = abs_path (cs @ go_split (CHR ''/'') rel)"
proof -
  have "go_path_join [abs_path cs, rel] = ''/'' @ (if cs = [] then [] else go_join cs ''/'' @ ''/'') @ rel"
    by (simp only: go_path_join_rel [OF assms(2)] join_prefix_abs [OF assms(1)] append_assoc)
  moreover have "go_join (go_split (CHR ''/'') rel) ''/'' = rel" by (rule go_join_split)
  ultimately show ?thesis by (simp add: abs_path_def go_join_append go_split_nonempty)
qed

lemma go_path_join_3: "a \<noteq> [] \<Longrightarrow> b \<noteq> [] \<Longrightarrow> go_path_join [dir, a, b] = go_path_join [dir, a @ ''/'' @ b]"
  by (simp add: go_path_join_def)

definition embedded_path :: "string \<Rightarrow> string \<Rightarrow> string" where
  "embedded_path root rel = go_path_join [root, ''internal/assets/data/thunder-src'', rel]"

lemma embedded_path_abs:
  assumes "list_all plain_name cs" and "plain_path rel"
  shows "embedded_path (abs_path cs) rel = abs_path (cs @ emb_comps @ go_split (CHR ''/'') rel)"
proof -
  let ?e = "''internal/assets/data/thunder-src''"
  have e: "go_split (CHR ''/'') ?e = emb_comps" by (simp add: emb_comps_def)
  have s: "go_split (CHR ''/'') (?e @ ''/'' @ rel) = emb_comps @ go_split (CHR ''/'') rel"
    using go_split_append_general [of "CHR ''/''" ?e rel] e by simp
  then have pl: "plain_path (?e @ ''/'' @ rel)"
    using assms(2) comps_plain(2) unfolding plain_path_def s by (simp only: list_all_append simp_thms)
  show ?thesis
    using plain_path_not_rooted [OF assms(2)]
    by (simp only: embedded_path_def go_path_join_3 [of ?e rel dir for dir] list.distinct not_False_eq_True
        go_path_join_abs_rel [OF assms(1) pl] s)
qed

text \<open>The \<^verbatim>\<open>go:embed\<close> of the tree: its files are those on the disk below internal/assets/data/thunder-src when the program was compiled.\<close>

definition embeds :: "tmp_disk \<Rightarrow> string \<Rightarrow> (string \<times> string option) list \<Rightarrow> bool" where
  "embeds d root es \<longleftrightarrow>
     distinct (map fst es) \<and>
     (\<forall>p x. (p, Some x) \<in> set es \<longleftrightarrow> plain_path p \<and> td_files d (embedded_path root p) = Some x)"

text \<open>The files a run of gensync copies, relative to the repository.\<close>

definition synced_files :: "(string \<times> bool) list \<Rightarrow> string list" where
  "synced_files entries = ''cmd/thunder/main.go'' # map (\<lambda>(n, isDir). ''internal/compileagent/'' @ n) (filter synced entries)"

lemma synced_files_comps:
  assumes "\<forall>(n, isDir) \<in> set entries. plain_name n"
  shows "map (go_split (CHR ''/'')) (synced_files entries) =
      [''cmd'', ''thunder'', ''main.go''] # map (\<lambda>(n, isDir). src_comps @ [n]) (filter synced entries)"
    "\<forall>rel \<in> set (synced_files entries). plain_path rel"
proof -
  have n: "go_split (CHR ''/'') (''internal/compileagent/'' @ n) = src_comps @ [n]" if "plain_name n" for n
    using that by (simp add: src_comps_def plain_name_def go_split_id)
  then show c: "map (go_split (CHR ''/'')) (synced_files entries) =
      [''cmd'', ''thunder'', ''main.go''] # map (\<lambda>(n, isDir). src_comps @ [n]) (filter synced entries)"
    using assms by (auto simp: synced_files_def)
  show "\<forall>rel \<in> set (synced_files entries). plain_path rel"
    using assms n comps_plain unfolding synced_files_def plain_path_def by fastforce
qed

lemma gensync_copies_rel:
  assumes "list_all plain_name cs" and "\<forall>(n, isDir) \<in> set entries. plain_name n"
  shows "gensync_copies (abs_path cs) entries =
    map (\<lambda>rel. (go_path_join [abs_path cs, rel], embedded_path (abs_path cs) rel)) (synced_files entries)"
proof -
  have "map (\<lambda>rel. (go_path_join [abs_path cs, rel], embedded_path (abs_path cs) rel)) (synced_files entries) =
      map (\<lambda>rel. (abs_path (cs @ go_split (CHR ''/'') rel), abs_path (cs @ emb_comps @ go_split (CHR ''/'') rel))) (synced_files entries)"
    using synced_files_comps(2) [OF assms(2)] by (simp add: go_path_join_abs_rel [OF assms(1)] embedded_path_abs [OF assms(1)])
  also have "\<dots> = map (\<lambda>c. (abs_path (cs @ c), abs_path (cs @ emb_comps @ c))) (map (go_split (CHR ''/'')) (synced_files entries))"
    by simp
  finally show ?thesis by (simp only: synced_files_comps(1) [OF assms(2)] gensync_copies_abs [OF assms])
qed

lemma go_split_inject: "go_split c s = go_split c t \<longleftrightarrow> s = t"
  by (metis go_join_split)

lemma embedded_path_inject:
  assumes "list_all plain_name cs" and "plain_path a" and "plain_path b"
  shows "embedded_path (abs_path cs) a = embedded_path (abs_path cs) b \<longleftrightarrow> a = b"
proof -
  have "list_all plain_name (cs @ emb_comps @ go_split (CHR ''/'') r)" if "plain_path r" for r
    using assms(1) comps_plain(2) that by (simp add: plain_path_def)
  then show ?thesis
    using assms by (simp add: embedded_path_abs abs_path_inject go_split_inject)
qed

lemma synced_files_distinct: "distinct (map fst entries) \<Longrightarrow> distinct (synced_files entries)"
proof -
  assume "distinct (map fst entries)"
  then have "distinct (map fst (filter synced entries))" by (rule distinct_map_filter)
  then have "distinct (map ((@) ''internal/compileagent/'') (map fst (filter synced entries)))" by (simp add: distinct_map inj_on_def)
  then show ?thesis by (auto simp: synced_files_def comp_def case_prod_unfold)
qed

text \<open>After a run, every synced file has the embedded copy it should have, and every other embedded file is as before.\<close>

lemma gensync_done:
  assumes cs: "list_all plain_name cs" and es: "\<forall>(n, isDir) \<in> set entries. plain_name n" "distinct (map fst entries)"
    and run: "copy_files d (gensync_copies (abs_path cs) entries) = (d', Inr ())"
  shows "\<forall>rel \<in> set (synced_files entries). \<exists>x. td_files d (go_path_join [abs_path cs, rel]) = Some x \<and>
      td_files d' (embedded_path (abs_path cs) rel) = Some x"
    "plain_path rel \<Longrightarrow> rel \<notin> set (synced_files entries) \<Longrightarrow>
      td_files d' (embedded_path (abs_path cs) rel) = td_files d (embedded_path (abs_path cs) rel)"
proof -
  let ?S = "synced_files entries" and ?src = "\<lambda>rel. go_path_join [abs_path cs, rel]" and ?emb = "embedded_path (abs_path cs)"
  note pl = synced_files_comps(2) [OF es(1)]
  have sep: "?src a \<noteq> ?emb b" if "a \<in> set ?S" "b \<in> set ?S" for a b
  proof -
    have "go_split (CHR ''/'') a \<in> set (map (go_split (CHR ''/'')) ?S)" using that(1) by simp
    then have "go_split (CHR ''/'') a = [''cmd'', ''thunder'', ''main.go''] \<or> (\<exists>n. go_split (CHR ''/'') a = src_comps @ [n])"
      by (auto simp: synced_files_comps(1) [OF es(1)])
    then have "cs @ go_split (CHR ''/'') a \<noteq> cs @ emb_comps @ go_split (CHR ''/'') b" by (auto simp: src_comps_def emb_comps_def)
    moreover have "list_all plain_name (cs @ go_split (CHR ''/'') a)" "list_all plain_name (cs @ emb_comps @ go_split (CHR ''/'') b)"
      using pl that cs comps_plain(2) by (auto simp: plain_path_def)
    ultimately show ?thesis
      using pl that by (simp add: go_path_join_abs_rel [OF cs] embedded_path_abs [OF cs] abs_path_inject)
  qed
  have "fst ` set (map (\<lambda>rel. (?src rel, ?emb rel)) ?S) \<inter> snd ` set (map (\<lambda>rel. (?src rel, ?emb rel)) ?S) = {}"
    using sep by (auto simp: image_iff)
  from copy_files_Inr [OF run [unfolded gensync_copies_rel [OF cs es(1)]] this]
  have some: "\<forall>rel \<in> set ?S. td_files d (?src rel) \<noteq> None"
    and d': "d' = written d (map (\<lambda>rel. (?emb rel, the (td_files d (?src rel)))) ?S)"
    by (auto simp: comp_def)
  have inj: "inj_on ?emb (set ?S)" using pl by (intro inj_onI) (simp add: embedded_path_inject [OF cs])
  then have dist: "distinct (map fst (map (\<lambda>rel. (?emb rel, the (td_files d (?src rel)))) ?S))"
    using synced_files_distinct [OF es(2)] by (simp add: comp_def distinct_map)
  show "\<forall>rel \<in> set ?S. \<exists>x. td_files d (?src rel) = Some x \<and> td_files d' (?emb rel) = Some x"
    using some written_in [OF dist, of _ _ d] unfolding d' by fastforce
  assume "plain_path rel" "rel \<notin> set ?S"
  then have "?emb rel \<notin> fst ` set (map (\<lambda>rel. (?emb rel, the (td_files d (?src rel)))) ?S)"
    using pl by (auto simp: image_iff embedded_path_inject [OF cs])
  then show "td_files d' (?emb rel) = td_files d (?emb rel)" unfolding d' by (rule written_out)
qed

lemma thunder_source_tree:
  assumes run: "thunder_source em d = (d', Some srcDir)" and tree: "distinct (map fst (em_ThunderSrc em))"
    "\<forall>p x. (p, Some x) \<in> set (em_ThunderSrc em) \<longrightarrow> plain_path p"
    and mem: "(p, Some x) \<in> set (em_ThunderSrc em)"
  shows "p \<notin> {''go.mod'', ''go.mod.embed''} \<Longrightarrow> td_files d' (go_path_join [srcDir, p]) = Some x"
    "p = ''go.mod.embed'' \<Longrightarrow> td_files d' (go_path_join [srcDir, ''go.mod'']) = Some x \<and> td_files d' (go_path_join [srcDir, p]) = None"
proof -
  let ?es = "embedded_files (em_ThunderSrc em)" and ?mod = "go_path_join [srcDir, ''go.mod'']" and ?emb = "go_path_join [srcDir, ''go.mod.embed'']"
  obtain d1 where w: "writeEmbedFS d srcDir (em_ThunderSrc em) = (d1, True)" and r: "disk_rename d1 ?emb ?mod = (d', True)"
    using run by (auto simp: thunder_source_def Let_def split: option.splits prod.splits if_splits)
  obtain y where y: "td_files d1 ?emb = Some y" "d' = d1 \<lparr> td_files := (td_files d1)(?emb := None, ?mod := Some y) \<rparr>"
    using r by (auto simp: disk_rename_def split: option.splits if_splits)
  have pl: "plain_path ''go.mod''" "plain_path ''go.mod.embed''" by (simp_all add: plain_path_def plain_name_def)
  have "distinct (map fst ?es)" using tree(1) by (rule distinct_embedded_files)
  then have dist: "distinct (map fst (map (\<lambda>(p, x). (go_path_join [srcDir, p], x)) ?es))"
  proof (rule distinct_joined)
    show "\<forall>p \<in> set (map fst ?es). plain_path p"
    proof
      fix p assume "p \<in> set (map fst ?es)"
      then obtain x where "(p, x) \<in> set ?es" by auto
      then show "plain_path p" using tree(2) unfolding set_embedded_files by blast
    qed
  qed
  have d1: "td_files d1 (go_path_join [srcDir, p]) = Some x"
    unfolding writeEmbedFS_True [OF w] using mem
    by (intro written_in [OF dist]) (force simp: set_embedded_files [symmetric])
  have p: "plain_path p" using tree(2) mem by blast
  show "td_files d' (go_path_join [srcDir, p]) = Some x" if "p \<notin> {''go.mod'', ''go.mod.embed''}"
    using that d1 by (simp add: y(2) go_path_join_rel_eq [OF p pl(1)] go_path_join_rel_eq [OF p pl(2)])
  show "td_files d' ?mod = Some x \<and> td_files d' (go_path_join [srcDir, p]) = None" if "p = ''go.mod.embed''"
    using that d1 y by (simp add: go_path_join_rel_eq [OF pl(2,1)])
qed

section \<open>What prepare compiles\<close>

text \<open>
  Property C27. The builder prepare compiles is the one in the repository: after a successful run of gensync, with the tree embedded
  as it then is, the source directory handed to the Go compiler holds, byte for byte, the repository's
  cmd/thunder/main.go and every file of internal/compileagent that is Go and not a test, each at its
  own place. What else the tree holds goes along unchanged, also a file whose original has been deleted since: gensync
  removes nothing.
\<close>

theorem builder_compiles_repository_source:
  assumes cwd: "list_all plain_name ws" and root: "repoRoot stat (abs_path ws) = Some (Some root)"
    and dir: "readDir (go_path_join [root, ''internal'', ''compileagent'']) = Some entries"
    and entries: "\<forall>(n, isDir) \<in> set entries. plain_name n" "distinct (map fst entries)"
    and sync: "gensync_main stat readDir (abs_path ws) d = Some (d', Inr ())"
    and embed: "embeds d' root (em_ThunderSrc em)" and source: "thunder_source em t = (t', Some srcDir)"
  shows "(\<forall>rel \<in> set (synced_files entries). \<exists>x.
      td_files d (go_path_join [root, rel]) = Some x \<and> td_files t' (go_path_join [srcDir, rel]) = Some x) \<and>
    (\<forall>rel x. plain_path rel \<and> rel \<notin> set (synced_files entries) \<union> {''go.mod'', ''go.mod.embed''} \<and>
      td_files d (embedded_path root rel) = Some x \<longrightarrow> td_files t' (go_path_join [srcDir, rel]) = Some x)"
proof -
  have "\<exists>n. root = abs_path (take n ws)"
    by (rule repoRoot_abs [OF cwd, of stat]) (use root in auto)
  then obtain cs where cs: "root = abs_path cs" "list_all plain_name cs"
    using cwd by (metis append_take_drop_id list_all_append)
  have run: "copy_files d (gensync_copies (abs_path cs) entries) = (d', Inr ())"
    using sync root dir by (simp add: gensync_main_def cs(1))
  note after = gensync_done [OF cs(2) entries run, folded cs(1)]
  have tree: "distinct (map fst (em_ThunderSrc em))" "\<forall>p x. (p, Some x) \<in> set (em_ThunderSrc em) \<longrightarrow> plain_path p"
    using embed unfolding embeds_def by blast+
  note copied = thunder_source_tree(1) [OF source tree]
  have emb: "(p, Some x) \<in> set (em_ThunderSrc em) \<longleftrightarrow> plain_path p \<and> td_files d' (embedded_path root p) = Some x" for p x
    using embed by (simp add: embeds_def)
  have names: "rel \<notin> {''go.mod'', ''go.mod.embed''} \<and> plain_path rel" if "rel \<in> set (synced_files entries)" for rel
    using that synced_files_comps(2) [OF entries(1)] by (auto simp: synced_files_def)
  have "\<exists>x. td_files d (go_path_join [root, rel]) = Some x \<and> td_files t' (go_path_join [srcDir, rel]) = Some x"
    if mem: "rel \<in> set (synced_files entries)" for rel
  proof -
    obtain x where x: "td_files d (go_path_join [root, rel]) = Some x" "td_files d' (embedded_path root rel) = Some x"
      using bspec [OF after(1) mem] by blast
    have "(rel, Some x) \<in> set (em_ThunderSrc em)" using x(2) names [OF mem] by (simp add: emb)
    then have "td_files t' (go_path_join [srcDir, rel]) = Some x" using names [OF mem] by (intro copied) simp_all
    with x(1) show ?thesis by blast
  qed
  moreover have "td_files t' (go_path_join [srcDir, rel]) = Some x"
    if "plain_path rel" "rel \<notin> set (synced_files entries) \<union> {''go.mod'', ''go.mod.embed''}" "td_files d (embedded_path root rel) = Some x" for rel x
  proof -
    have "td_files d' (embedded_path root rel) = Some x" using after(2) [of rel] that by simp
    then have "(rel, Some x) \<in> set (em_ThunderSrc em)" using that(1) by (simp add: emb)
    then show ?thesis using that(2) by (intro copied) simp_all
  qed
  ultimately show ?thesis by blast
qed

section \<open>The builder's image\<close>

lemma find_snd: "distinct (map snd xs) \<Longrightarrow> (a, b) \<in> set xs \<Longrightarrow> List.find (\<lambda>(x, y). y = b) xs = Some (a, b)"
  by (induction xs) force+

lemma image_file_copied: "(src, dst) \<in> set dockerfile_copies \<Longrightarrow> image_file d dir dst = td_files d (go_path_join [dir, src])"
proof -
  assume m: "(src, dst) \<in> set dockerfile_copies"
  have "distinct (map snd dockerfile_copies)" by (simp add: dockerfile_copies_def)
  from find_snd [OF this m] show ?thesis by (simp add: image_file_def)
qed

lemma context_files_plain: "p \<in> set (map fst (context_files em thunderBinary)) \<Longrightarrow> plain_path p"
  by (auto simp: context_files_def plain_path_def plain_name_def)


text \<open>A context that could not be written is removed again.\<close>

lemma write_context_below:
  assumes "write_context d dir fs = (d', ok)" and "\<not> (\<exists>rel \<in> set (map fst fs). go_path_join [dir, rel] = p)"
  shows "td_files d' p = td_files d p" "td_removes d' = td_removes d"
  using assms
  by (induction d dir fs rule: write_context.induct)
    (auto simp: Let_def disk_write_def split: if_splits prod.splits option.splits)

lemma context_not_left_behind:
  assumes run: "materializeBuildContext order em thunderBinary d = (d', None)" and rm: "\<And>p. td_removes d p"
    and temp: "\<And>t. td_temp d ''cnimbus-prepare-ctx-*'' = Some t \<Longrightarrow>
      join_prefix t = t @ ''/'' \<and> (\<forall>p. under_dir t p \<longrightarrow> td_files d p = None)"
    and order: "set (order (context_files em thunderBinary)) = set (context_files em thunderBinary)"
  shows "td_files d' = td_files d"
proof (cases "td_temp d ''cnimbus-prepare-ctx-*''")
  case None
  then show ?thesis using run by (simp add: materializeBuildContext_def)
next
  case (Some t)
  let ?fs = "order (context_files em thunderBinary)"
  obtain d1 where w: "write_context d t ?fs = (d1, False)" and d': "d' = disk_removeAll d1 t"
    using run Some by (auto simp: materializeBuildContext_def Let_def split: prod.splits if_splits)
  note t = temp [OF Some]
  have pl: "plain_path rel" if "rel \<in> set (map fst ?fs)" for rel
  proof -
    have "rel \<in> set (map fst (context_files em thunderBinary))" using that order by simp
    then show ?thesis by (rule context_files_plain)
  qed
  have "td_files d1 p = td_files d p" if "\<not> under_dir t p" for p
  proof (rule write_context_below(1) [OF w])
    show "\<not> (\<exists>rel \<in> set (map fst ?fs). go_path_join [t, rel] = p)"
      using that pl t by (auto simp: under_dir_def go_path_join_rel go_has_prefix_def)
  qed
  moreover have "td_removes d1 t"
    using rm write_context_below(2) [OF w, of "[]"] pl by (auto simp: go_path_join_rel t)
  ultimately show ?thesis using t by (auto simp: d' disk_removeAll_def)
qed

section \<open>Concrete runs\<close>

definition ex_disk :: "(string \<Rightarrow> string option) \<Rightarrow> tmp_disk" where
  "ex_disk files =
     \<lparr> td_files = files, td_temp = (\<lambda>p. Some ''/s''), td_mkdir = (\<lambda>p. True), td_write = (\<lambda>p. None), td_rename = (\<lambda>p. True),
       td_removes = (\<lambda>p. True) \<rparr>"

definition ex_repository :: "string \<Rightarrow> string option" where
  "ex_repository =
     [''/r/cmd/thunder/main.go'' \<mapsto> ''m'', ''/r/internal/compileagent/a.go'' \<mapsto> ''a'',
      ''/r/internal/assets/data/thunder-src/go.mod.embed'' \<mapsto> ''g'']"

definition ex_embedded :: embedded where
  "ex_embedded =
     \<lparr> em_ForgeDockerfile = ''F'', em_KconfigMinimal = ''M'', em_KconfigVMAmd64 = ''V'', em_KconfigVMArm64 = ''W'', em_KconfigVGA = ''G'',
       em_KconfigAgentVMware = ''A'', em_KconfigSecurityBaseline = ''S'', em_KconfigBaremetalEth = ''E'', em_KconfigBaremetalWifi = ''I'',
       em_KconfigBaremetalUsb = ''U'',
       em_ThunderSrc = [(''.'', None), (''cmd/thunder/main.go'', Some ''m''), (''go.mod.embed'', Some ''g''),
         (''internal/compileagent/a.go'', Some ''a'')] \<rparr>"

lemma ex_joins:
  "go_path_join [''/r'', ''go.mod''] = ''/r/go.mod''"
  "go_path_join [''/r'', ''internal'', ''compileagent''] = ''/r/internal/compileagent''"
  "gensync_copies ''/r'' [(''a.go'', False), (''a_test.go'', False)] =
    [(''/r/cmd/thunder/main.go'', ''/r/internal/assets/data/thunder-src/cmd/thunder/main.go''),
     (''/r/internal/compileagent/a.go'', ''/r/internal/assets/data/thunder-src/internal/compileagent/a.go'')]"
  "join_prefix ''/r'' = ''/r/''" "join_prefix ''/s'' = ''/s/''"
  by code_simp+

definition ex_synced :: tmp_disk where
  "ex_synced = ex_disk (ex_repository (''/r/internal/assets/data/thunder-src/cmd/thunder/main.go'' \<mapsto> ''m'',
     ''/r/internal/assets/data/thunder-src/internal/compileagent/a.go'' \<mapsto> ''a''))"

lemma ex_embeds: "embeds ex_synced ''/r'' (em_ThunderSrc ex_embedded)"
proof -
  have p: "embedded_path ''/r'' p = ''/r/internal/assets/data/thunder-src/'' @ p" if "plain_path p" for p
  proof -
    have "plain_path (''internal/assets/data/thunder-src'' @ ''/'' @ p)"
      using that comps_plain(2) go_split_append_general [of "CHR ''/''" "''internal/assets/data/thunder-src''" p]
      by (simp add: plain_path_def emb_comps_def)
    from go_path_join_rel [OF this, of "''/r''"] plain_path_not_rooted [OF that] show ?thesis
      by (simp add: embedded_path_def go_path_join_3 ex_joins)
  qed
  have pl: "plain_path ''cmd/thunder/main.go''" "plain_path ''go.mod.embed''" "plain_path ''internal/compileagent/a.go''"
    by (simp_all add: plain_path_def plain_name_def)
  have "(q, Some x) \<in> set (em_ThunderSrc ex_embedded) \<longleftrightarrow> plain_path q \<and> td_files ex_synced (embedded_path ''/r'' q) = Some x" for q x
  proof (cases "plain_path q")
    case True
    then show ?thesis by (auto simp: p ex_embedded_def ex_synced_def ex_disk_def ex_repository_def)
  next
    case False
    then show ?thesis using pl by (auto simp: ex_embedded_def)
  qed
  then show ?thesis by (simp add: embeds_def ex_embedded_def)
qed

theorem builder_compiles_repository_source_witness:
  "\<exists>t'. gensync_main (\<lambda>p. p = ''/r/go.mod'') (\<lambda>p. Some [(''a.go'', False), (''a_test.go'', False)]) ''/r'' (ex_disk ex_repository) =
       Some (ex_synced, Inr ()) \<and>
     thunder_source ex_embedded (ex_disk Map.empty) = (t', Some ''/s'') \<and>
     td_files t' ''/s/internal/compileagent/a.go'' = Some ''a''"
proof -
  let ?stat = "\<lambda>p. p = ''/r/go.mod''" and ?dir = "\<lambda>p::string. Some [(''a.go'', False), (''a_test.go'', False)]"
  have ws: "list_all plain_name [''r'']" "abs_path [''r''] = ''/r''" by (simp_all add: plain_name_def abs_path_def)
  have root: "repoRoot ?stat (abs_path [''r'']) = Some (Some ''/r'')" by (subst repoRoot.simps) (simp add: ws ex_joins)
  have es: "\<forall>(n, isDir) \<in> set [(''a.go'', False), (''a_test.go'', False)]. plain_name n" "distinct (map fst [(''a.go'', False), (''a_test.go'', False)])"
    by (simp_all add: plain_name_def)
  have sync: "gensync_main ?stat ?dir (abs_path [''r'']) (ex_disk ex_repository) = Some (ex_synced, Inr ())"
    by (simp add: gensync_main_def root ex_joins gensync_copyFile_def disk_write_def ex_disk_def ex_repository_def ex_synced_def)
  have joins: "go_path_join [''/s'', p] = ''/s/'' @ p" if "plain_path p" for p using go_path_join_rel [OF that] by (simp add: ex_joins)
  have pl: "plain_path ''cmd/thunder/main.go''" "plain_path ''go.mod.embed''" "plain_path ''go.mod''" "plain_path ''internal/compileagent/a.go''"
    by (simp_all add: plain_path_def plain_name_def)
  obtain t' where t': "thunder_source ex_embedded (ex_disk Map.empty) = (t', Some ''/s'')"
    by (simp add: thunder_source_def ex_disk_def ex_embedded_def disk_write_def disk_rename_def joins pl Let_def)
  have "''internal/compileagent/a.go'' \<in> set (synced_files [(''a.go'', False), (''a_test.go'', False)])"
    by (simp add: synced_files_def synced_def isTestFile_def go_has_suffix_def)
  moreover have "go_path_join [''/r'', ''internal/compileagent/a.go''] = ''/r/internal/compileagent/a.go''"
    using go_path_join_rel [OF pl(4), of "''/r''"] by (simp add: ex_joins)
  ultimately have "\<exists>x. td_files (ex_disk ex_repository) ''/r/internal/compileagent/a.go'' = Some x \<and> td_files t' ''/s/internal/compileagent/a.go'' = Some x"
    using builder_compiles_repository_source [OF ws(1) root refl es sync ex_embeds t'] joins [OF pl(4)] by force
  with sync t' ws(2) show ?thesis by (simp add: ex_disk_def ex_repository_def)
qed


end
