(* ===== verification/Go_Argv.thy ===== *)
theory Go_Argv
  imports Main "HOL-Library.Sublist"
begin

text \<open>Finding an option and its value inside an argument vector that is built by concatenation.\<close>

lemma sublist_here: "sublist xs (xs @ ys)"
  by simp

lemma sublist_skip: "sublist xs ys \<Longrightarrow> sublist xs (zs @ ys)"
  by (metis sublist_def append.assoc)

lemma sublist_before: "sublist xs ys \<Longrightarrow> sublist xs (ys @ zs)"
  by (metis sublist_def append.assoc)

end
