(* ===== verification/Docker.thy ===== *)
theory Docker
  imports Go_Path Go_Calls Go_Strconv Go_Argv "HOL-Library.Multiset" "HOL-Library.List_Lexorder" "HOL-Library.Char_ord"
begin

text \<open>
  Driving the docker command line (internal/dockerrun/dockerrun.go) and resolving a kernel version against the
  kernel.org index (internal/kernelinfo/kernelinfo.go).

  A docker call is its argument vector; which calls succeed, what they print and whether the run was canceled are
  parameters. The index is what the network and encoding/json make of it.
\<close>

section \<open>Docker\<close>

record mount =
  mt_HostPath :: string
  mt_ContainerPath :: string
  mt_ReadOnly :: bool
  mt_IsVolume :: bool

text \<open>A Go map is the list of its entries, in an arbitrary order, with distinct keys.\<close>

record RunOptions =
  do_Image :: string
  do_Args :: "string list"
  do_Env :: "(string \<times> string) list"
  do_Mounts :: "mount list"
  do_Workdir :: string
  do_Platform :: string
  do_Name :: string
  do_Memory :: string
  do_CPUs :: string
  do_Entrypoint :: string

datatype docker_error =
    DockerMissing
  | DaemonUnreachable string
  | NotLinuxContainers string
  | NoDockerPath string
  | BuildFailed
  | BuildCanceled
  | RunFailed
  | RunCanceled
  | ChownFailed string
  | InspectFailed string string

text \<open>The docker client: what each argument vector answers, and when the context is canceled during it.\<close>

record docker_host =
  dk_present :: bool
  dk_call :: "string list \<Rightarrow> bool \<times> string"
  dk_canceled :: "string list \<Rightarrow> bool"
  dk_abs :: "string \<Rightarrow> string option"
  dk_os :: string
  dk_uid :: int
  dk_gid :: int

type_synonym 'a docker_act = "string list list \<times> (docker_error + 'a)"

definition docker_firstLine :: "string \<Rightarrow> string" where
  "docker_firstLine s = takeWhile (\<lambda>c. c \<noteq> CHR 0x0A \<and> c \<noteq> CHR 0x0D) s"

definition CheckAvailable :: "docker_host \<Rightarrow> unit docker_act" where
  "CheckAvailable dk =
     (let q = [''info'', ''--format'', ''{{.OSType}}'']; (ok, out) = dk_call dk q; osType = docker_firstLine out in
      if \<not> dk_present dk then ([], Inl DockerMissing)
      else ([q], if \<not> ok then Inl (DaemonUnreachable osType)
                 else if osType \<noteq> ''linux'' then Inl (NotLinuxContainers osType)
                 else Inr ()))"

definition docker_platform :: "string \<Rightarrow> string" where
  "docker_platform arch = ''linux/'' @ arch"

definition BuildImage :: "docker_host \<Rightarrow> string \<Rightarrow> string \<Rightarrow> string \<Rightarrow> unit docker_act" where
  "BuildImage dk contextDir tag platform =
     (case dk_abs dk contextDir of
        None \<Rightarrow> ([], Inl (NoDockerPath contextDir))
      | Some absDir \<Rightarrow>
          (let q = [''build''] @ (if platform \<noteq> [] then [''--platform'', platform] else []) @ [''-t'', tag, absDir] in
           ([q], if dk_canceled dk q then Inl BuildCanceled else if fst (dk_call dk q) then Inr () else Inl BuildFailed)))"

definition ImageDigest :: "docker_host \<Rightarrow> string \<Rightarrow> string docker_act" where
  "ImageDigest dk tag =
     (let q = [''inspect'', ''--format'', ''{{.Id}}'', tag]; (ok, out) = dk_call dk q in
      ([q], if ok then Inr (docker_firstLine out) else Inl (InspectFailed tag (docker_firstLine out))))"

definition container_caps :: "string list" where
  "container_caps = [''CHOWN'', ''DAC_OVERRIDE'', ''FOWNER'', ''FSETID'', ''SETGID'', ''SETUID'']"

definition docker_opt :: "string \<Rightarrow> string \<Rightarrow> string list" where
  "docker_opt flag v = (if v \<noteq> [] then [flag, v] else [])"

fun mount_args :: "docker_host \<Rightarrow> mount list \<Rightarrow> docker_error + string list" where
  "mount_args dk [] = Inr []"
| "mount_args dk (m # ms) =
     bindE (if mt_IsVolume m then Inr (mt_HostPath m)
            else case dk_abs dk (mt_HostPath m) of None \<Rightarrow> Inl (NoDockerPath (mt_HostPath m)) | Some a \<Rightarrow> Inr a) (\<lambda>hostSide.
     bindE (mount_args dk ms) (\<lambda>rest.
     Inr ([''-v'', hostSide @ '':'' @ mt_ContainerPath m @ (if mt_ReadOnly m then '':ro'' else [])] @ rest)))"

definition env_args :: "(string \<times> string) list \<Rightarrow> string list" where
  "env_args env = concat (map (\<lambda>k. [''-e'', k @ ''='' @ the (map_of env k)]) (sort (map fst env)))"

definition run_platform :: "RunOptions \<Rightarrow> string" where
  "run_platform o' = (if do_Platform o' = [] then docker_platform ''amd64'' else do_Platform o')"

definition dropPrivileges :: "docker_host \<Rightarrow> bool" where
  "dropPrivileges dk \<longleftrightarrow> dk_os dk = ''linux'' \<and> 0 < dk_uid dk"

definition run_options :: "docker_host \<Rightarrow> RunOptions \<Rightarrow> string list" where
  "run_options dk o' =
     [''run'', ''--rm'', ''--platform'', run_platform o'] @ docker_opt ''--name'' (do_Name o') @ docker_opt ''--entrypoint'' (do_Entrypoint o') @
     [''--security-opt=no-new-privileges'', ''--cap-drop=ALL'', ''--pids-limit=4096''] @
     map (\<lambda>c. ''--cap-add='' @ c) container_caps @
     (if dropPrivileges dk then [''--user'', int_dec (dk_uid dk) @ '':'' @ int_dec (dk_gid dk)] else []) @
     docker_opt ''--memory'' (do_Memory o') @ docker_opt ''--cpus'' (do_CPUs o')"

definition run_args :: "docker_host \<Rightarrow> RunOptions \<Rightarrow> docker_error + string list" where
  "run_args dk o' =
     bindE (mount_args dk (do_Mounts o')) (\<lambda>mounts.
     Inr (run_options dk o' @ mounts @ env_args (do_Env o') @ docker_opt ''-w'' (do_Workdir o') @ [do_Image o'] @ do_Args o'))"

definition chown_script :: "string \<Rightarrow> int \<Rightarrow> int \<Rightarrow> string" where
  "chown_script containerPath uid gid =
     ''u=$(stat -c %u '' @ containerPath @ '' 2>/dev/null); [ '' @ [CHR 0x22] @ ''$u'' @ [CHR 0x22] @ '' = '' @ [CHR 0x22] @ int_dec uid @
     [CHR 0x22] @ '' ] || chown -R '' @ int_dec uid @ '':'' @ int_dec gid @ '' '' @ containerPath"

definition ensureVolumeOwnedByInvokingUser :: "docker_host \<Rightarrow> string \<Rightarrow> string \<Rightarrow> mount \<Rightarrow> unit docker_act" where
  "ensureVolumeOwnedByInvokingUser dk im platform m =
     (let q = [''run'', ''--rm'', ''--platform'', platform, ''-v'', mt_HostPath m @ '':'' @ mt_ContainerPath m, ''--entrypoint'', ''sh'', im,
               ''-c'', chown_script (mt_ContainerPath m) (dk_uid dk) (dk_gid dk)] in
      ([q], if fst (dk_call dk q) then Inr () else Inl (ChownFailed (mt_HostPath m))))"

fun own_volumes :: "docker_host \<Rightarrow> string \<Rightarrow> string \<Rightarrow> mount list \<Rightarrow> unit docker_act" where
  "own_volumes dk im platform [] = ([], Inr ())"
| "own_volumes dk im platform (m # ms) =
     then_calls (ensureVolumeOwnedByInvokingUser dk im platform m) (own_volumes dk im platform ms)"

text \<open>A canceled run removes its container by name, then ends as canceled.\<close>

definition start_container :: "docker_host \<Rightarrow> string \<Rightarrow> string list \<Rightarrow> unit docker_act" where
  "start_container dk name q =
     (if dk_canceled dk q then (q # (if name \<noteq> [] then [[''rm'', ''-f'', name]] else []), Inl RunCanceled)
      else ([q], if fst (dk_call dk q) then Inr () else Inl RunFailed))"

definition docker_Run :: "docker_host \<Rightarrow> RunOptions \<Rightarrow> unit docker_act" where
  "docker_Run dk o' =
     then_calls
       (if dropPrivileges dk then own_volumes dk (do_Image o') (run_platform o') (filter mt_IsVolume (do_Mounts o')) else ([], Inr ()))
       (case run_args dk o' of Inl e \<Rightarrow> ([], Inl e) | Inr q \<Rightarrow> start_container dk (do_Name o') q)"

section \<open>The kernel index\<close>

record Release =
  rel_Moniker :: string
  rel_Version :: string
  rel_IsEOL :: bool
  rel_Timestamp :: int
  rel_Source :: string
  rel_PGP :: string

record Resolved =
  rv_Version :: string
  rv_Source :: string
  rv_PGP :: string
  rv_Moniker :: string
  rv_Fallback :: bool

datatype kernelinfo_error =
    IndexUnreachable
  | IndexStatus int
  | IndexUnreadable
  | IndexMalformed
  | NoStable
  | NoLongterm
  | NoMajorSeries string

record index_world =
  iw_env :: string
  iw_get :: "string \<Rightarrow> (int \<times> string option) option"
  iw_parse :: "string \<Rightarrow> Release list option"

definition indexURL :: "index_world \<Rightarrow> string" where
  "indexURL iw = (if iw_env iw \<noteq> [] then iw_env iw else ''https://www.kernel.org/releases.json'')"

definition fetchIndex :: "index_world \<Rightarrow> kernelinfo_error + Release list" where
  "fetchIndex iw =
     (case iw_get iw (indexURL iw) of
        None \<Rightarrow> Inl IndexUnreachable
      | Some (status, body) \<Rightarrow>
          if status \<noteq> 200 then Inl (IndexStatus status)
          else (case body of
                  None \<Rightarrow> Inl IndexUnreadable
                | Some b \<Rightarrow> (case iw_parse iw b of None \<Rightarrow> Inl IndexMalformed | Some rs \<Rightarrow> Inr rs)))"

definition resolved_of :: "Release \<Rightarrow> Resolved" where
  "resolved_of r = \<lparr> rv_Version = rel_Version r, rv_Source = rel_Source r, rv_PGP = rel_PGP r, rv_Moniker = rel_Moniker r, rv_Fallback = False \<rparr>"

definition majorSeries :: "string \<Rightarrow> kernelinfo_error + string" where
  "majorSeries version = (if CHR ''.'' \<in> set version then Inr (takeWhile (\<lambda>c. c \<noteq> CHR ''.'') version) else Inl (NoMajorSeries version))"

definition fallbackRelease :: "string \<Rightarrow> kernelinfo_error + Resolved" where
  "fallbackRelease version =
     bindE (majorSeries version) (\<lambda>major.
     let url = ''https://cdn.kernel.org/pub/linux/kernel/v'' @ major @ ''.x/linux-'' @ version @ ''.tar.xz'' in
     Inr \<lparr> rv_Version = version, rv_Source = url, rv_PGP = take (length url - length ''.tar.xz'') url @ ''.tar.sign'',
           rv_Moniker = ''explicit'', rv_Fallback = True \<rparr>)"

text \<open>
  Sorting by decreasing time stamp; Go's sort leaves the order of equal time stamps open, here it is that of
  the index.
\<close>

definition newest_first :: "Release list \<Rightarrow> Release list" where
  "newest_first rs = sort_key (\<lambda>r. - rel_Timestamp r) rs"

definition resolveKernel :: "index_world \<Rightarrow> string \<Rightarrow> kernelinfo_error + Resolved" where
  "resolveKernel iw versionSpec =
     bindE (fetchIndex iw) (\<lambda>rs.
       if versionSpec = ''latest-stable'' then
         (case find (\<lambda>r. rel_Moniker r = ''stable'') rs of None \<Rightarrow> Inl NoStable | Some r \<Rightarrow> Inr (resolved_of r))
       else if versionSpec = ''latest-longterm'' then
         (case newest_first (filter (\<lambda>r. rel_Moniker r = ''longterm'' \<and> \<not> rel_IsEOL r) rs) of
            [] \<Rightarrow> Inl NoLongterm
          | r # _ \<Rightarrow> Inr (resolved_of r))
       else
         (case find (\<lambda>r. rel_Version r = versionSpec) rs of
            Some r \<Rightarrow> Inr (resolved_of r)
          | None \<Rightarrow> fallbackRelease versionSpec))"

section \<open>What is run\<close>

lemma own_volumes_Inr:
  "snd (own_volumes dk im platform ms) = Inr () \<Longrightarrow>
   fst (own_volumes dk im platform ms) = concat (map (\<lambda>m. fst (ensureVolumeOwnedByInvokingUser dk im platform m)) ms) \<and>
   (\<forall>m \<in> set ms. snd (ensureVolumeOwnedByInvokingUser dk im platform m) = Inr ())"
  by (induction ms) (auto simp: snd_then_calls fst_then_calls)

lemma own_volumes_error: "snd (own_volumes dk im platform ms) = Inl e \<Longrightarrow> \<exists>v. e = ChownFailed v"
  by (induction ms) (auto simp: then_calls_def ensureVolumeOwnedByInvokingUser_def Let_def split: sum.splits if_splits)

lemma run_args_error: "run_args dk o' = Inl e \<Longrightarrow> \<exists>p. e = NoDockerPath p"
proof -
  have "mount_args dk ms = Inl e \<Longrightarrow> \<exists>p. e = NoDockerPath p" for ms
    by (induction ms) (auto simp: bindE_Inl_iff split: if_splits option.splits)
  then show "run_args dk o' = Inl e \<Longrightarrow> \<exists>p. e = NoDockerPath p" by (auto simp: run_args_def bindE_Inl_iff)
qed

lemma env_args_order:
  assumes "mset env = mset env'" and "distinct (map fst env)"
  shows "env_args env = env_args env'"
proof -
  have k: "mset (map fst env) = mset (map fst env')" using assms(1) by (metis mset_map)
  then have "distinct (map fst env')" using assms(2) by (metis mset_eq_imp_distinct_iff)
  then have "map_of env = map_of env'" using assms by (metis map_of_inject_set mset_eq_setD)
  moreover have "sort (map fst env) = sort (map fst env')"
    using k properties_for_sort [of "sort (map fst env)" "map fst env'"] by simp
  ultimately show ?thesis by (simp add: env_args_def)
qed


definition ex_docker :: docker_host where
  "ex_docker =
     \<lparr> dk_present = True, dk_call = (\<lambda>q. (True, [])), dk_canceled = (\<lambda>q. last q = ''builder''),
       dk_abs = Some, dk_os = ''linux'', dk_uid = 1000, dk_gid = 1000 \<rparr>"

definition ex_run_options :: RunOptions where
  "ex_run_options =
     \<lparr> do_Image = ''builder'', do_Args = [], do_Env = [(''A'', ''1''), (''B'', ''2'')],
       do_Mounts = [\<lparr> mt_HostPath = ''cache'', mt_ContainerPath = ''/cache'', mt_ReadOnly = False, mt_IsVolume = True \<rparr>],
       do_Workdir = [], do_Platform = [], do_Name = ''job'', do_Memory = [], do_CPUs = [], do_Entrypoint = [] \<rparr>"


section \<open>Which kernel\<close>

lemma newest_first_head:
  assumes "newest_first rs = r # ws"
  shows "r \<in> set rs \<and> (\<forall>r' \<in> set rs. rel_Timestamp r' \<le> rel_Timestamp r)"
proof -
  have s: "set (newest_first rs) = set rs" and o: "sorted (map (\<lambda>r. - rel_Timestamp r) (newest_first rs))"
    by (simp_all add: newest_first_def)
  have "r \<in> set rs" using s assms by auto
  moreover have "\<forall>r' \<in> set (newest_first rs). rel_Timestamp r' \<le> rel_Timestamp r" using o by (auto simp: assms)
  ultimately show ?thesis using s by simp
qed

text \<open>
  The kernel that is resolved: the newest maintained longterm release; the first stable
  one; or the very version that was named, from its entry in the index, or, when it has none, from the address kernel.org's
  layout gives, with the signature's address beside the tarball's.
\<close>

theorem kernel_resolution:
  assumes "resolveKernel iw spec = Inr rv"
  shows "\<exists>rs. fetchIndex iw = Inr rs \<and>
    (if spec = ''latest-longterm'' then
       (\<exists>r \<in> set rs. rv = resolved_of r \<and> rel_Moniker r = ''longterm'' \<and> \<not> rel_IsEOL r \<and>
          (\<forall>r' \<in> set rs. rel_Moniker r' = ''longterm'' \<and> \<not> rel_IsEOL r' \<longrightarrow> rel_Timestamp r' \<le> rel_Timestamp r))
     else if spec = ''latest-stable'' then (\<exists>r \<in> set rs. rv = resolved_of r \<and> rel_Moniker r = ''stable'')
     else rv_Version rv = spec \<and>
       (if \<exists>r \<in> set rs. rel_Version r = spec then (\<exists>r \<in> set rs. rv = resolved_of r)
        else rv_Fallback rv \<and> (\<exists>major rest. spec = major @ ''.'' @ rest \<and> CHR ''.'' \<notin> set major \<and>
          (let base = ''https://cdn.kernel.org/pub/linux/kernel/v'' @ major @ ''.x/linux-'' @ spec in
           rv_Source rv = base @ ''.tar.xz'' \<and> rv_PGP rv = base @ ''.tar.sign''))))"
proof -
  obtain rs where rs: "fetchIndex iw = Inr rs" using assms by (auto simp: resolveKernel_def bindE_Inr_iff)
  note r = assms [unfolded resolveKernel_def rs bindE_simps]
  consider (lt) "spec = ''latest-longterm''" | (st) "spec = ''latest-stable''" | (v) "spec \<noteq> ''latest-longterm''" "spec \<noteq> ''latest-stable''" by blast
  then show ?thesis
  proof cases
    case lt
    then obtain x ws where x: "newest_first (filter (\<lambda>r. rel_Moniker r = ''longterm'' \<and> \<not> rel_IsEOL r) rs) = x # ws" "rv = resolved_of x"
      using r by (auto split: list.splits)
    with newest_first_head [OF x(1)] lt rs show ?thesis by auto
  next
    case st
    then obtain x where "find (\<lambda>r. rel_Moniker r = ''stable'') rs = Some x" "rv = resolved_of x"
      using r by (auto split: option.splits)
    with st rs show ?thesis by (auto simp: find_Some_iff)
  next
    case v
    show ?thesis
    proof (cases "find (\<lambda>r. rel_Version r = spec) rs")
      case (Some x)
      with r v have "rv = resolved_of x" by simp
      with Some v rs show ?thesis by (auto simp: find_Some_iff resolved_of_def)
    next
      case None
      then have none: "\<not> (\<exists>r \<in> set rs. rel_Version r = spec)" by (auto simp: find_None_iff)
      have f: "fallbackRelease spec = Inr rv" using r v None by simp
      then have dot: "CHR ''.'' \<in> set spec" by (auto simp: fallbackRelease_def majorSeries_def split: if_splits)
      let ?major = "takeWhile (\<lambda>c. c \<noteq> CHR ''.'') spec"
      obtain ys rest where y: "spec = ys @ CHR ''.'' # rest" "CHR ''.'' \<notin> set ys" using split_list_first [OF dot] by blast
      then have "?major = ys" by (simp add: takeWhile_append)
      then have rest: "spec = ?major @ ''.'' @ rest" using y by simp
      let ?base = "''https://cdn.kernel.org/pub/linux/kernel/v'' @ ?major @ ''.x/linux-'' @ spec"
      have rv: "rv_Version rv = spec \<and> rv_Fallback rv \<and> rv_Source rv = ?base @ ''.tar.xz'' \<and>
          rv_PGP rv = take (length (?base @ ''.tar.xz'') - length ''.tar.xz'') (?base @ ''.tar.xz'') @ ''.tar.sign''"
        using f dot by (auto simp: fallbackRelease_def majorSeries_def Let_def)
      have "length (?base @ ''.tar.xz'') - length ''.tar.xz'' = length ?base" by simp
      then have "rv_PGP rv = ?base @ ''.tar.sign''" using rv by (simp only: take_append) simp
      moreover have "CHR ''.'' \<notin> set ?major" by (auto dest: set_takeWhileD)
      ultimately show ?thesis using rs v none rv rest unfolding Let_def by auto
    qed
  qed
qed

definition ex_releases :: "Release list" where
  "ex_releases =
     [\<lparr> rel_Moniker = ''longterm'', rel_Version = ''6.6.1'', rel_IsEOL = False, rel_Timestamp = 5, rel_Source = ''a'', rel_PGP = ''b'' \<rparr>,
      \<lparr> rel_Moniker = ''longterm'', rel_Version = ''6.12.1'', rel_IsEOL = False, rel_Timestamp = 9, rel_Source = ''c'', rel_PGP = ''d'' \<rparr>]"

definition ex_index :: index_world where
  "ex_index = \<lparr> iw_env = [], iw_get = (\<lambda>u. Some (200, Some ''json'')), iw_parse = (\<lambda>b. Some ex_releases) \<rparr>"

theorem kernel_resolution_witness:
  "\<exists>rv. resolveKernel ex_index ''5.4.1'' = Inr rv \<and> rv_Fallback rv \<and> rv_PGP rv = ''https://cdn.kernel.org/pub/linux/kernel/v5.x/linux-5.4.1.tar.sign''"
proof -
  have i: "fetchIndex ex_index = Inr ex_releases" by (simp add: fetchIndex_def ex_index_def)
  have f: "find (\<lambda>r. rel_Version r = ''5.4.1'') ex_releases = None" by (simp add: ex_releases_def)
  obtain rv where r: "resolveKernel ex_index ''5.4.1'' = Inr rv"
    by (simp add: resolveKernel_def i f fallbackRelease_def majorSeries_def Let_def)
  have n: "\<not> (\<exists>r \<in> set ex_releases. rel_Version r = ''5.4.1'')" by (simp add: ex_releases_def)
  obtain major rest where m: "''5.4.1'' = major @ ''.'' @ rest" "CHR ''.'' \<notin> set major" "rv_Fallback rv"
    "rv_PGP rv = (''https://cdn.kernel.org/pub/linux/kernel/v'' @ major @ ''.x/linux-'' @ ''5.4.1'') @ ''.tar.sign''"
    using kernel_resolution [OF r] n i unfolding Let_def by auto
  have "major = takeWhile (\<lambda>c. c \<noteq> CHR ''.'') ''5.4.1''" unfolding m(1) using m(2) by (induction major) auto
  then have "major = ''5''" by simp
  with r m show ?thesis by auto
qed

end
