(* ===== verification/Prepare.thy ===== *)
theory Prepare
  imports Thunder Build_Context Docker Publish Build Nimbus_Parse
begin

text \<open>
  The prepare command (\<^verbatim>\<open>runPrepare\<close> and \<^verbatim>\<open>buildThunder\<close> of cmd/cnimbus/prepare.go): which
  settings the command line and the manifest give, the environment the builder's container gets, the two
  container runs, and the publishing of what they made.

  Docker, the kernel index and what the containers leave on disk are parameters. The calls of docker are
  returned in order beside the result.
\<close>

section \<open>Settings\<close>

text \<open>A flag that was not passed is None.\<close>

record prepare_flags =
  pf_nimbusfile :: string
  pf_kernel :: "string option"
  pf_busybox :: "string option"
  pf_arch :: "string option"
  pf_out :: string
  pf_vga :: "bool option"
  pf_hardboot :: "string option"
  pf_skipVerify :: bool
  pf_signKey :: string
  pf_jobs :: int
  pf_buildArgs :: arg_values

record prepare_settings =
  ps_Kernel :: string
  ps_Busybox :: string
  ps_Arch :: string
  ps_VGA :: bool
  ps_Hardboot :: string
  ps_AgentVMware :: bool

datatype prepare_error =
    BadManifest nimbus_error
  | BadHardboot string
  | BadPrepareArch string
  | Docker docker_error
  | KernelInfo kernelinfo_error
  | ThunderSource string
  | BuildContext
  | NoOutDir string
  | HashesFailed fetch_error
  | HashesNotWritten
  | SigningFailed "fetch_error + key_error"
  | SignatureNotWritten

definition flag_or :: "'a option \<Rightarrow> Nimbusfile option \<Rightarrow> (Nimbusfile \<Rightarrow> 'a) \<Rightarrow> 'a \<Rightarrow> 'a" where
  "flag_or fl hf field unset =
     (case fl of Some v \<Rightarrow> v | None \<Rightarrow> (case hf of None \<Rightarrow> unset | Some h \<Rightarrow> field h))"

text \<open>The manifest is optional; one that exists must parse.\<close>

definition prepare_manifest :: "prepare_flags \<Rightarrow> host_world \<Rightarrow> prepare_error + Nimbusfile option" where
  "prepare_manifest fl w =
     (case w_read w (pf_nimbusfile fl) of
        FileMissing \<Rightarrow> Inr None
      | FileError \<Rightarrow> bindE (wrapE BadManifest (Parse (pf_nimbusfile fl) None (pf_buildArgs fl))) (\<lambda>hf. Inr (Some hf))
      | FileData d \<Rightarrow> bindE (wrapE BadManifest (Parse (pf_nimbusfile fl) (Some d) (pf_buildArgs fl))) (\<lambda>hf. Inr (Some hf)))"

definition agent_vmware :: "Nimbusfile option \<Rightarrow> bool" where
  "agent_vmware hf = (case hf of None \<Rightarrow> False | Some h \<Rightarrow> (case nf_Agent h of None \<Rightarrow> False | Some a \<Rightarrow> ag_Kind a = ''vmware''))"

definition resolve_settings :: "prepare_flags \<Rightarrow> Nimbusfile option \<Rightarrow> prepare_error + prepare_settings" where
  "resolve_settings fl hf =
     (let kernel = flag_or (pf_kernel fl) hf nf_KernelVersion [];
          busybox = flag_or (pf_busybox fl) hf nf_BusyboxVersion [];
          arch0 = flag_or (pf_arch fl) hf nf_Arch [];
          hardboot0 = flag_or (pf_hardboot fl) hf nf_BootProfile [];
          hardboot = (if hardboot0 = [] then ''none'' else hardboot0);
          arch = (if arch0 = [] then ''amd64'' else arch0) in
      if hardboot \<notin> set [''none'', ''eth'', ''wifi'', ''eth+wifi''] then Inl (BadHardboot hardboot)
      else if arch \<noteq> ''amd64'' \<and> arch \<noteq> ''arm64'' then Inl (BadPrepareArch arch)
      else Inr \<lparr> ps_Kernel = (if kernel = [] then ''latest-stable'' else kernel),
                 ps_Busybox = (if busybox = ''latest'' then [] else busybox),
                 ps_Arch = arch, ps_VGA = flag_or (pf_vga fl) hf nf_VGA False, ps_Hardboot = hardboot,
                 ps_AgentVMware = agent_vmware hf \<rparr>)"

section \<open>The container's environment\<close>

definition prepare_env :: "prepare_settings \<Rightarrow> Resolved \<Rightarrow> string \<Rightarrow> int \<Rightarrow> bool \<Rightarrow> (string \<times> string) list" where
  "prepare_env st rv digest jobs skip =
     [(''CNIMBUS_KERNEL_VERSION'', rv_Version rv), (''CNIMBUS_KERNEL_SOURCE_URL'', rv_Source rv),
      (''CNIMBUS_KERNEL_PGP_URL'', rv_PGP rv), (''CNIMBUS_KERNEL_ARCH'', ps_Arch st)] @
     (if digest \<noteq> [] then [(''CNIMBUS_BUILDER_IMAGE_DIGEST'', digest)] else []) @
     (if ps_Busybox st \<noteq> [] then [(''CNIMBUS_BUSYBOX_VERSION'', ps_Busybox st)] else []) @
     (if ps_VGA st then [(''CNIMBUS_VGA'', ''true'')] else []) @
     (if ps_Hardboot st \<noteq> ''none'' then [(''CNIMBUS_HARDBOOT'', ps_Hardboot st)] else []) @
     (if ps_AgentVMware st then [(''CNIMBUS_AGENT_VMWARE'', ''true'')] else []) @
     (if 0 < jobs then [(''CNIMBUS_JOBS'', int_dec jobs)] else []) @
     (if skip then [(''CNIMBUS_INSECURE_SKIP_KERNEL_VERIFY'', ''true'')] else [])"

section \<open>The command\<close>

text \<open>
  The world: docker, the index, the process identity, the embedded data and the disk with the temporary directories,
  the order of a map's iteration, what the Go compiler makes of a source tree, and the files
  after the builder's container has run, with what a walk of its firmware directory finds.
\<close>

record prepare_world =
  pw_files :: host_world
  pw_docker :: docker_host
  pw_index :: index_world
  pw_pid :: int
  pw_embedded :: embedded
  pw_order :: "(string \<times> string) list \<Rightarrow> (string \<times> string) list"
  pw_disk :: tmp_disk
  pw_compiled :: "(string \<Rightarrow> string option) \<Rightarrow> string \<Rightarrow> string option"
  pw_mkdir :: bool
  pw_built :: host_world
  pw_walked :: "string list option"
  pw_hashFault :: write_fault
  pw_sigFault :: write_fault

type_synonym 'a prepare_act = "string list list \<times> (prepare_error + 'a)"

definition then_prepare :: "'a prepare_act \<Rightarrow> ('a \<Rightarrow> 'b prepare_act) \<Rightarrow> 'b prepare_act" where
  "then_prepare a f = (case snd a of Inl e \<Rightarrow> (fst a, Inl e) | Inr x \<Rightarrow> (fst a @ fst (f x), snd (f x)))"

definition docker_step :: "'a docker_act \<Rightarrow> 'a prepare_act" where
  "docker_step a = (fst a, wrapE Docker (snd a))"

definition no_docker :: "prepare_error + 'a \<Rightarrow> 'a prepare_act" where
  "no_docker r = ([], r)"

definition builderImageTag :: string where "builderImageTag = ''cnimbus-builder''"

definition goBuilderImage :: string where
  "goBuilderImage = ''golang:1.26.5@sha256:3aff6657219a4d9c14e27fb1d8976c49c29fddb70ba835014f477e1c70636647''"

definition thunder_run :: "prepare_world \<Rightarrow> string \<Rightarrow> string \<Rightarrow> RunOptions" where
  "thunder_run pw arch srcDir =
     \<lparr> do_Image = goBuilderImage,
       do_Args = [''go'', ''build'', ''-trimpath'', ''-ldflags=-s -w'', ''-o'', ''/src/thunder'', ''./cmd/thunder''],
       do_Env = [(''CGO_ENABLED'', ''0''), (''GOOS'', ''linux''), (''GOARCH'', arch), (''GOCACHE'', ''/tmp/gocache'')],
       do_Mounts = [\<lparr> mt_HostPath = srcDir, mt_ContainerPath = ''/src'', mt_ReadOnly = False, mt_IsVolume = False \<rparr>],
       do_Workdir = ''/src'', do_Platform = docker_platform arch,
       do_Name = ''cnimbus-prepare-thunder-'' @ arch @ ''-'' @ int_dec (pw_pid pw), do_Memory = [], do_CPUs = [], do_Entrypoint = [] \<rparr>"

text \<open>
  \<^verbatim>\<open>pw_compiled\<close>: the file thunder the Go compiler leaves for the files it is given in the directory. The directory is
  removed when \<^verbatim>\<open>buildThunder\<close> returns.
\<close>

definition buildThunder :: "prepare_world \<Rightarrow> string \<Rightarrow> (string \<times> tmp_disk) prepare_act" where
  "buildThunder pw arch =
     (case thunder_source (pw_embedded pw) (pw_disk pw) of
        (d, None) \<Rightarrow> no_docker (Inl (ThunderSource ''source''))
      | (d, Some srcDir) \<Rightarrow>
          then_prepare (docker_step (docker_Run (pw_docker pw) (thunder_run pw arch srcDir))) (\<lambda>_.
          no_docker (case pw_compiled pw (td_files d) srcDir of
            None \<Rightarrow> Inl (ThunderSource ''thunder'')
          | Some b \<Rightarrow> Inr (b, disk_removeAll d srcDir))))"

definition builder_run :: "prepare_world \<Rightarrow> string \<Rightarrow> string \<Rightarrow> string \<Rightarrow> (string \<times> string) list \<Rightarrow> RunOptions" where
  "builder_run pw arch imageTag absOut env =
     \<lparr> do_Image = imageTag, do_Args = [], do_Env = env,
       do_Mounts = [\<lparr> mt_HostPath = ''cnimbus-cache-'' @ arch, mt_ContainerPath = ''/cache'', mt_ReadOnly = False, mt_IsVolume = True \<rparr>,
         \<lparr> mt_HostPath = absOut, mt_ContainerPath = ''/out'', mt_ReadOnly = False, mt_IsVolume = False \<rparr>],
       do_Workdir = [], do_Platform = docker_platform arch,
       do_Name = ''cnimbus-prepare-'' @ arch @ ''-'' @ int_dec (pw_pid pw), do_Memory = [], do_CPUs = [], do_Entrypoint = [] \<rparr>"

text \<open>A digest that cannot be read is left out; the lookup's failure is only a warning.\<close>

definition image_digest_or_empty :: "docker_host \<Rightarrow> string \<Rightarrow> string prepare_act" where
  "image_digest_or_empty dk tag = (fst (ImageDigest dk tag), Inr (case snd (ImageDigest dk tag) of Inl e \<Rightarrow> [] | Inr d \<Rightarrow> d))"

definition publish ::
  "(string \<Rightarrow> string) \<Rightarrow> (string \<Rightarrow> 'sk) \<Rightarrow> ('sk \<Rightarrow> string \<Rightarrow> string) \<Rightarrow> prepare_world \<Rightarrow> prepare_flags \<Rightarrow> string \<Rightarrow>
   prepare_error + host_world" where
  "publish sha256 newKey sign pw fl dir =
     bindE (wrapE HashesFailed (writePiecesHashes sha256 (pw_built pw) dir (pw_walked pw))) (\<lambda>hashes.
     let (w1, ok1) = writeFileAtomic (pw_hashFault pw) (go_path_join [dir, ''pieces.sha256'']) hashes (pw_built pw) in
     if \<not> ok1 then Inl HashesNotWritten
     else if pf_signKey fl = [] then Inr w1
     else bindE (wrapE SigningFailed (signPiecesHashes newKey sign w1 dir (pf_signKey fl))) (\<lambda>sig.
       let (w2, ok2) = writeFileAtomic (pw_sigFault pw) (go_path_join [dir, ''pieces.sha256.sig'']) sig w1 in
       if ok2 then Inr w2 else Inl SignatureNotWritten))"

definition runPrepare ::
  "(string \<Rightarrow> string) \<Rightarrow> (string \<Rightarrow> 'sk) \<Rightarrow> ('sk \<Rightarrow> string \<Rightarrow> string) \<Rightarrow> prepare_world \<Rightarrow> prepare_flags \<Rightarrow> host_world prepare_act" where
  "runPrepare sha256 newKey sign pw fl =
     then_prepare (no_docker (prepare_manifest fl (pw_files pw))) (\<lambda>hf.
     then_prepare (no_docker (resolve_settings fl hf)) (\<lambda>st.
     then_prepare (docker_step (CheckAvailable (pw_docker pw))) (\<lambda>_.
     then_prepare (no_docker (wrapE KernelInfo (resolveKernel (pw_index pw) (ps_Kernel st)))) (\<lambda>rv.
     then_prepare (buildThunder pw (ps_Arch st)) (\<lambda>(thunder, disk).
     let imageTag = builderImageTag @ ''-'' @ ps_Arch st @ '':latest'' in
     then_prepare (no_docker (case snd (materializeBuildContext (pw_order pw) (pw_embedded pw) thunder disk) of
         None \<Rightarrow> Inl BuildContext | Some d \<Rightarrow> Inr d)) (\<lambda>buildCtx.
     then_prepare (docker_step (BuildImage (pw_docker pw) buildCtx imageTag (docker_platform (ps_Arch st)))) (\<lambda>_.
     then_prepare (image_digest_or_empty (pw_docker pw) imageTag) (\<lambda>digest.
     then_prepare (no_docker (case dk_abs (pw_docker pw) (go_path_join [pf_out fl, ps_Arch st]) of
         None \<Rightarrow> Inl (NoOutDir (go_path_join [pf_out fl, ps_Arch st]))
       | Some a \<Rightarrow> if pw_mkdir pw then Inr a else Inl (NoOutDir a))) (\<lambda>absOut.
     then_prepare (docker_step (docker_Run (pw_docker pw) (builder_run pw (ps_Arch st) imageTag absOut
         (prepare_env st rv digest (pf_jobs fl) (pf_skipVerify fl))))) (\<lambda>_.
     no_docker (publish sha256 newKey sign pw fl absOut)))))))))))"

section \<open>What prepare and build-disk agree on\<close>

text \<open>The environment a container started with these variables has, when the image sets none of them.\<close>

definition container_var :: "(string \<times> string) list \<Rightarrow> string \<Rightarrow> string" where
  "container_var env k = (case map_of env k of None \<Rightarrow> [] | Some v \<Rightarrow> v)"

lemma container_vars:
  assumes "ps_Arch st \<noteq> []" and "ps_Hardboot st \<noteq> []"
  shows "container_var (prepare_env st rv digest jobs skip) ''CNIMBUS_KERNEL_VERSION'' = rv_Version rv"
    "container_var (prepare_env st rv digest jobs skip) ''CNIMBUS_KERNEL_SOURCE_URL'' = rv_Source rv"
    "container_var (prepare_env st rv digest jobs skip) ''CNIMBUS_KERNEL_PGP_URL'' = rv_PGP rv"
    "container_var (prepare_env st rv digest jobs skip) ''CNIMBUS_KERNEL_ARCH'' = ps_Arch st"
    "container_var (prepare_env st rv digest jobs skip) ''CNIMBUS_VGA'' = ''true'' \<longleftrightarrow> ps_VGA st"
    "container_var (prepare_env st rv digest jobs skip) ''CNIMBUS_HARDBOOT'' = (if ps_Hardboot st = ''none'' then [] else ps_Hardboot st)"
    "container_var (prepare_env st rv digest jobs skip) ''CNIMBUS_INSECURE_SKIP_KERNEL_VERIFY'' = ''true'' \<longleftrightarrow> skip"
  using assms by (simp_all add: container_var_def prepare_env_def)

lemma resolve_settings_Inr:
  assumes "resolve_settings fl hf = Inr st"
  shows "ps_Arch st \<in> {''amd64'', ''arm64''}" "ps_Hardboot st \<in> {''none'', ''eth'', ''wifi'', ''eth+wifi''}"
    "ps_VGA st = flag_or (pf_vga fl) hf nf_VGA False"
    "ps_Arch st = (let a = flag_or (pf_arch fl) hf nf_Arch [] in if a = [] then ''amd64'' else a)"
    "ps_Hardboot st = (let b = flag_or (pf_hardboot fl) hf nf_BootProfile [] in if b = [] then ''none'' else b)"
  using assms by (auto simp: resolve_settings_def Let_def split: if_splits)


definition ex_prepare :: prepare_flags where
  "ex_prepare =
     \<lparr> pf_nimbusfile = ''Nimbusfile'', pf_kernel = None, pf_busybox = None, pf_arch = None, pf_out = ''./pieces'', pf_vga = None,
       pf_hardboot = None, pf_skipVerify = False, pf_signKey = [], pf_jobs = 0, pf_buildArgs = Map.empty \<rparr>"

definition ex_prepare_manifest :: Nimbusfile where
  "ex_prepare_manifest = (default_nimbusfile ''.'') \<lparr> nf_KernelVersion := ''6.9.4'', nf_BusyboxVersion := ''1.37.0'' \<rparr>"

definition ex_resolved :: Resolved where
  "ex_resolved = \<lparr> rv_Version = ''6.9.4'', rv_Source = ''u'', rv_PGP = ''s'', rv_Moniker = ''stable'', rv_Fallback = False \<rparr>"


end
