(* ===== verification/Run.thy ===== *)
theory Run
  imports Vhd Go_Path Go_Calls Go_Argv
begin

text \<open>
  Booting an image on a local hypervisor (cmd/cnimbus/run.go, backend.go, findtool.go and run_vmware.go): the
  checks of \<^verbatim>\<open>run\<close>, the search for a hypervisor's tool and for firmware, QEMU's argument vector, the VirtualBox
  and VMware launches with what they leave behind. Hyper-V has a theory of its own.

  The host is a record of what it answers; a launch returns the operations it attempted, in order, beside
  its result. Progress messages are left out.
\<close>

section \<open>The host\<close>

datatype run_op =
    RExec string "string list"
  | RMkdirTemp string
  | RWriteFile string string
  | RWriteVMDK string string
  | RWriteVHD string string
  | RRemove string
  | RRemoveAll string

datatype run_error =
    BadArch string
  | BadHostfwd string
  | BadHostfwdPort string string
  | RunUsage
  | NoAbsPath string
  | NoImage string
  | BadBackend string
  | QemuMissing string string
  | VBoxMissing
  | VMrunMissing
  | OVMFArch string
  | OVMFMissing string
  | VMwareArch
  | HypervArch
  | OpFailed run_op
  | SetupTimedOut

record run_host =
  h_os :: string
  h_arch :: string
  h_env :: "string \<Rightarrow> string"
  h_lookPath :: "string \<Rightarrow> string option"
  h_stat :: "string \<Rightarrow> nat option"
  h_abs :: "string \<Rightarrow> string option"
  h_tmp :: string
  h_workDir :: string
  h_ok :: "run_op \<Rightarrow> bool"

type_synonym 'a act = "run_op list \<times> (run_error + 'a)"

definition attempt :: "run_host \<Rightarrow> run_op \<Rightarrow> unit act" where
  "attempt h p = ([p], if h_ok h p then Inr () else Inl (OpFailed p))"

definition then_act :: "'a act \<Rightarrow> ('a \<Rightarrow> 'b act) \<Rightarrow> 'b act" where
  "then_act a f = (case snd a of Inl e \<Rightarrow> (fst a, Inl e) | Inr x \<Rightarrow> (let b = f x in (fst a @ fst b, snd b)))"

fun attempt_all :: "run_host \<Rightarrow> run_op list \<Rightarrow> unit act" where
  "attempt_all h [] = ([], Inr ())"
| "attempt_all h (p # ps) = then_act (attempt h p) (\<lambda>_. attempt_all h ps)"

text \<open>\<^verbatim>\<open>filepath.Join\<close> on the host; on Windows, for parts below a drive.\<close>

definition host_join :: "run_host \<Rightarrow> string list \<Rightarrow> string" where
  "host_join h ps =
     (if h_os h = ''windows''
      then map (\<lambda>c. if c = CHR ''/'' then CHR 0x5C else c)
             (go_path_join (map (map (\<lambda>c. if c = CHR 0x5C then CHR ''/'' else c)) ps))
      else go_path_join ps)"

section \<open>Finding tools\<close>

definition BS :: string where "BS = [CHR 0x5C]"

fun first_of_each :: "string list \<Rightarrow> string list \<Rightarrow> string list" where
  "first_of_each seen [] = []"
| "first_of_each seen (b # bs) =
     (if b = [] \<or> b \<in> set seen then first_of_each seen bs else b # first_of_each (b # seen) bs)"

definition windowsInstallRoots :: "run_host \<Rightarrow> string list" where
  "windowsInstallRoots h =
     first_of_each []
       [h_env h ''ProgramFiles'', ''C:'' @ BS @ ''Program Files'',
        h_env h ''ProgramFiles(x86)'', ''C:'' @ BS @ ''Program Files (x86)'']"

definition probeWindowsInstallDirs :: "run_host \<Rightarrow> string list \<Rightarrow> (string \<times> string) option" where
  "probeWindowsInstallDirs h rels =
     map_option (\<lambda>(root, rel). (host_join h [root, rel], rel))
       (find (\<lambda>(root, rel). h_stat h (host_join h [root, rel]) \<noteq> None) (List.product (windowsInstallRoots h) rels))"

definition findTool :: "run_host \<Rightarrow> string \<Rightarrow> string list \<Rightarrow> string option" where
  "findTool h binName rels =
     (case h_lookPath h binName of
        Some p \<Rightarrow> Some p
      | None \<Rightarrow>
          (if h_os h = ''windows'' \<and> rels \<noteq> [] then map_option fst (probeWindowsInstallDirs h rels) else None))"

definition qemuBinName :: "string \<Rightarrow> string" where
  "qemuBinName arch = (if arch = ''arm64'' then ''qemu-system-aarch64'' else ''qemu-system-x86_64'')"

definition findQEMU :: "run_host \<Rightarrow> string \<Rightarrow> string option" where
  "findQEMU h binName = findTool h binName [host_join h [''qemu'', binName @ ''.exe'']]"

definition qemu_available :: "run_host \<Rightarrow> bool" where
  "qemu_available h \<longleftrightarrow> findQEMU h (qemuBinName ''amd64'') \<noteq> None \<or> findQEMU h (qemuBinName ''arm64'') \<noteq> None"

definition findVBoxManage :: "run_host \<Rightarrow> string option" where
  "findVBoxManage h = findTool h ''VBoxManage'' [host_join h [''Oracle'', ''VirtualBox'', ''VBoxManage.exe'']]"

text \<open>
  The two products are the entries of a Go map: the order in which they are tried is not fixed and
  is an argument.
\<close>

definition vmrun_products :: "run_host \<Rightarrow> (string \<times> string) list" where
  "vmrun_products h =
     [(host_join h [''VMware'', ''VMware Workstation'', ''vmrun.exe''], ''ws''),
      (host_join h [''VMware'', ''VMware Player'', ''vmrun.exe''], ''player'')]"

definition findVMrun :: "run_host \<Rightarrow> string list \<Rightarrow> (string \<times> string) option" where
  "findVMrun h rels =
     (case h_lookPath h ''vmrun'' of
        Some p \<Rightarrow> Some (p, ''ws'')
      | None \<Rightarrow>
          (if h_os h \<noteq> ''windows'' then None
           else map_option (\<lambda>(p, rel). (p, the (map_of (vmrun_products h) rel))) (probeWindowsInstallDirs h rels)))"

section \<open>Port forwarding\<close>

definition valid_port :: "string \<Rightarrow> bool" where
  "valid_port s = (case go_atoi s of None \<Rightarrow> False | Some p \<Rightarrow> 1 \<le> p \<and> p \<le> 65535)"

definition validateHostfwd :: "string \<Rightarrow> run_error + unit" where
  "validateHostfwd hostfwd =
     (case go_split (CHR '':'') hostfwd of
        [hostPart, guestPart] \<Rightarrow>
          (if \<not> valid_port hostPart then Inl (BadHostfwdPort ''host'' hostPart)
           else if \<not> valid_port guestPart then Inl (BadHostfwdPort ''guest'' guestPart)
           else Inr ())
      | _ \<Rightarrow> Inl (BadHostfwd hostfwd))"

definition splitHostfwd :: "string \<Rightarrow> (string \<times> string) option" where
  "splitHostfwd hostfwd = (let (a, b, found) = go_cut hostfwd '':'' in if found then Some (a, b) else None)"

section \<open>Launches\<close>

record launchSpec =
  ls_imagePath :: string
  ls_isISO :: bool
  ls_arch :: string
  ls_uefi :: bool
  ls_memMB :: int
  ls_smp :: int
  ls_hostfwd :: string
  ls_hostfwdBind :: string
  ls_vmName :: string
  ls_keep :: bool
  ls_accel :: string
  ls_ovmfCode :: string
  ls_ovmfVars :: string

definition effectiveUEFI :: "bool \<Rightarrow> bool \<Rightarrow> bool" where
  "effectiveUEFI isISO uefi = (if \<not> isISO then True else uefi)"

text \<open>What the helper removes: nothing once the machine runs or is to be kept.\<close>

definition cleanupUnlessStartedOrKept :: "bool \<Rightarrow> bool \<Rightarrow> run_op \<Rightarrow> run_op list" where
  "cleanupUnlessStartedOrKept started keep remove = (if started \<or> keep then [] else [remove])"

section \<open>QEMU\<close>

definition port_forward_args :: "string \<Rightarrow> string \<Rightarrow> string list" where
  "port_forward_args hostfwd bind =
     (case splitHostfwd hostfwd of
        None \<Rightarrow> []
      | Some (h, g) \<Rightarrow>
          [''-netdev'', ''user,id=n0,hostfwd=tcp:'' @ bind @ '':'' @ h @ ''-:'' @ g, ''-device'', ''virtio-net-pci,netdev=n0''])"

definition media_args :: "string \<Rightarrow> bool \<Rightarrow> string list" where
  "media_args imagePath isISO =
     (if isISO then [''-cdrom'', imagePath] else [''-drive'', ''file='' @ imagePath @ '',format=raw''])"

definition machine_args :: "string \<Rightarrow> bool \<Rightarrow> string list" where
  "machine_args arch uefi = [''-M'', if arch = ''arm64'' then ''virt'' else if uefi then ''q35'' else ''pc'']"

definition firmware_args :: "bool \<Rightarrow> string \<Rightarrow> string \<Rightarrow> string list" where
  "firmware_args uefi ovmfCode ovmfVars =
     (if uefi \<and> ovmfCode \<noteq> []
      then [''-drive'', ''if=pflash,format=raw,readonly=on,file='' @ ovmfCode,
            ''-drive'', ''if=pflash,format=raw,file='' @ ovmfVars]
      else [])"

definition qemuArgv ::
  "string \<Rightarrow> bool \<Rightarrow> string \<Rightarrow> bool \<Rightarrow> string \<Rightarrow> string \<Rightarrow> int \<Rightarrow> int \<Rightarrow> string list \<Rightarrow> string list \<Rightarrow> string \<Rightarrow> string \<Rightarrow> string list" where
  "qemuArgv imagePath isISO arch uefi ovmfCode ovmfVars memMB smp accelArgs cpuArgs hostfwd hostfwdBind =
     machine_args arch uefi @
     [''-m'', int_dec memMB, ''-smp'', int_dec smp, ''-serial'', ''stdio''] @ accelArgs @ cpuArgs @
     [''-object'', ''rng-builtin,id=rng0'', ''-device'', ''virtio-rng-pci,rng=rng0''] @
     media_args imagePath isISO @ port_forward_args hostfwd hostfwdBind @ firmware_args uefi ovmfCode ovmfVars"

definition resolveAccel :: "run_host \<Rightarrow> string \<Rightarrow> string \<Rightarrow> string list \<times> string list \<times> string" where
  "resolveAccel h requested arch =
     (let tcgCPU = (if arch = ''arm64'' then [''-cpu'', ''cortex-a72''] else []);
          hostMatches = (arch = ''amd64'' \<and> h_arch h = ''amd64'' \<or> arch = ''arm64'' \<and> h_arch h = ''arm64'');
          hw = (\<lambda>a name. ([''-accel'', a], [''-cpu'', ''host''], a @ name));
          tcg = (\<lambda>name. ([''-accel'', ''tcg''], tcgCPU, ''tcg ('' @ name @ '')'')) in
      if requested = ''kvm'' \<or> requested = ''hvf'' \<or> requested = ''whpx'' then hw requested '' (forced)''
      else if requested = ''tcg'' then tcg ''forced -- software emulation''
      else if requested = ''auto'' then
        (if hostMatches \<and> h_os h = ''linux'' \<and> h_stat h ''/dev/kvm'' \<noteq> None then hw ''kvm'' '' (auto-detected)''
         else if hostMatches \<and> h_os h = ''darwin'' then hw ''hvf'' '' (auto-detected)''
         else if hostMatches \<and> h_os h = ''windows'' then hw ''whpx'' '' (auto-detected)''
         else tcg ''software emulation -- no hardware accelerator available for this host/guest-arch combination'')
      else tcg ''unrecognized --accel value, defaulted to software emulation'')"

definition resolveWindowsBundledOVMF :: "run_host \<Rightarrow> string \<Rightarrow> string \<Rightarrow> (string \<times> string) option act" where
  "resolveWindowsBundledOVMF h arch vmName =
     (let name = (if arch = ''amd64'' then ''edk2-x86_64-code.fd'' else ''edk2-aarch64-code.fd'') in
      if arch \<noteq> ''amd64'' \<and> arch \<noteq> ''arm64'' then ([], Inr None)
      else case probeWindowsInstallDirs h [host_join h [''qemu'', ''share'', name]] of
        None \<Rightarrow> ([], Inr None)
      | Some (codePath, rel) \<Rightarrow>
          (let varsPath = host_join h [h_tmp h, ''cnimbus-ovmf-vars-'' @ arch @ ''-'' @ vmName @ ''.fd''];
               blank = RWriteFile varsPath (replicate (the (h_stat h codePath)) (CHR 0x00)) in
           if h_stat h varsPath \<noteq> None then ([], Inr (Some (codePath, varsPath)))
           else ([blank], Inr (if h_ok h blank then Some (codePath, varsPath) else None))))"

definition ovmf_candidates :: "string \<Rightarrow> (string \<times> string) option" where
  "ovmf_candidates arch =
     (if arch = ''amd64'' then Some (''/usr/share/OVMF/OVMF_CODE.fd'', ''/usr/share/OVMF/OVMF_VARS.fd'')
      else if arch = ''arm64'' then Some (''/usr/share/AAVMF/AAVMF_CODE.fd'', ''/usr/share/AAVMF/AAVMF_VARS.fd'')
      else None)"

definition resolveOVMF :: "run_host \<Rightarrow> string \<Rightarrow> string \<Rightarrow> string \<Rightarrow> string \<Rightarrow> (string \<times> string \<times> bool) act" where
  "resolveOVMF h arch code0 vars0 vmName =
     (if code0 \<noteq> [] \<and> vars0 \<noteq> [] then ([], Inr (code0, vars0, False))
      else case ovmf_candidates arch of
        None \<Rightarrow> ([], Inl (OVMFArch arch))
      | Some (c, v) \<Rightarrow>
          (let code = (if code0 = [] then c else code0); vars = (if vars0 = [] then v else vars0) in
           then_act (if h_stat h code = None \<and> h_os h = ''windows'' then resolveWindowsBundledOVMF h arch vmName else ([], Inr None))
             (\<lambda>win. let (code', vars', synthesized) = (case win of None \<Rightarrow> (code, vars, False) | Some (wc, wv) \<Rightarrow> (wc, wv, True)) in
                     ([], if h_stat h code' = None then Inl (OVMFMissing code') else Inr (code', vars', synthesized)))))"

definition describeQEMUCommand :: "run_host \<Rightarrow> launchSpec \<Rightarrow> bool \<Rightarrow> run_op list \<times> string" where
  "describeQEMUCommand h s uefi =
     (let (accelArgs, cpuArgs, name) = resolveAccel h (ls_accel s) (ls_arch s);
          ovmf = (if uefi then resolveOVMF h (ls_arch s) (ls_ovmfCode s) (ls_ovmfVars s) (ls_vmName s) else ([], Inr ([], [], False)));
          (code, vars) = (case snd ovmf of Inl e \<Rightarrow> ([], []) | Inr (c, v, synthesized) \<Rightarrow> (c, v)) in
      (fst ovmf,
       qemuBinName (ls_arch s) @ '' '' @
       go_join (qemuArgv (ls_imagePath s) (ls_isISO s) (ls_arch s) uefi code vars (ls_memMB s) (ls_smp s) accelArgs cpuArgs
                  (ls_hostfwd s) (ls_hostfwdBind s)) '' ''))"

definition qemu_firmware :: "run_host \<Rightarrow> launchSpec \<Rightarrow> bool \<Rightarrow> (string \<times> string \<times> bool) act" where
  "qemu_firmware h s uefi =
     (if uefi then resolveOVMF h (ls_arch s) (ls_ovmfCode s) (ls_ovmfVars s) (ls_vmName s) else ([], Inr ([], [], False)))"

definition qemu_launch :: "run_host \<Rightarrow> launchSpec \<Rightarrow> unit act" where
  "qemu_launch h s =
     (let binName = qemuBinName (ls_arch s); uefi = (if ls_arch s = ''arm64'' then True else ls_uefi s) in
      case findQEMU h binName of
        None \<Rightarrow> (let (ops, command) = describeQEMUCommand h s uefi in (ops, Inl (QemuMissing binName command)))
      | Some qemuPath \<Rightarrow>
          (let (accelArgs, cpuArgs, name) = resolveAccel h (ls_accel s) (ls_arch s) in
           then_act (qemu_firmware h s uefi) (\<lambda>(code, vars, synthesized).
             let run = attempt h (RExec qemuPath (qemuArgv (ls_imagePath s) (ls_isISO s) (ls_arch s) uefi code vars (ls_memMB s)
                         (ls_smp s) accelArgs cpuArgs (ls_hostfwd s) (ls_hostfwdBind s))) in
             (fst run @ (if synthesized \<and> \<not> ls_keep s then [RRemove vars] else []), snd run))))"

section \<open>VirtualBox\<close>

definition vbox_create :: "launchSpec \<Rightarrow> string list" where
  "vbox_create s =
     [''createvm'', ''--name'', ls_vmName s, ''--platform-architecture'', if ls_arch s = ''arm64'' then ''arm'' else ''x86'',
      ''--ostype'', ''Linux_64'', ''--register'']"

definition vbox_remove :: "launchSpec \<Rightarrow> string list" where
  "vbox_remove s = [''unregistervm'', ls_vmName s, ''--delete'']"

definition vbox_start :: "launchSpec \<Rightarrow> string list" where
  "vbox_start s = [''startvm'', ls_vmName s, ''--type'', ''headless'']"

definition vbox_setup :: "launchSpec \<Rightarrow> string list list" where
  "vbox_setup s =
     [[''modifyvm'', ls_vmName s, ''--memory'', int_dec (ls_memMB s), ''--nic1'', ''nat'', ''--nictype1'', ''virtio'']] @
     (if effectiveUEFI (ls_isISO s) (ls_uefi s) then [[''modifyvm'', ls_vmName s, ''--firmware'', ''efi'']] else []) @
     (case splitHostfwd (ls_hostfwd s) of
        None \<Rightarrow> []
      | Some (hp, gp) \<Rightarrow>
          [[''modifyvm'', ls_vmName s, ''--natpf1'', ''cnimbus,tcp,'' @ ls_hostfwdBind s @ '','' @ hp @ '',,'' @ gp]]) @
     [[''storagectl'', ls_vmName s, ''--name'', ''IDE'', ''--add'', ''ide''],
      [''storageattach'', ls_vmName s, ''--storagectl'', ''IDE'', ''--port'', ''0'', ''--device'', ''0'',
       ''--type'', if ls_isISO s then ''dvddrive'' else ''hdd'', ''--medium'', ls_imagePath s],
      vbox_start s]"

definition vbox_launch :: "run_host \<Rightarrow> launchSpec \<Rightarrow> unit act" where
  "vbox_launch h s =
     (case findVBoxManage h of
        None \<Rightarrow> ([], Inl VBoxMissing)
      | Some vboxManage \<Rightarrow>
          then_act (attempt h (RExec vboxManage (vbox_create s))) (\<lambda>_.
            let setup = attempt_all h (map (RExec vboxManage) (vbox_setup s));
                started = (snd setup = Inr ()) in
            (fst setup @ cleanupUnlessStartedOrKept started (ls_keep s) (RExec vboxManage (vbox_remove s)), snd setup)))"

section \<open>VMware\<close>

text \<open>\<^verbatim>\<open>%q\<close> for printable text: bytes from 128 up are left as they are.\<close>

definition quote_char :: "char \<Rightarrow> string" where
  "quote_char c =
     (if c = CHR 0x22 \<or> c = CHR 0x5C then [CHR 0x5C, c]
      else if c = CHR 0x07 then BS @ ''a'' else if c = CHR 0x08 then BS @ ''b'' else if c = CHR 0x0C then BS @ ''f''
      else if c = CHR 0x0A then BS @ ''n'' else if c = CHR 0x0D then BS @ ''r'' else if c = CHR 0x09 then BS @ ''t''
      else if c = CHR 0x0B then BS @ ''v''
      else if (of_char c :: nat) < 32 \<or> c = CHR 0x7F then BS @ ''x'' @ go_hex_encode [c]
      else [c])"

definition go_quote :: "string \<Rightarrow> string" where
  "go_quote s = QQv @ concat (map quote_char s) @ QQv"

definition vmx_line :: "string \<Rightarrow> string \<Rightarrow> string" where
  "vmx_line key val = key @ '' = '' @ QQv @ val @ QQv @ LFv"

definition buildVMX :: "string \<Rightarrow> int \<Rightarrow> bool \<Rightarrow> string list \<Rightarrow> string \<Rightarrow> string" where
  "buildVMX vmName memMB uefi diskLines serialLogPath =
     vmx_line ''.encoding'' ''UTF-8'' @ vmx_line ''config.version'' ''8'' @ vmx_line ''virtualHW.version'' ''19'' @
     ''displayName = '' @ go_quote vmName @ LFv @
     vmx_line ''guestOS'' ''other5xlinux-64'' @ vmx_line ''numvcpus'' ''2'' @ vmx_line ''memsize'' (int_dec memMB) @
     vmx_line ''firmware'' (if uefi then ''efi'' else ''bios'') @
     concat (map (\<lambda>l. l @ LFv) diskLines) @
     vmx_line ''ethernet0.present'' ''TRUE'' @ vmx_line ''ethernet0.connectionType'' ''nat'' @
     vmx_line ''ethernet0.virtualDev'' ''e1000'' @ vmx_line ''ethernet0.startConnected'' ''TRUE'' @
     vmx_line ''serial0.present'' ''TRUE'' @ vmx_line ''serial0.fileType'' ''file'' @
     ''serial0.fileName = '' @ go_quote serialLogPath @ LFv @ vmx_line ''serial0.startConnected'' ''TRUE''"

definition vmx_disk_lines :: "launchSpec \<Rightarrow> string list" where
  "vmx_disk_lines s =
     (let line = (\<lambda>k v. k @ '' = '' @ QQv @ v @ QQv) in
      if ls_isISO s
      then [line ''ide1:0.present'' ''TRUE'', line ''ide1:0.deviceType'' ''cdrom-image'',
            line ''ide1:0.fileName'' (ls_imagePath s), line ''ide1:0.startConnected'' ''TRUE'']
      else [line ''ide0:0.present'' ''TRUE'', line ''ide0:0.deviceType'' ''disk'', line ''ide0:0.fileName'' ''disk.vmdk''])"

definition vmware_launch :: "run_host \<Rightarrow> string list \<Rightarrow> launchSpec \<Rightarrow> unit act" where
  "vmware_launch h rels s =
     (if ls_arch s \<noteq> ''amd64'' then ([], Inl VMwareArch)
      else
        (let uefi = effectiveUEFI (ls_isISO s) (ls_uefi s); workDir = h_workDir h in
         case findVMrun h rels of
           None \<Rightarrow> ([], Inl VMrunMissing)
         | Some (vmrun, hostType) \<Rightarrow>
             then_act (attempt h (RMkdirTemp ''cnimbus-vmware-*'')) (\<lambda>_.
               let vmxPath = host_join h [workDir, ls_vmName s @ ''.vmx''];
                   vmx = buildVMX (ls_vmName s) (ls_memMB s) uefi (vmx_disk_lines s) (host_join h [workDir, ''serial.log'']);
                   steps = attempt_all h
                     ((if ls_isISO s then [] else [RWriteVMDK (host_join h [workDir, ''disk.vmdk'']) (ls_imagePath s)]) @
                      [RWriteFile vmxPath vmx, RExec vmrun [''-T'', hostType, ''start'', vmxPath, ''nogui'']]) in
               (fst steps @ (if snd steps = Inr () then [] else cleanupUnlessStartedOrKept False (ls_keep s) (RRemoveAll workDir)),
                snd steps))))"

end
