(* ===== verification/Hyperv.thy ===== *)
theory Hyperv
  imports Run
begin

text \<open>
  The Hyper-V launch (cmd/cnimbus/run_hyperv.go): the PowerShell script it builds, line by line, the quoting of
  the values in it, and what is removed when the script fails. The script itself runs outside the program: how it
  ended and what it printed are arguments.
\<close>

section \<open>Quoting\<close>

definition psQuote :: "string \<Rightarrow> string" where
  "psQuote s = SQ @ go_replace_all s SQ (SQ @ SQ) @ SQ"

section \<open>The script\<close>

definition hypervSwitch :: string where "hypervSwitch = ''cnimbus-nat''"

definition hypervHostIP :: string where "hypervHostIP = ''192.168.200.1''"

definition hypervGuestIP :: string where "hypervGuestIP = ''192.168.200.10''"

definition hypervPrefix :: string where "hypervPrefix = ''192.168.200.0/24''"

definition said :: "string \<Rightarrow> string" where "said s = ''Write-Host '' @ SQ @ s @ SQ"

definition ps_elevated :: "string list" where
  "ps_elevated =
     [''$ErrorActionPreference = '' @ SQ @ ''Stop'' @ SQ,
      ''if (-not ([Security.Principal.WindowsPrincipal][Security.Principal.WindowsIdentity]::GetCurrent()).IsInRole([Security.Principal.WindowsBuiltInRole]::Administrator)) {'',
      ''  throw '' @ SQ @ ''this PowerShell session is not elevated -- re-run from an Administrator prompt'' @ SQ,
      ''}'']"

definition ps_switch :: "string list" where
  "ps_switch =
     [said (''cnimbus: preparing switch '' @ hypervSwitch @ '' ('' @ hypervPrefix @ '')...''),
      ''if (-not (Get-VMSwitch -Name '' @ psQuote hypervSwitch @ '' -ErrorAction SilentlyContinue)) {'',
      ''  New-VMSwitch -SwitchName '' @ psQuote hypervSwitch @ '' -SwitchType Internal | Out-Null'',
      ''}'',
      ''$ifIdx = (Get-NetAdapter -Name '' @ psQuote (''vEthernet ('' @ hypervSwitch @ '')'') @ '').ifIndex'',
      ''if (-not (Get-NetIPAddress -InterfaceIndex $ifIdx -IPAddress '' @ hypervHostIP @ '' -ErrorAction SilentlyContinue)) {'',
      ''  New-NetIPAddress -InterfaceIndex $ifIdx -IPAddress '' @ hypervHostIP @ '' -PrefixLength 24 | Out-Null'',
      ''}'',
      ''if (-not (Get-NetNat -Name '' @ psQuote hypervSwitch @ '' -ErrorAction SilentlyContinue)) {'',
      ''  New-NetNat -Name '' @ psQuote hypervSwitch @ '' -InternalIPInterfaceAddressPrefix '' @ hypervPrefix @ '' | Out-Null'',
      ''}'']"

definition ps_medium :: "bool \<Rightarrow> bool \<Rightarrow> string \<Rightarrow> string \<Rightarrow> string \<Rightarrow> string list" where
  "ps_medium gen2 isISO vmName imagePath diskPath =
     (let vm = psQuote vmName in
      if gen2 \<and> isISO then
        [''Set-VMFirmware -VMName '' @ vm @ '' -EnableSecureBoot Off'',
         ''Set-VMDvdDrive -VMName '' @ vm @ '' -Path '' @ psQuote imagePath,
         ''Set-VMFirmware -VMName '' @ vm @ '' -FirstBootDevice (Get-VMDvdDrive -VMName '' @ vm @ '')'']
      else if gen2 then
        [''Set-VMFirmware -VMName '' @ vm @ '' -EnableSecureBoot Off'',
         ''Add-VMHardDiskDrive -VMName '' @ vm @ '' -Path '' @ psQuote diskPath,
         ''Set-VMFirmware -VMName '' @ vm @ '' -FirstBootDevice (Get-VMHardDiskDrive -VMName '' @ vm @ '')'']
      else if isISO then
        [''Set-VMDvdDrive -VMName '' @ vm @ '' -ControllerNumber 1 -ControllerLocation 0 -Path '' @ psQuote imagePath,
         ''Set-VMBios -VMName '' @ vm @ '' -StartupOrder @('' @ SQ @ ''CD'' @ SQ @ '','' @ SQ @ ''IDE'' @ SQ @ '','' @ SQ @
           ''LegacyNetworkAdapter'' @ SQ @ '','' @ SQ @ ''Floppy'' @ SQ @ '')'']
      else
        [''Add-VMHardDiskDrive -VMName '' @ vm @ '' -ControllerType IDE -ControllerNumber 0 -ControllerLocation 0 -Path '' @ psQuote diskPath,
         ''Set-VMBios -VMName '' @ vm @ '' -StartupOrder @('' @ SQ @ ''IDE'' @ SQ @ '','' @ SQ @ ''CD'' @ SQ @ '','' @ SQ @
           ''LegacyNetworkAdapter'' @ SQ @ '','' @ SQ @ ''Floppy'' @ SQ @ '')''])"

definition ps_machine :: "launchSpec \<Rightarrow> bool \<Rightarrow> string \<Rightarrow> string list" where
  "ps_machine s forward diskPath =
     (let vm = psQuote (ls_vmName s) in
      [said ''cnimbus: creating VM...'',
       ''New-VM -Name '' @ vm @ '' -MemoryStartupBytes '' @ int_dec (ls_memMB s) @ ''MB -Generation '' @
         int_dec (if ls_uefi s then 2 else 1) @ '' -NoVHD | Out-Null''] @
      ps_medium (ls_uefi s) (ls_isISO s) (ls_vmName s) (ls_imagePath s) diskPath @
      [if forward then ''Connect-VMNetworkAdapter -VMName '' @ vm @ '' -SwitchName '' @ psQuote hypervSwitch
       else ''Connect-VMNetworkAdapter -VMName '' @ vm @ '' -SwitchName (Get-VMSwitch | Select-Object -First 1 -ExpandProperty Name) -ErrorAction SilentlyContinue'',
       ''Start-VM -Name '' @ vm,
       said ''cnimbus: VM started.''])"

definition ps_portproxy :: "string \<Rightarrow> string \<Rightarrow> string \<Rightarrow> string list" where
  "ps_portproxy bind hostPort guestPort =
     [said (''cnimbus: forwarding '' @ bind @ '':'' @ hostPort @ '' -> '' @ hypervGuestIP @ '':'' @ guestPort @ ''...''),
      ''if ((Get-Service iphlpsvc).Status -ne '' @ SQ @ ''Running'' @ SQ @ '') { Start-Service iphlpsvc }'',
      ''netsh interface portproxy delete v4tov4 listenport='' @ hostPort @ '' listenaddress=0.0.0.0 2>$null | Out-Null'',
      ''netsh interface portproxy delete v4tov4 listenport='' @ hostPort @ '' listenaddress=127.0.0.1 2>$null | Out-Null'',
      ''Get-NetNatStaticMapping -ErrorAction SilentlyContinue | Where-Object { $_.ExternalPort -eq '' @ hostPort @
        '' } | ForEach-Object { Remove-NetNatStaticMapping -NatName $_.NatName -StaticMappingID $_.StaticMappingID -Confirm:$false }'',
      ''netsh interface portproxy add v4tov4 listenport='' @ hostPort @ '' listenaddress='' @ bind @ '' connectport='' @ guestPort @
        '' connectaddress='' @ hypervGuestIP @ '' | Out-Null'']"

definition BT :: string where "BT = [CHR 0x60]"
definition QQh :: string where "QQh = [CHR 0x22]"

definition ps_probe :: "string \<Rightarrow> string \<Rightarrow> string list" where
  "ps_probe verifyAddr hostPort =
     [said (''cnimbus: waiting for the guest to answer on '' @ verifyAddr @ '':'' @ hostPort @ '' (up to 90s)...''),
      ''$answered = $false'',
      ''for ($i = 0; $i -lt 30; $i++) {'',
      ''  try {'',
      ''    $c = New-Object System.Net.Sockets.TcpClient'',
      ''    $h = $c.BeginConnect('' @ SQ @ verifyAddr @ SQ @ '', '' @ hostPort @ '', $null, $null)'',
      ''    if ($h.AsyncWaitHandle.WaitOne(2000)) {'',
      ''      $c.EndConnect($h)'',
      ''      $c.ReceiveTimeout = 3000; $c.SendTimeout = 3000'',
      ''      $st = $c.GetStream()'',
      ''      $req = [Text.Encoding]::ASCII.GetBytes('' @ QQh @ ''GET / HTTP/1.0'' @ BT @ ''r'' @ BT @ ''nHost: '' @ verifyAddr @
        BT @ ''r'' @ BT @ ''n'' @ BT @ ''r'' @ BT @ ''n'' @ QQh @ '')'',
      ''      $st.Write($req, 0, $req.Length); $st.Flush()'',
      ''      $buf = New-Object byte[] 64'',
      ''      if ($st.Read($buf, 0, 64) -gt 0) { $answered = $true }'',
      ''    }'',
      ''    $c.Close()'',
      ''  } catch { }'',
      ''  if ($answered) { break }'',
      ''  Start-Sleep -Seconds 1'',
      ''}'',
      ''if ($answered) { Write-Output '' @ SQ @ ''CNIMBUS_FWD_OK'' @ SQ @ '' } else {'',
      ''  Write-Output '' @ SQ @ ''CNIMBUS_FWD_FAIL'' @ SQ,
      ''  Write-Output ('' @ SQ @ ''  guest ARP state: '' @ SQ @ '' + ((Get-NetNeighbor -IPAddress '' @ hypervGuestIP @
        '' -InterfaceIndex $ifIdx -ErrorAction SilentlyContinue).State -join '' @ SQ @ '','' @ SQ @ ''))'',
      ''  Write-Output ('' @ SQ @ ''  portproxy: '' @ SQ @ '' + ((netsh interface portproxy show all | Out-String).Trim()))'',
      ''}'']"

definition verify_addr :: "string \<Rightarrow> string" where
  "verify_addr bind = (if bind = ''0.0.0.0'' then ''127.0.0.1'' else bind)"

definition hyperv_lines :: "launchSpec \<Rightarrow> string \<Rightarrow> string list" where
  "hyperv_lines s diskPath =
     (case splitHostfwd (ls_hostfwd s) of
        None \<Rightarrow> ps_elevated @ ps_machine s False diskPath
      | Some (hostPort, guestPort) \<Rightarrow>
          ps_elevated @ ps_switch @ ps_machine s True diskPath @ ps_portproxy (ls_hostfwdBind s) hostPort guestPort @
          ps_probe (verify_addr (ls_hostfwdBind s)) hostPort)"

definition powershell :: "string \<Rightarrow> run_op" where
  "powershell script = RExec ''powershell.exe'' [''-NoProfile'', ''-NonInteractive'', ''-Command'', script]"

definition hyperv_cleanup :: "string \<Rightarrow> run_op" where
  "hyperv_cleanup vmName =
     powershell (''Stop-VM -Name '' @ psQuote vmName @ '' -TurnOff -ErrorAction SilentlyContinue; Remove-VM -Name '' @
       psQuote vmName @ '' -Force -ErrorAction SilentlyContinue'')"

section \<open>The launch\<close>

datatype fwd_report = NotForwarded | Answered | NeverAnswered | NoReport

definition hyperv_report :: "launchSpec \<Rightarrow> string \<Rightarrow> fwd_report" where
  "hyperv_report s captured =
     (if splitHostfwd (ls_hostfwd s) = None then NotForwarded
      else if go_contains captured ''CNIMBUS_FWD_OK'' then Answered
      else if go_contains captured ''CNIMBUS_FWD_FAIL'' then NeverAnswered
      else NoReport)"

definition hyperv_run :: "run_host \<Rightarrow> bool \<Rightarrow> string \<Rightarrow> launchSpec \<Rightarrow> string \<Rightarrow> fwd_report act" where
  "hyperv_run h timedOut captured s diskPath =
     (let script = powershell (concat (map (\<lambda>l. l @ LFv) (hyperv_lines s diskPath))) in
      if timedOut then ([script, hyperv_cleanup (ls_vmName s)], Inl SetupTimedOut)
      else if \<not> h_ok h script then ([script, hyperv_cleanup (ls_vmName s)], Inl (OpFailed script))
      else ([script], Inr (hyperv_report s captured)))"

definition hyperv_launch :: "run_host \<Rightarrow> bool \<Rightarrow> string \<Rightarrow> launchSpec \<Rightarrow> fwd_report act" where
  "hyperv_launch h timedOut captured s =
     (if ls_arch s \<noteq> ''amd64'' then ([], Inl HypervArch)
      else if ls_isISO s then hyperv_run h timedOut captured s (ls_imagePath s)
      else
        then_act (attempt h (RMkdirTemp ''cnimbus-hyperv-*'')) (\<lambda>_.
          let diskPath = host_join h [h_workDir h, ''disk.vhd''];
              r = then_act (attempt h (RWriteVHD diskPath (ls_imagePath s))) (\<lambda>_. hyperv_run h timedOut captured s diskPath);
              started = (case snd r of Inl e \<Rightarrow> False | Inr x \<Rightarrow> True) in
          (fst r @ (if ls_keep s \<or> started then [] else [RRemoveAll (h_workDir h)]), snd r)))"

end
