(* ===== verification/Hypervisors.thy ===== *)
theory Hypervisors
  imports Hyperv
begin

text \<open>
  The \<^verbatim>\<open>run\<close> command as a whole (runRun and the backend table), and what its launches promise: the port that is
  forwarded, the firmware an image is booted with, and what a failed launch removes.
\<close>

section \<open>The command\<close>

record run_flags =
  rf_spec :: launchSpec
  rf_backend :: string
  rf_args :: "string list"

text \<open>\<^verbatim>\<open>filepath.Ext\<close>: the suffix from the last dot of the last component.\<close>

definition go_ext :: "run_host \<Rightarrow> string \<Rightarrow> string" where
  "go_ext h p =
     (let r = takeWhile (\<lambda>c. c \<noteq> CHR ''/'' \<and> (h_os h = ''windows'' \<longrightarrow> c \<noteq> CHR 0x5C)) (rev p); s = takeWhile (\<lambda>c. c \<noteq> CHR ''.'') r
      in if length s < length r then CHR ''.'' # rev s else [])"

text \<open>\<^verbatim>\<open>strings.EqualFold\<close> with \<^verbatim>\<open>.iso\<close>: of its letters only s has a fold outside ASCII, the long s.\<close>

definition is_iso :: "run_host \<Rightarrow> string \<Rightarrow> bool" where
  "is_iso h path \<longleftrightarrow> map lower_char (go_replace_all (go_ext h path) [CHR 0xC5, CHR 0xBF] ''s'') = ''.iso''"

definition run_check :: "run_host \<Rightarrow> run_flags \<Rightarrow> run_error + launchSpec" where
  "run_check h fl =
     (let s = rf_spec fl in
      if ls_arch s \<noteq> ''amd64'' \<and> ls_arch s \<noteq> ''arm64'' then Inl (BadArch (ls_arch s))
      else bindE (validateHostfwd (ls_hostfwd s)) (\<lambda>_.
        case rf_args fl of
          [arg] \<Rightarrow>
            (case h_abs h arg of
               None \<Rightarrow> Inl (NoAbsPath arg)
             | Some imagePath \<Rightarrow>
                 if h_stat h imagePath = None then Inl (NoImage imagePath)
                 else if rf_backend fl \<notin> set [''qemu'', ''vbox'', ''vmware'', ''hyperv''] then Inl (BadBackend (rf_backend fl))
                 else Inr (s \<lparr> ls_imagePath := imagePath, ls_isISO := is_iso h imagePath \<rparr>))
        | _ \<Rightarrow> Inl RunUsage))"

definition runRun :: "run_host \<Rightarrow> string list \<Rightarrow> bool \<Rightarrow> string \<Rightarrow> run_flags \<Rightarrow> unit act" where
  "runRun h rels timedOut captured fl =
     (case run_check h fl of
        Inl e \<Rightarrow> ([], Inl e)
      | Inr s \<Rightarrow>
          (if rf_backend fl = ''qemu'' then qemu_launch h s
           else if rf_backend fl = ''vbox'' then vbox_launch h s
           else if rf_backend fl = ''vmware'' then vmware_launch h rels s
           else then_act (hyperv_launch h timedOut captured s) (\<lambda>_. ([], Inr ()))))"

section \<open>Port forwarding\<close>

lemma splitHostfwd_valid:
  assumes "validateHostfwd f = Inr ()"
  obtains hp gp where "splitHostfwd f = Some (hp, gp)" "f = hp @ '':'' @ gp" "valid_port hp" "valid_port gp"
proof -
  obtain hp gp where s: "go_split (CHR '':'') f = [hp, gp]" and v: "valid_port hp" "valid_port gp"
    using assms by (auto simp: validateHostfwd_def split: list.splits if_splits)
  have f: "f = hp @ '':'' @ gp" using go_join_split [of "CHR '':''" f] s by simp
  moreover have n: "CHR '':'' \<notin> set hp" using go_split_no_sep [of hp "CHR '':''" f] s by simp
  ultimately have "splitHostfwd f = Some (hp, gp)"
    by (simp add: splitHostfwd_def go_cut_char takeWhile_append)
  then show thesis using that f v by blast
qed

text \<open>
  The port that was asked for is the port that is forwarded, by every backend that
  forwards: once the value is accepted it is two port numbers, and QEMU's arguments, VirtualBox's rule and the
  relay of the Hyper-V script carry exactly the bind address and these two ports.
\<close>

theorem forwarding_as_asked:
  assumes "run_check h fl = Inr s"
  shows "\<exists>hp gp. ls_hostfwd s = hp @ '':'' @ gp \<and> valid_port hp \<and> valid_port gp \<and>
    (\<forall>uefi code vars accel cpu.
       sublist [''-netdev'', ''user,id=n0,hostfwd=tcp:'' @ ls_hostfwdBind s @ '':'' @ hp @ ''-:'' @ gp]
         (qemuArgv (ls_imagePath s) (ls_isISO s) (ls_arch s) uefi code vars (ls_memMB s) (ls_smp s) accel cpu (ls_hostfwd s) (ls_hostfwdBind s))) \<and>
    [''modifyvm'', ls_vmName s, ''--natpf1'', ''cnimbus,tcp,'' @ ls_hostfwdBind s @ '','' @ hp @ '',,'' @ gp] \<in> set (vbox_setup s) \<and>
    (\<forall>disk. ''netsh interface portproxy add v4tov4 listenport='' @ hp @ '' listenaddress='' @ ls_hostfwdBind s @ '' connectport='' @ gp @
       '' connectaddress='' @ hypervGuestIP @ '' | Out-Null'' \<in> set (hyperv_lines s disk))"
proof -
  have v: "validateHostfwd (ls_hostfwd s) = Inr ()"
    using assms by (auto simp: run_check_def bindE_Inr_iff Let_def split: if_splits list.splits option.splits)
  obtain hp gp where f: "splitHostfwd (ls_hostfwd s) = Some (hp, gp)" "ls_hostfwd s = hp @ '':'' @ gp" "valid_port hp" "valid_port gp"
    using splitHostfwd_valid [OF v] by blast
  have "sublist [''-netdev'', ''user,id=n0,hostfwd=tcp:'' @ ls_hostfwdBind s @ '':'' @ hp @ ''-:'' @ gp]
         (qemuArgv (ls_imagePath s) (ls_isISO s) (ls_arch s) uefi code vars (ls_memMB s) (ls_smp s) accel cpu (ls_hostfwd s) (ls_hostfwdBind s))"
    for uefi code vars accel cpu
  proof -
    let ?n = "[''-netdev'', ''user,id=n0,hostfwd=tcp:'' @ ls_hostfwdBind s @ '':'' @ hp @ ''-:'' @ gp]"
    have "port_forward_args (ls_hostfwd s) (ls_hostfwdBind s) = ?n @ [''-device'', ''virtio-net-pci,netdev=n0'']"
      by (simp add: port_forward_args_def f(1))
    then show ?thesis unfolding qemuArgv_def sublist_def by (metis append.assoc)
  qed
  moreover have "[''modifyvm'', ls_vmName s, ''--natpf1'', ''cnimbus,tcp,'' @ ls_hostfwdBind s @ '','' @ hp @ '',,'' @ gp] \<in> set (vbox_setup s)"
    by (simp add: vbox_setup_def f(1))
  moreover have "''netsh interface portproxy add v4tov4 listenport='' @ hp @ '' listenaddress='' @ ls_hostfwdBind s @ '' connectport='' @ gp @
       '' connectaddress='' @ hypervGuestIP @ '' | Out-Null'' \<in> set (hyperv_lines s disk)" for disk
    unfolding hyperv_lines_def f(1) option.case prod.case set_append ps_portproxy_def by simp
  ultimately show ?thesis using f(2-4) by blast
qed

section \<open>Firmware\<close>

lemma attempt_simps: "fst (attempt h p) = [p]" "snd (attempt h p) = Inr () \<longleftrightarrow> h_ok h p"
  by (simp_all add: attempt_def)

lemma set_then_act: "x \<in> set (fst (then_act a f)) \<Longrightarrow> x \<in> set (fst a) \<or> (\<exists>y. snd a = Inr y \<and> x \<in> set (fst (f y)))"
  by (auto simp: then_act_def Let_def split: sum.splits)

lemma snd_then_act: "snd (then_act a f) = Inr y \<longleftrightarrow> (\<exists>x. snd a = Inr x \<and> snd (f x) = Inr y)"
  by (auto simp: then_act_def Let_def split: sum.splits)

lemma attempt_all_ops: "set (fst (attempt_all h ps)) \<subseteq> set ps"
  by (induction ps) (auto dest: set_then_act simp: attempt_simps)

lemma attempt_all_Inr: "snd (attempt_all h ps) = Inr () \<longleftrightarrow> (\<forall>p \<in> set ps. h_ok h p)"
  by (induction ps) (auto simp: snd_then_act attempt_simps)

lemma attempt_all_done: "\<forall>p \<in> set ps. h_ok h p \<Longrightarrow> fst (attempt_all h ps) = ps"
  by (induction ps) (auto simp: then_act_def attempt_def)

lemma resolveOVMF_no_exec: "RExec p a \<notin> set (fst (resolveOVMF h arch c v n))"
proof -
  have w: "RExec p a \<notin> set (fst (resolveWindowsBundledOVMF h arch n))"
    by (simp add: resolveWindowsBundledOVMF_def Let_def split: option.splits)
  show ?thesis
    by (auto simp: resolveOVMF_def Let_def w split: option.splits dest!: set_then_act)
qed

lemma qemu_exec:
  assumes "RExec p argv \<in> set (fst (qemu_launch h s))"
  shows "\<exists>code vars accel cpu. let uefi = (ls_arch s = ''arm64'' \<or> ls_uefi s) in
    argv = qemuArgv (ls_imagePath s) (ls_isISO s) (ls_arch s) uefi code vars (ls_memMB s) (ls_smp s) accel cpu (ls_hostfwd s) (ls_hostfwdBind s) \<and>
    (\<not> uefi \<longrightarrow> code = [])"
proof (cases "findQEMU h (qemuBinName (ls_arch s))")
  case None
  have "RExec p argv \<notin> set (fst (describeQEMUCommand h s uefi))" for uefi
    by (simp add: describeQEMUCommand_def Let_def case_prod_unfold resolveOVMF_no_exec)
  with None assms show ?thesis by (simp add: qemu_launch_def Let_def case_prod_unfold)
next
  case (Some q)
  let ?u = "if ls_arch s = ''arm64'' then True else ls_uefi s"
  have f: "RExec p argv \<notin> set (fst (qemu_firmware h s ?u))"
    by (simp add: qemu_firmware_def resolveOVMF_no_exec)
  obtain code vars syn where c: "snd (qemu_firmware h s ?u) = Inr (code, vars, syn)"
    and a: "argv = qemuArgv (ls_imagePath s) (ls_isISO s) (ls_arch s) ?u code vars (ls_memMB s) (ls_smp s)
       (fst (resolveAccel h (ls_accel s) (ls_arch s))) (fst (snd (resolveAccel h (ls_accel s) (ls_arch s)))) (ls_hostfwd s) (ls_hostfwdBind s)"
    using assms Some f by (auto simp: qemu_launch_def Let_def case_prod_unfold attempt_simps split: if_splits dest!: set_then_act)
  have u: "?u \<longleftrightarrow> ls_arch s = ''arm64'' \<or> ls_uefi s" by simp
  have "\<not> ?u \<longrightarrow> code = []" using c by (auto simp: qemu_firmware_def)
  then show ?thesis unfolding Let_def u [symmetric] using a by blast
qed

text \<open>
  A raw image, which only UEFI can boot, gets UEFI firmware from VirtualBox and VMware
  whatever the flags; from QEMU on amd64 and from Hyper-V it does not: without the flag QEMU is started on the BIOS machine
  with no firmware drive, and the Hyper-V machine is of generation 1.
\<close>

theorem raw_image_firmware:
  assumes "\<not> ls_isISO s"
  shows "[''modifyvm'', ls_vmName s, ''--firmware'', ''efi''] \<in> set (vbox_setup s) \<and>
    (\<forall>h rels p vmx. RWriteFile p vmx \<in> set (fst (vmware_launch h rels s)) \<longrightarrow> sublist (vmx_line ''firmware'' ''efi'') vmx) \<and>
    (ls_arch s = ''amd64'' \<and> \<not> ls_uefi s \<longrightarrow>
       (\<forall>h p argv. RExec p argv \<in> set (fst (qemu_launch h s)) \<longrightarrow>
          (\<exists>accel cpu. argv = [''-M'', ''pc'', ''-m'', int_dec (ls_memMB s), ''-smp'', int_dec (ls_smp s), ''-serial'', ''stdio''] @ accel @ cpu @
             [''-object'', ''rng-builtin,id=rng0'', ''-device'', ''virtio-rng-pci,rng=rng0'', ''-drive'', ''file='' @ ls_imagePath s @ '',format=raw''] @
             port_forward_args (ls_hostfwd s) (ls_hostfwdBind s))) \<and>
       (\<forall>disk. ''New-VM -Name '' @ psQuote (ls_vmName s) @ '' -MemoryStartupBytes '' @ int_dec (ls_memMB s) @ ''MB -Generation 1 -NoVHD | Out-Null''
          \<in> set (hyperv_lines s disk)))"
proof (intro conjI allI impI)
  show "[''modifyvm'', ls_vmName s, ''--firmware'', ''efi''] \<in> set (vbox_setup s)"
    using assms by (simp add: vbox_setup_def effectiveUEFI_def)
next
  fix h rels p vmx
  assume "RWriteFile p vmx \<in> set (fst (vmware_launch h rels s))"
  then have "vmx = buildVMX (ls_vmName s) (ls_memMB s) True (vmx_disk_lines s) (host_join h [h_workDir h, ''serial.log''])"
    using assms by (auto simp: vmware_launch_def Let_def effectiveUEFI_def attempt_simps cleanupUnlessStartedOrKept_def case_prod_unfold
        split: if_splits option.splits dest!: set_then_act attempt_all_ops [THEN subsetD])
  then show "sublist (vmx_line ''firmware'' ''efi'') vmx"
    unfolding buildVMX_def if_True by (simp only:) (rule sublist_here | rule sublist_skip)+
next
  fix h p argv
  assume u: "ls_arch s = ''amd64'' \<and> \<not> ls_uefi s" and e: "RExec p argv \<in> set (fst (qemu_launch h s))"
  show "\<exists>accel cpu. argv = [''-M'', ''pc'', ''-m'', int_dec (ls_memMB s), ''-smp'', int_dec (ls_smp s), ''-serial'', ''stdio''] @ accel @ cpu @
             [''-object'', ''rng-builtin,id=rng0'', ''-device'', ''virtio-rng-pci,rng=rng0'', ''-drive'', ''file='' @ ls_imagePath s @ '',format=raw''] @
             port_forward_args (ls_hostfwd s) (ls_hostfwdBind s)"
    using qemu_exec [OF e] u assms by (auto simp: Let_def qemuArgv_def machine_args_def media_args_def firmware_args_def)
next
  fix disk
  assume u: "ls_arch s = ''amd64'' \<and> \<not> ls_uefi s"
  have "int_dec 1 = ''1''" by code_simp
  then have "''New-VM -Name '' @ psQuote (ls_vmName s) @ '' -MemoryStartupBytes '' @ int_dec (ls_memMB s) @ ''MB -Generation 1 -NoVHD | Out-Null''
       \<in> set (ps_machine s forward disk)" for forward
    using u by (simp add: ps_machine_def Let_def)
  then show "''New-VM -Name '' @ psQuote (ls_vmName s) @ '' -MemoryStartupBytes '' @ int_dec (ls_memMB s) @ ''MB -Generation 1 -NoVHD | Out-Null''
       \<in> set (hyperv_lines s disk)"
    by (cases "splitHostfwd (ls_hostfwd s)") (simp_all add: hyperv_lines_def case_prod_unfold del: append.simps)
qed

section \<open>What a failed launch removes\<close>

lemma vbox_remove_fresh: "RExec v (vbox_remove s) \<notin> set (map (RExec v) (vbox_setup s))" "vbox_remove s \<noteq> vbox_create s"
  by (auto simp: vbox_setup_def vbox_remove_def vbox_start_def vbox_create_def split: option.splits)

lemma vbox_ops:
  fixes h :: run_host and v :: string and s :: launchSpec
  assumes "findVBoxManage h = Some v"
  defines "create \<equiv> RExec v (vbox_create s)" and "remove \<equiv> RExec v (vbox_remove s)"
    and "setup \<equiv> attempt_all h (map (RExec v) (vbox_setup s))"
  shows "vbox_launch h s =
    (if \<not> h_ok h create then ([create], Inl (OpFailed create))
     else (create # fst setup @ (if snd setup = Inr () \<or> ls_keep s then [] else [remove]), snd setup))"
  using assms by (simp add: vbox_launch_def then_act_def attempt_def cleanupUnlessStartedOrKept_def Let_def)

lemma hyperv_failed:
  "hyperv_cleanup (ls_vmName s) \<in> set (fst (hyperv_run h timedOut captured s disk)) \<longleftrightarrow> snd (hyperv_run h timedOut captured s disk) \<noteq> Inr (hyperv_report s captured)"
proof -
  have "concat (map (\<lambda>l. l @ LFv) (hyperv_lines s disk)) \<noteq>
      ''Stop-VM -Name '' @ psQuote vm @ '' -TurnOff -ErrorAction SilentlyContinue; Remove-VM -Name '' @ psQuote vm @ '' -Force -ErrorAction SilentlyContinue''" for vm
  proof -
    obtain r where "hyperv_lines s disk = ps_elevated @ r"
      by (cases "splitHostfwd (ls_hostfwd s)") (auto simp: hyperv_lines_def)
    then show ?thesis by (simp add: ps_elevated_def)
  qed
  then have "powershell (concat (map (\<lambda>l. l @ LFv) (hyperv_lines s disk))) \<noteq> hyperv_cleanup (ls_vmName s)"
    unfolding powershell_def hyperv_cleanup_def by blast
  then show ?thesis unfolding hyperv_run_def Let_def by auto
qed

text \<open>
  What is removed after a failed launch. VirtualBox: the machine is unregistered
  exactly when this run created it, a later step failed and it is not to be kept; the last thing a successful run does is to start it.
  Hyper-V: whatever made the script fail, even before it came to creating the machine, any machine of that name
  is turned off and removed.
\<close>

theorem failed_launch_removes:
  assumes "findVBoxManage h = Some v"
  shows "(RExec v (vbox_remove s) \<in> set (fst (vbox_launch h s)) \<longleftrightarrow>
      h_ok h (RExec v (vbox_create s)) \<and> (\<exists>step \<in> set (vbox_setup s). \<not> h_ok h (RExec v step)) \<and> \<not> ls_keep s) \<and>
    (snd (vbox_launch h s) = Inr () \<longrightarrow> last (fst (vbox_launch h s)) = RExec v (vbox_start s)) \<and>
    (\<forall>timedOut captured disk e. snd (hyperv_run h timedOut captured s disk) = Inl e \<longrightarrow>
       hyperv_cleanup (ls_vmName s) \<in> set (fst (hyperv_run h timedOut captured s disk)))"
proof (intro conjI allI impI)
  note v = vbox_ops [OF assms, of s]
  have m: "snd (attempt_all h (map (RExec v) (vbox_setup s))) = Inr () \<longleftrightarrow> (\<forall>step \<in> set (vbox_setup s). h_ok h (RExec v step))"
    by (auto simp: attempt_all_Inr)
  have n: "RExec v (vbox_remove s) \<notin> set (fst (attempt_all h (map (RExec v) (vbox_setup s))))"
    using attempt_all_ops [of h "map (RExec v) (vbox_setup s)"] vbox_remove_fresh(1) [of v s] by blast
  show "RExec v (vbox_remove s) \<in> set (fst (vbox_launch h s)) \<longleftrightarrow>
      h_ok h (RExec v (vbox_create s)) \<and> (\<exists>step \<in> set (vbox_setup s). \<not> h_ok h (RExec v step)) \<and> \<not> ls_keep s"
    using n vbox_remove_fresh(2) [of s] m unfolding v by auto
  assume r: "snd (vbox_launch h s) = Inr ()"
  then have "\<forall>step \<in> set (vbox_setup s). h_ok h (RExec v step)" using m unfolding v by (auto split: if_splits)
  then have "fst (vbox_launch h s) = RExec v (vbox_create s) # map (RExec v) (vbox_setup s)"
    using r m attempt_all_done [of "map (RExec v) (vbox_setup s)" h] unfolding v by (auto split: if_splits)
  then show "last (fst (vbox_launch h s)) = RExec v (vbox_start s)" by (simp add: vbox_setup_def)
next
  fix timedOut captured disk e
  assume "snd (hyperv_run h timedOut captured s disk) = Inl e"
  then show "hyperv_cleanup (ls_vmName s) \<in> set (fst (hyperv_run h timedOut captured s disk))"
    by (simp add: hyperv_failed)
qed

section \<open>Quoting for PowerShell\<close>

text \<open>
  PowerShell's single-quoted literals end at any of five quotation marks, the ASCII one and the typographic
  U+2018 to U+201B (three bytes in UTF-8); two of them in a row stand for the second. The reader starts after the opening
  mark and returns the value and what follows the literal.
\<close>

fun typographic_at :: "string \<Rightarrow> bool" where
  "typographic_at (a # b # c # s) \<longleftrightarrow> a = CHR 0xE2 \<and> b = CHR 0x80 \<and> c \<in> set [CHR 0x98, CHR 0x99, CHR 0x9A, CHR 0x9B]"
| "typographic_at s \<longleftrightarrow> False"

definition quote_at :: "string \<Rightarrow> nat" where
  "quote_at s = (if typographic_at s then 3 else if s \<noteq> [] \<and> hd s = CHR 0x27 then 1 else 0)"

function ps_literal :: "string \<Rightarrow> (string \<times> string) option" where
  "ps_literal s =
     (let n = quote_at s; r = drop n s; m = quote_at r in
      if s = [] then None
      else if n = 0 then map_option (\<lambda>(v, rest). (hd s # v, rest)) (ps_literal (tl s))
      else if m = 0 then Some ([], r)
      else map_option (\<lambda>(v, rest). (take m r @ v, rest)) (ps_literal (drop m r)))"
  by pat_completeness auto
termination by (relation "measure length") (auto simp: quote_at_def split: if_splits)

declare ps_literal.simps [simp del]

fun no_typographic :: "string \<Rightarrow> bool" where
  "no_typographic [] \<longleftrightarrow> True"
| "no_typographic (c # s) \<longleftrightarrow> \<not> typographic_at (c # s) \<and> no_typographic s"

definition ps_escape :: "string \<Rightarrow> string" where
  "ps_escape s = concat (map (\<lambda>x. if x = CHR 0x27 then SQ @ SQ else [x]) s)"

lemma psQuote_escape: "psQuote s = SQ @ ps_escape s @ SQ"
  unfolding psQuote_def go_replace_all_char ps_escape_def by simp

lemma ps_escape_simps [simp]:
  "ps_escape [] = []"
  "ps_escape (c # s) = (if c = CHR 0x27 then SQ @ SQ else [c]) @ ps_escape s"
  by (simp_all add: ps_escape_def)

lemma typographic_at_char: "typographic_at (c # s) \<longleftrightarrow> c = CHR 0xE2 \<and>
    (\<exists>d r. s = CHR 0x80 # d # r \<and> d \<in> set [CHR 0x98, CHR 0x99, CHR 0x9A, CHR 0x9B])"
  by (cases "(c # s)" rule: typographic_at.cases) auto

lemma typographic_at_tail:
  "c \<noteq> CHR 0x27 \<Longrightarrow> typographic_at (c # ps_escape s @ CHR 0x27 # rest) \<longleftrightarrow> typographic_at (c # s)"
proof (cases s)
  case (Cons d t)
  then show ?thesis by (cases t) (auto simp: typographic_at_char )
qed (simp add: typographic_at_char)

lemma quote_at_quote: "quote_at (CHR 0x27 # s) = 1"
  by (simp add: quote_at_def typographic_at_char)

lemma ps_literal_quote:
  "ps_literal (CHR 0x27 # s) = (if quote_at s = 0 then Some ([], s)
     else map_option (\<lambda>(v, rest). (take (quote_at s) s @ v, rest)) (ps_literal (drop (quote_at s) s)))"
  by (subst ps_literal.simps) (simp add: quote_at_quote Let_def)

lemma ps_literal_plain: "quote_at (c # s) = 0 \<Longrightarrow> ps_literal (c # s) = map_option (\<lambda>(v, rest). (c # v, rest)) (ps_literal s)"
  by (subst ps_literal.simps) (simp add: Let_def)

lemma quote_at_plain: "quote_at (c # s) = 0 \<longleftrightarrow> c \<noteq> CHR 0x27 \<and> \<not> typographic_at (c # s)"
  by (simp add: quote_at_def)

lemma ps_literal_escape:
  assumes "no_typographic s" and "quote_at rest = 0"
  shows "ps_literal (ps_escape s @ CHR 0x27 # rest) = Some (s, rest)"
  using assms(1)
proof (induction s)
  case Nil
  then show ?case using assms(2) by (simp add: ps_literal_quote)
next
  case (Cons c s)
  show ?case
  proof (cases "c = CHR 0x27")
    case True
    then show ?thesis using Cons by (simp add:  ps_literal_quote quote_at_quote)
  next
    case False
    then have "quote_at (c # ps_escape s @ CHR 0x27 # rest) = 0"
      using Cons.prems by (simp add: quote_at_plain typographic_at_tail)
    then show ?thesis using False Cons by (simp add: ps_literal_plain)
  qed
qed

lemma ps_literal_breaks:
  assumes "no_typographic a" and "m \<in> set [CHR 0x98, CHR 0x99, CHR 0x9A, CHR 0x9B]" and "quote_at (ps_escape b @ CHR 0x27 # rest) = 0"
  shows "ps_literal (ps_escape (a @ [CHR 0xE2, CHR 0x80, m] @ b) @ CHR 0x27 # rest) = Some (a, ps_escape b @ CHR 0x27 # rest)"
  using assms(1)
proof (induction a)
  case Nil
  have "typographic_at (CHR 0xE2 # CHR 0x80 # m # t)" for t using assms(2) by simp
  then have q: "quote_at (CHR 0xE2 # CHR 0x80 # m # t) = 3" for t by (simp add: quote_at_def)
  have "m \<noteq> CHR 0x27" using assms(2) by auto
  then show ?case using q assms(3) by (subst ps_literal.simps) (simp add: Let_def)
next
  case (Cons c a)
  let ?s = "a @ [CHR 0xE2, CHR 0x80, m] @ b"
  show ?case
  proof (cases "c = CHR 0x27")
    case True
    then show ?thesis using Cons by (simp add:  ps_literal_quote quote_at_quote)
  next
    case False
    have "\<not> typographic_at (c # ?s)"
      using Cons.prems by (cases a; cases "tl a") (auto simp: typographic_at_char)
    then have "quote_at (c # ps_escape ?s @ CHR 0x27 # rest) = 0"
      using False by (simp only: quote_at_plain typographic_at_tail simp_thms not_False_eq_True)
    then show ?thesis using False Cons by (simp add: ps_literal_plain)
  qed
qed

text \<open>
  Property C29. Quoting for PowerShell: read as a single-quoted literal, a quoted value is exactly that
  value, whatever ASCII quotes are in it, as long as it has no typographic quotation mark; from the first such mark on, the
  rest of the value is outside the literal and is read as script.
\<close>

theorem psQuote_roundtrip:
  "(no_typographic s \<and> quote_at rest = 0 \<longrightarrow> ps_literal (tl (psQuote s @ rest)) = Some (s, rest)) \<and>
   (s = a @ [CHR 0xE2, CHR 0x80, m] @ b \<and> no_typographic a \<and> m \<in> set [CHR 0x98, CHR 0x99, CHR 0x9A, CHR 0x9B] \<and>
      b \<noteq> [] \<and> quote_at (ps_escape b @ SQ @ rest) = 0 \<longrightarrow>
    ps_literal (tl (psQuote s @ rest)) = Some (a, ps_escape b @ SQ @ rest))"
  using ps_literal_escape [of s rest] ps_literal_breaks [of a m b rest]
  by (auto simp: psQuote_escape)

section \<open>Concrete launches\<close>

definition ex_host :: run_host where
  "ex_host =
     \<lparr> h_os = ''linux'', h_arch = ''amd64'', h_env = (\<lambda>k. []), h_lookPath = (\<lambda>n. Some (''/usr/bin/'' @ n)), h_stat = (\<lambda>p. Some 0),
       h_abs = (\<lambda>p. Some (''/w/'' @ p)), h_tmp = ''/tmp'', h_workDir = ''/tmp/d'', h_ok = (\<lambda>p. p \<noteq> RExec ''/usr/bin/VBoxManage''
         [''startvm'', ''vm'', ''--type'', ''headless'']) \<rparr>"

definition ex_launch :: launchSpec where
  "ex_launch =
     \<lparr> ls_imagePath = ''/w/disk.img'', ls_isISO = False, ls_arch = ''amd64'', ls_uefi = False, ls_memMB = 512, ls_smp = 1,
       ls_hostfwd = ''8080:80'', ls_hostfwdBind = ''127.0.0.1'', ls_vmName = ''vm'', ls_keep = False, ls_accel = ''tcg'',
       ls_ovmfCode = [], ls_ovmfVars = [] \<rparr>"

lemma ex_run_check: "run_check ex_host \<lparr> rf_spec = ex_launch, rf_backend = ''vbox'', rf_args = [''disk.img''] \<rparr> = Inr ex_launch"
proof -
  have v: "validateHostfwd ''8080:80'' = Inr ()" by code_simp
  have e: "go_ext ex_host ''/w/disk.img'' = ''.img''" by (simp add: go_ext_def ex_host_def)
  have i: "\<not> is_iso ex_host ''/w/disk.img''" unfolding is_iso_def e by code_simp
  have a: "h_abs ex_host ''disk.img'' = Some ''/w/disk.img''" "h_stat ex_host p = Some 0" for p by (simp_all add: ex_host_def)
  show ?thesis by (simp add: run_check_def ex_launch_def a v i Let_def)
qed

theorem forwarding_as_asked_witness:
  "validateHostfwd ''8080:80'' = Inr () \<and>
   [''modifyvm'', ''vm'', ''--natpf1'', ''cnimbus,tcp,127.0.0.1,8080,,80''] \<in> set (vbox_setup ex_launch)"
proof -
  have v: "validateHostfwd ''8080:80'' = Inr ()" by code_simp
  have f: "ls_hostfwd ex_launch = ''8080'' @ '':'' @ ''80''" "ls_vmName ex_launch = ''vm''" "ls_hostfwdBind ex_launch = ''127.0.0.1''"
    by (simp_all add: ex_launch_def)
  obtain hp gp where h: "ls_hostfwd ex_launch = hp @ '':'' @ gp" "valid_port hp" "valid_port gp"
    and r: "[''modifyvm'', ls_vmName ex_launch, ''--natpf1'', ''cnimbus,tcp,'' @ ls_hostfwdBind ex_launch @ '','' @ hp @ '',,'' @ gp] \<in> set (vbox_setup ex_launch)"
    using forwarding_as_asked [OF ex_run_check] by blast
  have "CHR '':'' \<notin> set hp" using h(2) by (auto simp: valid_port_def go_atoi_def is_digit_def list_all_iff split: option.splits list.splits if_splits)
  then have "go_split (CHR '':'') (ls_hostfwd ex_launch) = hp # go_split (CHR '':'') gp"
    using h(1) go_split_append [of "CHR '':''" hp gp] by simp
  moreover have "go_split (CHR '':'') (ls_hostfwd ex_launch) = [''8080'', ''80'']" by code_simp
  ultimately have "hp = ''8080''" "go_split (CHR '':'') gp = [''80'']" by simp_all
  moreover from this(2) have "gp = ''80''" using go_join_split [of "CHR '':''" gp] by simp
  ultimately have "hp = ''8080'' \<and> gp = ''80''" by simp
  with v r f show ?thesis by simp
qed

theorem raw_image_firmware_witness:
  "\<not> ls_isISO ex_launch \<and> (\<exists>p argv. RExec p argv \<in> set (fst (qemu_launch ex_host ex_launch)) \<and> take 2 argv = [''-M'', ''pc''])"
proof -
  have raw: "\<not> ls_isISO ex_launch" "ls_arch ex_launch = ''amd64'' \<and> \<not> ls_uefi ex_launch" by (simp_all add: ex_launch_def)
  obtain p argv where e: "RExec p argv \<in> set (fst (qemu_launch ex_host ex_launch))"
    by (simp add: qemu_launch_def findQEMU_def findTool_def ex_host_def ex_launch_def then_act_def qemu_firmware_def attempt_def
        case_prod_unfold Let_def)
  from raw_image_firmware [OF raw(1), THEN conjunct2, THEN conjunct2, THEN mp, OF raw(2), THEN conjunct1, rule_format, OF e]
  have "take 2 argv = [''-M'', ''pc'']" by auto
  with raw e show ?thesis by blast
qed

theorem failed_launch_removes_witness:
  "RExec ''/usr/bin/VBoxManage'' [''unregistervm'', ''vm'', ''--delete''] \<in> set (fst (vbox_launch ex_host ex_launch))"
proof -
  have v: "findVBoxManage ex_host = Some ''/usr/bin/VBoxManage''" by (simp add: findVBoxManage_def findTool_def ex_host_def)
  have s: "vbox_start ex_launch \<in> set (vbox_setup ex_launch)" by (simp add: vbox_setup_def)
  have f: "\<not> h_ok ex_host (RExec ''/usr/bin/VBoxManage'' (vbox_start ex_launch))" "h_ok ex_host (RExec ''/usr/bin/VBoxManage'' (vbox_create ex_launch))"
    "\<not> ls_keep ex_launch" "vbox_remove ex_launch = [''unregistervm'', ''vm'', ''--delete'']"
    by (simp_all add: ex_host_def ex_launch_def vbox_start_def vbox_create_def vbox_remove_def)
  from failed_launch_removes [OF v, of ex_launch, THEN conjunct1] s f show ?thesis by auto
qed

theorem psQuote_roundtrip_witness:
  "(let s = ''it'' @ SQ @ ''s'' in ps_literal (tl (psQuote s @ ''; next'')) = Some (s, ''; next'')) \<and>
   (let s = ''a'' @ [CHR 0xE2, CHR 0x80, CHR 0x99] @ ''; evil'' in ps_literal (tl (psQuote s @ [])) = Some (''a'', ''; evil'' @ SQ))"
proof -
  have 1: "no_typographic (''it'' @ SQ @ ''s'') \<and> quote_at ''; next'' = 0" by (simp add:  quote_at_def)
  have 2: "no_typographic ''a'' \<and> CHR 0x99 \<in> set [CHR 0x98, CHR 0x99, CHR 0x9A, CHR 0x9B] \<and> quote_at (ps_escape ''; evil'' @ SQ @ []) = 0"
    by (simp add: quote_at_def)
  have "ps_escape ''; evil'' = ''; evil''" by simp
  with psQuote_roundtrip [of "''it'' @ SQ @ ''s''" "''; next''", THEN conjunct1]
    psQuote_roundtrip [of "''a'' @ [CHR 0xE2, CHR 0x80, CHR 0x99] @ ''; evil''" "[]" "''a''" "CHR 0x99" "''; evil''", THEN conjunct2] 1 2
  show ?thesis unfolding Let_def by simp
qed

end
