(* ===== verification/Backends.thy ===== *)
theory Backends
  imports Hypervisors
begin

text \<open>
  The interface the run command uses its hypervisors through (\<^verbatim>\<open>backend\<close> of cmd/cnimbus/backend.go): what every
  launch owes its caller, and what the command may conclude whichever backend it chose.
\<close>

section \<open>Truthful actions\<close>

text \<open>
  Success means that nothing that was tried failed, up to tidying away a file afterwards; blaming a call means that it was made
  and failed.
\<close>

definition truthful :: "run_host \<Rightarrow> 'a act \<Rightarrow> bool" where
  "truthful h a \<longleftrightarrow>
     (\<forall>x p. snd a = Inr x \<longrightarrow> p \<in> set (fst a) \<longrightarrow> (\<forall>q. p \<noteq> RRemove q) \<longrightarrow> h_ok h p) \<and>
     (\<forall>p. snd a = Inl (OpFailed p) \<longrightarrow> p \<in> set (fst a) \<and> \<not> h_ok h p)"

lemma truthful_attempt: "truthful h (attempt h p)"
  by (simp add: truthful_def attempt_def)

lemma truthful_then: "truthful h a \<Longrightarrow> (\<And>x. snd a = Inr x \<Longrightarrow> truthful h (f x)) \<Longrightarrow> truthful h (then_act a f)"
  by (auto simp: truthful_def then_act_def Let_def split: sum.splits)

lemma truthful_all: "truthful h (attempt_all h ps)"
proof (induction ps)
  case (Cons p ps)
  then show ?case unfolding attempt_all.simps by (intro truthful_then truthful_attempt)
qed (simp add: truthful_def)

lemma truthful_quiet: "truthful h ([], Inr x)" "(\<forall>p. e \<noteq> OpFailed p) \<Longrightarrow> truthful h (ops, Inl e)"
  by (simp_all add: truthful_def)

text \<open>What is done after a failure, and a file removed whatever happened, do not change the report.\<close>

lemma truthful_cleanup:
  assumes "truthful h a" and "\<And>x. snd a = Inr x \<Longrightarrow> \<forall>p \<in> set ops. \<exists>q. p = RRemove q"
  shows "truthful h (fst a @ ops, snd a)"
  using assms by (cases "snd a") (auto simp: truthful_def)

section \<open>The interface\<close>

locale backend =
  fixes launch :: "run_host \<Rightarrow> launchSpec \<Rightarrow> 'a act"
  assumes launch_truthful: "truthful h (launch h s)"
begin

lemma started: "snd (launch h s) = Inr x \<Longrightarrow> p \<in> set (fst (launch h s)) \<Longrightarrow> \<forall>q. p \<noteq> RRemove q \<Longrightarrow> h_ok h p"
  using launch_truthful [of h s] by (auto simp: truthful_def)

lemma blamed: "snd (launch h s) = Inl (OpFailed p) \<Longrightarrow> p \<in> set (fst (launch h s)) \<and> \<not> h_ok h p"
  using launch_truthful [of h s] by (simp add: truthful_def)

text \<open>On a host where every call goes well no call is blamed.\<close>

lemma calm_host: "(\<And>p. h_ok h p) \<Longrightarrow> snd (launch h s) \<noteq> Inl (OpFailed p)"
  using blamed by blast

end

section \<open>The four backends\<close>

lemma bundled_truthful:
  "(\<forall>x. snd (resolveWindowsBundledOVMF h arch vmName) = Inr (Some x) \<longrightarrow>
      (\<forall>p \<in> set (fst (resolveWindowsBundledOVMF h arch vmName)). h_ok h p)) \<and>
   (\<forall>e. snd (resolveWindowsBundledOVMF h arch vmName) \<noteq> Inl e)"
  by (auto simp: resolveWindowsBundledOVMF_def Let_def split: option.splits if_splits)

lemma resolveOVMF_truthful: "truthful h (resolveOVMF h arch c v vmName)"
proof -
  show ?thesis
    using bundled_truthful [of h arch vmName]
    by (auto simp: truthful_def resolveOVMF_def then_act_def Let_def split: option.splits sum.splits prod.splits if_splits)
qed

lemma qemu_truthful: "truthful h (qemu_launch h s)"
proof (cases "findQEMU h (qemuBinName (ls_arch s))")
  case None
  then show ?thesis by (auto simp: qemu_launch_def truthful_def Let_def split: prod.splits)
next
  case (Some q)
  have f: "truthful h (qemu_firmware h s u)" for u
    by (simp add: qemu_firmware_def resolveOVMF_truthful truthful_quiet)
  show ?thesis
    unfolding qemu_launch_def Let_def Some option.case
    by (auto intro!: truthful_then f truthful_cleanup truthful_attempt split: prod.split)
qed

lemma vbox_truthful: "truthful h (vbox_launch h s)"
proof (cases "findVBoxManage h")
  case None
  then show ?thesis by (simp add: vbox_launch_def truthful_quiet)
next
  case (Some v)
  then show ?thesis
    by (auto intro!: truthful_then truthful_attempt truthful_cleanup truthful_all
        simp: vbox_launch_def Let_def cleanupUnlessStartedOrKept_def)
qed

lemma vmware_truthful: "truthful h (vmware_launch h rels s)"
proof (cases "ls_arch s = ''amd64''")
  case True
  show ?thesis
  proof (cases "findVMrun h rels")
    case None
    then show ?thesis by (simp add: vmware_launch_def True Let_def truthful_quiet)
  next
    case (Some v)
    obtain vmrun hostType where v: "v = (vmrun, hostType)" by (cases v)
    show ?thesis
      unfolding vmware_launch_def Let_def Some option.case v prod.case True
      by (simp only: not_True_eq_False if_False refl,
          intro truthful_then [OF truthful_attempt], rule truthful_cleanup [OF truthful_all], simp)
  qed
qed (simp add: vmware_launch_def truthful_quiet)

lemma hyperv_run_truthful: "truthful h (hyperv_run h timedOut captured s disk)"
  by (auto simp: hyperv_run_def Let_def truthful_def)

lemma hyperv_truthful: "truthful h (hyperv_launch h timedOut captured s)"
proof (cases "ls_arch s = ''amd64'' \<and> \<not> ls_isISO s")
  case True
  show ?thesis
    unfolding hyperv_launch_def Let_def
    by (simp only: True not_True_eq_False not_False_eq_True if_False refl,
        intro truthful_then [OF truthful_attempt], rule truthful_cleanup,
        intro truthful_then [OF truthful_attempt] hyperv_run_truthful, simp)
qed (auto simp: hyperv_launch_def truthful_quiet hyperv_run_truthful)

interpretation qemu: backend qemu_launch
  by unfold_locales (rule qemu_truthful)

interpretation vbox: backend vbox_launch
  by unfold_locales (rule vbox_truthful)

interpretation vmware: backend "\<lambda>h. vmware_launch h rels" for rels
  by unfold_locales (rule vmware_truthful)

interpretation hyperv: backend "\<lambda>h. hyperv_launch h timedOut captured" for timedOut captured
  by unfold_locales (rule hyperv_truthful)

section \<open>The command\<close>

lemma runRun_truthful: "truthful h (runRun h rels timedOut captured fl)"
proof (cases "run_check h fl")
  case (Inl e)
  have "e \<noteq> OpFailed p" for p
    using Inl by (auto simp: run_check_def validateHostfwd_def bindE_Inl_iff Let_def split: list.splits option.splits if_splits)
  then show ?thesis by (simp add: runRun_def Inl truthful_quiet)
next
  case (Inr s)
  then show ?thesis
    by (auto simp: runRun_def intro: qemu.launch_truthful vbox.launch_truthful vmware.launch_truthful
        truthful_then [OF hyperv.launch_truthful] truthful_quiet)
qed



end
