(* ===== verification/Agent.thy ===== *)
theory Agent
  imports Nimbus_Parse Go_Int "HOL-Library.AList"
begin

text \<open>
  The agent that runs in the guest (cmd/cnimbusagent/main.go, http.go and virtioserial.go, with
  internal/agentruntime/agentruntime.go): its command line, the loop that fetches a value and replaces
  the key-value file, and the HTTP, metadata and virtio-serial fetches.

  The network, the device and the file system are parameters; the loop is followed for any finite number of rounds.
\<close>

section \<open>Replacing the file\<close>

type_synonym store = "string \<Rightarrow> string option"

text \<open>The calls of one round that can fail; a failing write has written some bytes.\<close>

record kv_io =
  io_create :: bool
  io_remove :: bool
  io_recreate :: bool
  io_write :: "nat option"
  io_close :: bool
  io_rename :: bool

definition writeExclusive :: "kv_io \<Rightarrow> string \<Rightarrow> string \<Rightarrow> store \<Rightarrow> store \<times> bool" where
  "writeExclusive io path value fs =
     (let opened = (if fs path = None then (fs, io_create io)
                    else if io_remove io then (fs(path := None), io_recreate io) else (fs, False)) in
      if \<not> snd opened then opened
      else case io_write io of
        Some n \<Rightarrow> ((fst opened)(path \<mapsto> take n value), False)
      | None \<Rightarrow> ((fst opened)(path \<mapsto> value), io_close io))"

definition KVPath :: string where "KVPath = ''/var/run/cnimbus-kv.json''"

definition WriteKV :: "kv_io \<Rightarrow> string \<Rightarrow> string \<Rightarrow> store \<Rightarrow> store \<times> bool" where
  "WriteKV io path value fs =
     (let tmp = path @ ''.tmp''; (fs1, ok) = writeExclusive io tmp value fs in
      if \<not> ok then (fs1, False)
      else if io_rename io then (fs1(path := fs1 tmp, tmp := None), True)
      else (fs1, False))"

text \<open>One round: what was fetched, if anything, and how its calls went.\<close>

definition loop_round :: "string \<Rightarrow> store \<Rightarrow> string option \<times> kv_io \<Rightarrow> store" where
  "loop_round path fs r = (case fst r of None \<Rightarrow> fs | Some value \<Rightarrow> fst (WriteKV (snd r) path value fs))"

definition agent_loop :: "string \<Rightarrow> (string option \<times> kv_io) list \<Rightarrow> store \<Rightarrow> store" where
  "agent_loop path rounds fs = foldl (loop_round path) fs rounds"

text \<open>The rounds that write the file, by what can be seen of them.\<close>

fun written_values :: "string \<Rightarrow> store \<Rightarrow> (string option \<times> kv_io) list \<Rightarrow> string list" where
  "written_values path fs [] = []"
| "written_values path fs (r # rs) =
     (case fst r of
        Some value \<Rightarrow> (if snd (WriteKV (snd r) path value fs) then [value] else [])
      | None \<Rightarrow> []) @ written_values path (loop_round path fs r) rs"

lemma writeExclusive_frame: "q \<noteq> p \<Longrightarrow> fst (writeExclusive io p v fs) q = fs q"
  by (simp add: writeExclusive_def Let_def split: option.splits)

lemma writeExclusive_done: "snd (writeExclusive io p v fs) \<Longrightarrow> fst (writeExclusive io p v fs) p = Some v"
  by (auto simp: writeExclusive_def Let_def split: option.splits if_splits)

lemma WriteKV_file:
  "fst (WriteKV io path v fs) path = (if snd (WriteKV io path v fs) then Some v else fs path)"
  using writeExclusive_frame [of path "path @ ''.tmp''" io v fs] writeExclusive_done [of io "path @ ''.tmp''" v fs]
  by (simp add: WriteKV_def Let_def case_prod_unfold)

lemma WriteKV_frame: "q \<noteq> path \<Longrightarrow> q \<noteq> path @ ''.tmp'' \<Longrightarrow> fst (WriteKV io path v fs) q = fs q"
  using writeExclusive_frame [of q "path @ ''.tmp''" io v fs] by (simp add: WriteKV_def Let_def case_prod_unfold)

lemma WriteKV_succeeds:
  assumes "io_create io" "io_remove io" "io_recreate io" "io_write io = None" "io_close io" "io_rename io"
  shows "snd (WriteKV io path v fs)"
  using assms by (simp add: WriteKV_def writeExclusive_def Let_def case_prod_unfold)

text \<open>
  Property C18. The agent's file holds the last value that was fetched and written, or what it held
  before, through any sequence of failing fetches and failing writes: never a part of a value. A round in which nothing fails
  does write, whatever an earlier one left behind; and no other file than the temporary one is touched.
\<close>

theorem kv_holds_last_good:
  "agent_loop path rounds fs path =
     (if written_values path fs rounds = [] then fs path else Some (last (written_values path fs rounds))) \<and>
   (q \<noteq> path \<and> q \<noteq> path @ ''.tmp'' \<longrightarrow> agent_loop path rounds fs q = fs q) \<and>
   (io_create io \<and> io_remove io \<and> io_recreate io \<and> io_write io = None \<and> io_close io \<and> io_rename io \<longrightarrow>
     agent_loop path (rounds @ [(Some v, io)]) fs path = Some v)"
proof (intro conjI impI)
  show "agent_loop path rounds fs path =
     (if written_values path fs rounds = [] then fs path else Some (last (written_values path fs rounds)))"
  proof (induction rounds arbitrary: fs)
    case Nil
    then show ?case by (simp add: agent_loop_def)
  next
    case (Cons r rs)
    have "agent_loop path (r # rs) fs = agent_loop path rs (loop_round path fs r)" by (simp add: agent_loop_def)
    with Cons [of "loop_round path fs r"] show ?case
      by (cases "fst r") (auto simp: loop_round_def WriteKV_file)
  qed
  assume q: "q \<noteq> path \<and> q \<noteq> path @ ''.tmp''"
  show "agent_loop path rounds fs q = fs q"
  proof (induction rounds arbitrary: fs)
    case Nil
    then show ?case by (simp add: agent_loop_def)
  next
    case (Cons r rs)
    have "agent_loop path (r # rs) fs = agent_loop path rs (loop_round path fs r)" by (simp add: agent_loop_def)
    with Cons [of "loop_round path fs r"] q show ?case
      by (cases "fst r") (simp_all add: loop_round_def WriteKV_frame)
  qed
next
  assume io: "io_create io \<and> io_remove io \<and> io_recreate io \<and> io_write io = None \<and> io_close io \<and> io_rename io"
  then have "snd (WriteKV io path v (agent_loop path rounds fs))" using WriteKV_succeeds by blast
  then show "agent_loop path (rounds @ [(Some v, io)]) fs path = Some v"
    by (simp add: agent_loop_def loop_round_def WriteKV_file)
qed

definition ex_io :: kv_io where
  "ex_io = \<lparr> io_create = True, io_remove = True, io_recreate = True, io_write = None, io_close = True, io_rename = True \<rparr>"

theorem kv_holds_last_good_witness:
  "let torn = (Some ''new'', ex_io \<lparr> io_write := Some 1 \<rparr>); fs = Map.empty(KVPath \<mapsto> ''old'') in
   agent_loop KVPath [torn, (None, ex_io)] fs KVPath = Some ''old'' \<and>
   agent_loop KVPath ([torn, (None, ex_io)] @ [(Some ''newer'', ex_io)]) fs KVPath = Some ''newer''"
proof -
  let ?torn = "(Some ''new'', ex_io \<lparr> io_write := Some 1 \<rparr>)" and ?fs = "Map.empty(KVPath \<mapsto> ''old'')"
  have w: "written_values KVPath ?fs [?torn, (None, ex_io)] = []"
    by (simp add: WriteKV_def writeExclusive_def ex_io_def loop_round_def KVPath_def)
  have io: "io_create ex_io \<and> io_remove ex_io \<and> io_recreate ex_io \<and> io_write ex_io = None \<and> io_close ex_io \<and> io_rename ex_io"
    by (simp add: ex_io_def)
  note k = kv_holds_last_good [of KVPath "[?torn, (None, ex_io)]" ?fs "''q''" ex_io "''newer''"]
  have "agent_loop KVPath [?torn, (None, ex_io)] ?fs KVPath = Some ''old''" using k w by simp
  moreover have "agent_loop KVPath ([?torn, (None, ex_io)] @ [(Some ''newer'', ex_io)]) ?fs KVPath = Some ''newer''"
    using k io by blast
  ultimately show ?thesis by (simp add: Let_def)
qed

section \<open>HTTP\<close>

definition maxAgentResponseBytes :: int where "maxAgentResponseBytes = 2 ^ 20"

text \<open>A response: its status, the bytes of its body and whether reading them all goes well.\<close>

record agent_response =
  ar_Status :: int
  ar_Body :: string
  ar_Complete :: bool

datatype json_error = NotJSON | NoField string | NotAString string

datatype agent_error =
    RequestFailed string
  | BodyFailed string
  | BodyTooLong string
  | BadStatus string int string
  | TokenFailed agent_error
  | BadToken json_error
  | DeviceFailed string
  | NoData string

record agent_request =
  aq_Method :: string
  aq_URL :: string
  aq_Headers :: "(string \<times> string) list"
  aq_Body :: string

type_synonym network = "agent_request \<Rightarrow> agent_response option"

text \<open>Reading stops one byte past the limit; an error before that is an error.\<close>

definition readLimitedBody :: "string \<Rightarrow> agent_response \<Rightarrow> agent_error + string" where
  "readLimitedBody url resp =
     (if maxAgentResponseBytes < int (length (ar_Body resp)) then Inl (BodyTooLong url)
      else if \<not> ar_Complete resp then Inl (BodyFailed url)
      else Inr (ar_Body resp))"

definition doRequest :: "network \<Rightarrow> agent_request \<Rightarrow> agent_error + string" where
  "doRequest net q =
     (case net q of
        None \<Rightarrow> Inl (RequestFailed (aq_URL q))
      | Some resp \<Rightarrow>
          bindE (readLimitedBody (aq_URL q) resp) (\<lambda>data.
          if ar_Status resp \<noteq> 200 then Inl (BadStatus (aq_URL q) (ar_Status resp) data) else Inr data))"

definition httpFetch :: "network \<Rightarrow> string \<Rightarrow> (string \<times> string) list \<Rightarrow> agent_error + string" where
  "httpFetch net url headers = doRequest net \<lparr> aq_Method = ''GET'', aq_URL = url, aq_Headers = headers, aq_Body = [] \<rparr>"

definition aws_token_request :: agent_request where
  "aws_token_request =
     \<lparr> aq_Method = ''PUT'', aq_URL = ''http://169.254.169.254/latest/api/token'',
       aq_Headers = [(''X-aws-ec2-metadata-token-ttl-seconds'', ''21600'')], aq_Body = [] \<rparr>"

definition aws_data_request :: "string \<Rightarrow> string \<Rightarrow> agent_request" where
  "aws_data_request path token =
     \<lparr> aq_Method = ''GET'', aq_URL = ''http://169.254.169.254/latest/meta-data/'' @ path,
       aq_Headers = [(''X-aws-ec2-metadata-token'', token)], aq_Body = [] \<rparr>"

definition awsFetch :: "network \<Rightarrow> string \<Rightarrow> agent_error + string" where
  "awsFetch net path =
     bindE (wrapE TokenFailed (doRequest net aws_token_request)) (\<lambda>token. doRequest net (aws_data_request path token))"

definition ibm_version :: string where "ibm_version = ''2022-03-01''"

definition ibm_token_request :: agent_request where
  "ibm_token_request =
     \<lparr> aq_Method = ''PUT'', aq_URL = ''http://169.254.169.254/instance_identity/v1/token?version='' @ ibm_version,
       aq_Headers = [(''Metadata-Flavor'', ''ibm''), (''Content-Type'', ''application/json'')],
       aq_Body = ''{'' @ DQ @ ''expires_in'' @ DQ @ '': 3600}'' \<rparr>"

definition ibm_data_request :: "string \<Rightarrow> string \<Rightarrow> agent_request" where
  "ibm_data_request path token =
     \<lparr> aq_Method = ''GET'', aq_URL = ''http://169.254.169.254/metadata/v1/'' @ path @ ''?version='' @ ibm_version,
       aq_Headers = [(''Authorization'', ''Bearer '' @ token)], aq_Body = [] \<rparr>"

text \<open>A JSON object as far as the agent looks into it; encoding/json, which reads one, is a parameter.\<close>

datatype json_value = JString string | JOther

definition extractJSONString :: "(string \<Rightarrow> (string \<times> json_value) list option) \<Rightarrow> string \<Rightarrow> string \<Rightarrow> json_error + string" where
  "extractJSONString unmarshal data field =
     (case unmarshal data of
        None \<Rightarrow> Inl NotJSON
      | Some obj \<Rightarrow>
          (case map_of obj field of
             None \<Rightarrow> Inl (NoField field)
           | Some JOther \<Rightarrow> Inl (NotAString field)
           | Some (JString v) \<Rightarrow> Inr v))"

definition ibmFetch :: "network \<Rightarrow> (string \<Rightarrow> (string \<times> json_value) list option) \<Rightarrow> string \<Rightarrow> agent_error + string" where
  "ibmFetch net unmarshal path =
     bindE (wrapE TokenFailed (doRequest net ibm_token_request)) (\<lambda>tokenResp.
     bindE (wrapE BadToken (extractJSONString unmarshal tokenResp ''access_token'')) (\<lambda>token.
     doRequest net (ibm_data_request path token)))"

section \<open>Virtio-serial\<close>

text \<open>Reading the port until the end of the stream, the deadline, or an error, with the bytes that came before.\<close>

datatype port_end = PortEOF | PortDeadline | PortError

definition virtioSerialFetch :: "(string \<Rightarrow> (string \<times> port_end) option) \<Rightarrow> string \<Rightarrow> agent_error + string" where
  "virtioSerialFetch port device =
     (case port device of
        None \<Rightarrow> Inl (DeviceFailed device)
      | Some (data, e) \<Rightarrow>
          if e = PortError then Inl (DeviceFailed device)
          else if data = [] then Inl (NoData device)
          else Inr data)"

section \<open>The command line\<close>

datatype agent_start = AgentUsage | BadInterval string | UnknownKind string | AgentRuns string string int

definition runtime_kinds :: "string list" where
  "runtime_kinds = [''http'', ''virtio-serial'', ''vboxguest'', ''aws-imds'', ''ibm-imds'', ''vmware'']"

definition agent_main :: "string list \<Rightarrow> agent_start" where
  "agent_main args =
     (case args of
        kind # value # interval # _ \<Rightarrow>
          (case go_atoi interval of
             None \<Rightarrow> BadInterval interval
           | Some n \<Rightarrow>
               if n \<le> 0 then BadInterval interval
               else if kind \<notin> set runtime_kinds then UnknownKind kind
               else AgentRuns kind value (wrap64 (n * 1000000000)))
      | _ \<Rightarrow> AgentUsage)"

definition parseHeadersEnv :: "string \<Rightarrow> (string \<times> string) list" where
  "parseHeadersEnv raw =
     (if raw = [] then []
      else foldl (\<lambda>hs line. let (name, v, ok) = go_cut line '':'' in
                    if ok then AList.update (go_trim_space name) (go_trim_space v) hs else hs)
             [] (go_split (CHR 0x0A) raw))"

section \<open>What is fetched\<close>

lemma doRequest_Inr:
  "doRequest net q = Inr d \<longleftrightarrow>
   (\<exists>resp. net q = Some resp \<and> ar_Status resp = 200 \<and> ar_Complete resp \<and> int (length (ar_Body resp)) \<le> 2 ^ 20 \<and> d = ar_Body resp)"
  by (auto simp: doRequest_def readLimitedBody_def maxAgentResponseBytes_def bindE_Inr_iff split: option.splits if_splits)

text \<open>
  What the agent fetches over HTTP is the whole body of a response with status 200 of at most a
  mebibyte, nothing else; and from the metadata services of EC2 and IBM Cloud it is the answer to a request that carried
  exactly the token the service had handed out for this fetch.
\<close>

theorem agent_fetch_verbatim:
  "(httpFetch net url headers = Inr d \<longleftrightarrow>
     (\<exists>resp. net \<lparr> aq_Method = ''GET'', aq_URL = url, aq_Headers = headers, aq_Body = [] \<rparr> = Some resp \<and>
        ar_Status resp = 200 \<and> ar_Complete resp \<and> int (length (ar_Body resp)) \<le> 2 ^ 20 \<and> d = ar_Body resp)) \<and>
   (awsFetch net path = Inr d \<longleftrightarrow>
     (\<exists>token resp. doRequest net aws_token_request = Inr token \<and> net (aws_data_request path token) = Some resp \<and>
        ar_Status resp = 200 \<and> ar_Complete resp \<and> int (length (ar_Body resp)) \<le> 2 ^ 20 \<and> d = ar_Body resp)) \<and>
   (ibmFetch net unmarshal path = Inr d \<longleftrightarrow>
     (\<exists>tokenResp token resp. doRequest net ibm_token_request = Inr tokenResp \<and>
        extractJSONString unmarshal tokenResp ''access_token'' = Inr token \<and> net (ibm_data_request path token) = Some resp \<and>
        ar_Status resp = 200 \<and> ar_Complete resp \<and> int (length (ar_Body resp)) \<le> 2 ^ 20 \<and> d = ar_Body resp))"
  unfolding httpFetch_def awsFetch_def ibmFetch_def bindE_Inr_iff wrapE_Inr_iff doRequest_Inr [of net _ d] by blast

text \<open>
  A manifest is accepted with an interval the agent refuses: any whole number parses, but
  the agent exits at once, at every respawn, unless it is positive; for a positive one up to 9223372036 seconds it runs with that
  many, in nanoseconds.
\<close>

theorem agent_interval_gap:
  assumes "Parse path data buildArgs = Inr hf" and "nf_Agent hf = Some a"
  shows "\<exists>n. go_atoi (ag_Interval a) = Some n \<and>
    (if n \<le> 0 then agent_main [ag_Kind a, ag_URL a, ag_Interval a] = BadInterval (ag_Interval a)
     else if n \<le> 9223372036 then agent_main [ag_Kind a, ag_URL a, ag_Interval a] = AgentRuns (ag_Kind a) (ag_URL a) (n * 1000000000)
     else agent_main [ag_Kind a, ag_URL a, ag_Interval a] = AgentRuns (ag_Kind a) (ag_URL a) (wrap64 (n * 1000000000)))"
proof -
  have ok: "agent_ok a"
    using Parse_ok [OF assms(1)] assms(2) by (simp add: nimbus_ok_def lists_ok_def)
  then obtain n where n: "go_atoi (ag_Interval a) = Some n" by (auto simp: agent_ok_def)
  have k: "ag_Kind a \<in> set runtime_kinds" using ok by (auto simp: agent_ok_def agent_kinds_def runtime_kinds_def)
  have w: "0 < n \<Longrightarrow> n \<le> 9223372036 \<Longrightarrow> wrap64 (n * 1000000000) = n * 1000000000" by (simp add: wrap64_id)
  show ?thesis using n k w by (auto simp: agent_main_def)
qed

theorem agent_interval_gap_witness:
  "\<exists>hf a. Parse ''Nimbusfile'' (Some ''AGENT http://h/kv 0'') (\<lambda>_. None) = Inr hf \<and> nf_Agent hf = Some a \<and>
     agent_main [ag_Kind a, ag_URL a, ag_Interval a] = BadInterval ''0''"
proof -
  have "map_sum id (\<lambda>hf. map_option (\<lambda>a. (ag_Kind a, ag_Interval a)) (nf_Agent hf)) (Parse ''Nimbusfile'' (Some ''AGENT http://h/kv 0'') (\<lambda>_. None)) =
     Inr (Some (''http'', ''0''))" by code_simp
  then obtain hf a where p: "Parse ''Nimbusfile'' (Some ''AGENT http://h/kv 0'') (\<lambda>_. None) = Inr hf" "nf_Agent hf = Some a" "ag_Interval a = ''0''"
    by (cases "Parse ''Nimbusfile'' (Some ''AGENT http://h/kv 0'') (\<lambda>_. None)") auto
  have z: "go_atoi ''0'' = Some 0" by code_simp
  from agent_interval_gap [OF p(1,2)] p z show ?thesis by auto
qed

end
