(* ===== verification/KV_Serve.thy ===== *)
theory KV_Serve
  imports Go_Strconv
begin

text \<open>
  The host side of the AGENT directive (cmd/cnimbus/kvserve.go): the checks made before serving, and the answer
  to a request. The file is read again for every request; whether a text is JSON is a parameter, and so are
  the random bytes of a generated token.
\<close>

datatype kv_file = KvMissing | KvUnreadable | KvContent string

datatype kv_error = TlsPairIncomplete | NoRandomness | KvCreate string | KvNotJSON string

record kv_flags =
  kf_file :: string
  kf_token :: string
  kf_generateToken :: bool
  kf_tlsCert :: string
  kf_tlsKey :: string

record kv_host =
  kh_rand :: "string option"
  kh_write :: bool
  kh_json :: "string \<Rightarrow> bool"

definition kv_token :: "kv_host \<Rightarrow> kv_flags \<Rightarrow> kv_error + string" where
  "kv_token kh fl =
     (if kf_generateToken fl
      then (case kh_rand kh of None \<Rightarrow> Inl NoRandomness | Some buf \<Rightarrow> Inr (go_hex_encode buf))
      else Inr (kf_token fl))"

text \<open>Starting: the token that requests must carry, and the file as it is then.\<close>

definition runKVServe :: "kv_host \<Rightarrow> kv_flags \<Rightarrow> kv_file \<Rightarrow> kv_error + (string \<times> kv_file)" where
  "runKVServe kh fl f =
     (if (kf_tlsCert fl = []) \<noteq> (kf_tlsKey fl = []) then Inl TlsPairIncomplete
      else bindE (kv_token kh fl) (\<lambda>token.
        case f of
          KvMissing \<Rightarrow> if kh_write kh then Inr (token, KvContent (''{}'' @ [CHR 0x0A])) else Inl (KvCreate (kf_file fl))
        | KvUnreadable \<Rightarrow> Inr (token, f)
        | KvContent d \<Rightarrow> if kh_json kh d then Inr (token, f) else Inl (KvNotJSON (kf_file fl))))"

datatype kv_answer = Unauthorized | ServerError | Served string

definition bearer :: string where "bearer = ''Bearer ''"

definition kv_authorized :: "string \<Rightarrow> string \<Rightarrow> bool" where
  "kv_authorized token auth \<longleftrightarrow>
     \<not> (length auth \<noteq> length bearer + length token \<or> take (length bearer) auth \<noteq> bearer \<or> drop (length bearer) auth \<noteq> token)"

definition kv_handle :: "kv_host \<Rightarrow> string \<Rightarrow> kv_file \<Rightarrow> string \<Rightarrow> kv_answer" where
  "kv_handle kh token f auth =
     (if token \<noteq> [] \<and> \<not> kv_authorized token auth then Unauthorized
      else case f of
        KvMissing \<Rightarrow> ServerError
      | KvUnreadable \<Rightarrow> ServerError
      | KvContent d \<Rightarrow> if kh_json kh d then Served d else ServerError)"

lemma kv_authorized_iff: "kv_authorized token auth \<longleftrightarrow> auth = bearer @ token"
proof
  assume a: "kv_authorized token auth"
  then have "take (length bearer) auth @ drop (length bearer) auth = bearer @ token" by (simp add: kv_authorized_def)
  then show "auth = bearer @ token" by simp
qed (simp add: kv_authorized_def)

text \<open>
  What the key-value server gives out: a request is answered with a text exactly when that
  text is what the file holds at that moment, it is JSON, and the request carries the token if there is one; every request is
  refused without looking at the file when the token is wrong; and a server told to generate its token never serves openly.
\<close>

theorem kv_serve_guarded:
  assumes "runKVServe kh fl f0 = Inr (token, f1)" and "\<forall>b. kh_rand kh = Some b \<longrightarrow> length b = 24"
  shows "(\<forall>f auth d. kv_handle kh token f auth = Served d \<longleftrightarrow>
      f = KvContent d \<and> kh_json kh d \<and> (token = [] \<or> auth = bearer @ token)) \<and>
    (\<forall>f auth. kv_handle kh token f auth = Unauthorized \<longleftrightarrow> token \<noteq> [] \<and> auth \<noteq> bearer @ token) \<and>
    (kf_generateToken fl \<longrightarrow> length token = 48)"
proof (intro conjI allI impI)
  fix f auth d
  show "kv_handle kh token f auth = Served d \<longleftrightarrow> f = KvContent d \<and> kh_json kh d \<and> (token = [] \<or> auth = bearer @ token)"
    by (cases f) (auto simp: kv_handle_def kv_authorized_iff)
  show "kv_handle kh token f auth = Unauthorized \<longleftrightarrow> token \<noteq> [] \<and> auth \<noteq> bearer @ token"
    by (cases f) (auto simp: kv_handle_def kv_authorized_iff)
next
  assume g: "kf_generateToken fl"
  have "length (go_hex_encode b) = 2 * length b" for b by (induction b) (simp_all add: go_hex_encode_def)
  then show "length token = 48"
    using assms g by (auto simp: runKVServe_def bindE_Inr_iff kv_token_def split: if_splits option.splits kv_file.splits)
qed

definition ex_kv_host :: kv_host where
  "ex_kv_host = \<lparr> kh_rand = Some (replicate 24 (CHR ''a'')), kh_write = True, kh_json = (\<lambda>d. d = ''{}'' @ [CHR 0x0A]) \<rparr>"

theorem kv_serve_guarded_witness:
  "\<exists>token. runKVServe ex_kv_host \<lparr> kf_file = ''kv.json'', kf_token = [], kf_generateToken = True, kf_tlsCert = [], kf_tlsKey = [] \<rparr> KvMissing
     = Inr (token, KvContent (''{}'' @ [CHR 0x0A])) \<and> length token = 48 \<and>
     kv_handle ex_kv_host token (KvContent (''{}'' @ [CHR 0x0A])) ''Basic x'' = Unauthorized"
proof -
  let ?fl = "\<lparr> kf_file = ''kv.json'', kf_token = [], kf_generateToken = True, kf_tlsCert = [], kf_tlsKey = [] \<rparr>"
  obtain token where r: "runKVServe ex_kv_host ?fl KvMissing = Inr (token, KvContent (''{}'' @ [CHR 0x0A]))"
    by (simp add: runKVServe_def kv_token_def ex_kv_host_def)
  have l: "\<forall>b. kh_rand ex_kv_host = Some b \<longrightarrow> length b = 24" by (simp add: ex_kv_host_def)
  note g = kv_serve_guarded [OF r l]
  have n: "length token = 48" using g by simp
  then have "token \<noteq> []" by auto
  moreover have "''Basic x'' \<noteq> bearer @ token" by (simp add: bearer_def)
  ultimately have "kv_handle ex_kv_host token (KvContent (''{}'' @ [CHR 0x0A])) ''Basic x'' = Unauthorized"
    using g by blast
  with r n show ?thesis by blast
qed

end
