(* ===== verification/Live_Config.thy ===== *)
theory Live_Config
  imports Agent KV_Serve
begin

text \<open>
  Live configuration from end to end: the file the host edits, the server that hands it out
  (cmd/cnimbus/kvserve.go), the headers of the manifest on their way into the agent, the agent's loop
  (cmd/cnimbusagent, internal/agentruntime) and a workload that reads the result, the example server
  (cmd/helloserver/main.go).

  The transport of HTTP and encoding/json are parameters.
\<close>

section \<open>The example workload\<close>

definition kvPath :: string where "kvPath = ''/var/run/cnimbus-kv.json''"

text \<open>\<^verbatim>\<open>message\<close>: what encoding/json puts into the field of that name, None if the text is not an object it can decode.\<close>

definition readAgentMessage :: "(string \<Rightarrow> string option) \<Rightarrow> store \<Rightarrow> string option" where
  "readAgentMessage message fs =
     (case fs kvPath of
        None \<Rightarrow> None
      | Some data \<Rightarrow>
          (case message data of
             None \<Rightarrow> None
           | Some m \<Rightarrow> if m = [] then None else Some m))"

text \<open>The body of a response; writing it can fail after the first line, when the client is gone.\<close>

definition hello_page :: "(string \<Rightarrow> string option) \<Rightarrow> string \<Rightarrow> bool \<Rightarrow> store \<Rightarrow> string" where
  "hello_page message hostname delivered fs =
     ''hello from cnimbus ('' @ hostname @ '')'' @ NL @
     (if \<not> delivered then []
      else case readAgentMessage message fs of None \<Rightarrow> [] | Some m \<Rightarrow> ''agent says: '' @ m @ NL)"

definition helloserver_addr :: "string list \<Rightarrow> string" where
  "helloserver_addr args = (case args of [] \<Rightarrow> '':8080'' | a # _ \<Rightarrow> a)"

section \<open>The host's server as the agent's network\<close>

text \<open>A header as net/http finds it: the name without regard to case, nothing if it is not there.\<close>

definition header_value :: "(string \<times> string) list \<Rightarrow> string \<Rightarrow> string" where
  "header_value hs name =
     (case List.find (\<lambda>(n, v). go_to_lower n = go_to_lower name) hs of None \<Rightarrow> [] | Some (n, v) \<Rightarrow> v)"

definition kv_response :: "kv_answer \<Rightarrow> agent_response" where
  "kv_response a =
     (case a of
        Unauthorized \<Rightarrow> \<lparr> ar_Status = 401, ar_Body = ''unauthorized'' @ NL, ar_Complete = True \<rparr>
      | ServerError \<Rightarrow> \<lparr> ar_Status = 500, ar_Body = [], ar_Complete = True \<rparr>
      | Served d \<Rightarrow> \<lparr> ar_Status = 200, ar_Body = d, ar_Complete = True \<rparr>)"

definition kv_network :: "kv_host \<Rightarrow> string \<Rightarrow> string \<Rightarrow> kv_file \<Rightarrow> network" where
  "kv_network kh token url f =
     (\<lambda>q. if aq_URL q = url then Some (kv_response (kv_handle kh token f (header_value (aq_Headers q) ''Authorization''))) else None)"

text \<open>One poll: what the agent's fetch gives while the file is as it is, and how its own calls go.\<close>

definition kv_poll :: "kv_host \<Rightarrow> string \<Rightarrow> string \<Rightarrow> (string \<times> string) list \<Rightarrow> kv_file \<times> kv_io \<Rightarrow> string option \<times> kv_io" where
  "kv_poll kh token url headers =
     (\<lambda>(f, io). (case httpFetch (kv_network kh token url f) url headers of Inl e \<Rightarrow> None | Inr d \<Rightarrow> Some d, io))"

section \<open>Headers\<close>

lemma go_trim_space_blank: "go_trim_space (CHR '' '' # v) = go_trim_space v"
  by (simp add: go_trim_space_def trim_left_space.simps [of "CHR '' '' # v"] space_len_def ascii_space_def)

text \<open>What the agent makes of the variable the generated script exports.\<close>

lemma headers_arrive:
  assumes "hs \<noteq> []" and "\<forall>h \<in> set hs. CHR 0x0A \<notin> set (ah_Name h) \<union> set (ah_Value h) \<and> CHR '':'' \<notin> set (ah_Name h)"
  shows "parseHeadersEnv (go_join (map (\<lambda>h. ah_Name h @ '': '' @ ah_Value h) hs) NL) =
    foldl (\<lambda>acc h. AList.update (go_trim_space (ah_Name h)) (go_trim_space (ah_Value h)) acc) [] hs"
proof -
  let ?line = "\<lambda>h. ah_Name h @ '': '' @ ah_Value h"
  have cut: "go_cut (?line h) '':'' = (ah_Name h, CHR '' '' # ah_Value h, True)" if "h \<in> set hs" for h
  proof -
    have "\<forall>x \<in> set (ah_Name h). x \<noteq> CHR '':''" using that assms(2) by auto
    then show ?thesis by (simp add: go_cut_char takeWhile_append2 dropWhile_append2)
  qed
  have lines: "go_split (CHR 0x0A) (go_join (map ?line hs) NL) = map ?line hs"
    using assms by (intro go_split_join) auto
  have "go_join (map ?line hs) NL \<noteq> []" using assms(1) by (cases hs rule: list.exhaust; cases "tl hs") auto
  then have "parseHeadersEnv (go_join (map ?line hs) NL) =
      foldl (\<lambda>acc l. let (name, v, ok) = go_cut l '':'' in
                    if ok then AList.update (go_trim_space name) (go_trim_space v) acc else acc) [] (map ?line hs)"
    by (simp only: parseHeadersEnv_def lines if_False)
  also have "\<dots> = foldl (\<lambda>acc h. AList.update (go_trim_space (ah_Name h)) (go_trim_space (ah_Value h)) acc) [] hs"
    unfolding foldl_map 
    by (rule foldl_cong) (simp_all add: cut [simplified] go_trim_space_blank)
  finally show ?thesis .
qed

section \<open>From the file to the workload\<close>

lemma kv_poll_Some:
  "fst (kv_poll kh token url headers (f, io)) = Some d \<longleftrightarrow>
   f = KvContent d \<and> kh_json kh d \<and> int (length d) \<le> 2 ^ 20 \<and>
   (token = [] \<or> header_value headers ''Authorization'' = bearer @ token)"
proof -
  let ?auth = "header_value headers ''Authorization''"
  have "fst (kv_poll kh token url headers (f, io)) = Some d \<longleftrightarrow>
      httpFetch (kv_network kh token url f) url headers = Inr d"
    by (simp add: kv_poll_def split: sum.splits)
  also have "\<dots> \<longleftrightarrow> (\<exists>resp. kv_response (kv_handle kh token f ?auth) = resp \<and> ar_Status resp = 200 \<and> ar_Complete resp \<and>
      int (length (ar_Body resp)) \<le> 2 ^ 20 \<and> d = ar_Body resp)"
    by (simp add: httpFetch_def doRequest_Inr kv_network_def)
  also have "\<dots> \<longleftrightarrow> kv_handle kh token f ?auth = Served d \<and> int (length d) \<le> 2 ^ 20"
    by (cases "kv_handle kh token f ?auth") (auto simp: kv_response_def)
  also have "\<dots> \<longleftrightarrow> f = KvContent d \<and> kh_json kh d \<and> int (length d) \<le> 2 ^ 20 \<and> (token = [] \<or> ?auth = bearer @ token)"
    by (cases f) (auto simp: kv_handle_def kv_authorized_iff)
  finally show ?thesis .
qed

lemma agent_loop_snoc: "agent_loop path (rounds @ [r]) fs = loop_round path (agent_loop path rounds fs) r"
  by (simp add: agent_loop_def)

lemma agent_loop_source:
  "agent_loop path rounds fs path = fs path \<or> (\<exists>r \<in> set rounds. fst r \<noteq> None \<and> agent_loop path rounds fs path = fst r)"
proof (induction rounds rule: rev_induct)
  case (snoc r rounds)
  then show ?case by (cases "fst r") (auto simp: agent_loop_snoc loop_round_def WriteKV_file)
qed (simp add: agent_loop_def)

text \<open>
  Property C19. Live configuration, from the file on the host to the page of the workload: whatever the file went through and
  whatever calls failed, what the guest holds is what it held at first or a text that was, in full, the host's file at some poll,
  valid JSON of at most a mebibyte; an agent without the right token never changes it; and after one poll in which nothing
  fails, the guest holds the host's file of that moment, and the next page shows the message in it.
\<close>

theorem live_config_end_to_end:
  fixes url :: string and headers :: "(string \<times> string) list"
  assumes start: "runKVServe kh fl f0 = Inr (token, f1)"
    and message: "\<And>d. message d \<noteq> None \<Longrightarrow> kh_json kh d"
  defines "poll \<equiv> kv_poll kh token url headers"
    and "authorized \<equiv> token = [] \<or> header_value headers ''Authorization'' = bearer @ token"
  shows "(agent_loop KVPath (map poll polls) fs KVPath \<noteq> fs KVPath \<longrightarrow>
      (\<exists>d io. (KvContent d, io) \<in> set polls \<and> kh_json kh d \<and> int (length d) \<le> 2 ^ 20 \<and>
        agent_loop KVPath (map poll polls) fs KVPath = Some d)) \<and>
    (\<not> authorized \<longrightarrow> agent_loop KVPath (map poll polls) fs KVPath = fs KVPath) \<and>
    (authorized \<and> int (length d) \<le> 2 ^ 20 \<and> message d = Some m \<and> m \<noteq> [] \<and>
      io_create io \<and> io_remove io \<and> io_recreate io \<and> io_write io = None \<and> io_close io \<and> io_rename io \<longrightarrow>
      (let fs' = agent_loop KVPath (map poll (polls @ [(KvContent d, io)])) fs in
       fs' KVPath = Some d \<and>
       hello_page message hostname True fs' =
         ''hello from cnimbus ('' @ hostname @ '')'' @ NL @ ''agent says: '' @ m @ NL))"
proof (intro conjI impI)
  let ?final = "agent_loop KVPath (map poll polls) fs KVPath"
  have src: "\<exists>d io. (KvContent d, io) \<in> set polls \<and> kh_json kh d \<and> int (length d) \<le> 2 ^ 20 \<and> ?final = Some d \<and> authorized"
    if "?final \<noteq> fs KVPath"
  proof -
    obtain f io where p: "(f, io) \<in> set polls" "fst (poll (f, io)) \<noteq> None" "?final = fst (poll (f, io))"
      using agent_loop_source [of KVPath "map poll polls" fs] \<open>?final \<noteq> fs KVPath\<close> by auto
    then obtain d where d: "fst (poll (f, io)) = Some d" by blast
    then have "f = KvContent d \<and> kh_json kh d \<and> int (length d) \<le> 2 ^ 20 \<and> authorized"
      unfolding poll_def kv_poll_Some authorized_def .
    with p(1,3) d show ?thesis by auto
  qed
  then show "\<exists>d io. (KvContent d, io) \<in> set polls \<and> kh_json kh d \<and> int (length d) \<le> 2 ^ 20 \<and> ?final = Some d" if "?final \<noteq> fs KVPath"
    using that by blast
  show "?final = fs KVPath" if "\<not> authorized" using src that by blast
  assume a: "authorized \<and> int (length d) \<le> 2 ^ 20 \<and> message d = Some m \<and> m \<noteq> [] \<and>
      io_create io \<and> io_remove io \<and> io_recreate io \<and> io_write io = None \<and> io_close io \<and> io_rename io"
  then have "kh_json kh d" using message [of d] by simp
  then have "fst (poll (KvContent d, io)) = Some d" "snd (poll (KvContent d, io)) = io"
    using a unfolding poll_def kv_poll_Some authorized_def by (simp_all add: kv_poll_def)
  moreover have "snd (WriteKV io KVPath d (agent_loop KVPath (map poll polls) fs))" using a WriteKV_succeeds by blast
  ultimately have "agent_loop KVPath (map poll (polls @ [(KvContent d, io)])) fs KVPath = Some d"
    by (simp add: agent_loop_snoc loop_round_def WriteKV_file)
  then show "let fs' = agent_loop KVPath (map poll (polls @ [(KvContent d, io)])) fs in fs' KVPath = Some d \<and>
       hello_page message hostname True fs' = ''hello from cnimbus ('' @ hostname @ '')'' @ NL @ ''agent says: '' @ m @ NL"
    using a by (simp add: Let_def hello_page_def readAgentMessage_def kvPath_def KVPath_def)
qed

definition ex_live_host :: kv_host where
  "ex_live_host = \<lparr> kh_rand = None, kh_write = True, kh_json = (\<lambda>d. True) \<rparr>"

definition ex_live_flags :: kv_flags where
  "ex_live_flags = \<lparr> kf_file = ''kv.json'', kf_token = ''t'', kf_generateToken = False, kf_tlsCert = [], kf_tlsKey = [] \<rparr>"

theorem live_config_end_to_end_witness:
  "let headers = parseHeadersEnv (''Authorization: Bearer t'');
       fs' = agent_loop KVPath (map (kv_poll ex_live_host ''t'' ''u'' headers) ([(KvUnreadable, ex_io)] @ [(KvContent ''hi'', ex_io)])) Map.empty
   in runKVServe ex_live_host ex_live_flags KvMissing = Inr (''t'', KvContent (''{}'' @ [CHR 0x0A])) \<and>
      hello_page Some ''vm'' True fs' = ''hello from cnimbus (vm)'' @ NL @ ''agent says: hi'' @ NL"
proof -
  have h: "parseHeadersEnv ''Authorization: Bearer t'' = [(''Authorization'', ''Bearer t'')]" by code_simp
  have s: "runKVServe ex_live_host ex_live_flags KvMissing = Inr (''t'', KvContent (''{}'' @ [CHR 0x0A]))"
    by (simp add: runKVServe_def kv_token_def ex_live_host_def ex_live_flags_def)
  have m: "\<And>d. Some d \<noteq> None \<Longrightarrow> kh_json ex_live_host d" by (simp add: ex_live_host_def)
  have "header_value [(''Authorization'', ''Bearer t'')] ''Authorization'' = bearer @ ''t''" by (simp add: header_value_def bearer_def)
  with live_config_end_to_end [where message = Some and url = "''u''" and headers = "[(''Authorization'', ''Bearer t'')]"
      and polls = "[(KvUnreadable, ex_io)]" and fs = Map.empty and d = "''hi''" and m = "''hi''" and io = ex_io and hostname = "''vm''", OF s m]
  show ?thesis using s h by (simp add: Let_def ex_io_def)
qed

text \<open>
  The metadata paths of the README's own examples are not reached: the agent prefixes the path of the service,
  which the examples already have.
\<close>

lemma documented_metadata_path:
  "aq_URL (aws_data_request ''/latest/meta-data/tags'' token) = ''http://169.254.169.254/latest/meta-data//latest/meta-data/tags''"
  "aq_URL (ibm_data_request ''/metadata/v1/instance'' token) = ''http://169.254.169.254/metadata/v1//metadata/v1/instance?version=2022-03-01''"
  by (simp_all add: aws_data_request_def ibm_data_request_def ibm_version_def)

end
