(* ===== verification/Agent_VMware.thy ===== *)
theory Agent_VMware
  imports Agent Go_Bytes
begin

text \<open>
  The VMware kind of the agent (cmd/cnimbusagent/vmware_linux_amd64.go): one request over the low-bandwidth
  backdoor channel, four bytes to a call, and the reading of the reply.

  A call loads six registers and executes one port instruction. What the host leaves in them is a
  parameter: it may depend on every call made so far. Registers are natural numbers, with the
  narrowing to 32 bits written out.
\<close>

section \<open>One call\<close>

record regs =
  r_ax :: nat
  r_bx :: nat
  r_cx :: nat
  r_dx :: nat
  r_si :: nat
  r_di :: nat

definition u32 :: "nat \<Rightarrow> nat" where "u32 n = n mod 2 ^ 32"

definition bdoorMagic :: nat where "bdoorMagic = 0x564D5868"
definition bdoorPort :: nat where "bdoorPort = 0x5658"
definition bdoorCmdMsg :: nat where "bdoorCmdMsg = 30"

text \<open>\<^verbatim>\<open>rpciProto | msgFlagCookie\<close>: the two have no bit in common.\<close>

definition open_size :: nat where "open_size = 0x49435052 + 0x80000000"

datatype msg_type = MsgOpen | MsgSendSize | MsgSendPayload | MsgRecvSize | MsgRecvPayload | MsgRecvStatus | MsgClose

fun msg_nr :: "msg_type \<Rightarrow> nat" where
  "msg_nr MsgOpen = 0"
| "msg_nr MsgSendSize = 1"
| "msg_nr MsgSendPayload = 2"
| "msg_nr MsgRecvSize = 3"
| "msg_nr MsgRecvPayload = 4"
| "msg_nr MsgRecvStatus = 5"
| "msg_nr MsgClose = 6"

record channel =
  ch_id :: nat
  ch_hi :: nat
  ch_lo :: nat

definition bd_call :: "msg_type \<Rightarrow> channel \<Rightarrow> nat \<Rightarrow> regs" where
  "bd_call t ch sz =
     \<lparr> r_ax = bdoorMagic, r_bx = sz, r_cx = bdoorCmdMsg + msg_nr t * 65536, r_dx = ch_id ch * 65536 + bdoorPort,
       r_si = ch_hi ch, r_di = ch_lo ch \<rparr>"

definition bd_status :: "regs \<Rightarrow> nat" where "bd_status r = u32 (r_cx r div 65536)"

definition bd_success :: "regs \<Rightarrow> bool" where "bd_success r \<longleftrightarrow> odd (bd_status r)"

definition bd_doRecv :: "regs \<Rightarrow> bool" where "bd_doRecv r \<longleftrightarrow> odd (bd_status r div 2)"

section \<open>A request\<close>

datatype rpci_error = OpenFailed | SendSizeFailed | SendPayloadFailed | RecvSizeFailed | RecvPayloadFailed | RecvStatusFailed

type_synonym bd_host = "regs list \<Rightarrow> regs"

definition word_of :: "string \<Rightarrow> nat" where
  "word_of s = le_val (s @ replicate (4 - length s) (CHR 0x00))"

text \<open>The calls made so far are carried along, the last one at the end.\<close>

function send_payload :: "bd_host \<Rightarrow> channel \<Rightarrow> string \<Rightarrow> regs list \<Rightarrow> regs list \<times> bool" where
  "send_payload h ch buf calls =
     (if buf = [] then (calls, True)
      else
        (let calls' = calls @ [bd_call MsgSendPayload ch (word_of (take 4 buf))] in
         if bd_success (h calls') then send_payload h ch (drop 4 buf) calls' else (calls', False)))"
  by pat_completeness auto
termination by (relation "measure (\<lambda>(h, ch, buf, calls). length buf)") auto

function recv_payload :: "bd_host \<Rightarrow> channel \<Rightarrow> nat \<Rightarrow> string \<Rightarrow> regs list \<Rightarrow> regs list \<times> string option" where
  "recv_payload h ch remaining reply calls =
     (if remaining = 0 then (calls, Some reply)
      else
        (let calls' = calls @ [bd_call MsgRecvPayload ch 1]; r = h calls'; n = min 4 remaining in
         if bd_success r then recv_payload h ch (remaining - n) (reply @ take n (le_bytes 4 (u32 (r_bx r)))) calls'
         else (calls', None)))"
  by pat_completeness auto
termination by (relation "measure (\<lambda>(h, ch, remaining, reply, calls). remaining)") auto

declare send_payload.simps [simp del] recv_payload.simps [simp del]

definition rpci_receive :: "bd_host \<Rightarrow> channel \<Rightarrow> regs list \<Rightarrow> regs list \<times> (rpci_error + string)" where
  "rpci_receive h ch calls =
     (let c1 = calls @ [bd_call MsgRecvSize ch 0]; r = h c1 in
      if \<not> bd_success r then (c1, Inl RecvSizeFailed)
      else if \<not> bd_doRecv r then (c1, Inr [])
      else case recv_payload h ch (u32 (r_bx r)) [] c1 of
        (c2, None) \<Rightarrow> (c2, Inl RecvPayloadFailed)
      | (c2, Some reply) \<Rightarrow>
          (let c3 = c2 @ [bd_call MsgRecvStatus ch 1] in
           (c3, if bd_success (h c3) then Inr reply else Inl RecvStatusFailed)))"

definition rpci_exchange :: "bd_host \<Rightarrow> channel \<Rightarrow> string \<Rightarrow> regs list \<Rightarrow> regs list \<times> (rpci_error + string)" where
  "rpci_exchange h ch request calls =
     (let c1 = calls @ [bd_call MsgSendSize ch (length request)] in
      if \<not> bd_success (h c1) then (c1, Inl SendSizeFailed)
      else case send_payload h ch request c1 of
        (c2, False) \<Rightarrow> (c2, Inl SendPayloadFailed)
      | (c2, True) \<Rightarrow> rpci_receive h ch c2)"

definition no_channel :: channel where "no_channel = \<lparr> ch_id = 0, ch_hi = 0, ch_lo = 0 \<rparr>"

definition bd_opened :: "regs \<Rightarrow> channel" where
  "bd_opened r = \<lparr> ch_id = u32 (r_dx r div 65536), ch_hi = u32 (r_si r), ch_lo = u32 (r_di r) \<rparr>"

definition rpciSendOneRaw :: "bd_host \<Rightarrow> string \<Rightarrow> regs list \<times> (rpci_error + string)" where
  "rpciSendOneRaw h request =
     (let c1 = [bd_call MsgOpen no_channel open_size]; r = h c1; ch = bd_opened r in
      if \<not> bd_success r then (c1, Inl OpenFailed)
      else let (calls, result) = rpci_exchange h ch request c1 in (calls @ [bd_call MsgClose ch 0], result))"

section \<open>The value\<close>

definition parseInfoGetReply :: "string \<Rightarrow> string option" where
  "parseInfoGetReply reply =
     (let (status, val, ok) = go_cut reply '' '' in
      let (status', val') = (if ok then (status, val) else (reply, [])) in
      if status' = ''1'' then Some val' else None)"

datatype vmware_error = Rpci rpci_error | NotSet string

definition vmwareFetch :: "bd_host \<Rightarrow> string \<Rightarrow> regs list \<times> (vmware_error + string)" where
  "vmwareFetch h key =
     (let (calls, r) = rpciSendOneRaw h (''info-get guestinfo.'' @ key) in
      (calls, case r of
         Inl e \<Rightarrow> Inl (Rpci e)
       | Inr reply \<Rightarrow> (case parseInfoGetReply reply of None \<Rightarrow> Inl (NotSet reply) | Some v \<Rightarrow> Inr v)))"

section \<open>The conversation\<close>

lemma le_bytes_word_of: "length s \<le> 4 \<Longrightarrow> take (length s) (le_bytes 4 (word_of s)) = s"
proof -
  assume "length s \<le> 4"
  then have "length (s @ replicate (4 - length s) (CHR 0x00)) = 4" by simp
  then have "le_bytes 4 (word_of s) = s @ replicate (4 - length s) (CHR 0x00)"
    unfolding word_of_def using le_bytes_le_val by metis
  then show ?thesis by simp
qed

lemma send_payload_calls:
  "\<exists>ws. fst (send_payload h ch buf calls) = calls @ map (bd_call MsgSendPayload ch) ws"
proof (induction h ch buf calls rule: send_payload.induct)
  case (1 h ch buf calls)
  let ?c = "calls @ [bd_call MsgSendPayload ch (word_of (take 4 buf))]"
  show ?case
  proof (cases "buf = [] \<or> \<not> bd_success (h ?c)")
    case True
    then show ?thesis
      by (subst send_payload.simps) (auto simp: Let_def intro: exI [of _ "[]"] exI [of _ "[word_of (take 4 buf)]"])
  next
    case False
    then obtain ws where "fst (send_payload h ch (drop 4 buf) ?c) = ?c @ map (bd_call MsgSendPayload ch) ws"
      using "1.IH" [OF _ refl] by blast
    then show ?thesis
      using False by (subst send_payload.simps) (auto simp: Let_def intro: exI [of _ "word_of (take 4 buf) # ws"])
  qed
qed

lemma send_payload_words:
  assumes "send_payload h ch buf calls = (calls', True)"
  shows "\<exists>ws. calls' = calls @ map (bd_call MsgSendPayload ch) ws \<and>
    take (length buf) (concat (map (le_bytes 4) ws)) = buf \<and> length ws = (length buf + 3) div 4"
  using assms
proof (induction h ch buf calls rule: send_payload.induct)
  case (1 h ch buf calls)
  let ?w = "word_of (take 4 buf)"
  let ?c = "calls @ [bd_call MsgSendPayload ch ?w]"
  show ?case
  proof (cases "buf = []")
    case True
    with "1.prems" show ?thesis by (simp add: send_payload.simps)
  next
    case False
    then have ok: "bd_success (h ?c)" and r: "send_payload h ch (drop 4 buf) ?c = (calls', True)"
      using "1.prems" unfolding send_payload.simps [of h ch buf calls] by (auto simp: Let_def split: if_splits)
    obtain ws where ws: "calls' = ?c @ map (bd_call MsgSendPayload ch) ws"
      "take (length (drop 4 buf)) (concat (map (le_bytes 4) ws)) = drop 4 buf" "length ws = (length (drop 4 buf) + 3) div 4"
      using "1.IH" [OF False refl ok r] by blast
    have "take (length buf) (concat (map (le_bytes 4) (?w # ws))) = buf"
    proof (cases "length buf \<le> 4")
      case True
      then show ?thesis using le_bytes_word_of [of buf] by simp
    next
      case big: False
      then have "le_bytes 4 ?w = take 4 buf" using le_bytes_word_of [of "take 4 buf"] by simp
      then show ?thesis using ws(2) big by simp
    qed
    moreover have "length (?w # ws) = (length buf + 3) div 4"
    proof (cases "length buf \<le> 4")
      case True
      with False have "length buf + 3 < 8" "4 \<le> length buf + 3" by (cases buf; simp)+
      with True ws(3) show ?thesis by simp
    next
      case big: False
      then have "length buf + 3 = length buf - 4 + 3 + 4" by simp
      then have "(length buf + 3) div 4 = (length buf - 4 + 3) div 4 + 1" by (metis div_add_self2 zero_neq_numeral)
      with big ws(3) show ?thesis by simp
    qed
    ultimately show ?thesis using ws(1) by (intro exI [of _ "?w # ws"]) simp
  qed
qed

lemma recv_payload_calls:
  "\<exists>k. fst (recv_payload h ch n reply calls) = calls @ replicate k (bd_call MsgRecvPayload ch 1)"
proof (induction h ch n reply calls rule: recv_payload.induct)
  case (1 h ch n reply calls)
  let ?p = "bd_call MsgRecvPayload ch 1"
  show ?case
  proof (cases "n = 0 \<or> \<not> bd_success (h (calls @ [?p]))")
    case True
    then show ?thesis by (subst recv_payload.simps) (auto simp: Let_def intro: exI [of _ 0] exI [of _ "Suc 0"])
  next
    case False
    then obtain k where "fst (recv_payload h ch (n - min 4 n) (reply @ take (min 4 n) (le_bytes 4 (u32 (r_bx (h (calls @ [?p])))))) (calls @ [?p])) =
        (calls @ [?p]) @ replicate k ?p"
      using "1.IH" [OF _ refl refl refl] by blast
    then show ?thesis
      using False by (subst recv_payload.simps) (auto simp: Let_def intro: exI [of _ "Suc k"])
  qed
qed

text \<open>The bytes the host puts into the answers to k receiving calls after \<^verbatim>\<open>calls\<close>.\<close>

fun host_bytes :: "bd_host \<Rightarrow> regs \<Rightarrow> nat \<Rightarrow> regs list \<Rightarrow> string" where
  "host_bytes h p 0 calls = []"
| "host_bytes h p (Suc k) calls = le_bytes 4 (u32 (r_bx (h (calls @ [p])))) @ host_bytes h p k (calls @ [p])"

lemma length_host_bytes [simp]: "length (host_bytes h p k calls) = 4 * k"
  by (induction k arbitrary: calls) simp_all

lemma recv_payload_bytes:
  assumes "recv_payload h ch n reply calls = (calls', Some s)"
  shows "\<exists>k. calls' = calls @ replicate k (bd_call MsgRecvPayload ch 1) \<and> n \<le> 4 * k \<and> 4 * k < n + 4 \<and>
    s = reply @ take n (host_bytes h (bd_call MsgRecvPayload ch 1) k calls)"
  using assms
proof (induction h ch n reply calls rule: recv_payload.induct)
  case (1 h ch n reply calls)
  let ?p = "bd_call MsgRecvPayload ch 1"
  let ?c = "calls @ [?p]"
  show ?case
  proof (cases "n = 0")
    case True
    with "1.prems" show ?thesis by (simp add: recv_payload.simps)
  next
    case False
    let ?m = "min 4 n" and ?b = "le_bytes 4 (u32 (r_bx (h ?c)))"
    have ok: "bd_success (h ?c)" and r: "recv_payload h ch (n - ?m) (reply @ take ?m ?b) ?c = (calls', Some s)"
      using "1.prems" False unfolding recv_payload.simps [of h ch n reply calls] by (auto simp: Let_def split: if_splits)
    obtain k where k: "calls' = ?c @ replicate k ?p" "n - ?m \<le> 4 * k" "4 * k < n - ?m + 4"
      "s = (reply @ take ?m ?b) @ take (n - ?m) (host_bytes h ?p k ?c)"
      using "1.IH" [OF False refl refl refl ok r] by blast
    have "take n (host_bytes h ?p (Suc k) calls) = take ?m ?b @ take (n - ?m) (host_bytes h ?p k ?c)"
      by (cases "n \<le> 4") (simp_all add: min_def)
    moreover have "4 * Suc k < n + 4"
    proof (cases "n \<le> 4")
      case True
      then have "k = 0" using k(3) False by (simp add: min_def)
      with False show ?thesis by simp
    qed (use k(3) in simp)
    moreover have "n \<le> 4 * Suc k" using k(2) by (cases "n \<le> 4") (simp_all add: min_def)
    ultimately show ?thesis using k(1,4) by (intro exI [of _ "Suc k"]) simp
  qed
qed

text \<open>A call on a channel that is neither its opening nor its closing.\<close>

definition on_channel :: "channel \<Rightarrow> regs \<Rightarrow> bool" where
  "on_channel ch r \<longleftrightarrow> (\<exists>t sz. t \<noteq> MsgOpen \<and> t \<noteq> MsgClose \<and> r = bd_call t ch sz)"

lemma rpci_exchange_calls:
  "\<exists>mid. fst (rpci_exchange h ch request calls) = calls @ mid \<and> list_all (on_channel ch) mid"
proof -
  have c: "t \<noteq> MsgOpen \<Longrightarrow> t \<noteq> MsgClose \<Longrightarrow> on_channel ch (bd_call t ch n)" for t n by (auto simp: on_channel_def)
  have rep: "list_all (on_channel ch) (replicate k (bd_call MsgRecvPayload ch 1))" for k
    by (simp add: list_all_iff on_channel_def) blast
  have recv: "\<exists>mid. fst (rpci_receive h ch cs) = cs @ mid \<and> list_all (on_channel ch) mid" for cs
  proof -
    let ?r = "recv_payload h ch (u32 (r_bx (h (cs @ [bd_call MsgRecvSize ch 0])))) [] (cs @ [bd_call MsgRecvSize ch 0])"
    obtain k where k: "fst ?r = (cs @ [bd_call MsgRecvSize ch 0]) @ replicate k (bd_call MsgRecvPayload ch 1)"
      using recv_payload_calls by blast
    obtain c2 o' where r: "?r = (c2, o')" by fastforce
    show ?thesis using k rep [of k] c
      by (cases o') (auto simp: rpci_receive_def Let_def r)
  qed
  obtain ws where ws: "fst (send_payload h ch request (calls @ [bd_call MsgSendSize ch (length request)])) =
      (calls @ [bd_call MsgSendSize ch (length request)]) @ map (bd_call MsgSendPayload ch) ws"
    using send_payload_calls by blast
  obtain c2 b where s: "send_payload h ch request (calls @ [bd_call MsgSendSize ch (length request)]) = (c2, b)" by fastforce
  have w: "list_all (on_channel ch) (map (bd_call MsgSendPayload ch) ws)" by (simp add: list_all_iff c)
  obtain mid where "fst (rpci_receive h ch c2) = c2 @ mid" "list_all (on_channel ch) mid" using recv by blast
  then show ?thesis using ws s w c by (cases b) (auto simp: rpci_exchange_def Let_def)
qed

text \<open>
  Property C20. One request over the VMware backdoor. Whatever the host answers, a channel that was
  bd_opened is closed, once, as the last call, and every call between is on that channel. When a reply is returned, the host was told
  the length of the request and then its bytes, four to a call and padded with zeros; and the reply is, up to
  the length the host gave, the bytes the host left in its answers.
\<close>

theorem rpci_conversation:
  assumes "rpciSendOneRaw h request = (calls, r)" and "r \<noteq> Inl OpenFailed"
  shows "\<exists>mid ch. ch = bd_opened (h [bd_call MsgOpen no_channel open_size]) \<and>
    calls = [bd_call MsgOpen no_channel open_size] @ mid @ [bd_call MsgClose ch 0] \<and> list_all (on_channel ch) mid \<and>
    (\<forall>reply. r = Inr reply \<longrightarrow>
      (\<exists>ws k more. mid = [bd_call MsgSendSize ch (length request)] @ map (bd_call MsgSendPayload ch) ws @ [bd_call MsgRecvSize ch 0] @
           replicate k (bd_call MsgRecvPayload ch 1) @ more \<and> set more \<subseteq> {bd_call MsgRecvStatus ch 1} \<and>
         length ws = (length request + 3) div 4 \<and> take (length request) (concat (map (le_bytes 4) ws)) = request \<and>
         (let before = [bd_call MsgOpen no_channel open_size, bd_call MsgSendSize ch (length request)] @ map (bd_call MsgSendPayload ch) ws @
              [bd_call MsgRecvSize ch 0]; n = u32 (r_bx (h before)) in
          reply = (if bd_doRecv (h before) then take n (host_bytes h (bd_call MsgRecvPayload ch 1) k before) else []) \<and>
          (bd_doRecv (h before) \<longrightarrow> length reply = n))))"
proof -
  let ?o = "bd_call MsgOpen no_channel open_size"
  let ?ch = "bd_opened (h [?o])"
  let ?c1 = "[?o] @ [bd_call MsgSendSize ?ch (length request)]"
  have opn: "bd_success (h [?o])"
    using assms by (auto simp: rpciSendOneRaw_def Let_def split: if_splits)
  obtain c2 r' where e: "rpci_exchange h ?ch request [?o] = (c2, r')" by fastforce
  have calls: "calls = c2 @ [bd_call MsgClose ?ch 0]" and r: "r = r'"
    using assms(1) opn e by (auto simp: rpciSendOneRaw_def Let_def)
  obtain mid where mid: "c2 = [?o] @ mid" "list_all (on_channel ?ch) mid"
    using rpci_exchange_calls [of h ?ch request "[?o]"] e by auto
  have "\<exists>ws k more. mid = [bd_call MsgSendSize ?ch (length request)] @ map (bd_call MsgSendPayload ?ch) ws @ [bd_call MsgRecvSize ?ch 0] @
           replicate k (bd_call MsgRecvPayload ?ch 1) @ more \<and> set more \<subseteq> {bd_call MsgRecvStatus ?ch 1} \<and>
         length ws = (length request + 3) div 4 \<and> take (length request) (concat (map (le_bytes 4) ws)) = request \<and>
         (let before = [?o, bd_call MsgSendSize ?ch (length request)] @ map (bd_call MsgSendPayload ?ch) ws @
              [bd_call MsgRecvSize ?ch 0]; n = u32 (r_bx (h before)) in
          reply = (if bd_doRecv (h before) then take n (host_bytes h (bd_call MsgRecvPayload ?ch 1) k before) else []) \<and>
          (bd_doRecv (h before) \<longrightarrow> length reply = n))" if reply: "r = Inr reply" for reply
  proof -
    have ss: "bd_success (h ?c1)" using e r reply by (auto simp: rpci_exchange_def Let_def split: if_splits)
    obtain c3 where s: "send_payload h ?ch request ?c1 = (c3, True)"
    proof (cases "send_payload h ?ch request ?c1")
      case (Pair c3 b)
      then show ?thesis using that e r reply ss by (cases b) (auto simp: rpci_exchange_def Let_def)
    qed
    obtain ws where ws: "c3 = ?c1 @ map (bd_call MsgSendPayload ?ch) ws"
      "take (length request) (concat (map (le_bytes 4) ws)) = request" "length ws = (length request + 3) div 4"
      using send_payload_words [OF s] by blast
    define before where "before = ?c1 @ map (bd_call MsgSendPayload ?ch) ws @ [bd_call MsgRecvSize ?ch 0]"
    have b: "c3 @ [bd_call MsgRecvSize ?ch 0] = before" by (simp add: ws(1) before_def)
    have rr: "rpci_receive h ?ch c3 = (c2, Inr reply)"
      using e r reply ss s by (simp add: rpci_exchange_def Let_def)
    have bs: "bd_success (h before)" using rr b by (auto simp: rpci_receive_def Let_def split: if_splits)
    show ?thesis
    proof (cases "bd_doRecv (h before)")
      case False
      then have "c2 = before" "reply = []" using rr b bs by (auto simp: rpci_receive_def Let_def)
      then have "mid = [bd_call MsgSendSize ?ch (length request)] @ map (bd_call MsgSendPayload ?ch) ws @ [bd_call MsgRecvSize ?ch 0]"
        using mid(1) by (simp add: before_def)
      then show ?thesis using ws(2,3) False \<open>reply = []\<close>
        by (intro exI [of _ ws] exI [of _ 0] exI [of _ "[]"]) (simp add: Let_def before_def)
    next
      case True
      obtain c4 o' where p: "recv_payload h ?ch (u32 (r_bx (h before))) [] before = (c4, o')" by fastforce
      have o: "o' = Some reply" "c2 = c4 @ [bd_call MsgRecvStatus ?ch 1]"
        using rr b bs True p by (cases o'; auto simp: rpci_receive_def Let_def split: if_splits)+
      obtain k where k: "c4 = before @ replicate k (bd_call MsgRecvPayload ?ch 1)" "u32 (r_bx (h before)) \<le> 4 * k"
        "reply = take (u32 (r_bx (h before))) (host_bytes h (bd_call MsgRecvPayload ?ch 1) k before)"
        using recv_payload_bytes [of h ?ch _ "[]" before c4 reply] p o(1) by auto
      have "mid = [bd_call MsgSendSize ?ch (length request)] @ map (bd_call MsgSendPayload ?ch) ws @ [bd_call MsgRecvSize ?ch 0] @
          replicate k (bd_call MsgRecvPayload ?ch 1) @ [bd_call MsgRecvStatus ?ch 1]"
        using mid(1) o(2) k(1) by (simp add: before_def)
      then show ?thesis using ws(2,3) True k(2,3)
        by (intro exI [of _ ws] exI [of _ k] exI [of _ "[bd_call MsgRecvStatus ?ch 1]"]) (simp add: Let_def before_def)
    qed
  qed
  then show ?thesis using calls mid by (intro exI [of _ mid] exI [of _ ?ch]) simp
qed

text \<open>A host that opens channel 5 and answers every request with four bytes.\<close>

definition ex_vmx :: bd_host where
  "ex_vmx calls =
     (let t = r_cx (last calls) div 65536;
          r = \<lparr> r_ax = 0, r_bx = 0, r_cx = 65536, r_dx = 0, r_si = 0, r_di = 0 \<rparr> in
      if t = 0 then r \<lparr> r_dx := 5 * 65536, r_si := 1, r_di := 2 \<rparr>
      else if t = 3 then r \<lparr> r_cx := 3 * 65536, r_bx := 4 \<rparr>
      else if t = 4 then r \<lparr> r_bx := le_val ''1 ab'' \<rparr>
      else r)"

theorem rpci_conversation_witness:
  "\<exists>calls. rpciSendOneRaw ex_vmx ''ab'' = (calls, Inr ''1 ab'') \<and> last calls = bd_call MsgClose \<lparr> ch_id = 5, ch_hi = 1, ch_lo = 2 \<rparr> 0 \<and>
     parseInfoGetReply ''1 ab'' = Some ''ab''"
proof -
  have x: "ex_vmx (cs @ [bd_call t ch n]) =
     (let r = \<lparr> r_ax = 0, r_bx = 0, r_cx = 65536, r_dx = 0, r_si = 0, r_di = 0 \<rparr> in
      case t of MsgOpen \<Rightarrow> r \<lparr> r_dx := 5 * 65536, r_si := 1, r_di := 2 \<rparr> | MsgRecvSize \<Rightarrow> r \<lparr> r_cx := 3 * 65536, r_bx := 4 \<rparr>
      | MsgRecvPayload \<Rightarrow> r \<lparr> r_bx := le_val ''1 ab'' \<rparr> | _ \<Rightarrow> r)" for cs t ch n
    by (cases t) (simp_all add: ex_vmx_def bd_call_def bdoorCmdMsg_def Let_def)
  have x1: "ex_vmx [bd_call MsgOpen ch n] = \<lparr> r_ax = 0, r_bx = 0, r_cx = 65536, r_dx = 5 * 65536, r_si = 1, r_di = 2 \<rparr>" for ch n
    using x [of "[]" MsgOpen ch n] by (simp add: Let_def)
  have four: "length ''1 ab'' = 4" by simp
  have b: "u32 (le_val ''1 ab'') = le_val ''1 ab''" using le_val_less [of "''1 ab''"] by (simp add: u32_def)
  have l: "le_bytes 4 (le_val ''1 ab'') = ''1 ab''" by (rule le_bytes_le_val [of "''1 ab''", unfolded four])
  note run = send_payload.simps recv_payload.simps x bd_success_def bd_doRecv_def bd_status_def u32_def Let_def
  have s: "send_payload ex_vmx ch ''ab'' cs = (cs @ [bd_call MsgSendPayload ch (word_of ''ab'')], True)" for ch cs
    by (simp add: run)
  have rp: "recv_payload ex_vmx ch 4 [] cs = (cs @ [bd_call MsgRecvPayload ch 1], Some ''1 ab'')" for ch cs
  proof -
    have "r_bx (ex_vmx (cs @ [bd_call MsgRecvPayload ch 1])) = le_val ''1 ab''" by (simp add: x Let_def)
    moreover have "bd_success (ex_vmx (cs @ [bd_call MsgRecvPayload ch 1]))" by (simp add: x bd_success_def bd_status_def u32_def Let_def)
    ultimately show ?thesis using b l by (simp add: recv_payload.simps Let_def)
  qed
  have xs: "ex_vmx (a # b # cs) = ex_vmx (b # cs)" for a b cs by (simp add: ex_vmx_def)
  have xt: "ex_vmx [bd_call t ch n] =
     (let r = \<lparr> r_ax = 0, r_bx = 0, r_cx = 65536, r_dx = 0, r_si = 0, r_di = 0 \<rparr> in
      case t of MsgOpen \<Rightarrow> r \<lparr> r_dx := 5 * 65536, r_si := 1, r_di := 2 \<rparr> | MsgRecvSize \<Rightarrow> r \<lparr> r_cx := 3 * 65536, r_bx := 4 \<rparr>
      | MsgRecvPayload \<Rightarrow> r \<lparr> r_bx := le_val ''1 ab'' \<rparr> | _ \<Rightarrow> r)" for t ch n
    using x [of "[]" t ch n] by simp
  have r: "\<exists>calls. rpciSendOneRaw ex_vmx ''ab'' = (calls, Inr ''1 ab'')"
    by (simp add: rpciSendOneRaw_def rpci_exchange_def rpci_receive_def s rp xs xt bd_success_def bd_doRecv_def bd_status_def u32_def Let_def)
  then obtain calls where r: "rpciSendOneRaw ex_vmx ''ab'' = (calls, Inr ''1 ab'')" by blast
  have "\<exists>mid. calls = [bd_call MsgOpen no_channel open_size] @ mid @ [bd_call MsgClose (bd_opened (ex_vmx [bd_call MsgOpen no_channel open_size])) 0]"
    using rpci_conversation [OF r] by blast
  moreover have "bd_opened (ex_vmx [bd_call MsgOpen no_channel open_size]) = \<lparr> ch_id = 5, ch_hi = 1, ch_lo = 2 \<rparr>"
    by (simp add: x1 bd_opened_def u32_def)
  moreover have "parseInfoGetReply ''1 ab'' = Some ''ab''" by code_simp
  ultimately show ?thesis using r by auto
qed

end
