(* ===== verification/Agent_VBox.thy ===== *)
theory Agent_VBox
  imports Go_Bytes
begin

text \<open>
  The VirtualBox kind of the agent (cmd/cnimbusagent/vboxguest_linux.go): the two ioctls of /dev/vboxguest it
  makes, byte by byte, and what it takes from the answers.

  The kernel and the host are parameters: an ioctl gets the request number and the buffer and leaves another buffer of the
  same length, and for a call also the bytes the host wrote into the value buffer; or it fails.
  Addresses of Go memory are parameters too.
\<close>

section \<open>Requests\<close>

definition ioctlNr :: "nat \<Rightarrow> nat \<Rightarrow> nat \<Rightarrow> nat \<Rightarrow> nat" where
  "ioctlNr dir typ nr bytes = dir * 2 ^ 30 + typ * 2 ^ 8 + nr + (bytes mod 2 ^ 14) * 2 ^ 16"

definition vbg_hdr :: "nat \<Rightarrow> nat \<Rightarrow> string" where
  "vbg_hdr sizeIn sizeOut =
     le_bytes 4 sizeIn @ le_bytes 4 0x10001 @ le_bytes 4 0 @ le_bytes 4 0 @ le_bytes 4 sizeOut @ le_bytes 4 0"

definition zeros :: "nat \<Rightarrow> string" where "zeros n = replicate n (CHR 0x00)"

definition connect_buf :: "string \<Rightarrow> string" where
  "connect_buf service =
     vbg_hdr 156 28 @ le_bytes 4 1 @ take 128 service @ zeros (128 - length (take 128 service))"

definition connect_request :: nat where "connect_request = ioctlNr 3 (code (CHR ''V'')) 4 156"

definition lin_parm :: "nat \<Rightarrow> nat \<Rightarrow> nat \<Rightarrow> string" where
  "lin_parm typ len addr = le_bytes 4 typ @ le_bytes 4 len @ le_bytes 8 addr"

definition parm64 :: "nat \<Rightarrow> string" where "parm64 v = le_bytes 4 2 @ le_bytes 8 v @ zeros 4"

definition parm32 :: "nat \<Rightarrow> string" where "parm32 v = le_bytes 4 1 @ le_bytes 4 v @ zeros 8"

definition outBufSize :: nat where "outBufSize = 4096"

definition call_buf :: "nat \<Rightarrow> string \<Rightarrow> nat \<Rightarrow> nat \<Rightarrow> string" where
  "call_buf clientID name nameAddr valAddr =
     vbg_hdr 104 104 @ le_bytes 4 clientID @ le_bytes 4 1 @ le_bytes 4 10000 @ zeros 2 @ le_bytes 2 4 @
     lin_parm 5 (length name + 1) nameAddr @ lin_parm 6 outBufSize valAddr @ parm64 0 @ parm32 0"

definition call_request :: nat where "call_request = ioctlNr 3 (code (CHR ''V'')) 7 104"

section \<open>Answers\<close>

datatype vbox_error = NoDevice | IoctlFailed | HostRC int | ValueTooBig nat

text \<open>A 32-bit value read as signed.\<close>

definition as_int32 :: "nat \<Rightarrow> int" where
  "as_int32 n = (if n < 2 ^ 31 then int n else int n - 2 ^ 32)"

definition host_rc :: "string \<Rightarrow> int" where "host_rc buf = as_int32 (le_at 4 12 buf)"

definition hgcmConnect :: "(nat \<Rightarrow> string \<Rightarrow> string option) \<Rightarrow> string \<Rightarrow> vbox_error + nat" where
  "hgcmConnect ioctl service =
     (case ioctl connect_request (connect_buf service) of
        None \<Rightarrow> Inl IoctlFailed
      | Some buf \<Rightarrow> if host_rc buf < 0 then Inl (HostRC (host_rc buf)) else Inr (le_at 4 24 buf))"

definition hgcmGetProp ::
  "(nat \<Rightarrow> string \<Rightarrow> (string \<times> string) option) \<Rightarrow> nat \<times> nat \<Rightarrow> nat \<Rightarrow> string \<Rightarrow> vbox_error + string" where
  "hgcmGetProp ioctl addrs clientID name =
     (case ioctl call_request (call_buf clientID name (fst addrs) (snd addrs)) of
        None \<Rightarrow> Inl IoctlFailed
      | Some (buf, valBuf) \<Rightarrow>
          (let realSize = le_at 4 92 buf in
           if host_rc buf < 0 then Inl (HostRC (host_rc buf))
           else if outBufSize < realSize then Inl (ValueTooBig realSize)
           else Inr (takeWhile (\<lambda>c. c \<noteq> CHR 0x00) valBuf)))"

text \<open>The agent connects once and keeps the client for every poll.\<close>

definition vboxGuestFetch ::
  "bool \<Rightarrow> (nat \<Rightarrow> string \<Rightarrow> string option) \<Rightarrow> (nat \<Rightarrow> string \<Rightarrow> (string \<times> string) option) \<Rightarrow> nat \<times> nat \<Rightarrow> string \<Rightarrow> vbox_error + string" where
  "vboxGuestFetch opens connect call addrs property =
     (if \<not> opens then Inl NoDevice
      else bindE (hgcmConnect connect ''VBoxGuestPropSvc'') (\<lambda>clientID. hgcmGetProp call addrs clientID property))"

section \<open>The layout\<close>

lemma length_vbg_hdr [simp]: "length (vbg_hdr a b) = 24"
  by (simp add: vbg_hdr_def)

lemma length_buffers: "length (connect_buf s) = 156" "length (call_buf c n p q) = 104"
  by (simp_all add: connect_buf_def call_buf_def lin_parm_def parm64_def parm32_def zeros_def)

lemma le_at_skip: "length x \<le> off \<Longrightarrow> le_at w off (x @ y) = le_at w (off - length x) y"
  by (simp add: le_at_def)

lemma le_at_head: "n < 256 ^ w \<Longrightarrow> le_at w 0 (le_bytes w n @ y) = n"
  by (simp add: le_at_def le_val_le_bytes)

lemma call_buf_fields:
  assumes "clientID < 2 ^ 32" and "a < 2 ^ 64" and "b < 2 ^ 64" and "length name + 1 < 2 ^ 32"
  defines "q \<equiv> call_buf clientID name a b"
  shows "le_at 4 0 q = 104" "le_at 4 4 q = 0x10001" "le_at 4 24 q = clientID" "le_at 4 28 q = 1" "le_at 2 38 q = 4"
    "le_at 4 40 q = 5" "le_at 4 44 q = length name + 1" "le_at 8 48 q = a" "le_at 4 56 q = 6" "le_at 4 60 q = 4096"
    "le_at 8 64 q = b" "le_at 4 72 q = 2" "le_at 4 88 q = 1"
  using assms(1-4) unfolding q_def call_buf_def vbg_hdr_def lin_parm_def parm64_def parm32_def outBufSize_def append.assoc
  by (simp_all add: le_at_skip le_at_head zeros_def)

text \<open>A host that serves a property: it puts value and flags, each ended by a zero, into the value buffer and their total into the answer.\<close>

definition served :: "string \<Rightarrow> string \<Rightarrow> string \<Rightarrow> string \<Rightarrow> bool" where
  "served val flags buf valBuf \<longleftrightarrow>
     host_rc buf \<ge> 0 \<and> le_at 4 92 buf = length val + length flags + 2 \<and> CHR 0x00 \<notin> set val \<and>
     (length val + length flags + 2 \<le> outBufSize \<longrightarrow>
        (\<exists>rest. valBuf = val @ [CHR 0x00] @ flags @ [CHR 0x00] @ rest \<and> length valBuf = outBufSize))"

text \<open>
  Property C25. Reading a guest property: the two requests have the numbers, the lengths and the
  fields of the kernel's interface; a property the host serves is returned exactly, value without flags, when it fits
  the buffer, and refused, never cut, when it does not.
\<close>

theorem guest_property_exact:
  assumes "ioctl call_request (call_buf clientID name a b) = Some (buf, valBuf)" and "served val flags buf valBuf"
    and "clientID < 2 ^ 32" and "a < 2 ^ 64" and "b < 2 ^ 64" and "length name + 1 < 2 ^ 32"
  shows "hgcmGetProp ioctl (a, b) clientID name =
      (if length val + length flags + 2 \<le> 4096 then Inr val else Inl (ValueTooBig (length val + length flags + 2))) \<and>
    connect_request = 0xC09C5604 \<and> call_request = 0xC0685607 \<and>
    length (connect_buf s) = 156 \<and> length (call_buf clientID name a b) = 104 \<and>
    (let q = call_buf clientID name a b in le_at 4 0 q = 104 \<and> le_at 4 4 q = 0x10001 \<and> le_at 4 24 q = clientID \<and> le_at 4 28 q = 1 \<and>
       le_at 2 38 q = 4 \<and> le_at 4 40 q = 5 \<and> le_at 4 44 q = length name + 1 \<and> le_at 8 48 q = a \<and>
       le_at 4 56 q = 6 \<and> le_at 4 60 q = 4096 \<and> le_at 8 64 q = b \<and> le_at 4 72 q = 2 \<and> le_at 4 88 q = 1)"
proof (intro conjI)
  show "hgcmGetProp ioctl (a, b) clientID name =
      (if length val + length flags + 2 \<le> 4096 then Inr val else Inl (ValueTooBig (length val + length flags + 2)))"
    using assms(1,2) by (auto simp: hgcmGetProp_def served_def outBufSize_def Let_def takeWhile_append)
  show "connect_request = 0xC09C5604" "call_request = 0xC0685607"
    by (simp_all add: connect_request_def call_request_def ioctlNr_def)
  show "length (connect_buf s) = 156" "length (call_buf clientID name a b) = 104" by (rule length_buffers)+
  show "let q = call_buf clientID name a b in le_at 4 0 q = 104 \<and> le_at 4 4 q = 0x10001 \<and> le_at 4 24 q = clientID \<and> le_at 4 28 q = 1 \<and>
       le_at 2 38 q = 4 \<and> le_at 4 40 q = 5 \<and> le_at 4 44 q = length name + 1 \<and> le_at 8 48 q = a \<and>
       le_at 4 56 q = 6 \<and> le_at 4 60 q = 4096 \<and> le_at 8 64 q = b \<and> le_at 4 72 q = 2 \<and> le_at 4 88 q = 1"
    unfolding Let_def using call_buf_fields [OF assms(3-6)] by (intro conjI)
qed

theorem guest_property_exact_witness:
  "let ans = zeros 92 @ le_bytes 4 4 @ zeros 8; out = ''hi'' @ [CHR 0x00, CHR 0x00] @ zeros 4092 in
   hgcmGetProp (\<lambda>n q. Some (ans, out)) (1, 2) 7 ''p'' = Inr ''hi''"
proof -
  let ?ans = "zeros 92 @ le_bytes 4 4 @ zeros 8"
  let ?out = "''hi'' @ [CHR 0x00, CHR 0x00] @ zeros 4092"
  have z: "le_val (replicate n (CHR 0x00)) = 0" for n by (induction n) simp_all
  have "host_rc ?ans = 0" by (simp add: host_rc_def as_int32_def le_at_def zeros_def z)
  moreover have "le_at 4 92 ?ans = 4" by (simp add: le_at_skip le_at_head zeros_def)
  ultimately have s: "served ''hi'' [] ?ans ?out" by (simp add: served_def outBufSize_def zeros_def)
  have "hgcmGetProp (\<lambda>n q. Some (?ans, ?out)) (1, 2) 7 ''p'' = Inr ''hi''"
    using guest_property_exact [of "\<lambda>n q. Some (?ans, ?out)" 7 "''p''" 1 2 ?ans ?out "''hi''" "[]", OF refl s, THEN conjunct1] by simp
  then show ?thesis by (simp only: Let_def)
qed

end
