(* ===== verification/Init.thy ===== *)
theory Init
  imports Nimbus_Parse
begin

text \<open>
  The \<^verbatim>\<open>init\<close> command (cmd/cnimbus/init.go): the example manifest, line by line, and when it is written.
  The parser reads it as a manifest that declares nothing but the defaults.
\<close>

section \<open>The example\<close>

definition example_lines :: "string list" where
  "example_lines =
     [''# Nimbusfile -- declarative manifest for a cnimbus image.'',
      ''# '' @ DQ @ ''cnimbus prepare'' @ DQ @ '' reads KERNEL/BUSYBOX/ARCH/VGA from this file (if present'',
      ''# in the current directory) and compiles matching pieces -- needs Docker.'',
      ''# '' @ DQ @ ''cnimbus build-disk'' @ DQ @ '' reads the rest and assembles a bootable ISO from'',
      ''# whatever pieces you point it at (--pieces) -- no Docker, no compiler.'',
      [],
      ''# KERNEL accepts a moving target ('' @ DQ @ ''latest-stable'' @ DQ @ '', '' @ DQ @ ''latest-longterm'' @ DQ @ '') or'',
      ''# an exact version. Only '' @ DQ @ ''cnimbus prepare'' @ DQ @ '' acts on this -- it decides which'',
      ''# kernel.org release gets compiled; '' @ DQ @ ''cnimbus build-disk'' @ DQ @ '' just uses whatever'',
      ''# pieces already exist, it never checks this value against them.'',
      ''KERNEL latest-stable'',
      ''# KERNEL latest-longterm   # the current long-term-support branch instead'',
      ''# KERNEL 6.9.4             # or pin an exact released version'',
      [],
      ''# BUSYBOX likewise: '' @ DQ @ ''latest'' @ DQ @ '' defers to cnimbus'' @ SQ @ ''s own known-good default'',
      ''# version; pin an exact version if you need reproducibility.'',
      ''BUSYBOX latest'',
      ''# BUSYBOX 1.36.1'',
      [],
      ''# ARCH is also read by '' @ DQ @ ''cnimbus prepare'' @ DQ @ '', so the same Nimbusfile drives both'',
      ''# commands: '' @ DQ @ ''amd64'' @ DQ @ '' or '' @ DQ @ ''arm64'' @ DQ @ '', defaults to '' @ DQ @ ''amd64'' @ DQ @ '' if omitted entirely.'',
      ''ARCH amd64'',
      ''# ARCH arm64'',
      [],
      ''# VGA gives console=tty0 an actual video driver, so boot output shows up'',
      ''# in a GUI hypervisor'' @ SQ @ ''s own display window (VirtualBox chief among them).'',
      ''# Off by default -- most VMs only need the serial console (already always'',
      ''# on, see ttyS0/ttyAMA0 in the boot cmdline). Only read by '' @ DQ @ ''cnimbus prepare'' @ DQ @ '','',
      ''# and overridable either way from the command line: --vga turns it on,'',
      ''# --vga=false turns it off even if this file says true.'',
      ''# VGA true'',
      [],
      ''HOSTNAME cnimbus'',
      ''DHCP true'',
      [],
      ''# IP configures a static address instead of DHCP -- wins over DHCP if'',
      ''# both are set, so you don'' @ SQ @ ''t have to delete the line above to switch.'',
      ''# IP 192.168.1.50 255.255.255.0 192.168.1.1'',
      [],
      ''# DNS sets explicit nameservers, winning over whatever DHCP itself'',
      ''# provides. Repeatable. The only source of DNS at all when using IP'',
      ''# (static addressing has no DHCP lease to carry it in).'',
      ''# DNS 8.8.8.8'',
      ''# DNS 1.1.1.1'',
      [],
      ''# NTP syncs the clock at boot (needs DHCP or IP configured). Repeatable'',
      ''# for multiple servers -- ntpd queries all of them and picks the best'',
      ''# answer itself. '' @ DQ @ ''false'' @ DQ @ '' disables it entirely (and clears any servers'',
      ''# already added by an earlier NTP line), e.g. for a network with no'',
      ''# outbound access.'',
      ''NTP pool.ntp.org'',
      ''# NTP 1.pool.ntp.org   # add more servers with additional NTP lines'',
      ''# NTP 2.pool.ntp.org'',
      ''# NTP false'',
      [],
      ''# FORMAT is the image *type* to produce, not a path -- the output path'',
      ''# is set with '' @ DQ @ ''cnimbus build-disk -o <path>'' @ DQ @ '' (defaults to '' @ DQ @ ''<hostname>.iso'' @ DQ @ '','',
      ''# or '' @ DQ @ ''<hostname>.img'' @ DQ @ '' for raw). '' @ DQ @ ''raw'' @ DQ @ '' is a GPT disk with a single UEFI'',
      ''# ESP -- no BIOS/legacy boot path, unlike '' @ DQ @ ''iso'' @ DQ @ ''.'',
      ''FORMAT iso'',
      ''# FORMAT raw'',
      [],
      ''# USER drops every ENTRYPOINT/CMD/SERVICE to this unprivileged account'',
      ''# instead of root (uid/gid 1000). There is no shell anywhere in a cnimbus'',
      ''# image regardless of this setting -- it only changes what your own'',
      ''# services run as, not whether an interactive login exists (it never'',
      ''# does). Ports below 1024 need root, i.e. no USER set.'',
      ''# USER app'',
      [],
      ''# VOLUME mounts <device> at <mount> at boot for persistent storage --'',
      ''# everything else in the image is read-only/RAM-only otherwise. Never'',
      ''# formats it -- <device> must already be a real, pre-formatted disk'',
      ''# (fstype defaults to '' @ DQ @ ''vfat'' @ DQ @ ''; '' @ DQ @ ''ext4'' @ DQ @ '' gets real POSIX permissions/'',
      ''# ownership) you attached yourself in VirtualBox/VMware/Proxmox/QEMU; if'',
      ''# it doesn'' @ SQ @ ''t mount, boot just continues without it. Repeatable.'',
      ''# VOLUME /dev/vda /data'',
      ''# VOLUME /dev/vdb /backup ext4'',
      [],
      ''# ENV sets an environment variable for every ENTRYPOINT/CMD/SERVICE.'',
      ''# Repeatable.'',
      ''# ENV PORT=8080'',
      ''# ENV LOG_LEVEL=debug'',
      [],
      ''# FIREWALL is one iptables rule line, applied at boot via a static'',
      ''# iptables-legacy binary '' @ DQ @ ''cnimbus prepare'' @ DQ @ '' builds and bundles'',
      ''# automatically -- no COPY needed (a COPY'' @ SQ @ ''d '' @ DQ @ ''iptables'' @ DQ @ '' still wins if'',
      ''# you'' @ SQ @ ''d rather bring your own). Repeatable.'',
      ''# FIREWALL -P INPUT DROP'',
      ''# FIREWALL -A INPUT -p tcp --dport 8080 -j ACCEPT'',
      [],
      ''# Bring your own static binary into the image and run it at boot. It'',
      ''# must be built for the same ARCH as above (e.g. GOOS=linux GOARCH=amd64'',
      ''# for a Go binary). src may be a single file, a directory (its contents'',
      ''# land under dest, not the directory itself), or a glob; --chmod sets'',
      ''# an explicit mode instead of the default (0755).'',
      ''# COPY ./helloserver /usr/bin/helloserver'',
      ''# COPY --chmod=0644 ./app.conf /etc/app.conf'',
      ''# COPY ./dist/ /var/www/'',
      ''# ENTRYPOINT /usr/bin/helloserver'',
      ''# CMD :8080'',
      [],
      ''# SERVICE adds another respawned, supervised process alongside'',
      ''# ENTRYPOINT/CMD -- same crash-loop backoff, same ENV/USER. Repeatable.'',
      ''# SERVICE sidecar /usr/bin/sidecar --flag'',
      [],
      ''# RESTART sets a restart policy for '' @ DQ @ ''entrypoint'' @ DQ @ '' or a SERVICE already'',
      ''# declared above: '' @ DQ @ ''always'' @ DQ @ '' (default), '' @ DQ @ ''on-failure'' @ DQ @ '' (only respawn on a'',
      ''# non-zero exit), or '' @ DQ @ ''no'' @ DQ @ '' (run once, never respawn).'',
      ''# RESTART entrypoint on-failure'',
      ''# RESTART sidecar no'',
      [],
      ''# WORKDIR is the directory ENTRYPOINT/CMD/every SERVICE runs in (default '' @ DQ @ ''/'' @ DQ @ '').'',
      ''# WORKDIR /app'',
      [],
      ''# HEALTHCHECK runs a command against the entrypoint periodically;'',
      ''# exceeding --retries consecutive failures kills and respawns it, same'',
      ''# as a crash. Defaults: --interval=30 --retries=3.'',
      ''# HEALTHCHECK --interval=10 --retries=3 /usr/bin/curl -f http://localhost:8080/'',
      [],
      ''# LABEL and EXPOSE are informational metadata, written to'',
      ''# /etc/cnimbus-release (LABEL) or just documented there (EXPOSE) --'',
      ''# cnimbus itself never opens or forwards a port based on EXPOSE.'',
      ''# LABEL version=1.0'',
      ''# EXPOSE 8080'',
      ''# EXPOSE 53/udp'',
      [],
      ''# ARG declares a build-time variable, substituted via ${NAME} or $NAME'',
      ''# in every directive after it; --build-arg NAME=VALUE on '' @ DQ @ ''cnimbus'',
      ''# build-disk'' @ DQ @ '' overrides the default (or is required if there is none).'',
      ''# ARG APP_VERSION=1.0'',
      ''# ENV VERSION=${APP_VERSION}'',
      [],
      ''# AGENT polls for live config a running VM can pick up without a'',
      ''# rebuild or reboot, writing it to /var/run/cnimbus-kv.json for your'',
      ''# ENTRYPOINT/SERVICE to read verbatim -- every kind below writes the'',
      ''# fetched value through unmodified, no envelope added. Kinds:'',
      ''# AGENT http://10.0.2.2:9999/ 3               # plain HTTP; run '' @ DQ @ ''cnimbus kv-serve'' @ DQ @ '' on the host'',
      ''# AGENT header Metadata-Flavor: Google        # extra header for the http kind above (repeatable)'',
      ''# AGENT vboxguest /cnimbus/message 3          # VirtualBox'' @ SQ @ ''s real channel, no Guest Additions'',
      ''# AGENT aws-imds instance-id 5                # AWS EC2 IMDSv2 (two-step token dance)'',
      ''# AGENT ibm-imds instance 5                   # IBM Cloud VPC'' @ SQ @ ''s equivalent'',
      ''# AGENT virtio-serial /dev/vport0p1 5         # QEMU/Proxmox virtio-console channel'',
      ''# AGENT vmware message 5                      # reads guestinfo.message via VMware'' @ SQ @ ''s backdoor protocol'']"

definition exampleNimbusfile :: string where
  "exampleNimbusfile = concat (map (\<lambda>l. l @ NL) example_lines)"

datatype init_error = InitExists string | InitWrite string

text \<open>The file system: whether a path is there, and whether writing it goes well.\<close>

definition runInit :: "string list \<Rightarrow> (string \<Rightarrow> bool) \<Rightarrow> (string \<Rightarrow> bool) \<Rightarrow> init_error + (string \<times> string)" where
  "runInit args exists writes =
     (let path = (case args of [] \<Rightarrow> ''Nimbusfile'' | p # _ \<Rightarrow> p) in
      if exists path then Inl (InitExists path)
      else if writes path then Inr (path, exampleNimbusfile)
      else Inl (InitWrite path))"

section \<open>Reading plain lines\<close>

definition plain_text :: "string \<Rightarrow> bool" where
  "plain_text l \<longleftrightarrow> list_all (\<lambda>c. c \<noteq> CHR 0x0A \<and> c \<noteq> CHR 0x0D \<and> c \<noteq> CHR 0x5C) l"

lemma example_plain: "list_all plain_text example_lines"
  by code_simp

lemma go_replace_all_absent: "c \<notin> set s \<Longrightarrow> go_replace_all s (c # old) new = s"
proof (induction s)
  case (Cons x xs)
  then show ?case by (subst go_replace_all.simps) auto
qed simp

lemma go_split_lines:
  "list_all (\<lambda>l. c \<notin> set l) ls \<Longrightarrow> go_split c (concat (map (\<lambda>l. l @ [c]) ls)) = ls @ [[]]"
  by (induction ls) (simp_all add: go_split_append)

lemma plain_no_suffix: "plain_text l \<Longrightarrow> \<not> go_has_suffix (go_trim_right l ('' '' @ TAB)) BSL"
proof
  assume p: "plain_text l" and s: "go_has_suffix (go_trim_right l ('' '' @ TAB)) BSL"
  have "set (go_trim_right l ('' '' @ TAB)) \<subseteq> set l"
    unfolding go_trim_right_def using set_dropWhileD by fastforce
  moreover have "CHR 0x5C \<in> set (go_trim_right l ('' '' @ TAB))"
    using s by (auto simp: go_has_suffix_def) (metis in_set_dropD list.set_intros(1))
  ultimately show False using p by (auto simp: plain_text_def list_all_iff)
qed

lemma join_plain:
  "list_all plain_text ls \<Longrightarrow> join_loop [] s i ls = zip ls [i..<i + length ls]"
  by (induction ls arbitrary: s i) (auto simp: join_loop.simps Let_def plain_no_suffix [simplified] upt_conv_Cons simp del: upt_Suc)

text \<open>Lines without a directive leave the state of the parser as it is.\<close>

definition skipped_line :: "string \<Rightarrow> bool" where
  "skipped_line l \<longleftrightarrow> go_trim_space l = [] \<or> go_has_prefix (go_trim_space l) ''#''"

lemma foldE_skipped:
  "foldE (parse_step buildArgs) st xs = foldE (parse_step buildArgs) st (filter (\<lambda>ln. \<not> skipped_line (fst ln)) xs)"
  by (induction xs arbitrary: st) (auto simp: parse_step_def parse_line_def skipped_line_def Let_def split: prod.splits)

lemma example_directives:
  "filter (\<lambda>ln. \<not> skipped_line (fst ln)) (zip (example_lines @ [[]]) [1..<1 + length (example_lines @ [[]])]) =
   [(''KERNEL latest-stable'', 11), (''BUSYBOX latest'', 17), (''ARCH amd64'', 22), (''HOSTNAME cnimbus'', 33), (''DHCP true'', 34), (''NTP pool.ntp.org'', 51), (''FORMAT iso'', 60)]"
  by code_simp

lemma example_joined:
  "filter (\<lambda>ln. \<not> skipped_line (fst ln)) (joinContinuations exampleNimbusfile) =
   [(''KERNEL latest-stable'', 11), (''BUSYBOX latest'', 17), (''ARCH amd64'', 22), (''HOSTNAME cnimbus'', 33), (''DHCP true'', 34),
    (''NTP pool.ntp.org'', 51), (''FORMAT iso'', 60)]"
proof -
  have p: "\<And>l. l \<in> set example_lines \<Longrightarrow> plain_text l" using example_plain by (simp add: list_all_iff)
  have "CHR 0x0D \<notin> set exampleNimbusfile"
  proof
    assume "CHR 0x0D \<in> set exampleNimbusfile"
    then obtain l where "l \<in> set example_lines" "CHR 0x0D \<in> set l" unfolding exampleNimbusfile_def by (auto split: if_splits)
    then show False using p by (auto simp: plain_text_def list_all_iff)
  qed
  then have "normalise_newlines exampleNimbusfile = exampleNimbusfile"
    unfolding normalise_newlines_def by (rule go_replace_all_absent)
  moreover have "go_split (CHR 0x0A) exampleNimbusfile = example_lines @ [[]]"
    unfolding exampleNimbusfile_def by (rule go_split_lines) (use p in \<open>fastforce simp: plain_text_def list_all_iff\<close>)
  moreover have "join_loop [] 0 1 (example_lines @ [[]]) = zip (example_lines @ [[]]) [1..<1 + length (example_lines @ [[]])]"
    by (rule join_plain) (use example_plain in \<open>simp add: plain_text_def\<close>)
  ultimately show ?thesis using example_directives by (simp only: joinContinuations_def)
qed

lemma map_sum_fst_Inr: "map_sum id fst r = Inr x \<Longrightarrow> \<exists>v. r = Inr (x, v)"
  by (cases r) auto

lemma example_manifest_is_default:
  "Parse path (Some exampleNimbusfile) buildArgs =
     Inr ((default_nimbusfile (dirOf path)) \<lparr> nf_NTP := [''pool.ntp.org''], nf_ntpTouched := True \<rparr>)"
proof -
  let ?xs = "[(''KERNEL latest-stable'', 11), (''BUSYBOX latest'', 17), (''ARCH amd64'', 22), (''HOSTNAME cnimbus'', 33), (''DHCP true'', 34),
      (''NTP pool.ntp.org'', 51), (''FORMAT iso'', 60 :: nat)]"
  have "map_sum id fst (foldE (parse_step buildArgs) (default_nimbusfile base, Map.empty) ?xs) =
     Inr ((default_nimbusfile base) \<lparr> nf_NTP := [''pool.ntp.org''], nf_ntpTouched := True \<rparr>)" for base
    by code_simp
  from map_sum_fst_Inr [OF this [of "dirOf path"]]
  obtain vals where "foldE (parse_step buildArgs) (default_nimbusfile (dirOf path), Map.empty) ?xs =
     Inr ((default_nimbusfile (dirOf path)) \<lparr> nf_NTP := [''pool.ntp.org''], nf_ntpTouched := True \<rparr>, vals)"
    by blast
  then show ?thesis
    by (simp add: Parse_def foldE_skipped [of _ _ "joinContinuations _"] example_joined finish_ntp_def validateWiFiCrossRefs_def hasWifiDriver_def Let_def
        default_nimbusfile_def)
qed

text \<open>
  init never replaces a file, and what it writes is a manifest that every later command accepts, whatever
  build arguments are given: it declares the defaults and names the default time server explicitly.
\<close>

theorem init_writes_defaults:
  assumes "runInit args exists writes = Inr (path, data)"
  shows "\<not> exists path \<and>
    Parse path (Some data) buildArgs =
      Inr ((default_nimbusfile (dirOf path)) \<lparr> nf_NTP := [''pool.ntp.org''], nf_ntpTouched := True \<rparr>)"
proof -
  have "\<not> exists path \<and> data = exampleNimbusfile" using assms by (auto simp: runInit_def Let_def split: if_splits)
  then show ?thesis by (simp only: example_manifest_is_default simp_thms)
qed

theorem init_writes_defaults_witness:
  "\<exists>data hf. runInit [''app/Nimbusfile''] (\<lambda>p. p = ''Nimbusfile'') (\<lambda>p. True) = Inr (''app/Nimbusfile'', data) \<and>
     Parse ''app/Nimbusfile'' (Some data) Map.empty = Inr hf \<and> nf_Hostname hf = ''cnimbus'' \<and> nf_NTP hf = [''pool.ntp.org'']"
proof -
  obtain data where r: "runInit [''app/Nimbusfile''] (\<lambda>p. p = ''Nimbusfile'') (\<lambda>p. True) = Inr (''app/Nimbusfile'', data)"
    by (simp add: runInit_def Let_def)
  from init_writes_defaults [OF r, THEN conjunct2, of Map.empty]
  have "Parse ''app/Nimbusfile'' (Some data) Map.empty =
      Inr ((default_nimbusfile (dirOf ''app/Nimbusfile'')) \<lparr> nf_NTP := [''pool.ntp.org''], nf_ntpTouched := True \<rparr>)" .
  then show ?thesis using r
    by (intro exI conjI) (assumption | simp add: default_nimbusfile_def)+
qed

end
