(* ===== verification/Commands.thy ===== *)
theory Commands
  imports Prepare Keys
begin

text \<open>
  The smaller commands and the exit code (cmd/cnimbus/main.go, buildarg.go, validate.go, clean.go and the pieces keys of
  keygen.go): build arguments, checking a manifest without building, removing what prepare leaves in docker,
  making a signing key, and which failures the exit code tells apart.

  The file system, the reader of ELF headers, docker and the random generator are parameters.
\<close>

section \<open>Build arguments\<close>

fun splitOnEquals :: "string \<Rightarrow> (string \<times> string) option" where
  "splitOnEquals [] = None"
| "splitOnEquals (c # s) =
     (if c = CHR ''='' then Some ([], s) else map_option (\<lambda>(n, v). (c # n, v)) (splitOnEquals s))"

definition buildArg_Set :: "arg_values \<Rightarrow> string \<Rightarrow> string + arg_values" where
  "buildArg_Set b s = (case splitOnEquals s of None \<Rightarrow> Inl s | Some (name, v) \<Rightarrow> Inr (b(name \<mapsto> v)))"

lemma splitOnEquals_Some: "splitOnEquals s = Some (n, v) \<longleftrightarrow> s = n @ CHR ''='' # v \<and> CHR ''='' \<notin> set n"
proof (induction s arbitrary: n)
  case (Cons c s)
  then show ?case by (cases n) auto
qed simp

section \<open>validate\<close>

datatype problem = SourceMissing CopyOp | WrongMachine CopyOp nat

datatype validate_error =
    ValidateParse nimbus_error
  | ValidateArch string
  | Problems "problem list"

text \<open>\<^verbatim>\<open>elf.EM_X86_64\<close> and \<^verbatim>\<open>elf.EM_AARCH64\<close>.\<close>

definition wanted_machine :: "string \<Rightarrow> nat option" where
  "wanted_machine wantArch = (if wantArch = ''amd64'' then Some 62 else if wantArch = ''arm64'' then Some 183 else None)"

text \<open>The machine an ELF file was built for, if it is another than the one wanted.\<close>

definition checkELFArch :: "(string \<Rightarrow> nat option) \<Rightarrow> string \<Rightarrow> string \<Rightarrow> nat option" where
  "checkELFArch elf path wantArch =
     (case elf path of
        None \<Rightarrow> None
      | Some m \<Rightarrow>
          (case wanted_machine wantArch of None \<Rightarrow> None | Some want \<Rightarrow> if m \<noteq> want then Some m else None))"

definition validate_copy :: "host \<Rightarrow> (string \<Rightarrow> nat option) \<Rightarrow> Nimbusfile \<Rightarrow> CopyOp \<Rightarrow> problem option" where
  "validate_copy h elf hf c =
     (let srcPath = go_path_join [nf_BaseDir hf, co_Src c] in
      if co_IsURL c then None
      else case h_stat h srcPath of
        None \<Rightarrow> Some (SourceMissing c)
      | Some isDir \<Rightarrow>
          if isDir \<or> go_contains_any (co_Src c) ''*?['' then None
          else if isTarball (co_Src c) then None
          else map_option (WrongMachine c) (checkELFArch elf srcPath (nf_Arch hf)))"

definition validate_manifest :: "string \<Rightarrow> Nimbusfile \<Rightarrow> validate_error + Nimbusfile" where
  "validate_manifest arch hf =
     (if arch = [] then Inr hf
      else if arch \<noteq> ''amd64'' \<and> arch \<noteq> ''arm64'' then Inl (ValidateArch arch)
      else Inr (hf \<lparr> nf_Arch := arch \<rparr>))"

definition runValidate ::
  "host \<Rightarrow> (string \<Rightarrow> nat option) \<Rightarrow> string \<Rightarrow> string option \<Rightarrow> arg_values \<Rightarrow> string \<Rightarrow> validate_error + unit" where
  "runValidate h elf path data buildArgs arch =
     bindE (wrapE ValidateParse (Parse path data buildArgs)) (\<lambda>hf0.
     bindE (validate_manifest arch hf0) (\<lambda>hf.
     let problems = List.map_filter (validate_copy h elf hf) (nf_Copies hf)
     in if problems = [] then Inr () else Inl (Problems problems)))"

section \<open>clean\<close>

definition clean_archs :: "string list" where "clean_archs = [''amd64'', ''arm64'']"

definition clean_resources :: "(string \<times> string) list" where
  "clean_resources =
     map (\<lambda>arch. (''volume'', ''cnimbus-cache-'' @ arch)) clean_archs @
     map (\<lambda>arch. (''image'', builderImageTag @ ''-'' @ arch @ '':latest'')) clean_archs"

definition clean_firstLine :: "string \<Rightarrow> string" where
  "clean_firstLine s = takeWhile (\<lambda>c. c \<noteq> CHR 0x0A \<and> c \<noteq> CHR 0x0D) s"

text \<open>The call made, if any, and the line printed; \<^verbatim>\<open>docker\<close> gives whether a call succeeds and what it says.\<close>

definition removeDockerResource :: "(string list \<Rightarrow> bool \<times> string) \<Rightarrow> bool \<Rightarrow> string \<times> string \<Rightarrow> string list list \<times> string" where
  "removeDockerResource docker dryRun r =
     (let (kind, name) = r in
      if dryRun then ([], ''would remove docker '' @ kind @ '' '' @ name)
      else let (ok, said) = docker [kind, ''rm'', name] in
        ([[kind, ''rm'', name]],
         if ok then ''removed docker '' @ kind @ '' '' @ name
         else ''docker '' @ kind @ '' '' @ name @ '': '' @ clean_firstLine said))"

text \<open>The docker calls made, the lines printed about them, and the directory removed; docker's refusals are only printed.\<close>

definition runClean ::
  "(string list \<Rightarrow> bool \<times> string) option \<Rightarrow> bool \<Rightarrow> bool \<Rightarrow> string \<Rightarrow> (string \<Rightarrow> bool) \<Rightarrow>
   string list list \<times> string list \<times> (string + string list)" where
  "runClean docker dryRun removePieces piecesDir removes =
     (let steps = (case docker of
            None \<Rightarrow> [([], ''docker not found on PATH -- nothing Docker-side to clean (skipping volumes/images)'')]
          | Some dk \<Rightarrow> map (removeDockerResource dk dryRun) clean_resources) in
      (concat (map fst steps), map snd steps,
       if \<not> removePieces \<or> dryRun then Inr []
       else if removes piecesDir then Inr [piecesDir]
       else Inl piecesDir))"

text \<open>
  What prepare leaves behind, clean removes: the cache volume its container mounts and the image it builds, for either
  architecture, are among the calls, each made whatever docker said to the ones before; only a pieces directory that cannot
  be removed makes the command fail; and a dry run calls and removes nothing.
\<close>

theorem clean_removes_what_prepare_leaves:
  assumes run: "runClean (Some docker) dryRun removePieces piecesDir removes = (calls, printed, r)"
  shows "(\<not> dryRun \<and> arch \<in> {''amd64'', ''arm64''} \<longrightarrow>
      (\<forall>m \<in> set (do_Mounts (builder_run pw arch tag absOut env)). mt_IsVolume m \<longrightarrow> [''volume'', ''rm'', mt_HostPath m] \<in> set calls) \<and>
      [''image'', ''rm'', builderImageTag @ ''-'' @ arch @ '':latest''] \<in> set calls) \<and>
    (dryRun \<longrightarrow> calls = [] \<and> r = Inr []) \<and>
    (\<forall>e. r = Inl e \<longrightarrow> removePieces \<and> e = piecesDir \<and> \<not> removes piecesDir) \<and> length printed = 4"
proof -
  have c: "calls = (if dryRun then [] else map (\<lambda>(kind, name). [kind, ''rm'', name]) clean_resources)"
    using run by (auto simp: runClean_def removeDockerResource_def clean_resources_def clean_archs_def Let_def split: prod.splits)
  have r: "r = (if \<not> removePieces \<or> dryRun then Inr [] else if removes piecesDir then Inr [piecesDir] else Inl piecesDir)"
    "printed = map (\<lambda>x. snd (removeDockerResource docker dryRun x)) clean_resources"
    using run by (simp_all add: runClean_def Let_def comp_def)
  show ?thesis
    by (auto simp: c r clean_resources_def clean_archs_def builder_run_def split: if_splits)
qed

section \<open>keygen\<close>

datatype keygen_error = NoKeyPair | KeyNotWritten string

text \<open>\<^verbatim>\<open>ed25519.GenerateKey\<close> gives a public key and a seed; the public key is printed.\<close>

definition runKeygen ::
  "write_fault \<Rightarrow> (string \<times> string) option \<Rightarrow> string \<Rightarrow> host_world \<Rightarrow> host_world \<times> (keygen_error + string)" where
  "runKeygen fault pair out w =
     (case pair of
        None \<Rightarrow> (w, Inl NoKeyPair)
      | Some (pub, seed) \<Rightarrow>
          (let (w', ok) = writeFileAtomic fault out (go_hex_encode seed @ NL) w in
           (w', if ok then Inr (go_hex_encode pub) else Inl (KeyNotWritten out))))"

section \<open>Exit codes\<close>

datatype failure = InPrepare prepare_error | InBuild build_error | InOther

text \<open>
  The sentinel errors an error wraps, as far as the commands can return them. A failed check of a
  kernel signature stays inside the container: prepare only sees that docker run failed.
\<close>

fun errUnavailable :: "failure \<Rightarrow> bool" where
  "errUnavailable (InPrepare (Docker DockerMissing)) = True"
| "errUnavailable (InPrepare (Docker (DaemonUnreachable s))) = True"
| "errUnavailable (InPrepare (Docker (NotLinuxContainers s))) = True"
| "errUnavailable _ = False"

fun errHashOrSignature :: "failure \<Rightarrow> bool" where
  "errHashOrSignature (InBuild (Resolving (HashMissing n))) = True"
| "errHashOrSignature (InBuild (Resolving (HashMismatch n))) = True"
| "errHashOrSignature (InBuild (Resolving SignatureInvalid)) = True"
| "errHashOrSignature _ = False"

fun errUpstreamFetch :: "failure \<Rightarrow> bool" where
  "errUpstreamFetch (InPrepare (KernelInfo IndexUnreachable)) = True"
| "errUpstreamFetch (InPrepare (KernelInfo (IndexStatus n))) = True"
| "errUpstreamFetch _ = False"

definition exitCodeFor :: "failure \<Rightarrow> int" where
  "exitCodeFor e =
     (if errUnavailable e then 3 else if errHashOrSignature e then 4 else if errUpstreamFetch e then 5 else 1)"

definition commands :: "string list" where
  "commands = [''init'', ''prepare'', ''build-disk'', ''kv-serve'', ''validate'', ''clean'', ''keygen'', ''run'']"

text \<open>\<^verbatim>\<open>main\<close> after the program's own name; \<^verbatim>\<open>run\<close> is a command with its arguments, None for success.\<close>

definition cnimbus_main :: "(string \<Rightarrow> string list \<Rightarrow> failure option) \<Rightarrow> string list \<Rightarrow> int" where
  "cnimbus_main run args =
     (case args of
        [] \<Rightarrow> 2
      | name # rest \<Rightarrow>
          if name \<in> set commands then (case run name rest of None \<Rightarrow> 0 | Some e \<Rightarrow> exitCodeFor e)
          else if name \<in> set [''version'', ''help'', ''-h'', ''--help''] then 0
          else 2)"

section \<open>What validate foresees\<close>

lemma map_filter_Nil_iff: "List.map_filter f xs = [] \<longleftrightarrow> (\<forall>x \<in> set xs. f x = None)"
  by (induction xs) (auto simp: List.map_filter_simps split: option.splits)

lemma set_map_filter_iff: "y \<in> set (List.map_filter f xs) \<longleftrightarrow> (\<exists>x \<in> set xs. f x = Some y)"
  by (induction xs) (auto simp: List.map_filter_simps split: option.splits)

lemma walk_files_error: "walk_files h dir dest perm es = Inl e \<Longrightarrow> e = WalkFailed dir"
  by (induction h dir dest perm es rule: walk_files.induct) (auto simp: bindE_Inl_iff split: option.splits if_splits)

lemma resolveLocalCopy_error:
  assumes "resolveLocalCopy h base src dest perm d = Inl e" and "\<not> go_contains_any src ''*?[''"
    and "h_stat h (go_path_join [base, src]) \<noteq> None"
  shows "e = copy_error.ReadFailed src \<or> e = WalkFailed (go_path_join [base, src])"
  using assms
  by (auto simp: resolveLocalCopy_def local_matches_def local_match_files_def walkLocalDir_def bindE_Inl_iff bindE_Inr_iff
      dest: walk_files_error split: option.splits if_splits)

lemma runValidate_Inr:
  assumes "runValidate h elf path data buildArgs arch = Inr ()" and "Parse path data buildArgs = Inr hf0"
  obtains hf where "validate_manifest arch hf0 = Inr hf" "\<forall>c \<in> set (nf_Copies hf0). validate_copy h elf hf c = None"
    "nf_BaseDir hf = nf_BaseDir hf0" "nf_Arch hf = (if arch = [] then nf_Arch hf0 else arch)" "nf_Arch hf \<in> {''amd64'', ''arm64''}"
proof -
  obtain hf where v: "validate_manifest arch hf0 = Inr hf" and n: "List.map_filter (validate_copy h elf hf) (nf_Copies hf) = []"
    using assms by (auto simp: runValidate_def bindE_Inr_iff Let_def split: if_splits)
  have "nf_Arch hf0 \<in> {''amd64'', ''arm64''}"
    using Parse_ok [OF assms(2)] by (simp add: nimbus_ok_def target_ok_def)
  then have f: "nf_Copies hf = nf_Copies hf0" "nf_BaseDir hf = nf_BaseDir hf0" "nf_Arch hf = (if arch = [] then nf_Arch hf0 else arch)"
    "nf_Arch hf \<in> {''amd64'', ''arm64''}"
    using v by (auto simp: validate_manifest_def split: if_splits)
  show thesis using that [OF v _ f(2-4)] n f(1) by (simp add: map_filter_Nil_iff)
qed

text \<open>
  After a validate without complaints, expanding a local COPY or ADD fails in build-disk only where reading the source
  fails, or unpacking it, never because it is missing; and no single file that is copied is an ELF binary for another machine than the
  one the image is for. A source whose path names nothing is reported, be it a pattern: so a COPY of a pattern that
  build-disk would expand never passes, unless a file happens to have the pattern as its name.
\<close>

theorem validate_foresees_copies:
  assumes "Parse path data buildArgs = Inr hf" and "c \<in> set (nf_Copies hf)" and "\<not> co_IsURL c"
  defines "p \<equiv> go_path_join [nf_BaseDir hf, co_Src c]"
  shows "(runValidate h elf path data buildArgs arch = Inr () \<longrightarrow> h_stat h p \<noteq> None) \<and>
    (runValidate h elf path data buildArgs arch = Inr () \<and> \<not> go_contains_any (co_Src c) ''*?['' \<longrightarrow>
      (\<forall>e. resolve_copy h (nf_BaseDir hf) c = Inl e \<longrightarrow>
         e = copy_error.ReadFailed (co_Src c) \<or> e = WalkFailed p \<or> (\<exists>a. e = InAdd (co_Src c) a)) \<and>
      (\<forall>m. h_stat h p = Some False \<and> \<not> isTarball (co_Src c) \<and> elf p = Some m \<longrightarrow>
         m = (if (if arch = [] then nf_Arch hf else arch) = ''amd64'' then 62 else 183)))"
proof -
  have passed: "h_stat h p \<noteq> None \<and> (\<not> go_contains_any (co_Src c) ''*?['' \<longrightarrow>
      (\<forall>m. h_stat h p = Some False \<and> \<not> isTarball (co_Src c) \<and> elf p = Some m \<longrightarrow>
         m = (if (if arch = [] then nf_Arch hf else arch) = ''amd64'' then 62 else 183)))"
    if r: "runValidate h elf path data buildArgs arch = Inr ()"
  proof (rule runValidate_Inr [OF r assms(1)])
    fix hf'
    assume n: "\<forall>c \<in> set (nf_Copies hf). validate_copy h elf hf' c = None" and b: "nf_BaseDir hf' = nf_BaseDir hf"
      and a: "nf_Arch hf' = (if arch = [] then nf_Arch hf else arch)" "nf_Arch hf' \<in> {''amd64'', ''arm64''}"
    have v: "validate_copy h elf hf' c = None" using n assms(2) by blast
    then show ?thesis
      using assms(3) a unfolding p_def validate_copy_def b
      by (auto simp: Let_def checkELFArch_def wanted_machine_def split: option.splits if_splits)
  qed
  have "e = copy_error.ReadFailed (co_Src c) \<or> e = WalkFailed p \<or> (\<exists>a. e = InAdd (co_Src c) a)"
    if "h_stat h p \<noteq> None" "\<not> go_contains_any (co_Src c) ''*?[''" "resolve_copy h (nf_BaseDir hf) c = Inl e" for e
    using that assms(3) resolveLocalCopy_error [of h "nf_BaseDir hf" "co_Src c"] unfolding p_def
    by (auto simp: resolve_copy_def Let_def bindE_Inl_iff wrapE_Inl_iff split: if_splits)
  with passed show ?thesis by blast
qed

section \<open>The key that keygen makes\<close>

lemma writeFileAtomic_True:
  assumes "writeFileAtomic fault path data w = (w', True)"
  shows "w_read w' path = FileData data"
  using assms by (auto simp: writeFileAtomic_def Let_def split: write_fault.splits)

text \<open>
  The pair keygen makes fits together across the three commands: what prepare signs with the
  file it wrote is accepted by build-disk with the public key it printed, for any hash manifest; and a key whose file could not be
  written is not announced.
\<close>

theorem keygen_key_works:
  assumes gen: "runKeygen fault (Some (pub, seed)) out w = (w', r)" and sizes: "length pub = 32" "length seed = 32"
    and law: "\<forall>m. verify pub m (ed25519Sign (newKeyFromSeed seed) m)"
    and kept: "w_read w2 out = w_read w' out"
    and sig: "signPiecesHashes newKeyFromSeed ed25519Sign w2 dir out = Inr s"
    and hashes: "w_read w2 (go_path_join [dir, ''pieces.sha256'']) = FileData d"
  shows "(r = Inr printed \<longrightarrow>
      ParsePublicKeyHex printed = Inr pub \<and> verifySignature verify pub d (go_trim_space s) = Inr ()) \<and>
    (r = Inl e \<longrightarrow> e = KeyNotWritten out)"
proof (intro conjI impI)
  assume "r = Inr printed"
  then have p: "printed = go_hex_encode pub" and w: "writeFileAtomic fault out (go_hex_encode seed @ NL) w = (w', True)"
    using gen by (auto simp: runKeygen_def Let_def split: prod.splits if_splits)
  show "ParsePublicKeyHex printed = Inr pub" using sizes p by (simp add: ParsePublicKeyHex_def hex_key_def go_hex_decode_encode bindE_Inr_iff)
  have k: "ParsePrivateKeyHex newKeyFromSeed (go_trim_space (go_hex_encode seed @ NL)) = Inr (newKeyFromSeed seed)"
    using sizes by (simp only: go_trim_space_hex_line) (simp add: ParsePrivateKeyHex_def hex_key_def go_hex_decode_encode bindE_Inr_iff)
  have "w_read w2 out = FileData (go_hex_encode seed @ NL)" using writeFileAtomic_True [OF w] kept by simp
  then have "s = go_hex_encode (ed25519Sign (newKeyFromSeed seed) d) @ [CHR 0x0A]"
    using sig k hashes by (auto simp: signPiecesHashes_def SignHashes_def bindE_Inr_iff wrapE_Inr_iff read_in_iff)
  then show "verifySignature verify pub d (go_trim_space s) = Inr ()"
    using law by (simp only: go_trim_space_hex_line) (simp add: verifySignature_def go_hex_decode_encode)
next
  assume "r = Inl e"
  then show "e = KeyNotWritten out" using gen by (auto simp: runKeygen_def Let_def split: prod.splits if_splits)
qed

section \<open>What the exit code of prepare says\<close>

definition generic_only :: "'a prepare_act \<Rightarrow> bool" where
  "generic_only m \<longleftrightarrow> (\<forall>e. snd m = Inl e \<longrightarrow> exitCodeFor (InPrepare e) = 1)"

lemma generic_then:
  assumes "generic_only a" and "\<And>x. generic_only (f x)"
  shows "generic_only (then_prepare a f)"
  using assms by (auto simp: generic_only_def then_prepare_def split: sum.splits)

lemma generic_pure:
  "generic_only (no_docker (Inr x))" "generic_only (c, Inr x)"
  "exitCodeFor (InPrepare e) = 1 \<Longrightarrow> generic_only (no_docker (Inl e))"
  by (simp_all add: generic_only_def no_docker_def)

lemma then_prepare_Inl:
  assumes "then_prepare a f = (calls, Inl e)"
  obtains "snd a = Inl e" "calls = fst a" | x c where "snd a = Inr x" "f x = (c, Inl e)" "calls = fst a @ c"
  using assms that by (cases "snd a") (auto simp: then_prepare_def prod_eq_iff)

lemma generic_onlyD: "m = (c, Inl e) \<Longrightarrow> generic_only m \<Longrightarrow> exitCodeFor (InPrepare e) = 1"
  by (simp add: generic_only_def)

lemma docker_Run_error:
  "snd (docker_Run dk o') = Inl e \<Longrightarrow> e \<in> {RunCanceled, RunFailed} \<or> (\<exists>p. e = NoDockerPath p) \<or> (\<exists>v. e = ChownFailed v)"
  by (auto simp: docker_Run_def then_calls_def start_container_def
      dest: own_volumes_error run_args_error split: sum.splits if_splits)

lemma generic_run: "generic_only (docker_step (docker_Run dk o'))"
  by (auto simp: generic_only_def docker_step_def wrapE_Inl_iff exitCodeFor_def dest!: docker_Run_error)

lemma generic_image: "generic_only (docker_step (BuildImage dk d tag platform))"
  by (auto simp: generic_only_def docker_step_def wrapE_Inl_iff exitCodeFor_def BuildImage_def Let_def split: option.splits if_splits)

lemma generic_publish: "generic_only (no_docker (publish sha256 newKey sign pw fl dir))"
  by (auto simp: generic_only_def no_docker_def publish_def exitCodeFor_def bindE_Inl_iff wrapE_Inl_iff Let_def
      split: prod.splits if_splits)

lemma generic_thunder: "generic_only (buildThunder pw arch)"
  unfolding buildThunder_def
  by (auto intro!: generic_then generic_run generic_pure simp: exitCodeFor_def split: option.split prod.split)

lemma generic_digest: "generic_only (image_digest_or_empty dk tag)"
  by (simp add: image_digest_or_empty_def generic_only_def)

text \<open>Where a prepare can fail, and which of these failures wrap a sentinel.\<close>

lemma prepare_failures:
  assumes run: "runPrepare sha256 newKey sign pw fl = (calls, Inl e)"
  obtains (early) "exitCodeFor (InPrepare e) = 1"
  | (docker) d where "snd (CheckAvailable (pw_docker pw)) = Inl d" "e = Docker d" "calls = fst (CheckAvailable (pw_docker pw))"
  | (kernel) v k where "snd (CheckAvailable (pw_docker pw)) = Inr ()" "resolveKernel (pw_index pw) v = Inl k" "e = KernelInfo k"
      "calls = fst (CheckAvailable (pw_docker pw))"
proof -
  have manifest: "exitCodeFor (InPrepare e') = 1" if "prepare_manifest fl w = Inl e'" for w e'
    using that by (auto simp: prepare_manifest_def bindE_Inl_iff wrapE_Inl_iff exitCodeFor_def split: file_reply.splits)
  have settings: "exitCodeFor (InPrepare e') = 1" if "resolve_settings fl hf = Inl e'" for hf e'
    using that by (auto simp: resolve_settings_def exitCodeFor_def Let_def split: if_splits)
  show thesis
  proof (rule then_prepare_Inl [OF run [unfolded runPrepare_def]], goal_cases)
    case 1
    then show thesis using early manifest by (simp add: no_docker_def)
  next
    case (2 hf c1)
    from 2(2) show thesis
    proof (rule then_prepare_Inl, goal_cases)
      case 1
      then show thesis using early settings by (simp add: no_docker_def)
    next
      case (2 st c2)
      note c1 = \<open>calls = _ @ c1\<close> and c2 = 2(3)
      from 2(2) show thesis
      proof (rule then_prepare_Inl, goal_cases)
        case 1
        then show thesis using docker c1 c2 by (auto simp: docker_step_def no_docker_def wrapE_Inl_iff)
      next
        case (2 u c3)
        note ok = 2(1) and c3 = 2(3)
        from 2(2) show thesis
        proof (rule then_prepare_Inl, goal_cases)
          case 1
          then show thesis using kernel ok c1 c2 c3 by (auto simp: docker_step_def no_docker_def wrapE_Inl_iff wrapE_Inr_iff)
        next
          case (2 rv c4)
          have "exitCodeFor (InPrepare e) = 1"
            by (rule generic_onlyD [OF 2(2)])
              (auto intro!: generic_then generic_thunder generic_pure generic_image generic_digest generic_run generic_publish
                simp: exitCodeFor_def Let_def split: option.split prod.split)
          then show thesis by (rule early)
        qed
      qed
    qed
  qed
qed


section \<open>Concrete runs\<close>

definition ex_glob_host :: host where
  "ex_glob_host =
     \<lparr> h_glob = (\<lambda>p. Some [''/n/a.conf'']), h_stat = (\<lambda>p. if p = ''/n/a.conf'' then Some False else None), h_read = (\<lambda>p. Some ''x''),
       h_walk = (\<lambda>p. []), h_get = (\<lambda>u. None), h_gunzip = (\<lambda>d. None), h_untar = (\<lambda>d. []) \<rparr>"

theorem validate_foresees_copies_witness:
  "\<exists>hf c. Parse ''/n/Nimbusfile'' (Some ''COPY *.conf /etc/'') Map.empty = Inr hf \<and> c \<in> set (nf_Copies hf) \<and>
     runValidate ex_glob_host (\<lambda>p. None) ''/n/Nimbusfile'' (Some ''COPY *.conf /etc/'') Map.empty [] \<noteq> Inr () \<and>
     resolve_copy ex_glob_host (nf_BaseDir hf) c = Inr [\<lparr> xf_Path = ''etc/a.conf'', xf_Perm = 493, xf_Data = ''x'' \<rparr>]"
proof -
  let ?parsed = "Parse ''/n/Nimbusfile'' (Some ''COPY *.conf /etc/'') Map.empty"
  have "map_sum id (\<lambda>hf. (nf_BaseDir hf, map (\<lambda>c. (co_Src c, co_Dest c, co_IsURL c, co_IsAdd c, co_Chmod c)) (nf_Copies hf))) ?parsed =
      Inr (''/n'', [(''*.conf'', ''/etc/'', False, False, 0)])"
    by code_simp
  then obtain hf c where hf: "?parsed = Inr hf" "nf_BaseDir hf = ''/n''" "nf_Copies hf = [c]"
    and c: "co_Src c = ''*.conf''" "co_Dest c = ''/etc/''" "\<not> co_IsURL c" "\<not> co_IsAdd c" "co_Chmod c = 0"
    by (cases ?parsed) auto
  have m: "c \<in> set (nf_Copies hf)" by (simp add: hf)
  have p: "go_path_join [''/n'', ''*.conf''] = ''/n/*.conf''" by code_simp
  have "h_stat ex_glob_host ''/n/*.conf'' = None" by (simp add: ex_glob_host_def)
  with validate_foresees_copies [OF hf(1) m c(3), of ex_glob_host "\<lambda>p. None" "[]"] p hf(2) c(1)
  have "runValidate ex_glob_host (\<lambda>p. None) ''/n/Nimbusfile'' (Some ''COPY *.conf /etc/'') Map.empty [] \<noteq> Inr ()" by auto
  moreover have "resolveLocalCopy ex_glob_host ''/n'' ''*.conf'' (copy_dest ''/etc/'') 493 (go_has_suffix ''/etc/'' ''/'') =
      Inr [\<lparr> xf_Path = ''etc/a.conf'', xf_Perm = 493, xf_Data = ''x'' \<rparr>]"
    by code_simp
  then have "resolve_copy ex_glob_host (nf_BaseDir hf) c = Inr [\<lparr> xf_Path = ''etc/a.conf'', xf_Perm = 493, xf_Data = ''x'' \<rparr>]"
    by (simp add: resolve_copy_def copy_perm_def hf c Let_def)
  ultimately show ?thesis using hf(1) m by blast
qed

theorem keygen_key_works_witness:
  "let pub = replicate 32 (CHR ''p''); seed = replicate 32 (CHR ''s''); w = \<lparr> w_get = (\<lambda>u. HttpFailed), w_read = (\<lambda>p. FileMissing) \<rparr>;
       run = runKeygen NoFault (Some (pub, seed)) ''k.hex'' w; w2 = put_file (fst run) ''/d/pieces.sha256'' (FileData ''h'')
   in \<exists>s. signPiecesHashes id (\<lambda>k m. k @ m) w2 ''/d'' ''k.hex'' = Inr s \<and>
        ParsePublicKeyHex (go_hex_encode pub) = Inr pub \<and>
        verifySignature (\<lambda>k m sig. sig = replicate 32 (CHR ''s'') @ m) pub ''h'' (go_trim_space s) = Inr ()"
proof -
  define pub seed where ps: "pub = replicate 32 (CHR ''p'')" "seed = replicate 32 (CHR ''s'')"
  define w :: host_world where "w = \<lparr> w_get = (\<lambda>u. HttpFailed), w_read = (\<lambda>p. FileMissing) \<rparr>"
  define w1 where "w1 = fst (writeFileAtomic NoFault ''k.hex'' (go_hex_encode seed @ NL) w)"
  define w2 where "w2 = put_file w1 ''/d/pieces.sha256'' (FileData ''h'')"
  have r: "runKeygen NoFault (Some (pub, seed)) ''k.hex'' w = (w1, Inr (go_hex_encode pub))"
    by (simp add: runKeygen_def writeFileAtomic_def w1_def Let_def)
  have n: "length pub = 32" "length seed = 32" by (simp_all add: ps)
  have j: "go_path_join [''/d'', ''pieces.sha256''] = ''/d/pieces.sha256''" by code_simp
  have k: "w_read w2 ''k.hex'' = w_read w1 ''k.hex''" "w_read w1 ''k.hex'' = FileData (go_hex_encode seed @ NL)"
    "w_read w2 ''/d/pieces.sha256'' = FileData ''h''"
    by (simp_all add: w2_def w1_def writeFileAtomic_def Let_def)
  have "ParsePrivateKeyHex id (go_trim_space (go_hex_encode seed @ NL)) = Inr seed"
    by (simp only: go_trim_space_hex_line) (simp add: ParsePrivateKeyHex_def hex_key_def go_hex_decode_encode guardE_def n)
  then obtain s where s: "signPiecesHashes id (\<lambda>k m. k @ m) w2 ''/d'' ''k.hex'' = Inr s"
    using k j by (simp add: signPiecesHashes_def read_in_def)
  have h: "w_read w2 (go_path_join [''/d'', ''pieces.sha256'']) = FileData ''h''" using k(3) j by simp
  have law: "\<forall>m. id seed @ m = seed @ m" by simp
  have "ParsePublicKeyHex (go_hex_encode pub) = Inr pub \<and>
      verifySignature (\<lambda>k m sig. sig = seed @ m) pub ''h'' (go_trim_space s) = Inr ()"
    using keygen_key_works [where verify = "\<lambda>k m sig. sig = seed @ m" and ed25519Sign = "\<lambda>k m. k @ m" and newKeyFromSeed = id,
        OF r n law k(1) s h, of "go_hex_encode pub" undefined]
    by simp
  then show ?thesis using s
    unfolding Let_def ps(2) [symmetric] unfolding ps(1) [symmetric] w_def [symmetric] r fst_conv w2_def [symmetric] by blast
qed

theorem clean_removes_what_prepare_leaves_witness:
  "\<exists>calls printed. runClean (Some (\<lambda>q. (False, ''no such volume'' @ NL))) False False ''./pieces'' (\<lambda>d. True) = (calls, printed, Inr []) \<and>
     [''volume'', ''rm'', ''cnimbus-cache-arm64''] \<in> set calls \<and> length printed = 4"
proof -
  let ?dk = "\<lambda>q::string list. (False, ''no such volume'' @ NL)"
  obtain calls printed where r: "runClean (Some ?dk) False False ''./pieces'' (\<lambda>d. True) = (calls, printed, Inr [])"
    by (simp add: runClean_def Let_def)
  have "\<exists>m \<in> set (do_Mounts (builder_run pw ''arm64'' tag absOut env)). mt_IsVolume m \<and> mt_HostPath m = ''cnimbus-cache-arm64''" for pw tag absOut env
    by (simp add: builder_run_def)
  with clean_removes_what_prepare_leaves [OF r, of "''arm64''"] r show ?thesis by fastforce
qed

definition ex_prepare_world :: prepare_world where
  "ex_prepare_world =
     \<lparr> pw_files = \<lparr> w_get = (\<lambda>u. HttpFailed), w_read = (\<lambda>p. FileMissing) \<rparr>, pw_docker = ex_docker \<lparr> dk_call := (\<lambda>q. (False, ''refused'')) \<rparr>,
       pw_index = ex_index, pw_pid = 1, pw_embedded = ex_embedded,
       pw_order = id, pw_disk = ex_disk Map.empty, pw_compiled = (\<lambda>files dir. None), pw_mkdir = True,
       pw_built = \<lparr> w_get = (\<lambda>u. HttpFailed), w_read = (\<lambda>p. FileMissing) \<rparr>, pw_walked = None, pw_hashFault = NoFault, pw_sigFault = NoFault \<rparr>"


end
