(* ===== verification/Usage.thy ===== *)
theory Usage
  imports Commands Hypervisors
begin

text \<open>
  The usage text of the program and what \<^verbatim>\<open>main\<close> writes to the standard error (cmd/cnimbus/main.go).
\<close>

definition usage_lines :: "string list" where
  "usage_lines =
     [''cnimbus -- build a minimal Linux VM image from a Nimbusfile.'',
      [],
      ''Usage:'',
      ''  cnimbus init                    write an example Nimbusfile to the current directory'',
      ''  cnimbus prepare [flags]         (needs Docker) compile kernel+busybox, export pieces'',
      ''  cnimbus build-disk [flags]       (no Docker) fetch pieces, assemble the image'',
      ''  cnimbus kv-serve [flags]        host side of AGENT: serve a JSON file'' @ SQ @ ''s live content'',
      ''  cnimbus validate [flags]        check a Nimbusfile without building anything (syntax,'',
      ''                                  COPY/ADD sources exist, COPY/ADD ELF binaries match ARCH)'',
      ''  cnimbus clean [flags]           remove prepare'' @ SQ @ ''s Docker volumes/images (and optionally ./pieces)'',
      ''  cnimbus keygen [flags]          generate an Ed25519 keypair for signing pieces.sha256 (see'',
      ''                                  --pieces-sign-key/--pieces-verify-key below)'',
      ''  cnimbus run [flags] <image>     boot a built image locally via QEMU (default), VirtualBox,'',
      ''                                  VMware, or Hyper-V (--backend); prints manual QEMU'',
      ''                                  instructions if qemu-system-<arch> isn'' @ SQ @ ''t installed'',
      ''  cnimbus version                 print the build version'',
      [],
      ''The Nimbusfile and these flags are not two ways of doing the same thing --'',
      ''they answer different questions, and complement each other:'',
      [],
      ''  the Nimbusfile  describes the IMAGE: which kernel and BusyBox, which'',
      ''                architecture, what goes inside it, what runs at boot.'',
      ''                Commit it -- it'' @ SQ @ ''s what makes a build reproducible.'',
      ''  flags         describe THIS INVOCATION: which Nimbusfile to read, where'',
      ''                pieces come from, where the output goes. Machine-specific,'',
      ''                nothing you'' @ SQ @ ''d commit.'',
      [],
      ''Where both can express the same setting (KERNEL, BUSYBOX, ARCH, VGA,'',
      ''HARDBOOT), one rule applies everywhere: the Nimbusfile declares it, and a'',
      ''flag actually passed on the command line overrides it -- including turning'',
      ''something back off (--vga=false against a Nimbusfile saying '' @ DQ @ ''VGA true'' @ DQ @ '').'',
      [],
      ''Prepare flags:'',
      ''  -f <path>        Nimbusfile to read (default '' @ DQ @ ''Nimbusfile'' @ DQ @ ''; works with none present)'',
      ''  --kernel <ver>   overrides KERNEL: '' @ DQ @ ''latest-stable'' @ DQ @ '', '' @ DQ @ ''latest-longterm'' @ DQ @ '', or explicit'',
      ''  --busybox <ver>  overrides BUSYBOX: explicit version, or '' @ DQ @ ''latest'' @ DQ,
      ''  --arch <arch>    overrides ARCH: amd64 or arm64 (default '' @ DQ @ ''amd64'' @ DQ @ '' if neither is set)'',
      ''  --vga[=false]    overrides VGA: enable a real VGA/framebuffer console for console=tty0'',
      ''                    (off by default; turn on to see boot output in a GUI hypervisor'' @ SQ @ ''s'',
      ''                    own display window, e.g. VirtualBox)'',
      ''  --hardboot <p>   overrides HARDBOOT: '' @ DQ @ ''none'' @ DQ @ '' (default), '' @ DQ @ ''eth'' @ DQ @ '', '' @ DQ @ ''wifi'' @ DQ @ '', or '' @ DQ @ ''eth+wifi'' @ DQ,
      ''                    -- each single value is exclusive to its own driver family;'',
      ''                    '' @ DQ @ ''eth+wifi'' @ DQ @ '' is the only value that builds both'',
      ''  --out <dir>      where to write vmlinuz/busybox/busybox-manifest.tsv/pieces.sha256 (default '' @ DQ @ ''./pieces'' @ DQ @ '')'',
      ''  --insecure-skip-kernel-verify   skip PGP verification of the downloaded kernel tarball'',
      ''                    (fetched from kernel.org, checked against known kernel.org signer'',
      ''                    keys fetched live via WKD -- see internal/compileagent.VerifyKernelTarball).'',
      ''                    Only for a trusted offline mirror without a matching .tar.sign.'',
      ''  --pieces-sign-key <path>   path to a hex-encoded Ed25519 private key seed (see'',
      ''                    '' @ DQ @ ''cnimbus keygen'' @ DQ @ ''); signs the produced pieces.sha256, writing'',
      ''                    pieces.sha256.sig alongside it, so build-disk can authenticate'',
      ''                    these pieces via --pieces-verify-key, not just check their'',
      ''                    integrity.'',
      [],
      ''Build-iso flags:'',
      ''  -f <path>       Nimbusfile to read (default '' @ DQ @ ''Nimbusfile'' @ DQ @ ''; required -- it defines the image)'',
      ''  --arch <arch>   overrides ARCH: which arch-namespaced pieces to assemble'',
      ''  --pieces <src>  where to fetch prebuilt kernel/busybox pieces from: a local'',
      ''                  directory, or an http(s):// URL prefix. Defaults to '' @ DQ @ ''./pieces'' @ DQ,
      ''                  when it exists; can also be set via the CNIMBUS_PIECES env var.'',
      ''                  Verified against a pieces.sha256 alongside it when present.'',
      ''  --pieces-insecure-http   allow a plain http:// --pieces source (refused by'',
      ''                  default -- see internal/pieces.Resolve)'',
      ''  --pieces-cache-dir <dir>   local cache for http(s) --pieces sources (default: an'',
      ''                  OS-conventional per-user cache dir); avoids re-downloading'',
      ''                  vmlinuz/busybox when the source'' @ SQ @ ''s pieces.sha256 is unchanged'',
      ''  --no-pieces-cache   disable the pieces cache entirely'',
      ''  --pieces-verify-key <hex-pubkey>   an Ed25519 public key (see '' @ DQ @ ''cnimbus keygen'' @ DQ @ ''); if set,'',
      ''                  refuses to build unless the pieces source published a pieces.sha256.sig'',
      ''                  that verifies against it -- authenticity, not just the hash check above'',
      ''                  (a Nimbusfile PIECESKEY line sets this too; a flag passed here wins)'',
      ''  --build-arg <NAME>=<VALUE>   set an ARG directive'' @ SQ @ ''s value; repeatable'',
      ''  --no-lockfile   skip writing <output>.lock (resolved pieces/image hashes for this build)'',
      ''  -o <path>       output image path (default '' @ DQ @ ''<hostname>.iso'' @ DQ @ '', or '' @ DQ @ ''<hostname>.img'' @ DQ,
      ''                  for FORMAT raw). The image *type* is the Nimbusfile'' @ SQ @ ''s FORMAT; this'',
      ''                  is only where the file lands.'',
      ''  --secureboot    sign the shipped EFI-stub kernel with sbsign (F2), so a Secure'',
      ''                  Boot-enabled firmware whose db carries the matching certificate'',
      ''                  will load it (and refuse anything else). Needs Docker. Opt-in --'',
      ''                  never added to a build that didn'' @ SQ @ ''t ask for it, same as --uefi/HARDBOOT'',
      ''  --uki           assemble+sign a Unified Kernel Image (kernel+initramfs+cmdline'',
      ''                  merged into one PE, systemd-stub style) instead of two separate'',
      ''                  EFI-boot-image files. Implies --secureboot. Needs Docker'',
      ''  --secureboot-key/--secureboot-cert <path>   bring your own PEM-encoded RSA'',
      ''                  key/X.509 cert for --secureboot/--uki (mirrors --ovmf-code/'',
      ''                  --ovmf-vars); must be given together. Omit both to auto-generate'',
      ''                  a keypair once under --secureboot-dir and reuse it on every later'',
      ''                  build (never silently regenerated -- see '' @ DQ @ ''cnimbus keygen --secureboot'' @ DQ,
      ''                  to pre-generate one explicitly instead)'',
      ''  --secureboot-dir <dir>   where the auto-generated keypair above is stored/reused'',
      ''                  (default '' @ DQ @ ''./secureboot'' @ DQ @ ''); ignored when --secureboot-key/-cert are given'',
      [],
      ''Validate flags:'',
      ''  -f <path>       Nimbusfile to check (default '' @ DQ @ ''Nimbusfile'' @ DQ @ '')'',
      ''  --arch <arch>   overrides ARCH for the ELF-architecture check on COPY/ADD binaries'',
      ''  --build-arg <NAME>=<VALUE>   set an ARG directive'' @ SQ @ ''s value; repeatable'',
      [],
      ''Clean flags:'',
      ''  --pieces        also remove the pieces output directory (see --pieces-dir)'',
      ''  --pieces-dir <dir>   which directory --pieces removes (default '' @ DQ @ ''./pieces'' @ DQ @ '')'',
      ''  --dry-run       print what would be removed without removing it'',
      [],
      ''Keygen flags:'',
      ''  --out <path>    where to write the hex-encoded Ed25519 private key seed'',
      ''                  (default '' @ DQ @ ''pieces-sign-key.hex'' @ DQ @ ''); the matching public key is'',
      ''                  only ever printed, never written to disk'',
      ''  --secureboot    generate an RSA-3072 + self-signed X.509 Secure Boot signing'',
      ''                  identity (F2) instead of an Ed25519 pieces-signing key'',
      ''  --out-dir <dir>   (--secureboot only) directory to write secureboot-key.pem/'',
      ''                  secureboot-cert.pem into (default '' @ DQ @ ''.'' @ DQ @ '')'',
      ''  --common-name <name>   (--secureboot only) certificate Subject CommonName'',
      ''                  (default '' @ DQ @ ''cnimbus'' @ DQ @ '')'',
      [],
      ''Run flags:'',
      ''  --arch <arch>   image architecture: amd64 or arm64 (default '' @ DQ @ ''amd64'' @ DQ @ '')'',
      ''  --uefi          boot via UEFI/OVMF instead of BIOS (amd64 only)'',
      ''  --ovmf-code/--ovmf-vars <path>   OVMF firmware paths (auto-detected if omitted)'',
      ''  --mem <MB>      guest RAM (default 512)'',
      ''  --hostfwd <host>:<guest>   TCP port to forward (default '' @ DQ @ ''8080:8080'' @ DQ @ '')'',
      ''  --backend <name>   '' @ DQ @ ''qemu'' @ DQ @ '' (default), '' @ DQ @ ''vbox'' @ DQ @ '', '' @ DQ @ ''vmware'' @ DQ @ '', or '' @ DQ @ ''hyperv'' @ DQ,
      ''  --vm-name <name>   VM name to create (default '' @ DQ @ ''cnimbus-run'' @ DQ @ '')'',
      ''  --vm-keep       don'' @ SQ @ ''t delete the VM after this command exits'',
      [],
      ''KV-serve flags:'',
      ''  --file <path>   JSON file to serve (default '' @ DQ @ ''kv.json'' @ DQ @ ''); edit and save it any'',
      ''                  time, no restart needed -- guests running AGENT pick up the'',
      ''                  change on their next poll'',
      ''  --addr <addr>   address to listen on (default '' @ DQ @ '':9999'' @ DQ @ '')'',
      [],
      ''Everything else about the image is Nimbusfile-only, by design: it describes'',
      ''the artifact, not how you invoked the build. Run '' @ DQ @ ''cnimbus init'' @ DQ @ '' to see every'',
      ''directive with commented examples, or the README for the full reference --'',
      ''HOSTNAME, DHCP/IP, NTP, FORMAT (iso/raw), USER, VOLUME, ENV, FIREWALL/FIREWALL6,'',
      ''COPY/ADD, ENTRYPOINT/CMD, SERVICE, AGENT, PIECESKEY all live there, not as flags.'',
      [],
      ''Exit codes:'',
      ''  1   generic failure'',
      ''  2   usage error (bad flags, unknown subcommand)'',
      ''  3   missing host dependency (e.g. docker not installed/reachable)'',
      ''  4   verification/integrity failure (PGP signature or pieces hash mismatch --'',
      ''      never safe to retry as-is)'',
      ''  5   upstream fetch failure (e.g. kernel.org unreachable -- safe to retry,'',
      ''      unlike 4)'']"

definition usage_text :: string where
  "usage_text = concat (map (\<lambda>l. l @ NL) usage_lines)"

text \<open>
  What \<^verbatim>\<open>main\<close> itself prints there; \<^verbatim>\<open>run\<close> gives a command's failure with its message, None for success. A command prints more on
  its own.
\<close>

definition main_stderr :: "(string \<Rightarrow> string list \<Rightarrow> (failure \<times> string) option) \<Rightarrow> string list \<Rightarrow> string" where
  "main_stderr run args =
     (case args of
        [] \<Rightarrow> usage_text
      | name # rest \<Rightarrow>
          if name \<in> set commands then (case run name rest of None \<Rightarrow> [] | Some (e, msg) \<Rightarrow> ''cnimbus: '' @ msg @ NL)
          else if name = ''version'' then []
          else if name \<in> set [''help'', ''-h'', ''--help''] then usage_text
          else ''cnimbus: unknown command '' @ go_quote name @ NL @ NL @ usage_text)"

section \<open>What the text says\<close>

lemma usage_names_commands: "\<forall>c \<in> set commands. \<exists>l \<in> set usage_lines. go_has_prefix l (''  cnimbus '' @ c @ '' '')"
proof -
  have "list_all (\<lambda>c. list_ex (\<lambda>l. go_has_prefix l (''  cnimbus '' @ c @ '' '')) usage_lines) commands" by code_simp
  then show ?thesis by (simp add: list_all_iff list_ex_iff)
qed

text \<open>
  A user is never left without the usage text by a mistake on the command line, and the text names every command
  there is: an exit with 2 has printed it, and it has a line for each command \<^verbatim>\<open>main\<close> dispatches to.
\<close>

theorem usage_on_mistakes:
  assumes "cnimbus_main (\<lambda>name rest. map_option fst (run name rest)) args = 2"
  shows "(\<exists>before. main_stderr run args = before @ usage_text) \<and>
    (\<forall>c \<in> set commands. \<exists>l \<in> set usage_lines. go_has_prefix l (''  cnimbus '' @ c @ '' ''))"
proof (intro conjI usage_names_commands)
  have two: "exitCodeFor e \<noteq> 2" for e by (simp add: exitCodeFor_def)
  show "\<exists>before. main_stderr run args = before @ usage_text"
  proof (cases args)
    case Nil
    then show ?thesis by (simp add: main_stderr_def)
  next
    case (Cons name rest)
    with assms two have "name \<notin> set commands" "name \<notin> set [''version'', ''help'', ''-h'', ''--help'']"
      by (auto simp: cnimbus_main_def split: if_splits option.splits)
    then have "main_stderr run args = (''cnimbus: unknown command '' @ go_quote name @ NL @ NL) @ usage_text"
      using Cons by (auto simp: main_stderr_def)
    then show ?thesis by blast
  qed
qed

theorem usage_on_mistakes_witness:
  "cnimbus_main (\<lambda>name rest. map_option fst (None :: (failure \<times> string) option)) [''bild''] = 2 \<and>
   (\<exists>before. main_stderr (\<lambda>name rest. None) [''bild''] = before @ usage_text)"
proof -
  have "cnimbus_main (\<lambda>name rest. map_option fst ((\<lambda>n r. None :: (failure \<times> string) option) name rest)) [''bild''] = 2"
    by (simp add: cnimbus_main_def commands_def)
  from usage_on_mistakes [OF this] this show ?thesis by blast
qed

end
