(* ===== verification/Spec2Isabelle.thy ===== *)
theory Spec2Isabelle
  imports Nimbus_Subst Monitor Build_Trust Kconfig Squashfs_File Key_Material Prepare Backends Live_Config Agent_VMware Agent_VBox Vhd Init Usage
begin

text \<open>
  Verification of cnimbus, a builder of minimal Linux virtual machine images.

  \<^bold>\<open>The program.\<close> A manifest, the Nimbusfile, declares an image. \<^verbatim>\<open>cnimbus prepare\<close> compiles a kernel and a
  userland in a Docker container, where \<^verbatim>\<open>thunder\<close> fetches and verifies the sources, and publishes the results, the
  pieces, with their hashes and a signature. \<^verbatim>\<open>cnimbus build-disk\<close> fetches pieces, checks them against the hashes, the
  signature and the manifest, generates the boot scripts, assembles an initramfs and a SquashFS root, signs the kernel when
  Secure Boot is asked for, and writes an ISO or a raw disk. \<^verbatim>\<open>cnimbus run\<close> starts an image under one of four
  hypervisors; \<^verbatim>\<open>cnimbus kv-serve\<close> and the \<^verbatim>\<open>cnimbusagent\<close> inside the guest pass it live configuration.

  \<^bold>\<open>The prelude.\<close> Go_Base: fallible computations as sums, the fold of a fallible step over a list, and three locales:
  preserving_step (a step that keeps an invariant), extending_step (a step that only adds, and so keeps every lower bound: a
  sublocale) and prefix_codec (a writer whose
  output a reader takes off the front of its input). Go_Strings, Go_Strconv, Go_Path, Go_Bytes, Go_Int: the parts of Go's
  standard library the program uses, as functions on byte strings, with the wrap-around of integers written out. Go_Calls: runs
  of calls that may fail. Go_Argv: finding an option in an argument vector.

  \<^bold>\<open>The manifest\<close> (internal/nimbusfile/nimbusfile.go). Nimbus_Types holds the records and the errors, Nimbus_Lex the
  scanners, Nimbus_Checks the validators, Nimbus_Apply the handlers of the directives, Nimbus_Invariant the invariant they keep
  (the locale preserving_step, interpreted on the step of the parser), Nimbus_Parse the parser with the theorems on what it
  accepts and on the line an error names, Nimbus_Subst a reference semantics for the substitution of ARG references.

  \<^bold>\<open>The image\<close> (internal/rootfs). Shell: quoting, against the tokens of a POSIX shell. Rootfs_Types: the records.
  RC_Script, Firewall, Supervisor, Monitor: the generated scripts as text and what they do when they run; the monitor is
  a step relation with its reachable states. File_Tree and Cpio: the initramfs and a reference reader (prefix_codec). Stage1: the
  first boot stage. Squashfs_Root and From_Pieces: the root and the routing of files into it. Squashfs_File: the temporary file
  the root is written to, refining Squashfs_Root.

  \<^bold>\<open>Pieces\<close> (internal/pieces; cmd/cnimbus/prepare.go, atomicwrite.go). Pieces: fetching and checking.
  Pieces_Trust: what can be relied on afterwards. Publish: hashing and signing, and the round trip with fetching.

  \<^bold>\<open>Secure Boot\<close> (internal/secureboot). Pecoff: the layout of an image, its digest, checksum and the appending
  of a section. Authenticode: DER, PKCS#7 and the certificate table, with a reference reader. Signing: signPE and the unified
  kernel image. Keys: the signing identity on the disk. Key_Material: what is in its files, and that a generated one signs.

  \<^bold>\<open>Disks.\<close> Raw_Image (internal/rawimage), Iso_Image (internal/isoimage), Vhd (run_vhd.go, run_vmdk.go).

  \<^bold>\<open>build-disk\<close> (cmd/cnimbus/build.go, lockfile.go). Copies: COPY and ADD. Build: the command over a record of what
  the outside answers. Build_Trust: what a successful build has done.

  \<^bold>\<open>thunder\<close> (cmd/thunder, internal/compileagent). Extract: unpacking archives. Fetch: the download cache and the
  verification of signatures. Kconfig: the kernel build and its checks. Userland: BusyBox, iptables, libnl and wpa_supplicant.
  Firmware: the pinned blobs. Thunder: the whole run and pieces.json.

  \<^bold>\<open>prepare.\<close> Docker (internal/dockerrun, internal/kernelinfo): the argument vectors given to docker, and the release
  index. Build_Context (prepare.go, internal/assets): the generators of the embedded data, the source tree and the context of the
  builder's image; the image has every fragment thunder merges, and thunder is compiled from the repository's own files. Prepare
  (cmd/cnimbus/prepare.go): the command; its main theorem joins the environment it gives the container, thunder's
  run in that environment and the check that build-disk makes afterwards.

  \<^bold>\<open>run and the agent.\<close> Run (run.go, backend.go, findtool.go, run_vmware.go), Hyperv (run_hyperv.go) and Hypervisors
  (the dispatch and the theorems across backends); Backends: the interface of a hypervisor as a locale, interpreted on the four,
  and that the command reports truthfully with each. KV_Serve (kvserve.go); Agent (cmd/cnimbusagent, internal/agentruntime),
  Agent_VMware and Agent_VBox (the two device protocols). Live_Config (cmd/helloserver): live configuration from the host's file
  to the page of the example workload.

  \<^bold>\<open>The other commands.\<close> Init (init.go): the example manifest, which parses to the defaults. Commands (main.go,
  buildarg.go, validate.go, clean.go, keygen.go): build arguments, validate against what build-disk does, clean, the pieces key across
  keygen, prepare and build-disk, and what the exit code of prepare tells. Usage (main.go): the usage text.

  \<^bold>\<open>State and effects.\<close> A command is a function from a record of what the outside answers (the network, the file
  system, the crypto packages, docker) to its result, beside the calls it made or the file system it leaves. A function of another
  package, such as a hash or a signature check, is a parameter; where a theorem needs a law of it, the law is a premise
  and the witness instantiates it. An error is a constructor that carries the values its message names.

  \<^bold>\<open>Termination and bounds.\<close> The model of the program uses no fuel; the one loop without a bound,
  the walk to the repository's root, is a partial function with a lemma that it ends on every absolute path. Two reference definitions do: the reader of
  a sequence in prefix_codec takes the number of items as its count, and the walk along symbolic links in Extract, whose fuel its
  theorem gives as the length of the link's target and ten, and proves enough. Loops are structural or carry a measure. The loop of the agent and the
  supervisor never end in the program; they are followed for any finite list of rounds. Integers are unbounded with
  the wrap-around written out where the code's width can be reached (job counts, sizes of disks, checksums, durations).

  \<^bold>\<open>Not modelled.\<close> The go-diskfs writers of FAT, GPT, ISO 9660 and SquashFS, encoding/json, the OpenPGP and crypto
  packages, compress/gzip and the tar reader: third-party or standard packages, parameters here. What make, docker and
  the hypervisors do. The text of diagnostics. Concurrency: the program has none beyond the HTTP server of kv-serve, whose requests
  share only a file they read. internal/assets/data/thunder-src is a copy of cmd/thunder and internal/compileagent, byte for byte,
  that gensync makes (Build_Context); the theories read the originals.
\<close>

end
